(* ===== verification/Prelude.thy ===== *)
theory Prelude
  imports Main "HOL-Library.AList" "HOL-Library.Char_ord" "HOL-Library.List_Lexorder"
begin

section \<open>Prelude: Python strings, numbers and dictionaries\<close>

text \<open>
  What the components share: the \<^theory_text>\<open>named_theorems\<close> collections of the
  development, the parts of Python's \<open>str\<close>, \<open>int\<close> and \<open>dict\<close> the backend
  uses, and the generic lemmas about them. Strings are lists of ASCII characters (names, labels,
  addresses and annotations of the Kubernetes API are ASCII). A \<open>dict\<close> is an association list
  with distinct keys in insertion order.
\<close>

named_theorems str_simps \<open>equations of the string functions\<close>
named_theorems net_simps \<open>facts about address blocks\<close>
named_theorems io_simps \<open>evaluation of calls\<close>
named_theorems role_intros \<open>introduction rules of the role predicates\<close>

type_synonym 'v dict = "(string \<times> 'v) list"

subsection \<open>Characters\<close>

definition is_digit :: "char \<Rightarrow> bool" where
  "is_digit c \<longleftrightarrow> 48 \<le> (of_char c :: nat) \<and> (of_char c :: nat) \<le> 57"

definition is_lower :: "char \<Rightarrow> bool" where
  "is_lower c \<longleftrightarrow> 97 \<le> (of_char c :: nat) \<and> (of_char c :: nat) \<le> 122"

definition is_upper :: "char \<Rightarrow> bool" where
  "is_upper c \<longleftrightarrow> 65 \<le> (of_char c :: nat) \<and> (of_char c :: nat) \<le> 90"

definition is_space :: "char \<Rightarrow> bool" where
  "is_space c \<longleftrightarrow> (of_char c :: nat) \<in> {9, 10, 11, 12, 13, 28, 29, 30, 31, 32}"

definition to_lower :: "char \<Rightarrow> char" where
  "to_lower c = (if is_upper c then char_of ((of_char c :: nat) + 32) else c)"

definition to_upper :: "char \<Rightarrow> char" where
  "to_upper c = (if is_lower c then char_of ((of_char c :: nat) - 32) else c)"

lemmas char_class_defs = is_digit_def is_lower_def is_upper_def is_space_def

subsection \<open>\<open>str.split\<close>, \<open>str.join\<close>, \<open>str.strip\<close>, prefixes and suffixes\<close>

fun split_on :: "char \<Rightarrow> string \<Rightarrow> string list" where
  "split_on c [] = [[]]"
| "split_on c (x # xs) =
     (if x = c then [] # split_on c xs
      else (case split_on c xs of [] \<Rightarrow> [[x]] | y # ys \<Rightarrow> (x # y) # ys))"

fun join :: "string \<Rightarrow> string list \<Rightarrow> string" where
  "join s [] = []"
| "join s [x] = x"
| "join s (x # y # r) = x @ s @ join s (y # r)"

definition lstrip :: "(char \<Rightarrow> bool) \<Rightarrow> string \<Rightarrow> string" where
  "lstrip p s = dropWhile p s"

definition rstrip :: "(char \<Rightarrow> bool) \<Rightarrow> string \<Rightarrow> string" where
  "rstrip p s = rev (dropWhile p (rev s))"

definition strip :: "string \<Rightarrow> string" where
  "strip s = rstrip is_space (lstrip is_space s)"

definition starts_with :: "string \<Rightarrow> string \<Rightarrow> bool" where
  "starts_with p s \<longleftrightarrow> take (length p) s = p"

definition ends_with :: "string \<Rightarrow> string \<Rightarrow> bool" where
  "ends_with p s \<longleftrightarrow> starts_with (rev p) (rev s)"

definition lower :: "string \<Rightarrow> string" where
  "lower = map to_lower"

definition upper :: "string \<Rightarrow> string" where
  "upper = map to_upper"

text \<open>\<open>sub in s\<close> for strings.\<close>

fun contains_str :: "string \<Rightarrow> string \<Rightarrow> bool" where
  "contains_str p [] = (p = [])"
| "contains_str p (x # xs) = (starts_with p (x # xs) \<or> contains_str p xs)"

text \<open>\<open>s.partition(c)\<close>, first and last component.\<close>

definition partition_on :: "char \<Rightarrow> string \<Rightarrow> string \<times> string" where
  "partition_on c s = (takeWhile (\<lambda>x. x \<noteq> c) s, tl (dropWhile (\<lambda>x. x \<noteq> c) s))"

lemma split_on_ne [simp]: "split_on c s \<noteq> []"
  by (induction s) (auto split: list.splits)

lemma split_on_free: "c \<notin> set s \<Longrightarrow> split_on c s = [s]"
  by (induction s) auto

lemma split_on_append:
  "c \<notin> set s \<Longrightarrow> split_on c (s @ c # r) = s # split_on c r"
  by (induction s) auto

lemma split_on_parts_free: "p \<in> set (split_on c s) \<Longrightarrow> c \<notin> set p"
  by (induction s arbitrary: p) (fastforce split: list.splits if_splits)+

lemma split_on_set: "p \<in> set (split_on c s) \<Longrightarrow> set p \<subseteq> set s"
  by (induction s arbitrary: p) (fastforce split: if_splits list.splits)+

lemma split_on_join:
  "ps \<noteq> [] \<Longrightarrow> \<forall>p \<in> set ps. c \<notin> set p \<Longrightarrow> split_on c (join [c] ps) = ps"
proof (induction "[c]" ps rule: join.induct)
  case (3 x y r)
  then show ?case by (simp add: split_on_append)
qed (auto simp: split_on_free)

lemma join_split_on: "join [c] (split_on c s) = s"
proof (induction s)
  case (Cons x xs)
  obtain y ys where ys: "split_on c xs = y # ys"
    by (cases "split_on c xs") auto
  with Cons show ?case by (cases ys) auto
qed simp

lemma set_join: "set (join s ps) \<subseteq> set s \<union> (\<Union>p \<in> set ps. set p)"
  by (induction s ps rule: join.induct) auto

lemma starts_with_append [simp]: "starts_with p (p @ s)"
  by (simp add: starts_with_def)

lemma starts_with_iff: "starts_with p s \<longleftrightarrow> (\<exists>r. s = p @ r)"
  unfolding starts_with_def by (metis append_take_drop_id append_eq_conv_conj)

lemma ends_with_iff: "ends_with p s \<longleftrightarrow> (\<exists>r. s = r @ p)"
  unfolding ends_with_def starts_with_iff by (metis rev_append rev_rev_ident)

lemma contains_str_iff: "contains_str p s \<longleftrightarrow> (\<exists>a b. s = a @ p @ b)"
proof (induction s)
  case Nil
  then show ?case by auto
next
  case (Cons x xs)
  show ?case
  proof
    assume "contains_str p (x # xs)"
    then consider (here) r where "x # xs = p @ r" | (later) a b where "xs = a @ p @ b"
      using Cons.IH by (auto simp: starts_with_iff)
    then show "\<exists>a b. x # xs = a @ p @ b"
    proof cases
      case here
      then show ?thesis by (intro exI [of _ "[]"] exI [of _ r]) simp
    next
      case later
      then show ?thesis by (intro exI [of _ "x # a"] exI [of _ b]) simp
    qed
  next
    assume "\<exists>a b. x # xs = a @ p @ b"
    then obtain a b where ab: "x # xs = a @ p @ b" by blast
    show "contains_str p (x # xs)"
    proof (cases a)
      case Nil
      with ab have "starts_with p (x # xs)" by (simp add: starts_with_iff)
      then show ?thesis by simp
    next
      case (Cons y ys)
      with ab have "xs = ys @ p @ b" by simp
      with Cons.IH show ?thesis by (simp add: \<open>xs = ys @ p @ b\<close>) blast
    qed
  qed
qed

lemma strip_id:
  assumes "s \<noteq> []" "\<not> is_space (hd s)" "\<not> is_space (last s)"
  shows "strip s = s"
proof -
  have 1: "dropWhile is_space s = s"
    using assms by (cases s) auto
  have 2: "dropWhile is_space (rev s) = rev s"
    using assms(1,3) by (cases s rule: rev_cases) auto
  show ?thesis by (simp add: strip_def lstrip_def rstrip_def 1 2)
qed

lemma strip_no_space:
  assumes "\<forall>c \<in> set s. \<not> is_space c"
  shows "strip s = s"
proof (cases "s = []")
  case True
  then show ?thesis by (simp add: strip_def lstrip_def rstrip_def)
next
  case False
  with assms show ?thesis by (intro strip_id) auto
qed

subsection \<open>Decimal numbers\<close>

text \<open>\<open>str(n)\<close> and \<open>int(s)\<close>. Python's \<open>int\<close> strips white space, takes a sign and
  allows single underscores between digits; anything else is a \<open>ValueError\<close> (here \<^const>\<open>None\<close>).\<close>

fun nat_str :: "nat \<Rightarrow> string" where
  "nat_str n = (if n < 10 then [char_of (48 + n)] else nat_str (n div 10) @ [char_of (48 + n mod 10)])"

declare nat_str.simps [simp del]

definition int_str :: "int \<Rightarrow> string" where
  "int_str i = (if i < 0 then CHR ''-'' # nat_str (nat (- i)) else nat_str (nat i))"

definition digit_val :: "char \<Rightarrow> nat" where
  "digit_val c = of_char c - 48"

definition digits_val :: "string \<Rightarrow> nat" where
  "digits_val s = foldl (\<lambda>a c. 10 * a + digit_val c) 0 s"

definition isdigit :: "string \<Rightarrow> bool" where
  "isdigit s \<longleftrightarrow> s \<noteq> [] \<and> list_all is_digit s"

definition int_of_body :: "string \<Rightarrow> nat option" where
  "int_of_body b =
     (let ps = split_on (CHR ''_'') b
      in if list_all isdigit ps then Some (digits_val (concat ps)) else None)"

definition py_int :: "string \<Rightarrow> int option" where
  "py_int s =
     (case strip s of
        [] \<Rightarrow> None
      | c # b \<Rightarrow>
          if c = CHR ''-'' then map_option (\<lambda>n. - int n) (int_of_body b)
          else if c = CHR ''+'' then map_option int (int_of_body b)
          else map_option int (int_of_body (c # b)))"

lemma of_char_digit [simp]: "n < 10 \<Longrightarrow> (of_char (char_of (48 + n) :: char) :: nat) = 48 + n"
  by simp

lemma is_digit_char_of [simp]: "(n::nat) < 10 \<Longrightarrow> is_digit (char_of (48 + n))"
  by (simp add: is_digit_def)

lemma digit_val_char_of [simp]: "(n::nat) < 10 \<Longrightarrow> digit_val (char_of (48 + n)) = n"
  by (simp add: digit_val_def)

lemma nat_str_ne [simp]: "nat_str n \<noteq> []"
  by (subst nat_str.simps) simp

lemma nat_str_digits: "list_all is_digit (nat_str n)"
proof (induction n rule: nat_str.induct)
  case (1 n)
  then show ?case by (subst nat_str.simps) simp
qed

lemma isdigit_nat_str [simp]: "isdigit (nat_str n)"
  by (simp add: isdigit_def nat_str_digits)

lemma digits_val_snoc [simp]: "digits_val (s @ [c]) = 10 * digits_val s + digit_val c"
  by (simp add: digits_val_def)

lemma digits_val_nat_str [simp]: "digits_val (nat_str n) = n"
proof (induction n rule: nat_str.induct)
  case (1 n)
  show ?case
  proof (cases "n < 10")
    case True
    then show ?thesis by (subst nat_str.simps) (simp add: digits_val_def)
  next
    case False
    with 1 have "digits_val (nat_str (n div 10)) = n div 10" by simp
    with False show ?thesis by (subst nat_str.simps) simp
  qed
qed

lemma nat_str_inj [simp]: "nat_str m = nat_str n \<longleftrightarrow> m = n"
  using digits_val_nat_str by metis

lemma nat_str_set: "c \<in> set (nat_str n) \<Longrightarrow> is_digit c"
  using nat_str_digits by (auto simp: list_all_iff)

lemma is_digit_not: 
  "is_digit c \<Longrightarrow> c \<noteq> CHR ''.'' \<and> c \<noteq> CHR ''/'' \<and> c \<noteq> CHR '':'' \<and> c \<noteq> CHR ''_'' \<and> c \<noteq> CHR '','' \<and> c \<noteq> CHR ''=''
     \<and> c \<noteq> CHR ''-'' \<and> c \<noteq> CHR ''+'' \<and> c \<noteq> CHR '' '' \<and> c \<noteq> CHR ''%''"
  by (auto simp: is_digit_def)

lemma is_digit_not_space: "is_digit c \<Longrightarrow> \<not> is_space c"
  by (auto simp: is_digit_def is_space_def)

lemma nat_str_free [simp]:
  "CHR ''.'' \<notin> set (nat_str n)" "CHR ''/'' \<notin> set (nat_str n)" "CHR '':'' \<notin> set (nat_str n)"
  "CHR ''_'' \<notin> set (nat_str n)" "CHR '','' \<notin> set (nat_str n)" "CHR ''='' \<notin> set (nat_str n)"
  "CHR ''-'' \<notin> set (nat_str n)" "CHR ''+'' \<notin> set (nat_str n)" "CHR '' '' \<notin> set (nat_str n)"
  "CHR ''%'' \<notin> set (nat_str n)"
  using nat_str_set is_digit_not by blast+

lemma strip_nat_str [simp]: "strip (nat_str n) = nat_str n"
  by (rule strip_no_space) (auto dest: nat_str_set is_digit_not_space)

lemma nat_str_hd: "hd (nat_str n) \<in> set (nat_str n)"
  by simp

lemma py_int_nat_str [simp]: "py_int (nat_str n) = Some (int n)"
proof -
  obtain c b where cb: "nat_str n = c # b" by (cases "nat_str n") auto
  then have "is_digit c" using nat_str_set [of c n] by simp
  then have c: "c \<noteq> CHR ''-''" "c \<noteq> CHR ''+''" by (auto dest: is_digit_not)
  have "int_of_body (nat_str n) = Some n"
    by (simp add: int_of_body_def split_on_free)
  then show ?thesis using c by (simp add: py_int_def cb [symmetric]) (simp add: cb)
qed

lemma py_int_int_str: "py_int (int_str i) = Some i"
proof (cases "i < 0")
  case True
  have s: "strip (CHR ''-'' # nat_str (nat (- i))) = CHR ''-'' # nat_str (nat (- i))"
  proof (rule strip_no_space)
    have "\<not> is_space (CHR ''-'')" by (simp add: is_space_def)
    then show "\<forall>c \<in> set (CHR ''-'' # nat_str (nat (- i))). \<not> is_space c"
      by (auto dest: nat_str_set is_digit_not_space)
  qed
  have "int_of_body (nat_str (nat (- i))) = Some (nat (- i))"
    by (simp add: int_of_body_def split_on_free)
  with True s show ?thesis by (simp add: int_str_def py_int_def)
next
  case False
  then show ?thesis by (simp add: int_str_def)
qed

lemma char_of_digits [simp, str_simps]:
  "char_of (48::nat) = CHR ''0''" "char_of (49::nat) = CHR ''1''" "char_of (50::nat) = CHR ''2''"
  "char_of (51::nat) = CHR ''3''" "char_of (52::nat) = CHR ''4''" "char_of (53::nat) = CHR ''5''"
  "char_of (54::nat) = CHR ''6''" "char_of (55::nat) = CHR ''7''" "char_of (56::nat) = CHR ''8''"
  "char_of (57::nat) = CHR ''9''"
  by (simp_all add: char_of_def bit_iff_odd_drop_bit)

text \<open>Closed decimal strings evaluate with this equation under \<open>simp\<close>.\<close>

lemma nat_str_eval [str_simps]:
  "nat_str n = (if n < 10 then [char_of (48 + n)] else nat_str (n div 10) @ [char_of (48 + n mod 10)])"
  by (rule nat_str.simps)

lemma nat_str_length_digits: "n < 256 \<Longrightarrow> length (nat_str n) \<le> 3"
  by (subst nat_str.simps, subst nat_str.simps, subst nat_str.simps) auto

lemma nat_str_leading: "n \<noteq> 0 \<Longrightarrow> hd (nat_str n) \<noteq> CHR ''0''"
proof (induction n rule: nat_str.induct)
  case (1 n)
  show ?case
  proof (cases "n < 10")
    case True
    have "digit_val (char_of (48 + n)) \<noteq> digit_val (CHR ''0'')"
      using True 1 by (simp add: digit_val_def)
    then have "(char_of (48 + n) :: char) \<noteq> CHR ''0''" by metis
    then show ?thesis using True by (subst nat_str.simps) simp
  next
    case False
    then have "n div 10 \<noteq> 0" by simp
    with 1 False show ?thesis by (subst nat_str.simps) simp
  qed
qed

subsection \<open>Dictionaries\<close>

abbreviation dict_get :: "'v dict \<Rightarrow> string \<Rightarrow> 'v option" where
  "dict_get d k \<equiv> map_of d k"

abbreviation dict_set :: "'v dict \<Rightarrow> string \<Rightarrow> 'v \<Rightarrow> 'v dict" where
  "dict_set d k v \<equiv> AList.update k v d"

abbreviation dict_del :: "'v dict \<Rightarrow> string \<Rightarrow> 'v dict" where
  "dict_del d k \<equiv> AList.delete k d"

abbreviation keys_distinct :: "'v dict \<Rightarrow> bool" where
  "keys_distinct d \<equiv> distinct (map fst d)"

text \<open>\<open>x or []\<close> for an optional list and \<open>x or ""\<close> for an optional string.\<close>

definition or_nil :: "'a list option \<Rightarrow> 'a list" where
  "or_nil x = (case x of None \<Rightarrow> [] | Some xs \<Rightarrow> xs)"

lemma or_nil_simps [simp]: "or_nil None = []" "or_nil (Some xs) = xs"
  by (simp_all add: or_nil_def)

text \<open>The truth value of an optional string: set and not empty.\<close>

definition truthy :: "string option \<Rightarrow> bool" where
  "truthy x \<longleftrightarrow> or_nil x \<noteq> []"

lemma truthy_simps [simp]: "truthy None = False" "truthy (Some s) = (s \<noteq> [])"
  by (simp_all add: truthy_def)

lemma truthyE: "truthy x \<Longrightarrow> (\<And>s. x = Some s \<Longrightarrow> s \<noteq> [] \<Longrightarrow> P) \<Longrightarrow> P"
  by (cases x) auto

lemma dict_set_mem: "map_of d k = Some v \<Longrightarrow> (k, v) \<in> set d"
  by (rule map_of_SomeD)

lemma dict_set_vals:
  "(k', v') \<in> set (dict_set d k v) \<Longrightarrow> (k' = k \<and> v' = v) \<or> (k', v') \<in> set d"
  by (induction d) (auto split: if_splits)

lemma dict_del_vals: "(k', v') \<in> set (dict_del d k) \<longleftrightarrow> (k', v') \<in> set d \<and> k' \<noteq> k"
  by (auto simp: AList.delete_eq)

text \<open>The environment of the process is a function; \<open>os.getenv(k, dflt)\<close>.\<close>

type_synonym env_vars = "string \<Rightarrow> string option"

definition getenv :: "env_vars \<Rightarrow> string \<Rightarrow> string \<Rightarrow> string" where
  "getenv env k dflt = (case env k of None \<Rightarrow> dflt | Some v \<Rightarrow> v)"

end
