(* ===== verification/Kube.thy ===== *)
theory Kube
  imports Prelude
begin

section \<open>Calls to the Kubernetes API\<close>

text \<open>
  The API server is not part of the program: every call is a function the definitions take as an
  argument. A call maps the state of the world \<open>'w\<close> to a result, an exception or a value, and a
  new world, so whatever other writers do between two calls is inside the functions. What a theorem
  relies on is stated as a named hypothesis about the calls (\<open>cas_object\<close>, \<open>cm_store\<close>):
  the documented optimistic concurrency of the API server.
  The theory also holds the typed objects the components read and write. An absent, null or empty
  optional field is \<^const>\<open>None\<close>. Of an exception the model keeps what the code branches on: the
  kind and the HTTP status, not the message.
\<close>

subsection \<open>Exceptions and calls\<close>

datatype exc =
    ApiException nat
  | HTTPException nat
  | ValueError
  | RuntimeError
  | LookupError
  | TransitSnatSlotTaken string string string
  | OtherError

type_synonym ('w, 'a) io = "'w \<Rightarrow> (exc + 'a) \<times> 'w"

definition ret :: "'a \<Rightarrow> ('w, 'a) io" where
  "ret x = (\<lambda>w. (Inr x, w))"

definition raise :: "exc \<Rightarrow> ('w, 'a) io" where
  "raise e = (\<lambda>w. (Inl e, w))"

definition bind_io :: "('w, 'a) io \<Rightarrow> ('a \<Rightarrow> ('w, 'b) io) \<Rightarrow> ('w, 'b) io" where
  "bind_io m f = (\<lambda>w. case m w of (Inl e, w') \<Rightarrow> (Inl e, w') | (Inr x, w') \<Rightarrow> f x w')"

text \<open>\<open>try: m except: h\<close>.\<close>

definition catch_io :: "('w, 'a) io \<Rightarrow> (exc \<Rightarrow> ('w, 'a) io) \<Rightarrow> ('w, 'a) io" where
  "catch_io m h = (\<lambda>w. case m w of (Inl e, w') \<Rightarrow> h e w' | (Inr x, w') \<Rightarrow> (Inr x, w'))"

fun is_api :: "exc \<Rightarrow> bool" where
  "is_api (ApiException _) = True"
| "is_api _ = False"

text \<open>A \<open>for\<close> loop over a list whose body only has effects.\<close>

fun for_each :: "'a list \<Rightarrow> ('a \<Rightarrow> ('w, unit) io) \<Rightarrow> ('w, unit) io" where
  "for_each [] f = ret ()"
| "for_each (x # xs) f = bind_io (f x) (\<lambda>_. for_each xs f)"

text \<open>A list of values built by a loop that stops at the first exception.\<close>

fun collect :: "(exc + 'a) list \<Rightarrow> exc + 'a list" where
  "collect [] = Inr []"
| "collect (x # xs) = (case x of Inl e \<Rightarrow> Inl e | Inr a \<Rightarrow> map_sum id ((#) a) (collect xs))"

lemma ret_app [simp, io_simps]: "ret x w = (Inr x, w)"
  by (simp add: ret_def)

lemma raise_app [simp, io_simps]: "raise e w = (Inl e, w)"
  by (simp add: raise_def)

lemma bind_io_Inr [io_simps]:
  "bind_io m f w = (Inr y, w') \<longleftrightarrow> (\<exists>x w1. m w = (Inr x, w1) \<and> f x w1 = (Inr y, w'))"
  by (auto simp: bind_io_def split: prod.splits sum.splits)

lemma bind_io_Inl [io_simps]:
  "bind_io m f w = (Inl e, w') \<longleftrightarrow>
     m w = (Inl e, w') \<or> (\<exists>x w1. m w = (Inr x, w1) \<and> f x w1 = (Inl e, w'))"
  by (auto simp: bind_io_def split: prod.splits sum.splits)

lemma bind_io_ok [io_simps]: "m w = (Inr x, w1) \<Longrightarrow> bind_io m f w = f x w1"
  by (simp add: bind_io_def)

lemma bind_io_err [io_simps]: "m w = (Inl e, w1) \<Longrightarrow> bind_io m f w = (Inl e, w1)"
  by (simp add: bind_io_def)

lemma bind_ret [simp]: "bind_io (ret x) f = f x"
  by (rule ext) (simp add: bind_io_def)

lemma bind_raise [simp]: "bind_io (raise e) f = raise e"
  by (rule ext) (simp add: bind_io_def)

lemma catch_io_Inr:
  "catch_io m h w = (Inr y, w') \<longleftrightarrow>
     m w = (Inr y, w') \<or> (\<exists>e w1. m w = (Inl e, w1) \<and> h e w1 = (Inr y, w'))"
  by (auto simp: catch_io_def split: prod.splits sum.splits)

lemma catch_ret [simp]: "catch_io (ret x) h = ret x"
  by (rule ext) (simp add: catch_io_def)

lemma catch_raise [simp]: "catch_io (raise e) h = h e"
  by (rule ext) (simp add: catch_io_def)

lemma bind_io_cong [fundef_cong]:
  "m = m' \<Longrightarrow> (\<And>x w w1. m' w = (Inr x, w1) \<Longrightarrow> f x w1 = g x w1) \<Longrightarrow> bind_io m f = bind_io m' g"
  by (rule ext) (auto simp: bind_io_def split: prod.splits sum.splits)

subsection \<open>Frames\<close>

text \<open>An action that does not change what \<open>obs\<close> reads of the world.\<close>

definition keeps :: "('w \<Rightarrow> 'x) \<Rightarrow> ('w, 'a) io \<Rightarrow> bool" where
  "keeps obs m \<longleftrightarrow> (\<forall>w r w'. m w = (r, w') \<longrightarrow> obs w' = obs w)"

named_theorems frame \<open>Frame rules of the actions.\<close>

lemma keepsD: "keeps obs m \<Longrightarrow> m w = (r, w') \<Longrightarrow> obs w' = obs w"
  by (simp add: keeps_def)

lemma keeps_ret [frame]: "keeps obs (ret x)"
  by (simp add: keeps_def)

lemma keeps_raise [frame]: "keeps obs (raise e)"
  by (simp add: keeps_def)

lemma keeps_pair [frame]: "keeps obs (Pair r)"
  by (simp add: keeps_def)

lemma keeps_bind [frame]: "keeps obs m \<Longrightarrow> (\<And>x. keeps obs (f x)) \<Longrightarrow> keeps obs (bind_io m f)"
  unfolding keeps_def bind_io_def by (fastforce split: prod.splits sum.splits)

lemma keeps_catch [frame]: "keeps obs m \<Longrightarrow> (\<And>e. keeps obs (h e)) \<Longrightarrow> keeps obs (catch_io m h)"
  unfolding keeps_def catch_io_def by (fastforce split: prod.splits sum.splits)

text \<open>Runs while others write: what one run may see happen to the world.\<close>

definition moves :: "('w \<Rightarrow> 'w \<Rightarrow> bool) \<Rightarrow> ('w, 'a) io \<Rightarrow> bool" where
  "moves rely m \<longleftrightarrow> (\<forall>w r w'. m w = (r, w') \<longrightarrow> rely w w')"

named_theorems moving \<open>Calls and their compositions move the world along the relation of the other writers.\<close>

lemma moves_ret [moving]: "reflp rely \<Longrightarrow> moves rely (ret x)"
  by (simp add: moves_def reflp_def)

lemma moves_raise [moving]: "reflp rely \<Longrightarrow> moves rely (raise e)"
  by (simp add: moves_def reflp_def)

lemma moves_bind [moving]: "transp rely \<Longrightarrow> moves rely m \<Longrightarrow> (\<And>x. moves rely (f x)) \<Longrightarrow> moves rely (bind_io m f)"
  unfolding moves_def bind_io_def by (fastforce split: prod.splits sum.splits dest: transpD)

lemma moves_catch [moving]: "transp rely \<Longrightarrow> moves rely m \<Longrightarrow> (\<And>e. moves rely (h e)) \<Longrightarrow> moves rely (catch_io m h)"
  unfolding moves_def catch_io_def by (fastforce split: prod.splits sum.splits dest: transpD)

lemma moves_if [moving]: "moves rely a \<Longrightarrow> moves rely b \<Longrightarrow> moves rely (if c then a else b)"
  by simp

lemma moves_option [moving]: "moves rely a \<Longrightarrow> (\<And>x. moves rely (f x)) \<Longrightarrow> moves rely (case y of None \<Rightarrow> a | Some x \<Rightarrow> f x)"
  by (cases y) simp_all

lemma moves_list [moving]: "moves rely a \<Longrightarrow> (\<And>x xs. moves rely (f x xs)) \<Longrightarrow> moves rely (case y of [] \<Rightarrow> a | x # xs \<Rightarrow> f x xs)"
  by (cases y) simp_all

lemma moves_for_each [moving]: "reflp rely \<Longrightarrow> transp rely \<Longrightarrow> (\<And>x. moves rely (f x)) \<Longrightarrow> moves rely (for_each xs f)"
  by (induction xs) (simp_all add: moves_ret moves_bind)

subsection \<open>Objects\<close>

record config_map =
  cm_name :: string
  cm_labels :: "string dict"
  cm_rv :: "string option"
  cm_data :: "string dict option"

text \<open>The calls on one ConfigMap.\<close>

record 'w cm_api =
  read_config_map :: "('w, config_map) io"
  create_config_map :: "config_map \<Rightarrow> ('w, config_map) io"
  replace_config_map :: "config_map \<Rightarrow> ('w, unit) io"

record 's cr =
  cr_name :: string
  cr_labels :: "string dict"
  cr_rv :: string
  cr_spec :: 's

text \<open>The body of a compare-and-set merge patch: the version it was computed from and a
  fragment of the spec.\<close>

record 'p patch_body =
  pb_rv :: string
  pb_spec :: 'p

record vpc_peering =
  remoteVpc :: "string option"
  localConnectIP :: "string option"

record static_route =
  sr_cidr :: "string option"
  sr_nextHopIP :: "string option"

record policy_route =
  pr_priority :: "int option"
  pr_action :: "string option"
  pr_match :: "string option"

record vpc_spec =
  vpcPeerings :: "vpc_peering list option"
  extraExternalSubnets :: "string list option"
  policyRoutes :: "policy_route list option"
  staticRoutes :: "static_route list option"
  enableExternal :: "bool option"
  vpc_namespaces :: "string list option"

record acl =
  acl_action :: "string option"
  acl_direction :: "string option"
  acl_priority :: "int option"
  acl_match :: "string option"

record subnet_spec =
  cidrBlock :: "string option"
  subnet_vpc :: "string option"
  excludeIps :: "string list option"
  acls :: "acl list option"

record ovn_eip =
  eip_name :: string
  eip_type :: "string option"
  eip_externalSubnet :: "string option"
  eip_v4Ip :: "string option"

text \<open>The fragments merged into the two specs. A field that is \<^const>\<open>None\<close> is not in the
  fragment; one that is present replaces the whole value (RFC 7386 replaces arrays).\<close>

record vpc_patch =
  vp_vpcPeerings :: "vpc_peering list option"
  vp_extraExternalSubnets :: "string list option"
  vp_policyRoutes :: "policy_route list option"
  vp_enableExternal :: "bool option"

definition empty_vpc_patch :: vpc_patch where
  "empty_vpc_patch = \<lparr>vp_vpcPeerings = None, vp_extraExternalSubnets = None, vp_policyRoutes = None,
     vp_enableExternal = None\<rparr>"

definition or_else :: "'a option \<Rightarrow> 'a option \<Rightarrow> 'a option" where
  "or_else p x = (case p of None \<Rightarrow> x | Some y \<Rightarrow> Some y)"

definition merge_vpc :: "vpc_spec \<Rightarrow> vpc_patch \<Rightarrow> vpc_spec" where
  "merge_vpc s p = s\<lparr>vpcPeerings := or_else (vp_vpcPeerings p) (vpcPeerings s),
     extraExternalSubnets := or_else (vp_extraExternalSubnets p) (extraExternalSubnets s),
     policyRoutes := or_else (vp_policyRoutes p) (policyRoutes s),
     enableExternal := or_else (vp_enableExternal p) (enableExternal s)\<rparr>"

definition merge_acls :: "subnet_spec \<Rightarrow> acl list \<Rightarrow> subnet_spec" where
  "merge_acls s p = s\<lparr>acls := Some p\<rparr>"

subsection \<open>What the API server promises\<close>

text \<open>
  \<open>cas_object rely cur get patch merge\<close>: one stored object with content \<open>cur\<close> (its spec and
  its resourceVersion), read by \<open>get\<close> and written by \<open>patch\<close>, while other writers move the
  world along \<open>rely\<close>.
  \<^item> A resourceVersion names one content for the life of the object.
  \<^item> A read returns the content at some moment of the call; \<open>404\<close> means there was none.
  \<^item> A patch that carries a resourceVersion is applied only to the content with that version, and
    then atomically; a patch the server refuses (any status) changes nothing.
  Nothing is said about a call that fails without an answer (\<open>OtherError\<close>).
\<close>

definition cas_object ::
  "('w \<Rightarrow> 'w \<Rightarrow> bool) \<Rightarrow> ('w \<Rightarrow> ('s \<times> string) option) \<Rightarrow> ('w, 's cr) io \<Rightarrow>
   ('p patch_body \<Rightarrow> ('w, unit) io) \<Rightarrow> ('s \<Rightarrow> 'p \<Rightarrow> 's) \<Rightarrow> bool" where
  "cas_object rely cur get patch merge \<longleftrightarrow>
     reflp rely \<and> transp rely
   \<and> (\<forall>w w' d d' v. rely w w' \<longrightarrow> cur w = Some (d, v) \<longrightarrow> cur w' = Some (d', v) \<longrightarrow> d' = d)
   \<and> (\<forall>w r w'. get w = (r, w') \<longrightarrow> rely w w')
   \<and> (\<forall>w x w'. get w = (Inr x, w') \<longrightarrow> cur w' = Some (cr_spec x, cr_rv x))
   \<and> (\<forall>w w'. get w = (Inl (ApiException 404), w') \<longrightarrow> cur w' = None)
   \<and> (\<forall>b w w'. patch b w = (Inr (), w') \<longrightarrow>
        (\<exists>w1 d v. rely w w1 \<and> cur w1 = Some (d, pb_rv b) \<and> cur w' = Some (merge d (pb_spec b), v)))
   \<and> (\<forall>b w st w'. patch b w = (Inl (ApiException st), w') \<longrightarrow> rely w w')"

text \<open>The same for a ConfigMap: \<open>cur\<close> is its data and version, written whole by \<open>create\<close>
  (only when there is none) and by \<open>replace\<close> (only over the version the body carries).\<close>

definition cm_store ::
  "('w \<Rightarrow> 'w \<Rightarrow> bool) \<Rightarrow> ('w \<Rightarrow> (string dict \<times> string) option) \<Rightarrow> ('w, config_map) io \<Rightarrow>
   (config_map \<Rightarrow> ('w, config_map) io) \<Rightarrow> (config_map \<Rightarrow> ('w, unit) io) \<Rightarrow> bool" where
  "cm_store rely cur read create replace \<longleftrightarrow>
     reflp rely \<and> transp rely
   \<and> (\<forall>w w' d d' v. rely w w' \<longrightarrow> cur w = Some (d, v) \<longrightarrow> cur w' = Some (d', v) \<longrightarrow> d' = d)
   \<and> (\<forall>w r w'. read w = (r, w') \<longrightarrow> rely w w')
   \<and> (\<forall>w x w'. read w = (Inr x, w') \<longrightarrow>
        (\<exists>v. cm_rv x = Some v \<and> v \<noteq> [] \<and> cur w' = Some (or_nil (cm_data x), v)))
   \<and> (\<forall>w w'. read w = (Inl (ApiException 404), w') \<longrightarrow> cur w' = None)
   \<and> (\<forall>b w x w'. create b w = (Inr x, w') \<longrightarrow>
        (\<exists>w1 v. rely w w1 \<and> cur w1 = None \<and> cm_rv x = Some v \<and> v \<noteq> []
          \<and> cur w' = Some (or_nil (cm_data b), v)))
   \<and> (\<forall>b w st w'. create b w = (Inl (ApiException st), w') \<longrightarrow> rely w w')
   \<and> (\<forall>b w w'. replace b w = (Inr (), w') \<longrightarrow>
        (\<exists>w1 d v v'. rely w w1 \<and> cm_rv b = Some v \<and> cur w1 = Some (d, v)
          \<and> cur w' = Some (or_nil (cm_data b), v')))
   \<and> (\<forall>b w st w'. replace b w = (Inl (ApiException st), w') \<longrightarrow> rely w w')"

text \<open>A property of the world that the other writers keep.\<close>

definition stable :: "('w \<Rightarrow> 'w \<Rightarrow> bool) \<Rightarrow> ('w \<Rightarrow> bool) \<Rightarrow> bool" where
  "stable rely P \<longleftrightarrow> (\<forall>w w'. rely w w' \<longrightarrow> P w \<longrightarrow> P w')"

lemma stableD: "stable rely P \<Longrightarrow> rely w w' \<Longrightarrow> P w \<Longrightarrow> P w'"
  unfolding stable_def by blast

lemma stable_eq [simp]: "stable (=) P"
  by (simp add: stable_def)

lemma cm_storeD:
  assumes "cm_store rely cur read create replace"
  shows "rely w w"
    and "rely w w1 \<Longrightarrow> rely w1 w2 \<Longrightarrow> rely w w2"
    and "rely w w1 \<Longrightarrow> cur w = Some (d, v) \<Longrightarrow> cur w1 = Some (d', v) \<Longrightarrow> d' = d"
    and "read w = (r, w1) \<Longrightarrow> rely w w1"
    and "read w = (Inr x, w1) \<Longrightarrow> \<exists>v. cm_rv x = Some v \<and> v \<noteq> [] \<and> cur w1 = Some (or_nil (cm_data x), v)"
    and "read w = (Inl (ApiException 404), w1) \<Longrightarrow> cur w1 = None"
    and "create b w = (Inr x, w2) \<Longrightarrow> \<exists>w1 v. rely w w1 \<and> cur w1 = None \<and> cm_rv x = Some v \<and> v \<noteq> []
          \<and> cur w2 = Some (or_nil (cm_data b), v)"
    and "create b w = (Inl (ApiException st), w1) \<Longrightarrow> rely w w1"
    and "replace b w = (Inr u, w2) \<Longrightarrow> \<exists>w1 d v v'. rely w w1 \<and> cm_rv b = Some v \<and> cur w1 = Some (d, v)
          \<and> cur w2 = Some (or_nil (cm_data b), v')"
    and "replace b w = (Inl (ApiException st), w1) \<Longrightarrow> rely w w1"
  using assms unfolding cm_store_def by - (elim conjE, metis (full_types) reflpD transpD unit.exhaust)+

lemma cas_objectD:
  assumes "cas_object rely cur get patch merge"
  shows "rely w w"
    and "rely w w1 \<Longrightarrow> rely w1 w2 \<Longrightarrow> rely w w2"
    and "rely w w1 \<Longrightarrow> cur w = Some (d, v) \<Longrightarrow> cur w1 = Some (d', v) \<Longrightarrow> d' = d"
    and "get w = (r, w1) \<Longrightarrow> rely w w1"
    and "get w = (Inr x, w1) \<Longrightarrow> cur w1 = Some (cr_spec x, cr_rv x)"
    and "get w = (Inl (ApiException 404), w1) \<Longrightarrow> cur w1 = None"
    and "patch b w = (Inl (ApiException st), w1) \<Longrightarrow> rely w w1"
  using assms unfolding cas_object_def by - (elim conjE, metis reflpD transpD)+

lemma cas_object_patch:
  assumes "cas_object rely cur get patch merge" "patch b w = (Inr u, w')"
  obtains w1 d v where "rely w w1" "cur w1 = Some (d, pb_rv b)" "cur w' = Some (merge d (pb_spec b), v)"
  using assms unfolding cas_object_def by (metis (full_types) unit.exhaust)

subsection \<open>A server with one writer\<close>

text \<open>The smallest instances of the two hypotheses: a server that holds one object and answers at
  once. They show that the hypotheses can hold, on which the witnesses of the components build.\<close>

definition mem_read :: "string \<Rightarrow> ((string dict \<times> nat) option, config_map) io" where
  "mem_read name = (\<lambda>w. case w of
       None \<Rightarrow> (Inl (ApiException 404), w)
     | Some (d, v) \<Rightarrow> (Inr \<lparr>cm_name = name, cm_labels = [], cm_rv = Some (nat_str v), cm_data = Some d\<rparr>, w))"

definition mem_create :: "config_map \<Rightarrow> ((string dict \<times> nat) option, config_map) io" where
  "mem_create b = (\<lambda>w. case w of
       None \<Rightarrow> (Inr (b\<lparr>cm_rv := Some (nat_str 1)\<rparr>), Some (or_nil (cm_data b), 1))
     | Some _ \<Rightarrow> (Inl (ApiException 409), w))"

definition mem_replace :: "config_map \<Rightarrow> ((string dict \<times> nat) option, unit) io" where
  "mem_replace b = (\<lambda>w. case w of
       None \<Rightarrow> (Inl (ApiException 404), w)
     | Some (d, v) \<Rightarrow>
         if cm_rv b = Some (nat_str v) then (Inr (), Some (or_nil (cm_data b), v + 1))
         else (Inl (ApiException 409), w))"

definition mem_cur :: "('d \<times> nat) option \<Rightarrow> ('d \<times> string) option" where
  "mem_cur w = map_option (map_prod id nat_str) w"

lemma mem_cm_store: "cm_store (=) mem_cur (mem_read name) mem_create mem_replace"
  unfolding cm_store_def mem_cur_def mem_read_def mem_create_def mem_replace_def
  by (auto simp: reflp_def transp_def split: option.splits if_splits)

definition mem_cm_api :: "string \<Rightarrow> (string dict \<times> nat) option cm_api" where
  "mem_cm_api name = \<lparr>read_config_map = mem_read name, create_config_map = mem_create,
     replace_config_map = mem_replace\<rparr>"

lemma mem_cm_api_store:
  "cm_store (=) mem_cur (read_config_map (mem_cm_api name)) (create_config_map (mem_cm_api name))
     (replace_config_map (mem_cm_api name))"
  using mem_cm_store by (simp add: mem_cm_api_def)

definition mem_get :: "string \<Rightarrow> (('s \<times> nat) option, 's cr) io" where
  "mem_get name = (\<lambda>w. case w of
       None \<Rightarrow> (Inl (ApiException 404), w)
     | Some (d, v) \<Rightarrow> (Inr \<lparr>cr_name = name, cr_labels = [], cr_rv = nat_str v, cr_spec = d\<rparr>, w))"

definition mem_patch :: "('s \<Rightarrow> 'p \<Rightarrow> 's) \<Rightarrow> 'p patch_body \<Rightarrow> (('s \<times> nat) option, unit) io" where
  "mem_patch merge b = (\<lambda>w. case w of
       None \<Rightarrow> (Inl (ApiException 404), w)
     | Some (d, v) \<Rightarrow>
         if pb_rv b = nat_str v then (Inr (), Some (merge d (pb_spec b), v + 1))
         else (Inl (ApiException 409), w))"

lemma mem_cas_object: "cas_object (=) mem_cur (mem_get name) (mem_patch merge) merge"
  unfolding cas_object_def mem_cur_def mem_get_def mem_patch_def
  by (auto simp: reflp_def transp_def split: option.splits if_splits)

end
