(* ===== verification/Cas.thy ===== *)
theory Cas
  imports Kube
begin

section \<open>Compare-and-set writes (\<open>core/cas.py\<close>)\<close>

text \<open>
  \<open>patch_spec_with_retry\<close>, the two helpers that pick the cluster or the namespaced call, and
  \<open>upsert\<close>. The main fact is that a write that reports success was computed from the very
  content it replaced, whatever the other writers did in between.
\<close>

subsection \<open>The calls\<close>

record coords =
  co_group :: string
  co_version :: string
  co_plural :: string
  co_name :: string

record ('w, 's, 'p) custom_api =
  get_cluster_custom_object :: "coords \<Rightarrow> ('w, 's cr) io"
  get_namespaced_custom_object :: "string \<Rightarrow> coords \<Rightarrow> ('w, 's cr) io"
  patch_cluster_custom_object :: "coords \<Rightarrow> 'p patch_body \<Rightarrow> ('w, unit) io"
  patch_namespaced_custom_object :: "string \<Rightarrow> coords \<Rightarrow> 'p patch_body \<Rightarrow> ('w, unit) io"

definition cas_get :: "('w, 's, 'p) custom_api \<Rightarrow> string option \<Rightarrow> coords \<Rightarrow> ('w, 's cr) io" where
  "cas_get api ns co =
     (case ns of None \<Rightarrow> get_cluster_custom_object api co
      | Some n \<Rightarrow> get_namespaced_custom_object api n co)"

definition cas_patch ::
  "('w, 's, 'p) custom_api \<Rightarrow> string option \<Rightarrow> coords \<Rightarrow> 'p patch_body \<Rightarrow> ('w, unit) io" where
  "cas_patch api ns co body =
     (case ns of None \<Rightarrow> patch_cluster_custom_object api co body
      | Some n \<Rightarrow> patch_namespaced_custom_object api n co body)"

subsection \<open>The retry loop\<close>

text \<open>\<open>for attempt in range(retries)\<close>, counted by the attempts that are left. \<open>mutate\<close> may raise, or
  return nothing to write.\<close>

fun cas_attempts ::
  "('w, 's cr) io \<Rightarrow> ('p patch_body \<Rightarrow> ('w, unit) io) \<Rightarrow> ('s \<Rightarrow> exc + 'p option) \<Rightarrow> nat \<Rightarrow> ('w, bool) io" where
  "cas_attempts get patch mutate 0 w = (Inr False, w)"
| "cas_attempts get patch mutate (Suc n) w =
     (case get w of
        (Inl e, w1) \<Rightarrow> if e = ApiException 404 then (Inr False, w1) else (Inl e, w1)
      | (Inr item, w1) \<Rightarrow>
          (case mutate (cr_spec item) of
             Inl e \<Rightarrow> (Inl e, w1)
           | Inr None \<Rightarrow> (Inr False, w1)
           | Inr (Some p) \<Rightarrow>
               (case patch \<lparr>pb_rv = cr_rv item, pb_spec = p\<rparr> w1 of
                  (Inr _, w2) \<Rightarrow> (Inr True, w2)
                | (Inl e, w2) \<Rightarrow>
                    if e = ApiException 409 \<and> n \<noteq> 0 then cas_attempts get patch mutate n w2
                    else (Inl e, w2))))"

definition DEFAULT_RETRIES :: nat where
  "DEFAULT_RETRIES = 5"

definition patch_spec_with_retry ::
  "('w, 's, 'p) custom_api \<Rightarrow> string option \<Rightarrow> coords \<Rightarrow> ('s \<Rightarrow> exc + 'p option) \<Rightarrow> nat \<Rightarrow> ('w, bool) io" where
  "patch_spec_with_retry api ns co mutate retries =
     cas_attempts (cas_get api ns co) (cas_patch api ns co) mutate retries"

subsection \<open>\<open>upsert\<close>\<close>

definition upsert :: "'a list \<Rightarrow> 'a \<Rightarrow> ('a \<Rightarrow> 'k) \<Rightarrow> 'a list" where
  "upsert items entry key = filter (\<lambda>i. key i \<noteq> key entry) items @ [entry]"

lemma upsert_mem: "x \<in> set (upsert items entry key) \<longleftrightarrow> x = entry \<or> x \<in> set items \<and> key x \<noteq> key entry"
  by (auto simp: upsert_def)

lemma upsert_others:
  "filter (\<lambda>i. key i \<noteq> key entry) (upsert items entry key) = filter (\<lambda>i. key i \<noteq> key entry) items"
  by (simp add: upsert_def)

lemma upsert_matching: "filter (\<lambda>i. key i = key entry) (upsert items entry key) = [entry]"
  by (simp add: upsert_def)

lemma upsert_idem: "upsert (upsert items entry key) entry key = upsert items entry key"
  by (simp add: upsert_def)

subsection \<open>Correctness of the loop\<close>

lemma cas_attempts_True:
  assumes "cas_object rely cur get patch merge"
    and "cas_attempts get patch mutate n w = (Inr True, w')"
  shows "\<exists>w1 d v p v'. rely w w1 \<and> cur w1 = Some (d, v) \<and> mutate d = Inr (Some p)
           \<and> cur w' = Some (merge d p, v')"
  using assms(2)
proof (induction n arbitrary: w)
  case 0
  then show ?case by simp
next
  case (Suc n)
  note law = cas_objectD [OF assms(1)]
  from Suc.prems obtain item w1 p where g: "get w = (Inr item, w1)"
    and m: "mutate (cr_spec item) = Inr (Some p)"
    by (auto split: prod.splits sum.splits if_splits option.splits)
  have r1: "rely w w1" and c1: "cur w1 = Some (cr_spec item, cr_rv item)"
    using law(4,5) g by blast+
  show ?case
  proof (cases "patch \<lparr>pb_rv = cr_rv item, pb_spec = p\<rparr> w1")
    case (Pair r w2)
    show ?thesis
    proof (cases r)
      case (Inr u)
      with Suc.prems g m Pair have "w' = w2" by simp
      moreover obtain w3 d v where p3: "rely w1 w3" "cur w3 = Some (d, cr_rv item)"
        "cur w2 = Some (merge d p, v)"
        using cas_object_patch [OF assms(1)] Pair Inr by (metis patch_body.select_convs)
      moreover have "d = cr_spec item" using law(3) p3(1,2) c1 by blast
      ultimately show ?thesis using law(2) r1 m by blast
    next
      case (Inl e)
      with Suc.prems g m Pair have e: "e = ApiException 409"
        and rec: "cas_attempts get patch mutate n w2 = (Inr True, w')"
        by (auto split: if_splits)
      have "rely w1 w2" using law(7) Pair [unfolded Inl e] by blast
      then have "rely w w2" using law(2) r1 by blast
      with Suc.IH [OF rec] law(2) show ?thesis by blast
    qed
  qed
qed

lemma cas_attempts_False:
  assumes "cas_object rely cur get patch merge" "n \<noteq> 0"
    and "cas_attempts get patch mutate n w = (Inr False, w')"
  shows "rely w w' \<and> (cur w' = None \<or> (\<exists>d v. cur w' = Some (d, v) \<and> mutate d = Inr None))"
  using assms(2,3)
proof (induction n arbitrary: w)
  case 0
  then show ?case by simp
next
  case (Suc n)
  note law = cas_objectD [OF assms(1)]
  show ?case
  proof (cases "get w")
    case (Pair r w1)
    then have r1: "rely w w1" using law(4) by blast
    show ?thesis
    proof (cases r)
      case (Inl e)
      with Suc.prems Pair have "get w = (Inl (ApiException 404), w1)" "w' = w1"
        by (auto split: if_splits)
      then show ?thesis using law(6) [of w w1] r1 by simp
    next
      case (Inr item)
      show ?thesis
      proof (cases "mutate (cr_spec item) = Inr None")
        case True
        then show ?thesis using Suc.prems Pair Inr law(5) r1 by auto
      next
        case False
        with Suc.prems Pair Inr obtain p where Some: "mutate (cr_spec item) = Inr (Some p)"
          by (cases "mutate (cr_spec item)") (auto split: option.splits)
        then obtain w2 where p2: "patch \<lparr>pb_rv = cr_rv item, pb_spec = p\<rparr> w1 = (Inl (ApiException 409), w2)"
          and rec: "cas_attempts get patch mutate n w2 = (Inr False, w')" and n: "n \<noteq> 0"
          using Suc.prems Pair Inr by (auto split: prod.splits sum.splits if_splits)
        have "rely w w2" using law(2,7) r1 p2 by blast
        then show ?thesis using Suc.IH [OF n rec] law(2) by blast
      qed
    qed
  qed
qed

text \<open>An exception is one of a single call: a refused read (never a 404), one raised by \<open>mutate\<close>, or
  a refused write. A 409 gets through only from the last attempt.\<close>

lemma cas_attempts_error:
  assumes "cas_attempts get patch mutate n w = (Inl e, w')"
  shows "(\<exists>w1. get w1 = (Inl e, w') \<and> e \<noteq> ApiException 404) \<or> (\<exists>d. mutate d = Inl e)
       \<or> (\<exists>w1 b. patch b w1 = (Inl e, w'))"
  using assms
proof (induction n arbitrary: w)
  case (Suc n)
  then show ?case by (fastforce split: prod.splits sum.splits if_splits option.splits)
qed simp

text \<open>What a run of the loop leaves: nothing stored, or the content its patch was computed from with the
  patch merged in (or left alone when there is nothing to write).\<close>

lemma patch_spec_with_retry_leaves:
  assumes law: "cas_object rely cur (cas_get api ns co) (cas_patch api ns co) merge" and n: "n \<noteq> 0"
    and run: "patch_spec_with_retry api ns co m n w = (Inr ok, w')"
  shows "cur w' = None \<or> (\<exists>w1 d v r v'. rely w w1 \<and> cur w1 = Some (d, v) \<and> m d = Inr r
     \<and> cur w' = Some (case r of None \<Rightarrow> d | Some p \<Rightarrow> merge d p, v'))"
proof -
  have loop: "cas_attempts (cas_get api ns co) (cas_patch api ns co) m n w = (Inr ok, w')"
    using run by (simp add: patch_spec_with_retry_def)
  show ?thesis
  proof (cases ok)
    case True
    from cas_attempts_True [OF law loop [unfolded eqTrueI [OF True]]] obtain w1 d v p v'
      where "rely w w1" "cur w1 = Some (d, v)" "m d = Inr (Some p)" "cur w' = Some (merge d p, v')" by blast
    then show ?thesis by (intro disjI2 exI [of _ w1] exI [of _ d] exI [of _ v] exI [of _ "Some p"] exI [of _ v']) simp
  next
    case False
    then have "ok = False" by simp
    from cas_attempts_False [OF law n loop [unfolded this]] show ?thesis by fastforce
  qed
qed

subsection \<open>Properties\<close>

text \<open>C3. \<open>patch_spec_with_retry\<close> loses no update: when it reports a write, the patch was computed
  by \<open>mutate\<close> from the very content it was merged into, whatever other writers did meanwhile.\<close>

theorem patch_spec_with_retry_no_lost_update:
  assumes "cas_object rely cur (cas_get api ns co) (cas_patch api ns co) merge"
    and "patch_spec_with_retry api ns co mutate retries w = (Inr True, w')"
  shows "\<exists>w1 d v p v'. rely w w1 \<and> cur w1 = Some (d, v) \<and> mutate d = Inr (Some p)
           \<and> cur w' = Some (merge d p, v')"
  using cas_attempts_True [OF assms(1)] assms(2) by (simp add: patch_spec_with_retry_def)

definition mem_custom_api :: "('s \<Rightarrow> 'p \<Rightarrow> 's) \<Rightarrow> (('s \<times> nat) option, 's, 'p) custom_api" where
  "mem_custom_api merge = \<lparr>get_cluster_custom_object = (\<lambda>co. mem_get (co_name co)),
     get_namespaced_custom_object = (\<lambda>n co. mem_get (co_name co)),
     patch_cluster_custom_object = (\<lambda>co. mem_patch merge),
     patch_namespaced_custom_object = (\<lambda>n co. mem_patch merge)\<rparr>"

lemma mem_custom_cas:
  "cas_object (=) mem_cur (cas_get (mem_custom_api merge) ns co) (cas_patch (mem_custom_api merge) ns co) merge"
proof -
  have "cas_get (mem_custom_api merge) ns co = mem_get (co_name co)"
    by (cases ns) (simp_all add: cas_get_def mem_custom_api_def)
  moreover have "cas_patch (mem_custom_api merge) ns co = mem_patch merge"
    by (cases ns) (auto simp: cas_patch_def mem_custom_api_def)
  ultimately show ?thesis using mem_cas_object by simp
qed

theorem patch_spec_with_retry_no_lost_update_witness:
  "\<exists>w1 d v p v'. Some (2, 7) = w1 \<and> mem_cur w1 = Some (d, v) \<and> (if d < 5 then Inr (Some (d + 1)) else Inr None :: exc + nat option) = Inr (Some p)
     \<and> mem_cur (Some (3::nat, 8)) = Some (p, v')"
proof (rule patch_spec_with_retry_no_lost_update [OF mem_custom_cas])
  show "patch_spec_with_retry (mem_custom_api (\<lambda>d p. p)) None
     \<lparr>co_group = ''g'', co_version = ''v1'', co_plural = ''things'', co_name = ''x''\<rparr>
     (\<lambda>d. if d < 5 then Inr (Some (d + 1)) else Inr None) 1 (Some (2::nat, 7)) = (Inr True, Some (3, 8))"
    by (simp add: patch_spec_with_retry_def mem_custom_api_def cas_get_def cas_patch_def mem_get_def mem_patch_def)
qed

end
