(* ===== verification/Ipaddress.thy ===== *)
theory Ipaddress
  imports Prelude
begin

section \<open>The \<open>ipaddress\<close> module\<close>

text \<open>
  The part of Python's \<open>ipaddress\<close> that the address plan is written in: parsing and printing
  of IPv4 and IPv6 addresses and networks, membership, overlap, subdivision and exclusion. An address
  is a natural number below \<open>2^32\<close> or \<open>2^128\<close>; a network is its version, its network address
  and its prefix length. An invalid text is \<^const>\<open>None\<close> (a \<open>ValueError\<close> in Python). Zone
  identifiers of IPv6 literals are accepted and dropped.
  The lemmas relate every operation to the set of addresses of a network.
\<close>

datatype ip_ver = V4 | V6

fun width :: "ip_ver \<Rightarrow> nat" where
  "width V4 = 32"
| "width V6 = 128"

record ip_net =
  net_ver :: ip_ver
  net_addr :: nat
  net_len :: nat

subsection \<open>Addresses as text\<close>

text \<open>An octet: one to three ASCII digits, no leading zero, at most 255.\<close>

definition parse_octet :: "string \<Rightarrow> nat option" where
  "parse_octet s =
     (if isdigit s \<and> length s \<le> 3 \<and> (s = ''0'' \<or> hd s \<noteq> CHR ''0'') \<and> digits_val s \<le> 255
      then Some (digits_val s) else None)"

definition parse_ipv4 :: "string \<Rightarrow> nat option" where
  "parse_ipv4 s =
     (case map parse_octet (split_on (CHR ''.'') s) of
        [Some a, Some b, Some c, Some d] \<Rightarrow> Some (((a * 256 + b) * 256 + c) * 256 + d)
      | _ \<Rightarrow> None)"

definition ipv4_str :: "nat \<Rightarrow> string" where
  "ipv4_str a = join ''.'' (map nat_str
     [a div 2 ^ 24 mod 256, a div 2 ^ 16 mod 256, a div 2 ^ 8 mod 256, a mod 256])"

definition is_hex :: "char \<Rightarrow> bool" where
  "is_hex c \<longleftrightarrow> is_digit c \<or> (97 \<le> (of_char c :: nat) \<and> (of_char c :: nat) \<le> 102)
     \<or> (65 \<le> (of_char c :: nat) \<and> (of_char c :: nat) \<le> 70)"

definition hex_val :: "char \<Rightarrow> nat" where
  "hex_val c = (if is_digit c then of_char c - 48
                else if 97 \<le> (of_char c :: nat) then of_char c - 87 else of_char c - 55)"

definition parse_hextet :: "string \<Rightarrow> nat option" where
  "parse_hextet s =
     (if s \<noteq> [] \<and> list_all is_hex s \<and> length s \<le> 4
      then Some (foldl (\<lambda>a c. 16 * a + hex_val c) 0 s) else None)"

fun join_hextets :: "nat \<Rightarrow> string list \<Rightarrow> nat option" where
  "join_hextets a [] = Some a"
| "join_hextets a (p # ps) =
     (case parse_hextet p of None \<Rightarrow> None | Some h \<Rightarrow> join_hextets (a * 65536 + h) ps)"

text \<open>The text before a \<open>%zone\<close> suffix; an empty or doubled zone is an error.\<close>

definition split_scope_id :: "string \<Rightarrow> string option" where
  "split_scope_id s =
     (case split_on (CHR ''%'') s of
        [a] \<Rightarrow> Some a
      | [a, z] \<Rightarrow> if z = [] then None else Some a
      | _ \<Rightarrow> None)"

text \<open>The interior positions \<open>1 \<dots> len-2\<close> that hold an empty part (a \<open>::\<close>).\<close>

definition empty_inner :: "string list \<Rightarrow> nat list" where
  "empty_inner ps = filter (\<lambda>i. ps ! i = []) [1..<length ps - 1]"

definition nat_hex4 :: "nat \<Rightarrow> string" where
  "nat_hex4 n = map (\<lambda>d. if d < 10 then char_of (48 + d) else char_of (87 + d))
     (let ds = [n div 4096 mod 16, n div 256 mod 16, n div 16 mod 16, n mod 16];
          r = dropWhile (\<lambda>d. d = 0) ds
      in if r = [] then [0] else r)"

definition ipv6_parts :: "string \<Rightarrow> string list option" where
  "ipv6_parts s =
     (let ps = split_on (CHR '':'') s in
      if length ps < 3 then None
      else if CHR ''.'' \<in> set (last ps) then
        (case parse_ipv4 (last ps) of
           None \<Rightarrow> None
         | Some v \<Rightarrow> Some (butlast ps @ [nat_hex4 (v div 65536 mod 65536), nat_hex4 (v mod 65536)]))
      else Some ps)"

text \<open>The value of a text with one \<open>::\<close> at position \<open>k\<close>, then of any list of parts.\<close>

definition ipv6_gap :: "string list \<Rightarrow> nat \<Rightarrow> nat option" where
  "ipv6_gap ps k =
     (let hi = (if hd ps = [] then k - 1 else k);
          lo = (if last ps = [] then length ps - k - 2 else length ps - k - 1)
      in if (hd ps = [] \<and> hi \<noteq> 0) \<or> (last ps = [] \<and> lo \<noteq> 0) \<or> hi + lo \<ge> 8 then None
         else (case join_hextets 0 (take hi ps) of None \<Rightarrow> None | Some a \<Rightarrow>
                join_hextets (a * 65536 ^ (8 - (hi + lo))) (drop (length ps - lo) ps)))"

definition ipv6_value :: "string list \<Rightarrow> nat option" where
  "ipv6_value ps =
     (if length ps > 9 then None else
      (case empty_inner ps of
         [] \<Rightarrow> if length ps = 8 \<and> hd ps \<noteq> [] \<and> last ps \<noteq> [] then join_hextets 0 ps else None
       | [k] \<Rightarrow> ipv6_gap ps k
       | _ \<Rightarrow> None))"

definition parse_ipv6 :: "string \<Rightarrow> nat option" where
  "parse_ipv6 s0 =
     (case split_scope_id s0 of None \<Rightarrow> None | Some s \<Rightarrow>
        if s = [] \<or> CHR ''/'' \<in> set s0 then None
        else (case ipv6_parts s of None \<Rightarrow> None | Some ps \<Rightarrow> ipv6_value ps))"

text \<open>\<open>_compress_hextets\<close>: the first longest run of at least two zero groups becomes \<open>::\<close>.\<close>

fun zero_run :: "string list \<Rightarrow> nat" where
  "zero_run (h # hs) = (if h = ''0'' then Suc (zero_run hs) else 0)"
| "zero_run [] = 0"

definition best_zero_run :: "string list \<Rightarrow> nat \<times> nat" where
  "best_zero_run hs =
     foldl (\<lambda>(bs, bl) i. let l = zero_run (drop i hs) in if bl < l then (i, l) else (bs, bl))
       (0, 0) [0..<length hs]"

definition compress_hextets :: "string list \<Rightarrow> string list" where
  "compress_hextets hs =
     (case best_zero_run hs of (s, l) \<Rightarrow>
        if 1 < l then (if s = 0 then [[]] else []) @ take s hs @ [[]] @ drop (s + l) hs
                      @ (if s + l = length hs then [[]] else [])
        else hs)"

definition ipv6_str :: "nat \<Rightarrow> string" where
  "ipv6_str a = join '':'' (compress_hextets
     (map (\<lambda>i. nat_hex4 (a div 65536 ^ (7 - i) mod 65536)) [0..<8]))"

fun ip_str :: "ip_ver \<Rightarrow> nat \<Rightarrow> string" where
  "ip_str V4 a = ipv4_str a"
| "ip_str V6 a = ipv6_str a"

text \<open>\<open>ipaddress.ip_address\<close>: IPv4 first, then IPv6.\<close>

definition ip_address :: "string \<Rightarrow> (ip_ver \<times> nat) option" where
  "ip_address s =
     (case parse_ipv4 s of Some a \<Rightarrow> Some (V4, a)
      | None \<Rightarrow> map_option (Pair V6) (parse_ipv6 s))"

subsection \<open>Networks\<close>

definition block_size :: "ip_net \<Rightarrow> nat" where
  "block_size n = 2 ^ (width (net_ver n) - net_len n)"

definition mask_down :: "ip_ver \<Rightarrow> nat \<Rightarrow> nat \<Rightarrow> nat" where
  "mask_down v len a = a div 2 ^ (width v - len) * 2 ^ (width v - len)"

definition broadcast :: "ip_net \<Rightarrow> nat" where
  "broadcast n = net_addr n + block_size n - 1"

definition wf_net :: "ip_net \<Rightarrow> bool" where
  "wf_net n \<longleftrightarrow> net_len n \<le> width (net_ver n) \<and> net_addr n < 2 ^ width (net_ver n)
     \<and> block_size n dvd net_addr n"

definition addrs :: "ip_net \<Rightarrow> nat set" where
  "addrs n = {net_addr n ..< net_addr n + block_size n}"

text \<open>\<open>address in network\<close>, \<open>a.overlaps(b)\<close>, \<open>a.subnet_of(b)\<close>, \<open>str(network)\<close>.\<close>

definition in_net :: "ip_ver \<Rightarrow> nat \<Rightarrow> ip_net \<Rightarrow> bool" where
  "in_net v a n \<longleftrightarrow> v = net_ver n \<and> mask_down v (net_len n) a = net_addr n"

definition overlaps :: "ip_net \<Rightarrow> ip_net \<Rightarrow> bool" where
  "overlaps a b \<longleftrightarrow>
     in_net (net_ver b) (net_addr b) a \<or> in_net (net_ver b) (broadcast b) a
     \<or> in_net (net_ver a) (net_addr a) b \<or> in_net (net_ver a) (broadcast a) b"

definition subnet_of :: "ip_net \<Rightarrow> ip_net \<Rightarrow> bool" where
  "subnet_of a b \<longleftrightarrow> net_addr b \<le> net_addr a \<and> broadcast b \<ge> broadcast a"

definition net_str :: "ip_net \<Rightarrow> string" where
  "net_str n = ip_str (net_ver n) (net_addr n) @ ''/'' @ nat_str (net_len n)"

text \<open>A network with the host bits cleared (\<open>strict=False\<close>).\<close>

definition mk_net :: "ip_ver \<Rightarrow> nat \<Rightarrow> nat \<Rightarrow> ip_net" where
  "mk_net v a len = \<lparr>net_ver = v, net_addr = mask_down v len a, net_len = len\<rparr>"

definition parse_prefix :: "nat \<Rightarrow> string \<Rightarrow> nat option" where
  "parse_prefix w s = (if isdigit s \<and> digits_val s \<le> w then Some (digits_val s) else None)"

text \<open>A dotted netmask or hostmask: the prefix length whose mask (or inverted mask) it is.\<close>

definition mask_prefix :: "nat \<Rightarrow> nat option" where
  "mask_prefix m = find (\<lambda>l. m = 2 ^ 32 - 2 ^ (32 - l)) [0..<33]"

definition parse_mask4 :: "string \<Rightarrow> nat option" where
  "parse_mask4 s =
     (case parse_prefix 32 s of
        Some l \<Rightarrow> Some l
      | None \<Rightarrow>
          (case parse_ipv4 s of
             None \<Rightarrow> None
           | Some m \<Rightarrow> (case mask_prefix m of Some l \<Rightarrow> Some l | None \<Rightarrow> mask_prefix (2 ^ 32 - 1 - m))))"

definition parse_net4 :: "string \<Rightarrow> ip_net option" where
  "parse_net4 s =
     (case split_on (CHR ''/'') s of
        [a] \<Rightarrow> map_option (\<lambda>x. mk_net V4 x 32) (parse_ipv4 a)
      | [a, m] \<Rightarrow>
          (case (parse_ipv4 a, parse_mask4 m) of
             (Some x, Some l) \<Rightarrow> Some (mk_net V4 x l)
           | _ \<Rightarrow> None)
      | _ \<Rightarrow> None)"

definition parse_net6 :: "string \<Rightarrow> ip_net option" where
  "parse_net6 s =
     (case split_on (CHR ''/'') s of
        [a] \<Rightarrow> map_option (\<lambda>x. mk_net V6 x 128) (parse_ipv6 a)
      | [a, m] \<Rightarrow>
          (case (parse_ipv6 a, parse_prefix 128 m) of
             (Some x, Some l) \<Rightarrow> Some (mk_net V6 x l)
           | _ \<Rightarrow> None)
      | _ \<Rightarrow> None)"

text \<open>\<open>ipaddress.ip_network(s, strict=False)\<close>.\<close>

definition ip_network :: "string \<Rightarrow> ip_net option" where
  "ip_network s = (case parse_net4 s of Some n \<Rightarrow> Some n | None \<Rightarrow> parse_net6 s)"

text \<open>\<open>ipaddress.ip_network(s)\<close>, which refuses set host bits.\<close>

definition strict_network :: "string \<Rightarrow> ip_net option" where
  "strict_network s =
     (case (ip_network s, ip_address (fst (partition_on (CHR ''/'') s))) of
        (Some n, Some (v, a)) \<Rightarrow> if net_addr n = a then Some n else None
      | _ \<Rightarrow> None)"

text \<open>\<open>network.subnets(new_prefix=p)\<close>; \<^const>\<open>None\<close> is Python's \<open>ValueError\<close>.\<close>

definition subnets :: "ip_net \<Rightarrow> nat \<Rightarrow> ip_net list option" where
  "subnets n p =
     (if net_len n = width (net_ver n) then Some [n]
      else if p < net_len n \<or> width (net_ver n) < p then None
      else Some (map (\<lambda>i. \<lparr>net_ver = net_ver n,
                           net_addr = net_addr n + i * 2 ^ (width (net_ver n) - p), net_len = p\<rparr>)
                  [0..<2 ^ (p - net_len n)]))"

definition supernet :: "ip_net \<Rightarrow> ip_net" where
  "supernet n = (if net_len n = 0 then n else mk_net (net_ver n) (net_addr n) (net_len n - 1))"

text \<open>\<open>network.hosts()\<close> for a prefix of at most \<open>width - 2\<close>.\<close>

definition hosts :: "ip_net \<Rightarrow> nat list" where
  "hosts n = [net_addr n + 1 ..< broadcast n]"

subsection \<open>Facts about networks\<close>

lemma block_size_pos [simp, net_simps]: "0 < block_size n"
  by (simp add: block_size_def)

lemma width_pos [simp]: "0 < width v"
  by (cases v) auto

lemma mask_down_le: "mask_down v len a \<le> a"
  by (simp add: mask_down_def)

lemma mask_down_idem [simp]: "mask_down v len (mask_down v len a) = mask_down v len a"
  by (simp add: mask_down_def)

lemma mk_net_simps [simp]:
  "net_ver (mk_net v a l) = v" "net_len (mk_net v a l) = l" "net_addr (mk_net v a l) = mask_down v l a"
  by (simp_all add: mk_net_def)

lemma wf_mk_net: "l \<le> width v \<Longrightarrow> a < 2 ^ width v \<Longrightarrow> wf_net (mk_net v a l)"
  unfolding wf_net_def by (auto simp: block_size_def mask_down_def intro: le_less_trans [OF div_times_less_eq_dividend])

lemma mk_net_addr_in: "a \<in> addrs (mk_net v a l)"
proof -
  let ?s = "2 ^ (width v - l) :: nat"
  have "a div ?s * ?s \<le> a" "a < a div ?s * ?s + ?s"
    using dividend_less_div_times [of ?s a] by (simp_all add: div_times_less_eq_dividend add.commute)
  then show ?thesis unfolding addrs_def by (simp add: block_size_def mask_down_def)
qed

lemma net_addr_in [simp]: "net_addr n \<in> addrs n"
  by (simp add: addrs_def)

lemma broadcast_in [simp]: "broadcast n \<in> addrs n"
  using block_size_pos [of n] unfolding addrs_def broadcast_def by (simp del: block_size_pos)

lemma mask_down_iff:
  assumes "0 < s" "s dvd (b::nat)"
  shows "a div s * s = b \<longleftrightarrow> b \<le> a \<and> a < b + s"
proof -
  obtain k where k: "b = k * s" using assms(2) by (metis dvd_div_mult_self)
  have "a div s = k \<longleftrightarrow> k * s \<le> a \<and> a < (k + 1) * s"
    using assms(1) by (metis Suc_eq_plus1 div_nat_eqI dividend_less_div_times div_times_less_eq_dividend
        mult.commute mult_Suc)
  moreover have "a div s * s = k * s \<longleftrightarrow> a div s = k" using assms(1) by simp
  ultimately show ?thesis using k by (simp add: algebra_simps)
qed

lemma in_net_iff [net_simps]: "wf_net n \<Longrightarrow> in_net v a n \<longleftrightarrow> v = net_ver n \<and> a \<in> addrs n"
  unfolding in_net_def mask_down_def wf_net_def addrs_def block_size_def
  using mask_down_iff [of "2 ^ (width (net_ver n) - net_len n)" "net_addr n" a] by auto

lemma overlaps_iff:
  assumes "wf_net a" "wf_net b"
  shows "overlaps a b \<longleftrightarrow> net_ver a = net_ver b \<and> addrs a \<inter> addrs b \<noteq> {}"
proof -
  have "{x..<x + m} \<inter> {y..<y + k} \<noteq> {} \<longleftrightarrow> y \<in> {x..<x + m} \<or> x \<in> {y..<y + k}"
    if "0 < m" "0 < k" for x y m k :: nat
    using that by (auto simp: disjoint_iff)
  then have "addrs a \<inter> addrs b \<noteq> {} \<longleftrightarrow> net_addr b \<in> addrs a \<or> net_addr a \<in> addrs b"
    by (simp add: addrs_def)
  moreover have "broadcast b \<in> addrs a \<Longrightarrow> addrs a \<inter> addrs b \<noteq> {}" using broadcast_in by blast
  moreover have "broadcast a \<in> addrs b \<Longrightarrow> addrs a \<inter> addrs b \<noteq> {}" using broadcast_in by blast
  ultimately show ?thesis
    unfolding overlaps_def using assms by (auto simp: in_net_iff)
qed

lemma overlaps_sym: "overlaps a b = overlaps b a"
  unfolding overlaps_def by blast

lemma overlaps_refl: "wf_net a \<Longrightarrow> overlaps a a"
  by (simp add: overlaps_iff addrs_def)

lemma subnet_of_iff: "subnet_of a b \<longleftrightarrow> addrs a \<subseteq> addrs b"
  unfolding subnet_of_def addrs_def broadcast_def
  using block_size_pos [of a] block_size_pos [of b]
  by (auto simp del: block_size_pos)

lemma subnets_wf:
  assumes "wf_net n" "subnets n p = Some ns" "m \<in> set ns"
  shows "wf_net m \<and> net_ver m = net_ver n"
proof (cases "net_len n = width (net_ver n)")
  case True
  with assms show ?thesis by (auto simp: subnets_def)
next
  case False
  let ?w = "width (net_ver n)"
  from False assms(2) have p: "net_len n \<le> p" "p \<le> ?w" by (auto simp: subnets_def split: if_splits)
  from False assms(2,3) p obtain i where i: "i < 2 ^ (p - net_len n)"
    and m: "m = \<lparr>net_ver = net_ver n, net_addr = net_addr n + i * 2 ^ (?w - p), net_len = p\<rparr>"
    by (auto simp: subnets_def split: if_splits)
  have pw: "(2::nat) ^ (?w - net_len n) = 2 ^ (p - net_len n) * 2 ^ (?w - p)"
    using p by (simp flip: power_add)
  have d: "block_size n dvd net_addr n" "net_addr n < 2 ^ ?w" using assms(1) by (auto simp: wf_net_def)
  have top: "net_addr n + block_size n \<le> 2 ^ ?w"
  proof -
    have "block_size n dvd 2 ^ ?w" by (auto simp: block_size_def intro: le_imp_power_dvd)
    with d show ?thesis
      by (metis (no_types, lifting) Suc_eq_plus1 Suc_leI add.commute block_size_pos dvd_def mult_Suc_right
          mult_le_mono2 nat_mult_less_cancel1)
  qed
  have "i * 2 ^ (?w - p) < block_size n"
    unfolding block_size_def pw using i by simp
  then have "net_addr m < 2 ^ ?w" using top m by simp
  moreover have "2 ^ (?w - p) dvd net_addr m"
    using d(1) unfolding m block_size_def pw by (auto intro!: dvd_add dest: dvd_mult_right)
  ultimately show ?thesis using p m by (simp add: wf_net_def block_size_def)
qed

lemma subnets_inside:
  assumes "subnets n p = Some ns" "m \<in> set ns"
  shows "addrs m \<subseteq> addrs n"
proof (cases "net_len n = width (net_ver n)")
  case True
  with assms show ?thesis by (auto simp: subnets_def)
next
  case False
  let ?w = "width (net_ver n)"
  from False assms have p: "net_len n \<le> p" "p \<le> ?w" by (auto simp: subnets_def split: if_splits)
  from False assms p obtain i where i: "i < 2 ^ (p - net_len n)"
    and m: "m = \<lparr>net_ver = net_ver n, net_addr = net_addr n + i * 2 ^ (?w - p), net_len = p\<rparr>"
    by (auto simp: subnets_def split: if_splits)
  have pw: "(2::nat) ^ (?w - net_len n) = 2 ^ (p - net_len n) * 2 ^ (?w - p)"
    using p by (simp flip: power_add)
  have "(i + 1) * 2 ^ (?w - p) \<le> 2 ^ (p - net_len n) * (2 ^ (?w - p) :: nat)"
    using i by (intro mult_le_mono1) simp
  then have "i * 2 ^ (?w - p) + 2 ^ (?w - p) \<le> block_size n"
    by (simp add: block_size_def pw algebra_simps)
  then show ?thesis unfolding addrs_def m by (auto simp: block_size_def)
qed

lemma subnets_len:
  assumes "subnets n p = Some ns" "m \<in> set ns" "net_len n < width (net_ver n)"
  shows "net_len m = p"
  using assms by (auto simp: subnets_def split: if_splits)

lemma subnets_nonempty: "subnets n p = Some ns \<Longrightarrow> ns \<noteq> []"
  by (auto simp: subnets_def split: if_splits)

subsection \<open>Printing and parsing\<close>

lemma parse_octet_nat_str: "n < 256 \<Longrightarrow> parse_octet (nat_str n) = Some n"
proof -
  assume n: "n < 256"
  have "nat_str n = ''0'' \<or> hd (nat_str n) \<noteq> CHR ''0''"
    using nat_str_leading [of n] by (cases "n = 0") (auto simp: nat_str.simps [of 0])
  then show ?thesis using n nat_str_length_digits [OF n] by (simp add: parse_octet_def)
qed

lemma octets_value:
  assumes "a < 2 ^ 32"
  shows "((a div 2 ^ 24 mod 256 * 256 + a div 2 ^ 16 mod 256) * 256 + a div 2 ^ 8 mod 256) * 256 + a mod 256
         = (a::nat)"
proof -
  have step: "x div 256 * 256 + x mod 256 = x" for x :: nat by (rule div_mult_mod_eq)
  have top: "a div 2 ^ 24 mod 256 = a div 2 ^ 24" using assms by simp
  have "a div 2 ^ 24 * 256 + a div 2 ^ 16 mod 256 = a div 2 ^ 16"
    using step [of "a div 2 ^ 16"] by (simp flip: div_mult2_eq)
  moreover have "a div 2 ^ 16 * 256 + a div 2 ^ 8 mod 256 = a div 2 ^ 8"
    using step [of "a div 2 ^ 8"] by (simp flip: div_mult2_eq)
  moreover have "a div 2 ^ 8 * 256 + a mod 256 = a" using step [of a] by simp
  ultimately show ?thesis unfolding top by metis
qed

theorem parse_ipv4_str: "a < 2 ^ 32 \<Longrightarrow> parse_ipv4 (ipv4_str a) = Some a"
proof -
  assume a: "a < 2 ^ 32"
  let ?os = "[a div 2 ^ 24 mod 256, a div 2 ^ 16 mod 256, a div 2 ^ 8 mod 256, a mod 256]"
  have "split_on (CHR ''.'') (ipv4_str a) = map nat_str ?os"
    unfolding ipv4_str_def by (rule split_on_join) auto
  then have "map parse_octet (split_on (CHR ''.'') (ipv4_str a)) = map Some ?os"
    by (simp add: parse_octet_nat_str)
  then show ?thesis using a octets_value [OF a] by (simp add: parse_ipv4_def)
qed

lemma ipv4_str_chars: "c \<in> set (ipv4_str a) \<Longrightarrow> is_digit c \<or> c = CHR ''.''"
  using set_join [of "''.''"] nat_str_set unfolding ipv4_str_def by fastforce

lemma ipv4_str_free [simp]:
  "CHR ''/'' \<notin> set (ipv4_str a)" "CHR '':'' \<notin> set (ipv4_str a)" "CHR '' '' \<notin> set (ipv4_str a)"
  using ipv4_str_chars is_digit_not by fastforce+

lemma ipv4_str_inj: "a < 2 ^ 32 \<Longrightarrow> b < 2 ^ 32 \<Longrightarrow> ipv4_str a = ipv4_str b \<longleftrightarrow> a = b"
  using parse_ipv4_str by (metis option.inject)

lemma parse_net4_str:
  assumes "a < 2 ^ 32" "l \<le> 32"
  shows "ip_network (ipv4_str a @ ''/'' @ nat_str l) = Some (mk_net V4 a l)"
proof -
  have "split_on (CHR ''/'') (ipv4_str a @ ''/'' @ nat_str l) = [ipv4_str a, nat_str l]"
    by (simp add: split_on_append split_on_free)
  then have "parse_net4 (ipv4_str a @ ''/'' @ nat_str l) = Some (mk_net V4 a l)"
    using assms by (simp add: parse_net4_def parse_ipv4_str parse_mask4_def parse_prefix_def)
  then show ?thesis by (simp add: ip_network_def)
qed

text \<open>Printing a network and parsing the text gives the network back.\<close>

theorem ip_network_net_str:
  assumes "wf_net n" "net_ver n = V4"
  shows "ip_network (net_str n) = Some n"
proof -
  have "mk_net V4 (net_addr n) (net_len n) = n"
  proof -
    have "mask_down V4 (net_len n) (net_addr n) = net_addr n"
      using assms in_net_iff [OF assms(1), of V4 "net_addr n"] by (simp add: in_net_def)
    then show ?thesis using assms(2) by (simp add: mk_net_def)
  qed
  then show ?thesis
    using assms parse_net4_str [of "net_addr n" "net_len n"] by (simp add: net_str_def wf_net_def)
qed

lemma parse_ipv4_bound: "parse_ipv4 s = Some a \<Longrightarrow> a < 2 ^ 32"
  unfolding parse_ipv4_def by (auto simp: parse_octet_def split: list.splits option.splits if_splits)

lemma hextet_bound: "parse_hextet s = Some h \<Longrightarrow> h < 65536"
proof -
  have fold: "foldl (\<lambda>a c. 16 * a + hex_val c) a t < (a + 1) * 16 ^ length t"
    if "list_all is_hex t" for a t
    using that
  proof (induction t arbitrary: a)
    case (Cons c t)
    have "hex_val c < 16" using Cons.prems by (auto simp: is_hex_def hex_val_def is_digit_def)
    then have le: "(16 * a + hex_val c + 1) * 16 ^ length t \<le> (16 * a + 16) * 16 ^ length t"
      by (intro mult_le_mono1) simp
    have "foldl (\<lambda>a c. 16 * a + hex_val c) (16 * a + hex_val c) t
        < (16 * a + hex_val c + 1) * 16 ^ length t"
      using Cons by simp
    also note le
    also have "(16 * a + 16) * 16 ^ length t = (a + 1) * 16 ^ length (c # t)"
      by (simp add: algebra_simps)
    finally show ?case by (simp only: foldl_Cons)
  qed simp
  assume "parse_hextet s = Some h"
  then have h: "h = foldl (\<lambda>a c. 16 * a + hex_val c) 0 s" "list_all is_hex s" "length s \<le> 4"
    by (auto simp: parse_hextet_def split: if_splits)
  have "h < 16 ^ length s" using fold [OF h(2), of 0] h(1) by simp
  also have "\<dots> \<le> (16::nat) ^ 4" using h(3) by (intro power_increasing) auto
  finally have "h < 16 ^ 4" .
  then show ?thesis by simp
qed

lemma join_hextets_bound:
  "join_hextets a ps = Some r \<Longrightarrow> a < 65536 ^ k \<Longrightarrow> r < 65536 ^ (k + length ps)"
proof (induction ps arbitrary: a k)
  case (Cons p ps)
  from Cons.prems obtain h where h: "parse_hextet p = Some h"
    and r: "join_hextets (a * 65536 + h) ps = Some r" by (auto split: option.splits)
  have "a + 1 \<le> 65536 ^ k" using Cons.prems(2) by simp
  then have "(a + 1) * 65536 \<le> 65536 ^ Suc k" by simp
  then have "a * 65536 + h < 65536 ^ Suc k" using hextet_bound [OF h] by simp
  from Cons.IH [OF r this] show ?case by simp
qed simp

lemma ipv6_gap_bound:
  assumes "ipv6_gap ps k = Some a"
  shows "a < 65536 ^ 8"
proof -
  define hi where "hi = (if hd ps = [] then k - 1 else k)"
  define lo where "lo = (if last ps = [] then length ps - k - 2 else length ps - k - 1)"
  from assms obtain b where gap: "hi + lo < 8" "join_hextets 0 (take hi ps) = Some b"
    "join_hextets (b * 65536 ^ (8 - (hi + lo))) (drop (length ps - lo) ps) = Some a"
    unfolding ipv6_gap_def Let_def hi_def [symmetric] lo_def [symmetric]
    by (auto split: if_splits option.splits)
  have lo: "lo \<le> length ps" by (simp add: lo_def)
  have "b < 65536 ^ (0 + length (take hi ps))" using join_hextets_bound [OF gap(2), of 0] by simp
  also have "\<dots> \<le> (65536::nat) ^ hi" by (intro power_increasing) auto
  finally have "b * 65536 ^ (8 - (hi + lo)) < 65536 ^ hi * 65536 ^ (8 - (hi + lo))" by simp
  also have "\<dots> = (65536::nat) ^ (8 - lo)" using gap(1) by (simp flip: power_add)
  finally have "a < 65536 ^ (8 - lo + length (drop (length ps - lo) ps))"
    using join_hextets_bound [OF gap(3)] by blast
  moreover have "8 - lo + length (drop (length ps - lo) ps) = 8" using gap(1) lo by simp
  ultimately show ?thesis by simp
qed

lemma ipv6_value_bound: "ipv6_value ps = Some a \<Longrightarrow> a < 65536 ^ 8"
  using join_hextets_bound [of 0 ps a 0] ipv6_gap_bound
  by (auto simp: ipv6_value_def split: list.splits if_splits)

lemma parse_ipv6_bound: "parse_ipv6 s = Some a \<Longrightarrow> a < 2 ^ 128"
  using ipv6_value_bound by (fastforce simp: parse_ipv6_def split: option.splits if_splits)

lemma parse_prefix_bound: "parse_prefix w s = Some l \<Longrightarrow> l \<le> w"
  by (auto simp: parse_prefix_def split: if_splits)

lemma mask_prefix_bound: "mask_prefix m = Some l \<Longrightarrow> l \<le> 32"
  by (auto simp: mask_prefix_def find_Some_iff)

lemma parse_mask4_bound: "parse_mask4 s = Some l \<Longrightarrow> l \<le> 32"
  by (auto simp: parse_mask4_def split: option.splits dest: parse_prefix_bound mask_prefix_bound)

lemma parse_net4_wf: "parse_net4 s = Some n \<Longrightarrow> wf_net n \<and> net_ver n = V4"
  by (auto simp: parse_net4_def split: list.splits option.splits
      dest!: parse_ipv4_bound parse_mask4_bound intro!: wf_mk_net)

lemma parse_net6_wf: "parse_net6 s = Some n \<Longrightarrow> wf_net n \<and> net_ver n = V6"
  by (auto simp: parse_net6_def split: list.splits option.splits
      dest!: parse_ipv6_bound parse_prefix_bound intro!: wf_mk_net)

theorem ip_network_wf: "ip_network s = Some n \<Longrightarrow> wf_net n"
  by (auto simp: ip_network_def split: option.splits dest: parse_net4_wf parse_net6_wf)

subsection \<open>Blocks inside blocks\<close>

lemma mk_net_inside:
  assumes "wf_net c" "a \<in> addrs c" "net_len c \<le> l" "l \<le> width (net_ver c)"
  shows "addrs (mk_net (net_ver c) a l) \<subseteq> addrs c"
proof -
  let ?s = "2 ^ (width (net_ver c) - l) :: nat" and ?S = "block_size c"
  have "?s dvd ?S" using assms(3) by (simp add: block_size_def le_imp_power_dvd)
  then obtain m where m: "?S = m * ?s" by (auto elim: dvdE simp: mult.commute)
  have "?s dvd net_addr c" using \<open>?s dvd ?S\<close> assms(1) by (auto simp: wf_net_def intro: dvd_trans)
  then obtain k where k: "net_addr c = k * ?s" by (auto elim: dvdE simp: mult.commute)
  have "k \<le> a div ?s" "a div ?s < k + m"
    using assms(2) by (auto simp: addrs_def k m less_eq_div_iff_mult_less_eq div_less_iff_less_mult algebra_simps)
  then have "k * ?s \<le> a div ?s * ?s" "(a div ?s + 1) * ?s \<le> (k + m) * ?s"
    by (simp_all only: mult_le_mono1 Suc_eq_plus1 [symmetric] Suc_leI)
  then show ?thesis
    by (auto simp: addrs_def mask_down_def block_size_def [of "mk_net _ _ _"] k m algebra_simps)
qed

lemma mk_net_self: "wf_net c \<Longrightarrow> mk_net (net_ver c) (net_addr c) (net_len c) = c"
  by (auto simp: wf_net_def mask_down_def block_size_def mk_net_def)

lemma supernet_wf: "wf_net c \<Longrightarrow> wf_net (supernet c) \<and> net_ver (supernet c) = net_ver c \<and> addrs c \<subseteq> addrs (supernet c)"
proof -
  assume c: "wf_net c"
  show ?thesis
  proof (cases "net_len c = 0")
    case False
    let ?d = "mk_net (net_ver c) (net_addr c) (net_len c - 1)"
    have d: "wf_net ?d" using c by (intro wf_mk_net) (auto simp: wf_net_def)
    have "addrs (mk_net (net_ver ?d) (net_addr c) (net_len c)) \<subseteq> addrs ?d"
      using c by (intro mk_net_inside [OF d mk_net_addr_in]) (auto simp: wf_net_def)
    then show ?thesis using d False by (simp add: supernet_def mk_net_self [OF c])
  qed (simp add: supernet_def c)
qed

lemma supernet_smallest:
  assumes "wf_net c" "wf_net d" "net_ver d = net_ver c" "addrs c \<subset> addrs d"
  shows "addrs (supernet c) \<subseteq> addrs d"
proof -
  have "card (addrs c) < card (addrs d)" by (rule psubset_card_mono [OF _ assms(4)]) (simp add: addrs_def)
  then have "block_size c < block_size d" by (simp add: addrs_def)
  then have l: "net_len d < net_len c" using assms(1-3) by (auto simp: block_size_def wf_net_def)
  moreover have "net_addr c \<in> addrs d" using assms(4) net_addr_in by blast
  ultimately have "addrs (mk_net (net_ver d) (net_addr c) (net_len c - 1)) \<subseteq> addrs d"
    using assms(1-3) by (intro mk_net_inside) (auto simp: wf_net_def)
  with l assms(3) show ?thesis by (simp add: supernet_def)
qed

lemma net_len_0_all: "wf_net c \<Longrightarrow> net_len c = 0 \<Longrightarrow> addrs c = {..<2 ^ width (net_ver c)}"
  by (auto simp: wf_net_def addrs_def block_size_def dvd_def)

lemma wf_addrs_bound: "wf_net n \<Longrightarrow> addrs n \<subseteq> {..<2 ^ width (net_ver n)}"
proof -
  assume n: "wf_net n"
  let ?z = "\<lparr>net_ver = net_ver n, net_addr = 0, net_len = 0\<rparr>"
  have z: "wf_net ?z" by (simp add: wf_net_def)
  have "addrs (mk_net (net_ver ?z) (net_addr n) (net_len n)) \<subseteq> addrs ?z"
    using n unfolding wf_net_def by (intro mk_net_inside [OF z]) (simp_all add: addrs_def block_size_def)
  moreover have "addrs ?z = {..<2 ^ width (net_ver n)}" by (simp add: addrs_def block_size_def lessThan_atLeast0)
  ultimately show ?thesis by (simp add: mk_net_self [OF n])
qed

lemma mk_net_of_mem: "wf_net c \<Longrightarrow> x \<in> addrs c \<Longrightarrow> mk_net (net_ver c) x (net_len c) = c"
  using in_net_iff [of c "net_ver c" x] by (simp add: in_net_def mk_net_def)

lemma nets_nested:
  assumes "wf_net a" "wf_net b" "net_ver a = net_ver b" "addrs a \<inter> addrs b \<noteq> {}"
  shows "addrs a \<subseteq> addrs b \<or> addrs b \<subseteq> addrs a"
proof -
  obtain x where x: "x \<in> addrs a" "x \<in> addrs b" using assms(4) by blast
  show ?thesis
  proof (cases "net_len a \<le> net_len b")
    case True
    have "addrs (mk_net (net_ver a) x (net_len b)) \<subseteq> addrs a"
      using True assms x by (intro mk_net_inside) (auto simp: wf_net_def)
    then show ?thesis using mk_net_of_mem [OF assms(2) x(2)] assms(3) by simp
  next
    case False
    have "addrs (mk_net (net_ver b) x (net_len a)) \<subseteq> addrs b"
      using False assms x by (intro mk_net_inside) (auto simp: wf_net_def)
    then show ?thesis using mk_net_of_mem [OF assms(1) x(1)] assms(3) by simp
  qed
qed

lemma card_addrs [simp]: "card (addrs n) = block_size n"
  by (simp add: addrs_def)

lemma finite_addrs [simp]: "finite (addrs n)"
  by (simp add: addrs_def)

lemma net_len_of_size: "wf_net a \<Longrightarrow> wf_net b \<Longrightarrow> net_ver a = net_ver b \<Longrightarrow> block_size a < block_size b \<Longrightarrow> net_len b < net_len a"
  by (auto simp: wf_net_def block_size_def)

lemma net_eqI:
  assumes "wf_net a" "wf_net b" "net_ver a = net_ver b" "addrs a = addrs b"
  shows "a = b"
proof -
  have "block_size a = block_size b" using assms(4) card_addrs by metis
  then have "net_len a = net_len b" using assms(1-3) by (auto simp: wf_net_def block_size_def)
  moreover have "mk_net (net_ver a) (net_addr a) (net_len a) = a" by (rule mk_net_self [OF assms(1)])
  moreover have "mk_net (net_ver b) (net_addr a) (net_len b) = b"
    by (rule mk_net_of_mem [OF assms(2)]) (use net_addr_in [of a] assms(4) in blast)
  ultimately show ?thesis using assms(3) by metis
qed

text \<open>The equations that evaluate the parsers on a literal.\<close>

lemmas net_eval = ip_network_def parse_net4_def parse_net6_def parse_mask4_def parse_prefix_def parse_ipv4_def parse_octet_def
  isdigit_def is_digit_def digits_val_def digit_val_def mk_net_def mask_down_def

lemma parse_ipv6_colon: "parse_ipv6 s = Some a \<Longrightarrow> CHR '':'' \<in> set s"
proof (rule ccontr)
  assume a: "parse_ipv6 s = Some a" and no: "CHR '':'' \<notin> set s"
  obtain t where t: "split_scope_id s = Some t" using a by (auto simp: parse_ipv6_def split: option.splits)
  then have "t \<in> set (split_on (CHR ''%'') s)" by (auto simp: split_scope_id_def split: list.splits if_splits)
  then have "set t \<subseteq> set s" using split_on_set by blast
  then have "split_on (CHR '':'') t = [t]" using no by (intro split_on_free) blast
  then show False using a t by (auto simp: parse_ipv6_def ipv6_parts_def Let_def split: if_splits)
qed

lemma parse_net6_colon: "parse_net6 s = Some n \<Longrightarrow> CHR '':'' \<in> set s"
proof -
  assume n: "parse_net6 s = Some n"
  then obtain p where "p \<in> set (split_on (CHR ''/'') s)" "parse_ipv6 p \<noteq> None"
    by (auto simp: parse_net6_def split: list.splits option.splits)
  then show ?thesis using parse_ipv6_colon split_on_set by blast
qed

lemma slash32: "CHR ''/'' \<notin> set s \<Longrightarrow> parse_net4 (s @ ''/32'') = map_option (\<lambda>a. mk_net V4 a 32) (parse_ipv4 s)"
proof -
  assume "CHR ''/'' \<notin> set s"
  then have "split_on (CHR ''/'') (s @ ''/32'') = [s, ''32'']" by (simp add: split_on_append split_on_free)
  moreover have "parse_mask4 ''32'' = Some 32" by (simp add: net_eval)
  ultimately show ?thesis by (cases "parse_ipv4 s") (simp_all add: parse_net4_def)
qed

lemma mk_net_32 [simp]: "net_addr (mk_net V4 a 32) = a" "addrs (mk_net V4 a 32) = {a}"
  by (auto simp: mask_down_def addrs_def block_size_def)

lemma ip_empty [simp]: "ip_network [] = None" "ip_address [] = None"
  by (simp_all add: ip_network_def parse_net4_def parse_net6_def parse_ipv4_def parse_octet_def isdigit_def
      ip_address_def parse_ipv6_def split_scope_id_def ipv6_parts_def)

end
