(* ===== verification/Peering.thy ===== *)
theory Peering
  imports Cas Ipaddress
begin

section \<open>VPC peering (\<open>core/vpc_peering.py\<close>)\<close>

text \<open>
  A peering is an entry of \<open>spec.vpcPeerings\<close> on each of two VPCs. The operations declare one
  side, drop one side and list the pairs that touch a VPC; the writes go through the compare-and-set
  loop of \<open>Cas\<close>.
\<close>

type_synonym 'w vpc_api = "('w, vpc_spec, vpc_patch) custom_api"

definition transit_prefix_len :: "string \<Rightarrow> exc + nat" where
  "transit_prefix_len cidr =
     (case parse_net4 cidr of None \<Rightarrow> Inl ValueError | Some n \<Rightarrow> Inr (net_len n))"

definition vpc_coords :: "string \<Rightarrow> coords" where
  "vpc_coords name = \<lparr>co_group = ''kubeovn.io'', co_version = ''v1'', co_plural = ''vpcs'', co_name = name\<rparr>"

definition get_vpc :: "'w vpc_api \<Rightarrow> string \<Rightarrow> ('w, vpc_spec cr option) io" where
  "get_vpc api name = (\<lambda>w.
     case get_cluster_custom_object api (vpc_coords name) w of
       (Inl e, w1) \<Rightarrow> if e = ApiException 404 then (Inr None, w1) else (Inl e, w1)
     | (Inr v, w1) \<Rightarrow> (Inr (Some v), w1))"

definition has_peering :: "vpc_spec \<Rightarrow> string \<Rightarrow> string \<Rightarrow> bool" where
  "has_peering spec remote ip \<longleftrightarrow>
     (\<exists>p \<in> set (or_nil (vpcPeerings spec)). remoteVpc p = Some remote \<and> localConnectIP p = Some ip)"

definition ensure_peering_mutate :: "string \<Rightarrow> string \<Rightarrow> vpc_spec \<Rightarrow> vpc_patch option" where
  "ensure_peering_mutate remote ip spec =
     (let peerings = or_nil (vpcPeerings spec);
          entry = \<lparr>remoteVpc = Some remote, localConnectIP = Some ip\<rparr>
      in if has_peering spec remote ip then None
         else Some (empty_vpc_patch\<lparr>vp_vpcPeerings := Some (upsert peerings entry remoteVpc)\<rparr>))"

definition ensure_vpc_peering :: "'w vpc_api \<Rightarrow> string \<Rightarrow> string \<Rightarrow> string \<Rightarrow> ('w, bool) io" where
  "ensure_vpc_peering api name remote ip =
     bind_io (patch_spec_with_retry api None (vpc_coords name)
        (\<lambda>s. Inr (ensure_peering_mutate remote ip s)) DEFAULT_RETRIES)
       (\<lambda>ok. if ok then ret True
             else bind_io (get_vpc api name) (\<lambda>v. ret (v \<noteq> None)))"

definition remove_peering_mutate :: "string \<Rightarrow> vpc_spec \<Rightarrow> vpc_patch option" where
  "remove_peering_mutate remote spec =
     (let peerings = or_nil (vpcPeerings spec);
          remaining = filter (\<lambda>p. remoteVpc p \<noteq> Some remote) peerings
      in if length remaining = length peerings then None
         else Some (empty_vpc_patch\<lparr>vp_vpcPeerings := Some remaining\<rparr>))"

definition remove_vpc_peering :: "'w vpc_api \<Rightarrow> string \<Rightarrow> string \<Rightarrow> ('w, unit) io" where
  "remove_vpc_peering api name remote =
     bind_io (patch_spec_with_retry api None (vpc_coords name)
        (\<lambda>s. Inr (remove_peering_mutate remote s)) DEFAULT_RETRIES)
       (\<lambda>_. ret ())"

definition peering_pairs :: "string \<Rightarrow> vpc_spec cr list \<Rightarrow> (string \<times> string) list" where
  "peering_pairs vpc items =
     concat (map (\<lambda>item. map (\<lambda>p. (cr_name item, or_nil (remoteVpc p)))
        (filter (\<lambda>p. vpc = cr_name item \<or> vpc = or_nil (remoteVpc p)) (or_nil (vpcPeerings (cr_spec item)))))
      items)"

definition list_vpc_peerings ::
  "('w, vpc_spec cr list) io \<Rightarrow> string \<Rightarrow> ('w, (string \<times> string) list) io" where
  "list_vpc_peerings list_vpcs vpc = (\<lambda>w.
     case list_vpcs w of
       (Inl e, w1) \<Rightarrow> if is_api e then (Inr [], w1) else (Inl e, w1)
     | (Inr items, w1) \<Rightarrow> (Inr (peering_pairs vpc items), w1))"

subsection \<open>Correctness\<close>

text \<open>The entries of a VPC that belong to other links than the one to \<open>remote\<close>.\<close>

definition other_peerings :: "string \<Rightarrow> vpc_spec \<Rightarrow> vpc_peering list" where
  "other_peerings remote spec = filter (\<lambda>p. remoteVpc p \<noteq> Some remote) (or_nil (vpcPeerings spec))"

lemma merge_peerings:
  "or_nil (vpcPeerings (merge_vpc s (empty_vpc_patch\<lparr>vp_vpcPeerings := Some ps\<rparr>))) = ps"
  by (simp add: merge_vpc_def or_else_def empty_vpc_patch_def)

lemma ensure_mutate_None: "ensure_peering_mutate remote ip spec = None \<longleftrightarrow> has_peering spec remote ip"
  by (simp add: ensure_peering_mutate_def Let_def)

lemma ensure_mutate_Some:
  assumes "ensure_peering_mutate remote ip spec = Some p"
  shows "has_peering (merge_vpc spec p) remote ip"
    and "other_peerings remote (merge_vpc spec p) = other_peerings remote spec"
    and "length (filter (\<lambda>q. remoteVpc q = Some remote) (or_nil (vpcPeerings (merge_vpc spec p)))) = 1"
proof -
  let ?e = "\<lparr>remoteVpc = Some remote, localConnectIP = Some ip\<rparr>"
  let ?ps = "upsert (or_nil (vpcPeerings spec)) ?e remoteVpc"
  from assms have p: "p = empty_vpc_patch\<lparr>vp_vpcPeerings := Some ?ps\<rparr>"
    by (auto simp: ensure_peering_mutate_def Let_def split: if_splits)
  show "has_peering (merge_vpc spec p) remote ip"
    unfolding has_peering_def p merge_peerings by (rule bexI [of _ ?e]) (simp_all add: upsert_mem)
  show "other_peerings remote (merge_vpc spec p) = other_peerings remote spec"
    unfolding other_peerings_def p merge_peerings using upsert_others [of remoteVpc ?e] by simp
  show "length (filter (\<lambda>q. remoteVpc q = Some remote) (or_nil (vpcPeerings (merge_vpc spec p)))) = 1"
    unfolding p merge_peerings using upsert_matching [of remoteVpc ?e] by simp
qed

lemma remove_mutate_None:
  "remove_peering_mutate remote spec = None \<longleftrightarrow> other_peerings remote spec = or_nil (vpcPeerings spec)"
proof -
  have "length (filter P xs) = length xs \<longleftrightarrow> filter P xs = xs" for P and xs :: "vpc_peering list"
    by (metis filter_id_conv length_filter_less linorder_neq_iff)
  then show ?thesis by (simp add: remove_peering_mutate_def other_peerings_def Let_def)
qed

lemma remove_mutate_Some:
  assumes "remove_peering_mutate remote spec = Some p"
  shows "or_nil (vpcPeerings (merge_vpc spec p)) = other_peerings remote spec"
proof -
  from assms have "p = empty_vpc_patch\<lparr>vp_vpcPeerings := Some (other_peerings remote spec)\<rparr>"
    by (auto simp: remove_peering_mutate_def other_peerings_def Let_def split: if_splits)
  then show ?thesis by (simp add: merge_peerings)
qed

lemma peering_pairs_touch: "(a, b) \<in> set (peering_pairs vpc items) \<Longrightarrow> vpc = a \<or> vpc = b"
  by (auto simp: peering_pairs_def)

lemma peering_pairs_complete:
  "item \<in> set items \<Longrightarrow> p \<in> set (or_nil (vpcPeerings (cr_spec item))) \<Longrightarrow>
   vpc = cr_name item \<or> remoteVpc p = Some vpc \<Longrightarrow>
   (cr_name item, or_nil (remoteVpc p)) \<in> set (peering_pairs vpc items)"
  by (force simp: peering_pairs_def)

abbreviation vpc_cas ::
  "('w \<Rightarrow> 'w \<Rightarrow> bool) \<Rightarrow> ('w \<Rightarrow> (vpc_spec \<times> string) option) \<Rightarrow> 'w vpc_api \<Rightarrow> string \<Rightarrow> bool" where
  "vpc_cas rely cur api name \<equiv>
     cas_object rely cur (get_cluster_custom_object api (vpc_coords name))
       (patch_cluster_custom_object api (vpc_coords name)) merge_vpc"

lemma patch_vpc_conv:
  "patch_spec_with_retry api None (vpc_coords name) m n =
   cas_attempts (get_cluster_custom_object api (vpc_coords name))
     (patch_cluster_custom_object api (vpc_coords name)) m n"
proof -
  have "cas_patch api None (vpc_coords name) = patch_cluster_custom_object api (vpc_coords name)"
    by (rule ext) (simp add: cas_patch_def)
  then show ?thesis by (intro ext) (simp add: patch_spec_with_retry_def cas_get_def)
qed

subsection \<open>Properties\<close>

lemma get_vpc_ret: "get_vpc api name w = (Inr v, w') \<Longrightarrow>
    (v = None \<and> get_cluster_custom_object api (vpc_coords name) w = (Inl (ApiException 404), w'))
  \<or> (\<exists>x. v = Some x \<and> get_cluster_custom_object api (vpc_coords name) w = (Inr x, w'))"
  by (auto simp: get_vpc_def split: prod.splits sum.splits if_splits)

text \<open>With the VPC not created while the call runs, \<open>ensure_vpc_peering\<close> returns \<open>True\<close> only when
  the entry was in place in the content it saw or wrote, with every entry of another link kept, and
  \<open>False\<close> only when the VPC is missing.\<close>

theorem ensure_vpc_peering_correct:
  assumes law: "vpc_cas rely cur api name"
    and gone: "\<And>u u'. rely u u' \<Longrightarrow> cur u = None \<Longrightarrow> cur u' = None"
    and run: "ensure_vpc_peering api name remote ip w = (Inr b, w')"
  shows "if b then \<exists>w1 w2 d v d' v'. rely w w1 \<and> cur w1 = Some (d, v) \<and> cur w2 = Some (d', v')
               \<and> (w2 = w' \<or> rely w2 w')
               \<and> has_peering d' remote ip \<and> other_peerings remote d' = other_peerings remote d
         else cur w' = None"
proof -
  note laws = cas_objectD [OF law]
  let ?m = "\<lambda>s. Inr (ensure_peering_mutate remote ip s)"
  from run obtain ok u where p: "patch_spec_with_retry api None (vpc_coords name) ?m DEFAULT_RETRIES w = (Inr ok, u)"
    and rest: "(if ok then ret True else bind_io (get_vpc api name) (\<lambda>v. ret (v \<noteq> None))) u = (Inr b, w')"
    by (auto simp: ensure_vpc_peering_def bind_io_Inr)
  note p = p [unfolded patch_vpc_conv]
  show ?thesis
  proof (cases ok)
    case True
    with rest have "b" "w' = u" by auto
    moreover obtain w1 d v q v' where "rely w w1" "cur w1 = Some (d, v)" "ensure_peering_mutate remote ip d = Some q"
      "cur u = Some (merge_vpc d q, v')"
      using cas_attempts_True [OF law p [unfolded eqTrueI [OF True]]] by auto
    ultimately show ?thesis using ensure_mutate_Some(1,2) [of remote ip d q] by simp blast
  next
    case False
    with rest obtain v where g: "get_vpc api name u = (Inr v, w')" and b: "b = (v \<noteq> None)"
      by (auto simp: bind_io_Inr)
    have f: "rely w u" "cur u = None \<or> (\<exists>d v. cur u = Some (d, v) \<and> ?m d = Inr None)"
      using cas_attempts_False [OF law, of DEFAULT_RETRIES ?m w u] p False by (auto simp: DEFAULT_RETRIES_def)
    have r: "rely u w'" using get_vpc_ret [OF g] laws(4) by blast
    show ?thesis
    proof (cases v)
      case None
      then show ?thesis using b get_vpc_ret [OF g] laws(6) by auto
    next
      case (Some x)
      then have "cur w' \<noteq> None" using get_vpc_ret [OF g] laws(5) by fastforce
      then obtain d v where "cur u = Some (d, v)" "?m d = Inr None" using f(2) gone [OF r] by auto
      then show ?thesis using b Some f(1) r by (simp add: ensure_mutate_None) blast
    qed
  qed
qed

definition demo_vpc :: "vpc_peering list \<Rightarrow> vpc_spec" where
  "demo_vpc ps = \<lparr>vpcPeerings = Some ps, extraExternalSubnets = None, policyRoutes = None, staticRoutes = None,
     enableExternal = None, vpc_namespaces = None\<rparr>"

lemma demo_vpc_cas: "vpc_cas (=) mem_cur (mem_custom_api merge_vpc) name"
  using mem_cas_object [of "name"] by (simp add: mem_custom_api_def vpc_coords_def)

theorem ensure_vpc_peering_correct_witness:
  "\<exists>d v. (mem_cur (Some (d, v :: nat)) :: (vpc_spec \<times> string) option) = Some (d, nat_str v)
     \<and> has_peering d ''vpc-b'' ''10.255.0.1/24''
     \<and> other_peerings ''vpc-b'' d = [\<lparr>remoteVpc = Some ''vpc-c'', localConnectIP = Some ''10.255.0.5/24''\<rparr>]"
proof -
  let ?c = "\<lparr>remoteVpc = Some ''vpc-c'', localConnectIP = Some ''10.255.0.5/24''\<rparr>"
  let ?b = "\<lparr>remoteVpc = Some ''vpc-b'', localConnectIP = Some ''10.255.0.1/24''\<rparr>"
  have "ensure_vpc_peering (mem_custom_api merge_vpc) ''vpc-a'' ''vpc-b'' ''10.255.0.1/24'' (Some (demo_vpc [?c], 1)) =
     (Inr True, Some (demo_vpc [?c, ?b], 2))"
    by (simp add: ensure_vpc_peering_def bind_io_def patch_spec_with_retry_def DEFAULT_RETRIES_def numeral_eq_Suc
        mem_custom_api_def cas_get_def cas_patch_def mem_get_def mem_patch_def ensure_peering_mutate_def
        has_peering_def demo_vpc_def upsert_def merge_vpc_def or_else_def empty_vpc_patch_def)
  from ensure_vpc_peering_correct [OF demo_vpc_cas _ this]
  show ?thesis by (auto simp: mem_cur_def demo_vpc_def other_peerings_def)
qed

definition racing_api :: "(nat \<times> vpc_spec) vpc_api" where
  "racing_api = \<lparr>get_cluster_custom_object = (\<lambda>co (n, s).
       if n = 0 then (Inl (ApiException 404), (1, s))
       else (Inr \<lparr>cr_name = co_name co, cr_labels = [], cr_rv = ''1'', cr_spec = s\<rparr>, (n, s))),
     get_namespaced_custom_object = (\<lambda>n co w. (Inl OtherError, w)),
     patch_cluster_custom_object = (\<lambda>co b w. (Inl (ApiException 409), w)),
     patch_namespaced_custom_object = (\<lambda>n co b w. (Inl OtherError, w))\<rparr>"

text \<open>A VPC that is created between the two reads of \<open>ensure_vpc_peering\<close> makes it report the entry
  in place although nothing was written.\<close>

theorem ensure_vpc_peering_race:
  "ensure_vpc_peering racing_api ''vpc-a'' ''vpc-b'' ''10.255.0.1/24'' (0, demo_vpc []) = (Inr True, (1, demo_vpc []))
   \<and> \<not> has_peering (demo_vpc []) ''vpc-b'' ''10.255.0.1/24''"
  by (simp add: ensure_vpc_peering_def bind_io_def patch_spec_with_retry_def DEFAULT_RETRIES_def numeral_eq_Suc
        racing_api_def cas_get_def cas_patch_def get_vpc_def has_peering_def demo_vpc_def)

text \<open>\<open>remove_vpc_peering\<close> returns only when the VPC is gone or the entries to the remote
  VPC are, and it keeps the entries of every other link.\<close>

theorem remove_vpc_peering_correct:
  assumes law: "vpc_cas rely cur api name"
    and run: "remove_vpc_peering api name remote w = (Inr (), w')"
  shows "cur w' = None \<or> (\<exists>w1 d v d' v'. rely w w1 \<and> cur w1 = Some (d, v) \<and> cur w' = Some (d', v')
            \<and> or_nil (vpcPeerings d') = other_peerings remote d)"
proof -
  let ?m = "\<lambda>s. Inr (remove_peering_mutate remote s)"
  from run obtain ok where p: "patch_spec_with_retry api None (vpc_coords name) ?m DEFAULT_RETRIES w = (Inr ok, w')"
    by (auto simp: remove_vpc_peering_def bind_io_Inr)
  note p = p [unfolded patch_vpc_conv]
  show ?thesis
  proof (cases ok)
    case True
    obtain w1 d v q v' where "rely w w1" "cur w1 = Some (d, v)" "remove_peering_mutate remote d = Some q"
      "cur w' = Some (merge_vpc d q, v')"
      using cas_attempts_True [OF law p [unfolded eqTrueI [OF True]]] by auto
    then show ?thesis using remove_mutate_Some [of remote d q] by blast
  next
    case False
    have "rely w w'" "cur w' = None \<or> (\<exists>d v. cur w' = Some (d, v) \<and> ?m d = Inr None)"
      using cas_attempts_False [OF law, of DEFAULT_RETRIES ?m w w'] p False by (auto simp: DEFAULT_RETRIES_def)
    then show ?thesis by (auto simp: remove_mutate_None)
  qed
qed

theorem remove_vpc_peering_correct_witness:
  "\<exists>d. or_nil (vpcPeerings (demo_vpc [])) = other_peerings ''vpc-b'' d"
proof -
  let ?b = "\<lparr>remoteVpc = Some ''vpc-b'', localConnectIP = Some ''10.255.0.1/24''\<rparr>"
  have "remove_vpc_peering (mem_custom_api merge_vpc) ''vpc-a'' ''vpc-b'' (Some (demo_vpc [?b], 1)) =
     (Inr (), Some (demo_vpc [], 2))"
    by (simp add: remove_vpc_peering_def bind_io_def patch_spec_with_retry_def DEFAULT_RETRIES_def numeral_eq_Suc
        mem_custom_api_def cas_get_def cas_patch_def mem_get_def mem_patch_def remove_peering_mutate_def
        demo_vpc_def merge_vpc_def or_else_def empty_vpc_patch_def)
  from remove_vpc_peering_correct [OF demo_vpc_cas this] show ?thesis by (auto simp: mem_cur_def)
qed
end
