(* ===== verification/Allocators.thy ===== *)
theory Allocators
  imports Kube Ipaddress
begin

section \<open>Address allocation (\<open>core/allocators.py\<close>)\<close>

text \<open>
  VPC ranges are carved out of a supernet, peering links out of \<open>169.254.101.0/24\<close>. Both are
  reserved through a counter in a ConfigMap that is replaced under its resourceVersion, and both look
  at the ranges that are really in use. The environment is the function \<open>env\<close>, the API calls are
  arguments. Sleeping between two attempts is not modelled.
\<close>

subsection \<open>Configuration\<close>

definition DEFAULT_TENANT_SUPERNET :: string where
  "DEFAULT_TENANT_SUPERNET = ''10.200.0.0/14''"

definition DEFAULT_VPC_PREFIX :: int where
  "DEFAULT_VPC_PREFIX = 22"

definition vpc_supernet :: "(string \<Rightarrow> string option) \<Rightarrow> string" where
  "vpc_supernet env =
     (if truthy (env ''TENANT_SUPERNET'') then the (env ''TENANT_SUPERNET'') else DEFAULT_TENANT_SUPERNET)"

definition vpc_prefix_len :: "(string \<Rightarrow> string option) \<Rightarrow> int" where
  "vpc_prefix_len env =
     (let raw = or_nil (env ''TENANT_VPC_PREFIX'')
      in if raw \<noteq> [] then (case py_int raw of Some i \<Rightarrow> i | None \<Rightarrow> DEFAULT_VPC_PREFIX)
         else DEFAULT_VPC_PREFIX)"

definition MAX_RETRIES :: nat where
  "MAX_RETRIES = 5"

subsection \<open>Overlap with existing subnets\<close>

definition subnet_cidr_parts :: "subnet_spec cr \<Rightarrow> (string \<times> string) list" where
  "subnet_cidr_parts item =
     map (Pair (cr_name item))
       (filter (\<lambda>p. p \<noteq> []) (map strip (split_on (CHR '','') (or_nil (cidrBlock (cr_spec item))))))"

definition list_subnet_cidrs :: "('w, subnet_spec cr list) io \<Rightarrow> ('w, (string \<times> string) list) io" where
  "list_subnet_cidrs list_subnets = (\<lambda>w.
     case list_subnets w of
       (Inl e, w1) \<Rightarrow> if is_api e then (Inr [], w1) else (Inl e, w1)
     | (Inr items, w1) \<Rightarrow> (Inr (concat (map subnet_cidr_parts items)), w1))"

definition conflicts_with :: "ip_net \<Rightarrow> string \<Rightarrow> bool" where
  "conflicts_with wanted other =
     (case ip_network other of
        None \<Rightarrow> False
      | Some parsed \<Rightarrow> net_ver parsed = net_ver wanted \<and> overlaps wanted parsed)"

definition find_cidr_conflicts :: "string \<Rightarrow> (string \<times> string) list \<Rightarrow> string list" where
  "find_cidr_conflicts cidr existing =
     (case ip_network cidr of
        None \<Rightarrow> []
      | Some wanted \<Rightarrow>
          map (\<lambda>(name, other). name @ '' ('' @ other @ '')'')
            (filter (\<lambda>(name, other). conflicts_with wanted other) existing))"

definition assert_cidr_free :: "('w, subnet_spec cr list) io \<Rightarrow> string \<Rightarrow> ('w, unit) io" where
  "assert_cidr_free list_subnets cidr =
     bind_io (list_subnet_cidrs list_subnets)
       (\<lambda>existing. if find_cidr_conflicts cidr existing \<noteq> [] then raise (HTTPException 409) else ret ())"

subsection \<open>The counter\<close>

definition counter_body :: "string \<Rightarrow> string option \<Rightarrow> int \<Rightarrow> config_map" where
  "counter_body name rv i =
     \<lparr>cm_name = name, cm_labels = [(''kubevirt-ui.io/managed'', ''true'')], cm_rv = rv,
      cm_data = Some [(''next_index'', int_str i)]\<rparr>"

text \<open>\<open>int(data.get("next_index", "0"))\<close>.\<close>

definition next_index_of :: "string dict \<Rightarrow> int option" where
  "next_index_of data =
     py_int (case dict_get data ''next_index'' of None \<Rightarrow> ''0'' | Some s \<Rightarrow> s)"

text \<open>Read the counter, creating it at 0 when the ConfigMap is missing: the first part of
  \<open>_allocate_vpc_cidr_once\<close> and of \<open>_allocate_peering_link_once\<close>.\<close>

definition read_counter :: "'w cm_api \<Rightarrow> string \<Rightarrow> ('w, int \<times> string option) io" where
  "read_counter api name = (\<lambda>w.
     case read_config_map api w of
       (Inr cm, w1) \<Rightarrow>
         (case next_index_of (or_nil (cm_data cm)) of
            None \<Rightarrow> (Inl ValueError, w1)
          | Some i \<Rightarrow> (Inr (i, cm_rv cm), w1))
     | (Inl e, w1) \<Rightarrow>
         if e = ApiException 404 then
           bind_io (create_config_map api (counter_body name None 0)) (\<lambda>cm. ret (0, cm_rv cm)) w1
         else (Inl e, w1))"

subsection \<open>VPC ranges\<close>

definition VPC_CIDR_CONFIGMAP :: string where
  "VPC_CIDR_CONFIGMAP = ''vpc-cidr-allocator''"

text \<open>The ring scan: the first free range at or after the counter, wrapping around.\<close>

definition choose_range ::
  "ip_net list \<Rightarrow> (string \<times> string) list \<Rightarrow> int \<Rightarrow> (int \<times> string) option" where
  "choose_range candidates existing index =
     (let n = int (length candidates);
          at = (\<lambda>off. (index + int off) mod n)
      in map_option (\<lambda>off. (at off, net_str (candidates ! nat (at off))))
           (find (\<lambda>off. find_cidr_conflicts (net_str (candidates ! nat (at off))) existing = [])
             [0..<length candidates]))"

definition gateway_of :: "string \<Rightarrow> string option" where
  "gateway_of cidr =
     (case ip_network cidr of
        None \<Rightarrow> None
      | Some n \<Rightarrow>
          if net_addr n + 1 < 2 ^ width (net_ver n) then Some (ip_str (net_ver n) (net_addr n + 1)) else None)"

text \<open>What \<open>_allocate_vpc_cidr_once\<close> computes from what it has read.\<close>

definition plan_vpc_cidr ::
  "(string \<Rightarrow> string option) \<Rightarrow> (string \<times> string) list \<Rightarrow> int \<Rightarrow> exc + (int \<times> string \<times> string)" where
  "plan_vpc_cidr env existing index =
     (case ip_network (vpc_supernet env) of
        None \<Rightarrow> Inl ValueError
      | Some super \<Rightarrow>
          (let prefix = vpc_prefix_len env in
           if prefix < int (net_len super) then Inl (HTTPException 409)
           else (case subnets super (nat prefix) of
                   None \<Rightarrow> Inl ValueError
                 | Some candidates \<Rightarrow>
                     (case choose_range candidates existing index of
                        None \<Rightarrow> Inl (HTTPException 409)
                      | Some (i, cidr) \<Rightarrow>
                          (case gateway_of cidr of
                             None \<Rightarrow> Inl ValueError
                           | Some gw \<Rightarrow> Inr (i, cidr, gw))))))"

definition allocate_vpc_cidr_once ::
  "(string \<Rightarrow> string option) \<Rightarrow> 'w cm_api \<Rightarrow> ('w, subnet_spec cr list) io \<Rightarrow> ('w, string \<times> string) io" where
  "allocate_vpc_cidr_once env api list_subnets =
     bind_io (read_counter api VPC_CIDR_CONFIGMAP) (\<lambda>(index, rv).
     bind_io (list_subnet_cidrs list_subnets) (\<lambda>existing.
       case plan_vpc_cidr env existing index of
         Inl e \<Rightarrow> raise e
       | Inr (i, cidr, gw) \<Rightarrow>
           bind_io (replace_config_map api (counter_body VPC_CIDR_CONFIGMAP rv (i + 1)))
             (\<lambda>_. ret (cidr, gw))))"

text \<open>\<open>for attempt in range(MAX_RETRIES)\<close> around one attempt, by the attempts left; both
  allocators have this loop.\<close>

fun retry_conflict :: "('w, 'a) io \<Rightarrow> nat \<Rightarrow> ('w, 'a) io" where
  "retry_conflict once 0 w = (Inl (HTTPException 409), w)"
| "retry_conflict once (Suc n) w =
     (case once w of
        (Inr x, w1) \<Rightarrow> (Inr x, w1)
      | (Inl e, w1) \<Rightarrow>
          if e = ApiException 409 \<and> n \<noteq> 0 then retry_conflict once n w1 else (Inl e, w1))"

definition allocate_vpc_cidr ::
  "(string \<Rightarrow> string option) \<Rightarrow> 'w cm_api \<Rightarrow> ('w, subnet_spec cr list) io \<Rightarrow> ('w, string \<times> string) io" where
  "allocate_vpc_cidr env api list_subnets =
     retry_conflict (allocate_vpc_cidr_once env api list_subnets) MAX_RETRIES"

subsection \<open>Peering links\<close>

definition PEERING_LINK_BASE :: string where
  "PEERING_LINK_BASE = ''169.254.101.0''"

definition PEERING_LINK_MAX :: int where
  "PEERING_LINK_MAX = 62"

definition PEERING_LINK_CONFIGMAP :: string where
  "PEERING_LINK_CONFIGMAP = ''kubevirt-ui-peering-links''"

definition peering_link_addresses :: "int \<Rightarrow> (string \<times> string \<times> string) option" where
  "peering_link_addresses index =
     (case parse_ipv4 PEERING_LINK_BASE of
        None \<Rightarrow> None
      | Some base \<Rightarrow>
          (let a = int base + index * 4
           in if a < 0 \<or> 2 ^ 32 \<le> a then None
              else let net = mk_net V4 (nat a) 30; hs = hosts net
                   in Some (ipv4_str (hs ! 0), ipv4_str (hs ! 1), net_str net)))"

definition list_peering_link_cidrs :: "('w, vpc_spec cr list) io \<Rightarrow> ('w, string list) io" where
  "list_peering_link_cidrs list_vpcs = (\<lambda>w.
     case list_vpcs w of
       (Inl e, w1) \<Rightarrow> if is_api e then (Inr [], w1) else (Inl e, w1)
     | (Inr items, w1) \<Rightarrow>
         (Inr (concat (map (\<lambda>item. concat (map (\<lambda>p.
              let ip = or_nil (localConnectIP p)
              in if ip = [] then [] else case ip_network ip of None \<Rightarrow> [] | Some n \<Rightarrow> [net_str n])
            (or_nil (vpcPeerings (cr_spec item))))) items)), w1))"

text \<open>The \<open>while \<dots> else\<close> scan.\<close>

function peering_scan :: "string list \<Rightarrow> int \<Rightarrow> exc + (int \<times> string \<times> string \<times> string)" where
  "peering_scan used index =
     (if index < PEERING_LINK_MAX then
        (case peering_link_addresses index of
           None \<Rightarrow> Inl ValueError
         | Some (local, remote, cidr) \<Rightarrow>
             if cidr \<notin> set used then Inr (index, local, remote, cidr) else peering_scan used (index + 1))
      else Inl (HTTPException 409))"
  by pat_completeness auto
termination
  by (relation "measure (\<lambda>(used, index). nat (PEERING_LINK_MAX - index))") auto

declare peering_scan.simps [simp del]

definition allocate_peering_link_once ::
  "'w cm_api \<Rightarrow> ('w, vpc_spec cr list) io \<Rightarrow> ('w, string \<times> string \<times> string) io" where
  "allocate_peering_link_once api list_vpcs =
     bind_io (read_counter api PEERING_LINK_CONFIGMAP) (\<lambda>(index, rv).
     bind_io (list_peering_link_cidrs list_vpcs) (\<lambda>used.
       case peering_scan used index of
         Inl e \<Rightarrow> raise e
       | Inr (i, local, remote, cidr) \<Rightarrow>
           bind_io (replace_config_map api (counter_body PEERING_LINK_CONFIGMAP rv (i + 1)))
             (\<lambda>_. ret (local, remote, cidr))))"

definition allocate_peering_link ::
  "'w cm_api \<Rightarrow> ('w, vpc_spec cr list) io \<Rightarrow> ('w, string \<times> string \<times> string) io" where
  "allocate_peering_link api list_vpcs =
     retry_conflict (allocate_peering_link_once api list_vpcs) MAX_RETRIES"

subsection \<open>Overlap and the ring scan\<close>

lemma conflicts_with_iff:
  assumes "wf_net wanted"
  shows "conflicts_with wanted other \<longleftrightarrow>
     (\<exists>m. ip_network other = Some m \<and> net_ver m = net_ver wanted \<and> addrs wanted \<inter> addrs m \<noteq> {})"
proof (cases "ip_network other")
  case None
  then show ?thesis by (simp add: conflicts_with_def)
next
  case (Some m)
  then have "wf_net m" by (rule ip_network_wf)
  with Some assms show ?thesis by (auto simp: conflicts_with_def overlaps_iff)
qed

lemma find_cidr_conflicts_Nil:
  assumes "ip_network cidr = Some n" "wf_net n"
  shows "find_cidr_conflicts cidr existing = [] \<longleftrightarrow>
     (\<forall>(name, other) \<in> set existing. \<forall>m. ip_network other = Some m \<longrightarrow> net_ver m = net_ver n \<longrightarrow>
        addrs n \<inter> addrs m = {})"
proof -
  have "find_cidr_conflicts cidr existing = [] \<longleftrightarrow> (\<forall>(name, other) \<in> set existing. \<not> conflicts_with n other)"
    using assms(1) by (auto simp: find_cidr_conflicts_def filter_empty_conv)
  then show ?thesis unfolding conflicts_with_iff [OF assms(2)] by blast
qed

lemma find_nat_None: "find P xs = None \<longleftrightarrow> (\<forall>x \<in> set xs. \<not> P x)"
  by (auto simp: find_None_iff)

lemma choose_range_Some:
  assumes "choose_range cands existing index = Some (i, cidr)"
  shows "0 \<le> i \<and> i < int (length cands) \<and> cidr = net_str (cands ! nat i)
       \<and> find_cidr_conflicts cidr existing = []"
proof -
  from assms have "cands \<noteq> []" by (auto simp: choose_range_def)
  with assms show ?thesis
    by (auto simp: choose_range_def Let_def find_Some_iff)
qed

lemma ring_covers:
  assumes "k < n"
  shows "\<exists>off < n. nat ((index + int off) mod int n) = k"
proof -
  let ?off = "nat ((int k - index) mod int n)"
  have n: "0 < int n" using assms by simp
  have "?off < n" using n by (simp add: nat_less_iff)
  moreover have "(index + int ?off) mod int n = int k"
  proof -
    have "int ?off = (int k - index) mod int n" using n by simp
    then have "(index + int ?off) mod int n = (index + (int k - index)) mod int n"
      by (metis mod_add_right_eq)
    also have "\<dots> = int k" using assms by simp
    finally show ?thesis .
  qed
  ultimately show ?thesis by (metis nat_int)
qed

lemma choose_range_None:
  assumes "choose_range cands existing index = None" "c \<in> set cands"
  shows "find_cidr_conflicts (net_str c) existing \<noteq> []"
proof -
  from assms(2) obtain k where k: "k < length cands" "c = cands ! k" by (metis in_set_conv_nth)
  obtain off where "off < length cands" "nat ((index + int off) mod int (length cands)) = k"
    using ring_covers [OF k(1)] by blast
  with assms(1) k show ?thesis by (auto simp: choose_range_def Let_def find_None_iff)
qed

text \<open>The plan for one attempt.\<close>

lemma plan_vpc_cidr_sound:
  assumes "plan_vpc_cidr env existing index = Inr (i, cidr, gw)"
    and "ip_network (vpc_supernet env) = Some super" "net_ver super = V4"
  shows "\<exists>n. ip_network cidr = Some n \<and> wf_net n \<and> net_ver n = V4 \<and> addrs n \<subseteq> addrs super
     \<and> (net_len super < 32 \<longrightarrow> int (net_len n) = vpc_prefix_len env)
     \<and> gw = ipv4_str (net_addr n + 1)
     \<and> find_cidr_conflicts cidr existing = []"
proof -
  from assms obtain cands where pre: "int (net_len super) \<le> vpc_prefix_len env"
    and c: "subnets super (nat (vpc_prefix_len env)) = Some cands"
    and r: "choose_range cands existing index = Some (i, cidr)"
    and g: "gateway_of cidr = Some gw"
    by (auto simp: plan_vpc_cidr_def Let_def split: if_splits option.splits)
  note i = choose_range_Some [OF r]
  let ?n = "cands ! nat i"
  have mem: "?n \<in> set cands" using i by auto
  have wf: "wf_net super" using assms(2) by (rule ip_network_wf)
  have n: "wf_net ?n" "net_ver ?n = V4" using subnets_wf [OF wf c mem] assms(3) by auto
  have p: "ip_network cidr = Some ?n" using ip_network_net_str n i by simp
  have "gw = ipv4_str (net_addr ?n + 1)"
    using g p n(2) by (auto simp: gateway_of_def split: if_splits)
  moreover have "net_len super < 32 \<longrightarrow> int (net_len ?n) = vpc_prefix_len env"
    using subnets_len [OF c mem] assms(3) pre by auto
  ultimately show ?thesis using p n subnets_inside [OF c mem] i by blast
qed

lemma plan_vpc_cidr_exhausted:
  assumes "ip_network (vpc_supernet env) = Some super" "net_ver super = V4"
    and "subnets super (nat (vpc_prefix_len env)) = Some cands"
    and "int (net_len super) \<le> vpc_prefix_len env"
    and "plan_vpc_cidr env existing index = Inl (HTTPException 409)"
    and "c \<in> set cands"
  shows "\<exists>(name, other) \<in> set existing. \<exists>m. ip_network other = Some m \<and> net_ver m = V4 \<and> addrs c \<inter> addrs m \<noteq> {}"
proof -
  have none: "choose_range cands existing index = None"
    using assms by (auto simp: plan_vpc_cidr_def Let_def split: option.splits)
  have wf: "wf_net super" using assms(1) by (rule ip_network_wf)
  have c: "wf_net c" "net_ver c = V4" using subnets_wf [OF wf assms(3,6)] assms(2) by auto
  have "find_cidr_conflicts (net_str c) existing \<noteq> []"
    by (rule choose_range_None [OF none assms(6)])
  then show ?thesis
    unfolding find_cidr_conflicts_Nil [OF ip_network_net_str [OF c] c(1)] by (fastforce simp: c)
qed


subsection \<open>The retry contract\<close>

text \<open>What one attempt has to promise so that the retry loop keeps it: an attempt that succeeds
  establishes \<open>post\<close>, and one that lost a race (409) leaves \<open>pre\<close> as it was.\<close>

locale conflict_retry =
  fixes once :: "'c \<Rightarrow> ('w, 'a) io"
    and pre :: "'c \<Rightarrow> 'w \<Rightarrow> bool"
    and post :: "'c \<Rightarrow> 'a \<Rightarrow> 'w \<Rightarrow> bool"
  assumes once_post: "pre c w \<Longrightarrow> once c w = (Inr x, w') \<Longrightarrow> post c x w'"
    and once_conflict: "pre c w \<Longrightarrow> once c w = (Inl (ApiException 409), w') \<Longrightarrow> pre c w'"
begin

lemma retry_post: "pre c w \<Longrightarrow> retry_conflict (once c) n w = (Inr x, w') \<Longrightarrow> post c x w'"
proof (induction n arbitrary: w)
  case (Suc n)
  then show ?case
    by (auto split: prod.splits sum.splits if_splits intro: once_post once_conflict)
qed simp

lemma retry_error:
  "pre c w \<Longrightarrow> n \<noteq> 0 \<Longrightarrow> retry_conflict (once c) n w = (Inl e, w') \<Longrightarrow> \<exists>w1. pre c w1 \<and> once c w1 = (Inl e, w')"
proof (induction n arbitrary: w)
  case (Suc n)
  then show ?case
    by (auto split: prod.splits sum.splits if_splits intro: once_conflict)
qed simp

end

text \<open>\<open>forward T api ls\<close>: the calls move the world along the preorder \<open>T\<close>.\<close>

definition forward :: "('w \<Rightarrow> 'w \<Rightarrow> bool) \<Rightarrow> 'w cm_api \<Rightarrow> ('w, 'x) io \<Rightarrow> bool" where
  "forward T api ls \<longleftrightarrow> reflp T \<and> transp T
     \<and> (\<forall>w r w'. read_config_map api w = (r, w') \<longrightarrow> T w w')
     \<and> (\<forall>b w r w'. create_config_map api b w = (r, w') \<longrightarrow> T w w')
     \<and> (\<forall>b w r w'. replace_config_map api b w = (r, w') \<longrightarrow> T w w')
     \<and> (\<forall>w r w'. ls w = (r, w') \<longrightarrow> T w w')"

lemma forward_refl: "forward T api ls \<Longrightarrow> T w w"
  by (auto simp: forward_def reflp_def)

lemma forward_trans: "forward T api ls \<Longrightarrow> T u v \<Longrightarrow> T v w \<Longrightarrow> T u w"
  unfolding forward_def by (metis transpD)

lemma forward_read_counter: "forward T api ls \<Longrightarrow> read_counter api name w = (r, w') \<Longrightarrow> T w w'"
  unfolding read_counter_def forward_def bind_io_def
  by (auto split: prod.splits sum.splits if_splits option.splits) (meson transpD)+

lemma forward_list: "forward T api ls \<Longrightarrow> list_subnet_cidrs ls w = (r, w') \<Longrightarrow> T w w'"
  by (auto simp: list_subnet_cidrs_def forward_def split: prod.splits sum.splits if_splits)

text \<open>What an attempt that returns a range did: it read the subnets at some moment of the run and
  planned from them.\<close>

definition planned_from ::
  "(string \<Rightarrow> string option) \<Rightarrow> ('w, subnet_spec cr list) io \<Rightarrow> ('w \<Rightarrow> 'w \<Rightarrow> bool) \<Rightarrow> 'w \<Rightarrow> 'w \<Rightarrow>
   string \<times> string \<Rightarrow> bool" where
  "planned_from env ls T w w' x \<longleftrightarrow>
     (\<exists>existing index i u u'. T w u \<and> T u' w' \<and> list_subnet_cidrs ls u = (Inr existing, u')
        \<and> plan_vpc_cidr env existing index = Inr (i, x))"

lemma allocate_vpc_cidr_once_forward:
  assumes "forward T api ls" "allocate_vpc_cidr_once env api ls w = (r, w')"
  shows "T w w'"
proof -
  have pl: "(case plan_vpc_cidr env e k of Inl e \<Rightarrow> raise e | Inr (i, cidr, gw) \<Rightarrow>
      bind_io (replace_config_map api (counter_body VPC_CIDR_CONFIGMAP rv (i + 1))) (\<lambda>_. ret (cidr, gw))) u = (r, w')
      \<Longrightarrow> T u w'" for e k rv u
    using assms(1) by (auto simp: forward_def bind_io_def reflpD split: sum.splits prod.splits)
  show ?thesis
  proof (cases "read_counter api VPC_CIDR_CONFIGMAP w")
    case (Pair a w1)
    have 1: "T w w1" by (rule forward_read_counter [OF assms(1) Pair])
    show ?thesis
    proof (cases a)
      case (Inr kr)
      obtain k rv where kr: "kr = (k, rv)" by (cases kr)
      obtain b w2 where l: "list_subnet_cidrs ls w1 = (b, w2)" by (cases "list_subnet_cidrs ls w1")
      have 2: "T w1 w2" by (rule forward_list [OF assms(1) l])
      have "T w2 w'"
        using assms(2) Pair l pl forward_refl [OF assms(1)] unfolding Inr kr allocate_vpc_cidr_once_def
        by (cases b) (auto simp: bind_io_ok bind_io_err)
      then show ?thesis using 1 2 forward_trans [OF assms(1)] by blast
    qed (use assms Pair 1 in \<open>auto simp: allocate_vpc_cidr_once_def bind_io_err\<close>)
  qed
qed

lemma allocate_vpc_cidr_once_plan:
  assumes "forward T api ls" "allocate_vpc_cidr_once env api ls w = (Inr x, w')"
  shows "planned_from env ls T w w' x"
proof -
  from assms(2) obtain index rv w1 existing w2 where
    c: "read_counter api VPC_CIDR_CONFIGMAP w = (Inr (index, rv), w1)" and
    l: "list_subnet_cidrs ls w1 = (Inr existing, w2)" and
    p: "(case plan_vpc_cidr env existing index of Inl e \<Rightarrow> raise e | Inr (i, cidr, gw) \<Rightarrow>
           bind_io (replace_config_map api (counter_body VPC_CIDR_CONFIGMAP rv (i + 1)))
             (\<lambda>_. ret (cidr, gw))) w2 = (Inr x, w')"
    by (auto simp: allocate_vpc_cidr_once_def bind_io_Inr)
  from p obtain i b u where "plan_vpc_cidr env existing index = Inr (i, x)"
      "replace_config_map api b w2 = (Inr u, w')"
    by (auto simp: bind_io_Inr split: sum.splits)
  moreover have "T w w1" "T w2 w'"
    using forward_read_counter [OF assms(1) c] assms(1) calculation(2) by (auto simp: forward_def)
  ultimately show ?thesis using l unfolding planned_from_def by blast
qed

interpretation vpc_alloc: conflict_retry
  "\<lambda>(env, api, ls, T, w0). allocate_vpc_cidr_once env api ls"
  "\<lambda>(env, api, ls, T, w0) w. forward T api ls \<and> T w0 w"
  "\<lambda>(env, api, ls, T, w0) x w'. planned_from env ls T w0 w' x"
proof (unfold_locales, goal_cases)
  case (1 ctx w x w')
  obtain env api ls T w0 where ctx: "ctx = (env, api, ls, T, w0)" by (cases ctx)
  have f: "forward T api ls" and 0: "T w0 w" using 1 ctx by auto
  have "planned_from env ls T w w' x"
    by (rule allocate_vpc_cidr_once_plan [OF f]) (use 1 ctx in simp)
  then have "planned_from env ls T w0 w' x"
    using forward_trans [OF f 0] unfolding planned_from_def by blast
  then show ?case using ctx by simp
next
  case (2 ctx w w')
  obtain env api ls T w0 where ctx: "ctx = (env, api, ls, T, w0)" by (cases ctx)
  then show ?case using 2 allocate_vpc_cidr_once_forward [of T api ls env w _ w']
    by (auto elim: forward_trans)
qed

subsection \<open>The peering counter\<close>

text \<open>The ConfigMap exists and its counter has reached \<open>c\<close>.\<close>

definition counter_ge :: "('w \<Rightarrow> (string dict \<times> string) option) \<Rightarrow> int \<Rightarrow> 'w \<Rightarrow> bool" where
  "counter_ge cur c w \<longleftrightarrow> (\<exists>d v k. cur w = Some (d, v) \<and> next_index_of d = Some k \<and> c \<le> k)"

text \<open>The hypotheses on the world of the link allocator: the ConfigMap store obeys the API's
  concurrency rules, listing VPCs is a read, and the other writers of the ConfigMap never move the
  counter back (they run this same code).\<close>

definition link_world ::
  "'w cm_api \<Rightarrow> ('w, vpc_spec cr list) io \<Rightarrow> ('w \<Rightarrow> 'w \<Rightarrow> bool) \<Rightarrow> ('w \<Rightarrow> (string dict \<times> string) option) \<Rightarrow> bool" where
  "link_world api lv rely cur \<longleftrightarrow>
     cm_store rely cur (read_config_map api) (create_config_map api) (replace_config_map api)
   \<and> (\<forall>w r w'. lv w = (r, w') \<longrightarrow> rely w w')
   \<and> (\<forall>w w' c. rely w w' \<longrightarrow> counter_ge cur c w \<longrightarrow> counter_ge cur c w')"

lemma counter_ge_mono: "counter_ge cur c w \<Longrightarrow> c' \<le> c \<Longrightarrow> counter_ge cur c' w"
  unfolding counter_ge_def by fastforce

lemma peering_scan_Inr:
  "peering_scan used k = Inr (i, l, r, c) \<Longrightarrow>
     k \<le> i \<and> i < PEERING_LINK_MAX \<and> peering_link_addresses i = Some (l, r, c) \<and> c \<notin> set used"
proof (induction used k rule: peering_scan.induct)
  case (1 used k)
  from "1.prems" show ?case
    using "1.IH" by (subst (asm) peering_scan.simps) (fastforce split: if_splits option.splits prod.splits)
qed

lemma counter_body_simps [simp]:
  "cm_rv (counter_body n rv i) = rv" "or_nil (cm_data (counter_body n rv i)) = [(''next_index'', int_str i)]"
  by (simp_all add: counter_body_def)

lemma next_index_counter: "next_index_of [(''next_index'', int_str i)] = Some i"
  by (simp add: next_index_of_def py_int_int_str)

lemma read_counter_ok:
  assumes law: "link_world api lv rely cur"
    and "read_counter api name w = (Inr (k, rv), w')"
  shows "\<exists>d v. rv = Some v \<and> cur w' = Some (d, v) \<and> next_index_of d = Some k"
    and "counter_ge cur c w \<Longrightarrow> c \<le> k"
proof -
  have st: "cm_store rely cur (read_config_map api) (create_config_map api) (replace_config_map api)"
    and keep: "\<And>w w' c. rely w w' \<Longrightarrow> counter_ge cur c w \<Longrightarrow> counter_ge cur c w'"
    using law by (auto simp: link_world_def)
  note st = cm_storeD [OF st]
  obtain r w1 where rd: "read_config_map api w = (r, w1)" by (cases "read_config_map api w")
  have rel: "rely w w1" using st(4) rd by blast
  show "\<exists>d v. rv = Some v \<and> cur w' = Some (d, v) \<and> next_index_of d = Some k"
  proof (cases r)
    case (Inr cm)
    then show ?thesis using st(5) rd assms(2) by (fastforce simp: read_counter_def split: option.splits)
  next
    case (Inl e)
    with assms(2) rd have "bind_io (create_config_map api (counter_body name None 0)) (\<lambda>cm. ret (0, cm_rv cm)) w1
        = (Inr (k, rv), w')"
      by (auto simp: read_counter_def split: if_splits)
    then obtain cm where "create_config_map api (counter_body name None 0) w1 = (Inr cm, w')"
      "k = 0" "rv = cm_rv cm"
      by (auto simp: bind_io_Inr)
    with st(7) [of _ w1 cm w'] show ?thesis by (fastforce simp: next_index_counter)
  qed
  assume c: "counter_ge cur c w"
  then have c1: "counter_ge cur c w1" using keep rel by blast
  show "c \<le> k"
  proof (cases r)
    case (Inr cm)
    then show ?thesis using st(5) [of w cm w1] rd assms(2) c1
      by (auto simp: read_counter_def counter_ge_def split: option.splits)
  next
    case (Inl e)
    with assms(2) rd have "read_config_map api w = (Inl (ApiException 404), w1)"
      by (auto simp: read_counter_def split: if_splits)
    then have "cur w1 = None" using st(6) by blast
    with c1 show ?thesis by (simp add: counter_ge_def)
  qed
qed


lemma allocate_peering_link_once_post:
  assumes law: "link_world api lv rely cur"
    and "allocate_peering_link_once api lv w = (Inr x, w')"
  shows "\<exists>i. peering_link_addresses i = Some x \<and> i < PEERING_LINK_MAX \<and> counter_ge cur (i + 1) w'
           \<and> (\<forall>c. counter_ge cur c w \<longrightarrow> c \<le> i)"
proof -
  obtain l r c where x: "x = (l, r, c)" by (cases x)
  from assms(2) obtain k rv w1 used w2 where
    rc: "read_counter api PEERING_LINK_CONFIGMAP w = (Inr (k, rv), w1)" and
    p: "(case peering_scan used k of Inl e \<Rightarrow> raise e | Inr (i, local, remote, cidr) \<Rightarrow>
           bind_io (replace_config_map api (counter_body PEERING_LINK_CONFIGMAP rv (i + 1)))
             (\<lambda>_. ret (local, remote, cidr))) w2 = (Inr (l, r, c), w')"
    by (auto simp: allocate_peering_link_once_def bind_io_Inr x)
  from p obtain i u where scan: "peering_scan used k = Inr (i, l, r, c)"
    and rep: "replace_config_map api (counter_body PEERING_LINK_CONFIGMAP rv (i + 1)) w2 = (Inr u, w')"
    by (auto simp: bind_io_Inr split: sum.splits)
  note i = peering_scan_Inr [OF scan]
  have st: "cm_store rely cur (read_config_map api) (create_config_map api) (replace_config_map api)"
    using law by (simp add: link_world_def)
  have "counter_ge cur (i + 1) w'"
    using cm_storeD(9) [OF st rep] by (auto simp: counter_ge_def next_index_counter)
  moreover have "\<forall>c. counter_ge cur c w \<longrightarrow> c \<le> i"
    using read_counter_ok(2) [OF law rc] i by fastforce
  ultimately show ?thesis using i x by blast
qed

lemma read_counter_conflict:
  assumes law: "link_world api lv rely cur"
    and "read_counter api name w = (Inl (ApiException st), w')" and "counter_ge cur c w"
  shows "counter_ge cur c w'"
proof -
  have s: "cm_store rely cur (read_config_map api) (create_config_map api) (replace_config_map api)"
    and keep: "\<And>w w' c. rely w w' \<Longrightarrow> counter_ge cur c w \<Longrightarrow> counter_ge cur c w'"
    using law by (auto simp: link_world_def)
  obtain r w1 where rd: "read_config_map api w = (r, w1)" by (cases "read_config_map api w")
  have c1: "counter_ge cur c w1" using keep cm_storeD(4) [OF s rd] assms(3) by blast
  have "w' = w1 \<or> create_config_map api (counter_body name None 0) w1 = (Inl (ApiException st), w')"
    using assms(2) rd by (auto simp: read_counter_def bind_io_Inl split: sum.splits if_splits option.splits)
  then show ?thesis using keep c1 cm_storeD(8) [OF s] by blast
qed

lemma allocate_peering_link_once_conflict:
  assumes law: "link_world api lv rely cur"
    and "allocate_peering_link_once api lv w = (Inl (ApiException 409), w')" and c: "counter_ge cur c w"
  shows "counter_ge cur c w'"
proof -
  have st: "cm_store rely cur (read_config_map api) (create_config_map api) (replace_config_map api)"
    and lv: "\<And>w r w'. lv w = (r, w') \<Longrightarrow> rely w w'"
    and keep: "\<And>w w' c. rely w w' \<Longrightarrow> counter_ge cur c w \<Longrightarrow> counter_ge cur c w'"
    using law by (auto simp: link_world_def)
  show ?thesis
  proof (cases "read_counter api PEERING_LINK_CONFIGMAP w")
    case (Pair r w1)
    show ?thesis
    proof (cases r)
      case (Inl e)
      with assms(2) Pair have "read_counter api PEERING_LINK_CONFIGMAP w = (Inl (ApiException 409), w')"
        by (simp add: allocate_peering_link_once_def bind_io_err)
      then show ?thesis by (rule read_counter_conflict [OF law _ c])
    next
      case (Inr kr)
      obtain k rv where kr: "kr = (k, rv)" by (cases kr)
      have c1: "counter_ge cur c w1"
      proof -
        have "c \<le> k" using read_counter_ok(2) [OF law Pair [unfolded Inr kr] c] .
        with read_counter_ok(1) [OF law Pair [unfolded Inr kr]] show ?thesis by (auto simp: counter_ge_def)
      qed
      obtain lr w2 where l: "list_peering_link_cidrs lv w1 = (lr, w2)"
        by (cases "list_peering_link_cidrs lv w1")
      have "rely w1 w2" using l lv by (auto simp: list_peering_link_cidrs_def split: prod.splits sum.splits if_splits)
      then have c2: "counter_ge cur c w2" using keep c1 by blast
      have "w' = w2 \<or> (\<exists>b. replace_config_map api b w2 = (Inl (ApiException 409), w'))"
        using assms(2) Pair l unfolding Inr kr allocate_peering_link_once_def
        by (cases lr) (auto simp: bind_io_ok bind_io_Inl split: sum.splits)
      then show ?thesis using keep c2 cm_storeD(10) [OF st] by blast
    qed
  qed
qed

interpretation link_alloc: conflict_retry
  "\<lambda>(api, lv, rely, cur, bound). allocate_peering_link_once api lv"
  "\<lambda>(api, lv, rely, cur, bound) w. link_world api lv rely cur \<and> (\<forall>c. bound = Some c \<longrightarrow> counter_ge cur c w)"
  "\<lambda>(api, lv, rely, cur, bound) x w'. \<exists>i. peering_link_addresses i = Some x \<and> i < PEERING_LINK_MAX
     \<and> counter_ge cur (i + 1) w' \<and> (\<forall>c. bound = Some c \<longrightarrow> c \<le> i)"
proof unfold_locales
  fix ctx :: "'a cm_api \<times> ('a, vpc_spec cr list) io \<times> ('a \<Rightarrow> 'a \<Rightarrow> bool) \<times>
      ('a \<Rightarrow> (string dict \<times> string) option) \<times> int option" and w x w'
  obtain api lv rely cur bound where ctx: "ctx = (api, lv, rely, cur, bound)" by (cases ctx)
  assume pre: "(case ctx of (api, lv, rely, cur, bound) \<Rightarrow> \<lambda>w. link_world api lv rely cur \<and>
      (\<forall>c. bound = Some c \<longrightarrow> counter_ge cur c w)) w"
  { assume "(case ctx of (api, lv, rely, cur, bound) \<Rightarrow> allocate_peering_link_once api lv) w = (Inr x, w')"
    then show "(case ctx of (api, lv, rely, cur, bound) \<Rightarrow> \<lambda>x w'. \<exists>i. peering_link_addresses i = Some x
        \<and> i < PEERING_LINK_MAX \<and> counter_ge cur (i + 1) w' \<and> (\<forall>c. bound = Some c \<longrightarrow> c \<le> i)) x w'"
      using pre allocate_peering_link_once_post [of api lv rely cur w x w'] ctx by auto }
  { assume "(case ctx of (api, lv, rely, cur, bound) \<Rightarrow> allocate_peering_link_once api lv) w
        = (Inl (ApiException 409), w')"
    then show "(case ctx of (api, lv, rely, cur, bound) \<Rightarrow> \<lambda>w. link_world api lv rely cur \<and>
        (\<forall>c. bound = Some c \<longrightarrow> counter_ge cur c w)) w'"
      using pre allocate_peering_link_once_conflict [of api lv rely cur w w'] ctx by auto }
qed

lemma peering_base: "parse_ipv4 PEERING_LINK_BASE = Some 2852021504"
  by (simp add: PEERING_LINK_BASE_def parse_ipv4_def parse_octet_def isdigit_def is_digit_def digits_val_def
      digit_val_def)



subsection \<open>Properties\<close>

text \<open>C1. A range handed out by \<open>allocate_vpc_cidr\<close> lies in the configured supernet, has the
  configured prefix length, is disjoint from every subnet the cluster listed during the run, and the
  gateway is its first address.\<close>

theorem allocate_vpc_cidr_sound:
  assumes "forward T api ls"
    and "ip_network (vpc_supernet env) = Some super" "net_ver super = V4"
    and "allocate_vpc_cidr env api ls w = (Inr (cidr, gw), w')"
  shows "\<exists>n existing u u'. T w u \<and> T u' w' \<and> list_subnet_cidrs ls u = (Inr existing, u')
     \<and> ip_network cidr = Some n \<and> net_ver n = V4 \<and> addrs n \<subseteq> addrs super
     \<and> (net_len super < 32 \<longrightarrow> int (net_len n) = vpc_prefix_len env)
     \<and> gw = ipv4_str (net_addr n + 1)
     \<and> (\<forall>(name, other) \<in> set existing. \<forall>m. ip_network other = Some m \<and> net_ver m = V4 \<longrightarrow>
          addrs n \<inter> addrs m = {})"
proof -
  have "planned_from env ls T w w' (cidr, gw)"
    using vpc_alloc.retry_post [of "(env, api, ls, T, w)" w MAX_RETRIES "(cidr, gw)" w'] assms(1,4)
      forward_refl [OF assms(1)]
    by (simp add: allocate_vpc_cidr_def)
  then obtain existing index i u u' where
    l: "T w u" "T u' w'" "list_subnet_cidrs ls u = (Inr existing, u')"
    and p: "plan_vpc_cidr env existing index = Inr (i, cidr, gw)"
    unfolding planned_from_def by blast
  from plan_vpc_cidr_sound [OF p assms(2,3)] obtain n where
    n: "ip_network cidr = Some n" "wf_net n" "net_ver n = V4" "addrs n \<subseteq> addrs super"
      "net_len super < 32 \<longrightarrow> int (net_len n) = vpc_prefix_len env" "gw = ipv4_str (net_addr n + 1)"
      "find_cidr_conflicts cidr existing = []" by blast
  have "\<forall>(name, other) \<in> set existing. \<forall>m. ip_network other = Some m \<and> net_ver m = V4 \<longrightarrow> addrs n \<inter> addrs m = {}"
    using n(7) unfolding find_cidr_conflicts_Nil [OF n(1,2)] n(3) by blast
  with n l show ?thesis by blast
qed

text \<open>A cluster for the witnesses.\<close>

definition demo_env :: "string \<Rightarrow> string option" where
  "demo_env = map_of [(''TENANT_SUPERNET'', ''10.8.0.0/23''), (''TENANT_VPC_PREFIX'', ''24'')]"

definition demo_subnets :: "string \<Rightarrow> ('w, subnet_spec cr list) io" where
  "demo_subnets cidr = ret [\<lparr>cr_name = ''s1'', cr_labels = [], cr_rv = ''1'',
     cr_spec = \<lparr>cidrBlock = Some cidr, subnet_vpc = None, excludeIps = None, acls = None\<rparr>\<rparr>]"

lemma demo_super: "ip_network (vpc_supernet demo_env) = Some \<lparr>net_ver = V4, net_addr = 168296448, net_len = 23\<rparr>"
  by (simp add: net_eval vpc_supernet_def demo_env_def)

lemma demo_list: "list_subnet_cidrs (demo_subnets ''10.8.0.0/24'') w = (Inr [(''s1'', ''10.8.0.0/24'')], w)"
  by (simp add: list_subnet_cidrs_def demo_subnets_def subnet_cidr_parts_def strip_def lstrip_def rstrip_def is_space_def)

lemma demo_prefix: "vpc_prefix_len demo_env = 24"
  by (simp add: vpc_prefix_len_def demo_env_def py_int_def strip_def lstrip_def rstrip_def is_space_def
    int_of_body_def isdigit_def is_digit_def digits_val_def digit_val_def)

lemma demo_cands: "subnets \<lparr>net_ver = V4, net_addr = 168296448, net_len = 23\<rparr> 24 =
    Some [\<lparr>net_ver = V4, net_addr = 168296448, net_len = 24\<rparr>, \<lparr>net_ver = V4, net_addr = 168296704, net_len = 24\<rparr>]"
  by (simp add: subnets_def upt_rec)

lemma retry_first:
  "once w = (Inr x, w') \<Longrightarrow> retry_conflict once MAX_RETRIES w = (Inr x, w')"
  "once w = (Inl e, w') \<Longrightarrow> e \<noteq> ApiException 409 \<Longrightarrow> retry_conflict once MAX_RETRIES w = (Inl e, w')"
  by (simp_all add: MAX_RETRIES_def numeral_eq_Suc)

lemma demo_nets:
  "ip_network ''10.8.0.0/23'' = Some \<lparr>net_ver = V4, net_addr = 168296448, net_len = 23\<rparr>"
  "ip_network ''10.8.0.0/24'' = Some \<lparr>net_ver = V4, net_addr = 168296448, net_len = 24\<rparr>"
  "ip_network ''10.8.1.0/24'' = Some \<lparr>net_ver = V4, net_addr = 168296704, net_len = 24\<rparr>"
  "net_str \<lparr>net_ver = V4, net_addr = 168296448, net_len = 24\<rparr> = ''10.8.0.0/24''"
  "net_str \<lparr>net_ver = V4, net_addr = 168296704, net_len = 24\<rparr> = ''10.8.1.0/24''"
  by (simp_all add: net_eval net_str_def ipv4_str_def nat_str.simps)

lemma demo_plan: "plan_vpc_cidr demo_env [(''s1'', ''10.8.0.0/24'')] 0 = Inr (1, ''10.8.1.0/24'', ''10.8.1.1'')"
  unfolding plan_vpc_cidr_def demo_super demo_prefix
  by (simp add: demo_cands choose_range_def demo_nets upt_rec find_cidr_conflicts_def conflicts_with_def gateway_of_def
    overlaps_def in_net_def mask_down_def broadcast_def block_size_def nat_str.simps ipv4_str_def)

lemma demo_counter: "read_counter (mem_cm_api name) name None = (Inr (0, Some (nat_str 1)), Some ([(''next_index'', ''0'')], 1))"
  by (simp add: read_counter_def mem_cm_api_def mem_read_def mem_create_def bind_io_def counter_body_def int_str_def nat_str.simps)

lemma demo_run: "allocate_vpc_cidr demo_env (mem_cm_api VPC_CIDR_CONFIGMAP) (demo_subnets ''10.8.0.0/24'') None =
   (Inr (''10.8.1.0/24'', ''10.8.1.1''), Some ([(''next_index'', ''2'')], 2))"
proof -
  have "allocate_vpc_cidr_once demo_env (mem_cm_api VPC_CIDR_CONFIGMAP) (demo_subnets ''10.8.0.0/24'') None =
     (Inr (''10.8.1.0/24'', ''10.8.1.1''), Some ([(''next_index'', ''2'')], 2))"
    by (simp add: allocate_vpc_cidr_once_def bind_io_def demo_counter demo_list demo_plan)
       (simp add: mem_cm_api_def mem_replace_def counter_body_def int_str_def nat_str.simps)
  then show ?thesis by (simp add: allocate_vpc_cidr_def retry_first)
qed

theorem allocate_vpc_cidr_sound_witness:
  "\<exists>n existing u u'. list_subnet_cidrs (demo_subnets ''10.8.0.0/24'') u = (Inr existing, u' :: (string dict \<times> nat) option)
     \<and> ip_network ''10.8.1.0/24'' = Some n \<and> addrs n \<inter> addrs \<lparr>net_ver = V4, net_addr = 168296448, net_len = 24\<rparr> = {}"
proof -
  have f: "forward (\<lambda>_ _. True) (mem_cm_api VPC_CIDR_CONFIGMAP) (demo_subnets ''10.8.0.0/24'')"
    by (simp add: forward_def reflp_def transp_def)
  from allocate_vpc_cidr_sound [OF f demo_super _ demo_run] show ?thesis
    by (auto simp: demo_list demo_nets(2))
qed

text \<open>Calls report failures of the API as such, never as the program's own \<open>HTTPException\<close>.\<close>

definition no_http :: "('w, 'a) io \<Rightarrow> bool" where
  "no_http m \<longleftrightarrow> (\<forall>w st w'. m w \<noteq> (Inl (HTTPException st), w'))"

lemma read_counter_no_http:
  assumes "no_http (read_config_map api)" "\<And>b. no_http (create_config_map api b)"
  shows "read_counter api name w \<noteq> (Inl (HTTPException st), w')"
  using assms
  by (auto simp: read_counter_def no_http_def bind_io_def split: prod.splits sum.splits if_splits option.splits)

lemma allocate_vpc_cidr_once_full:
  assumes "no_http (read_config_map api)" "\<And>b. no_http (create_config_map api b)"
    and "\<And>b. no_http (replace_config_map api b)" "no_http ls"
    and "allocate_vpc_cidr_once env api ls w = (Inl (HTTPException 409), w')"
  shows "\<exists>existing index u. list_subnet_cidrs ls u = (Inr existing, w') \<and>
     plan_vpc_cidr env existing index = Inl (HTTPException 409)"
proof -
  have ls: "list_subnet_cidrs ls u \<noteq> (Inl (HTTPException 409), u')" for u u'
    using assms(4) by (auto simp: list_subnet_cidrs_def no_http_def split: prod.splits sum.splits if_splits)
  obtain index rv w1 where
    r: "(bind_io (list_subnet_cidrs ls) (\<lambda>existing. case plan_vpc_cidr env existing index of
         Inl e \<Rightarrow> raise e
       | Inr (i, cidr, gw) \<Rightarrow>
           bind_io (replace_config_map api (counter_body VPC_CIDR_CONFIGMAP rv (i + 1)))
             (\<lambda>_. ret (cidr, gw)))) w1 = (Inl (HTTPException 409), w')"
    using assms(5) read_counter_no_http [OF assms(1,2)]
    by (auto simp: allocate_vpc_cidr_once_def bind_io_Inl [of "read_counter api n" for n])
  obtain existing w2 where l: "list_subnet_cidrs ls w1 = (Inr existing, w2)"
    using r ls by (cases "list_subnet_cidrs ls w1") (auto simp: bind_io_def split: sum.splits)
  with r show ?thesis
    using assms(3) by (cases "plan_vpc_cidr env existing index")
      (auto simp: bind_io_ok bind_io_Inl no_http_def intro!: exI [of _ existing])
qed

text \<open>C4. When the configured prefix fits the supernet, \<open>allocate_vpc_cidr\<close> refuses with 409 only if
  every range of the supernet really overlaps a subnet of the listing it made: no free range is missed,
  wherever the counter stands.\<close>

theorem allocate_vpc_cidr_exhausted:
  assumes "no_http (read_config_map api)" "\<And>b. no_http (create_config_map api b)"
    and "\<And>b. no_http (replace_config_map api b)" "no_http ls"
    and "ip_network (vpc_supernet env) = Some super" "net_ver super = V4"
    and "int (net_len super) \<le> vpc_prefix_len env"
    and "subnets super (nat (vpc_prefix_len env)) = Some cands"
    and "allocate_vpc_cidr env api ls w = (Inl (HTTPException 409), w')"
  shows "\<exists>existing u. list_subnet_cidrs ls u = (Inr existing, w')
     \<and> (\<forall>c \<in> set cands. \<exists>(name, other) \<in> set existing.
          \<exists>m. ip_network other = Some m \<and> net_ver m = V4 \<and> addrs c \<inter> addrs m \<noteq> {})"
proof -
  have "\<exists>w1. allocate_vpc_cidr_once env api ls w1 = (Inl (HTTPException 409), w')"
    using vpc_alloc.retry_error [of "(env, api, ls, \<lambda>_ _. True, w)" w MAX_RETRIES] assms(9)
    by (auto simp: allocate_vpc_cidr_def MAX_RETRIES_def forward_def reflp_def transp_def)
  then obtain existing index u where "list_subnet_cidrs ls u = (Inr existing, w')"
      "plan_vpc_cidr env existing index = Inl (HTTPException 409)"
    using allocate_vpc_cidr_once_full [OF assms(1-4)] by blast
  then show ?thesis using plan_vpc_cidr_exhausted [OF assms(5,6,8,7)] by blast
qed


text \<open>Once the counter has reached \<open>PEERING_LINK_MAX\<close> no allocation succeeds again, whatever links
  the VPCs still use: a link that was freed is never handed out a second time.\<close>

theorem peering_pool_spent:
  assumes "link_world api lv rely cur" "counter_ge cur PEERING_LINK_MAX w"
  shows "allocate_peering_link api lv w \<noteq> (Inr x, w')"
  using link_alloc.retry_post [of "(api, lv, rely, cur, Some PEERING_LINK_MAX)" w MAX_RETRIES x w'] assms
  by (auto simp: allocate_peering_link_def)

lemma peering_link_some: "0 \<le> k \<Longrightarrow> k < PEERING_LINK_MAX \<Longrightarrow> peering_link_addresses k \<noteq> None"
  by (simp add: peering_link_addresses_def peering_base PEERING_LINK_MAX_def Let_def)

text \<open>The scan for a link takes the first \<open>/30\<close> at or after the counter that no VPC uses, and gives
  up with 409 exactly when all of them up to the end of the pool are used.\<close>

theorem peering_scan_first_free:
  assumes "0 \<le> k"
  shows "case peering_scan used k of
     Inr (i, l, r, c) \<Rightarrow> k \<le> i \<and> i < PEERING_LINK_MAX \<and> peering_link_addresses i = Some (l, r, c)
        \<and> c \<notin> set used \<and> (\<forall>j. k \<le> j \<and> j < i \<longrightarrow> snd (snd (the (peering_link_addresses j))) \<in> set used)
   | Inl e \<Rightarrow> e = HTTPException 409
        \<and> (\<forall>j. k \<le> j \<and> j < PEERING_LINK_MAX \<longrightarrow> snd (snd (the (peering_link_addresses j))) \<in> set used)"
  using assms
proof (induction used k rule: peering_scan.induct)
  case (1 used k)
  show ?case
  proof (cases "k < PEERING_LINK_MAX")
    case False
    then show ?thesis by (auto simp: peering_scan.simps)
  next
    case True
    then obtain l r c where a: "peering_link_addresses k = Some (l, r, c)"
      using peering_link_some [of k] "1.prems" by (cases "peering_link_addresses k") auto
    show ?thesis
    proof (cases "c \<in> set used")
      case False
      with True a show ?thesis by (subst peering_scan.simps) auto
    next
      case used: True
      have ih: "case peering_scan used (k + 1) of
         Inr (i, l, r, c) \<Rightarrow> k + 1 \<le> i \<and> i < PEERING_LINK_MAX \<and> peering_link_addresses i = Some (l, r, c)
            \<and> c \<notin> set used \<and> (\<forall>j. k + 1 \<le> j \<and> j < i \<longrightarrow> snd (snd (the (peering_link_addresses j))) \<in> set used)
       | Inl e \<Rightarrow> e = HTTPException 409
            \<and> (\<forall>j. k + 1 \<le> j \<and> j < PEERING_LINK_MAX \<longrightarrow> snd (snd (the (peering_link_addresses j))) \<in> set used)"
        using "1.IH" [OF True a refl refl] used "1.prems" by simp
      have step: "k \<le> j \<longleftrightarrow> j = k \<or> k + 1 \<le> j" for j by auto
      have eq: "peering_scan used k = peering_scan used (k + 1)"
        using True a used by (subst peering_scan.simps) simp
      show ?thesis unfolding eq using ih a used
        by (auto simp: step split: sum.splits)
    qed
  qed
qed

lemma demo_full: "allocate_vpc_cidr demo_env (mem_cm_api VPC_CIDR_CONFIGMAP) (demo_subnets ''10.8.0.0/23'') None =
   (Inl (HTTPException 409), Some ([(''next_index'', ''0'')], 1))"
proof -
  have l: "list_subnet_cidrs (demo_subnets ''10.8.0.0/23'') w = (Inr [(''s1'', ''10.8.0.0/23'')], w)"
    for w :: "(string dict \<times> nat) option"
    by (simp add: list_subnet_cidrs_def demo_subnets_def subnet_cidr_parts_def strip_def lstrip_def rstrip_def
        is_space_def)
  have "plan_vpc_cidr demo_env [(''s1'', ''10.8.0.0/23'')] 0 = Inl (HTTPException 409)"
    unfolding plan_vpc_cidr_def demo_super demo_prefix
    by (simp add: demo_cands choose_range_def demo_nets upt_rec find_cidr_conflicts_def conflicts_with_def
        vpc_supernet_def demo_env_def overlaps_def in_net_def mask_down_def broadcast_def block_size_def)
  then have "allocate_vpc_cidr_once demo_env (mem_cm_api VPC_CIDR_CONFIGMAP) (demo_subnets ''10.8.0.0/23'') None =
     (Inl (HTTPException 409), Some ([(''next_index'', ''0'')], 1))"
    by (simp add: allocate_vpc_cidr_once_def bind_io_def demo_counter l)
  then show ?thesis by (simp add: allocate_vpc_cidr_def retry_first)
qed

theorem allocate_vpc_cidr_exhausted_witness:
  "\<exists>existing u. list_subnet_cidrs (demo_subnets ''10.8.0.0/23'') u =
      (Inr existing, Some ([(''next_index'', ''0'')], 1 :: nat)) \<and> existing \<noteq> []"
proof -
  have h: "no_http (read_config_map (mem_cm_api VPC_CIDR_CONFIGMAP))"
    "no_http (create_config_map (mem_cm_api VPC_CIDR_CONFIGMAP) b)"
    "no_http (replace_config_map (mem_cm_api VPC_CIDR_CONFIGMAP) b)"
    "no_http (demo_subnets ''10.8.0.0/23'' :: ((string dict \<times> nat) option, subnet_spec cr list) io)" for b
    by (auto simp: no_http_def mem_cm_api_def demo_subnets_def mem_read_def mem_create_def mem_replace_def
        split: option.splits if_splits)
  have c: "subnets \<lparr>net_ver = V4, net_addr = 168296448, net_len = 23\<rparr> (nat (vpc_prefix_len demo_env)) =
      Some [\<lparr>net_ver = V4, net_addr = 168296448, net_len = 24\<rparr>, \<lparr>net_ver = V4, net_addr = 168296704, net_len = 24\<rparr>]"
    by (simp add: demo_prefix demo_cands)
  from allocate_vpc_cidr_exhausted [OF h demo_super _ _ c demo_full] show ?thesis
    by (fastforce simp: demo_prefix)
qed

lemma demo_link_world:
  "link_world (mem_cm_api PEERING_LINK_CONFIGMAP) (ret []) (=) mem_cur"
  using mem_cm_store by (auto simp: link_world_def mem_cm_api_def)

lemma demo_links:
  "peering_link_addresses 0 = Some (''169.254.101.1'', ''169.254.101.2'', ''169.254.101.0/30'')"
  "peering_link_addresses 1 = Some (''169.254.101.5'', ''169.254.101.6'', ''169.254.101.4/30'')"
  by (simp_all add: peering_link_addresses_def peering_base mk_net_def mask_down_def hosts_def broadcast_def
      block_size_def upt_rec net_str_def ipv4_str_def nat_str.simps)

lemma demo_scan:
  "peering_scan [] 0 = Inr (0, ''169.254.101.1'', ''169.254.101.2'', ''169.254.101.0/30'')"
  "peering_scan [] 1 = Inr (1, ''169.254.101.5'', ''169.254.101.6'', ''169.254.101.4/30'')"
  by (simp_all add: peering_scan.simps demo_links PEERING_LINK_MAX_def)



theorem peering_pool_spent_witness:
  "\<forall>x w'. allocate_peering_link (mem_cm_api PEERING_LINK_CONFIGMAP) (ret []) (Some ([(''next_index'', ''62'')], 7))
      \<noteq> (Inr x, w')"
proof (intro allI, rule peering_pool_spent [OF demo_link_world])
  show "counter_ge mem_cur PEERING_LINK_MAX (Some ([(''next_index'', ''62'')], 7))"
    using next_index_counter [of 62]
    by (simp add: counter_ge_def mem_cur_def PEERING_LINK_MAX_def int_str_def nat_str.simps)
qed

theorem peering_scan_first_free_witness:
  "''169.254.101.0/30'' \<notin> set ([] :: string list) \<and> peering_link_addresses 0 =
     Some (''169.254.101.1'', ''169.254.101.2'', ''169.254.101.0/30'')"
  using peering_scan_first_free [of 0 "[]"] by (simp add: demo_scan)
end
