(* ===== verification/Regex.thy ===== *)
theory Regex
  imports Prelude
begin

section \<open>Regular expressions (\<open>re.fullmatch\<close>)\<close>

text \<open>
  The part of Python's \<open>re\<close> the validators use: character classes, sequences, alternatives,
  \<open>*\<close>, \<open>+\<close>, \<open>?\<close> and \<open>{0,n}\<close>. A whole-string match is decided with derivatives; the
  language of an expression is the specification it is proved against.
\<close>

datatype re =
    Eps
  | Nope
  | Cls "char \<Rightarrow> bool"
  | Seq re re
  | Alt re re
  | Star re
  | UpTo nat re

abbreviation Lit :: "char \<Rightarrow> re" where
  "Lit c \<equiv> Cls (\<lambda>x. x = c)"

abbreviation Plus :: "re \<Rightarrow> re" where
  "Plus r \<equiv> Seq r (Star r)"

abbreviation Opt :: "re \<Rightarrow> re" where
  "Opt r \<equiv> Alt r Eps"

fun nullable :: "re \<Rightarrow> bool" where
  "nullable Eps = True"
| "nullable Nope = False"
| "nullable (Cls p) = False"
| "nullable (Seq r s) = (nullable r \<and> nullable s)"
| "nullable (Alt r s) = (nullable r \<or> nullable s)"
| "nullable (Star r) = True"
| "nullable (UpTo n r) = True"

fun deriv :: "char \<Rightarrow> re \<Rightarrow> re" where
  "deriv c Eps = Nope"
| "deriv c Nope = Nope"
| "deriv c (Cls p) = (if p c then Eps else Nope)"
| "deriv c (Seq r s) =
     (if nullable r then Alt (Seq (deriv c r) s) (deriv c s) else Seq (deriv c r) s)"
| "deriv c (Alt r s) = Alt (deriv c r) (deriv c s)"
| "deriv c (Star r) = Seq (deriv c r) (Star r)"
| "deriv c (UpTo n r) = (if n = 0 then Nope else Seq (deriv c r) (UpTo (n - 1) r))"

definition fullmatch :: "re \<Rightarrow> string \<Rightarrow> bool" where
  "fullmatch r s = nullable (foldl (\<lambda>q c. deriv c q) r s)"

subsection \<open>The language of an expression\<close>

fun words_upto :: "nat \<Rightarrow> string set \<Rightarrow> string set" where
  "words_upto 0 L = {[]}"
| "words_upto (Suc n) L = insert [] {x @ y | x y. x \<in> L \<and> y \<in> words_upto n L}"

inductive_set star_words :: "string set \<Rightarrow> string set" for L where
  star_Nil [intro]: "[] \<in> star_words L"
| star_app [intro]: "x \<in> L \<Longrightarrow> y \<in> star_words L \<Longrightarrow> x @ y \<in> star_words L"

inductive_cases star_wordsE: "s \<in> star_words L"

fun lang :: "re \<Rightarrow> string set" where
  "lang Eps = {[]}"
| "lang Nope = {}"
| "lang (Cls p) = {[c] | c. p c}"
| "lang (Seq r s) = {x @ y | x y. x \<in> lang r \<and> y \<in> lang s}"
| "lang (Alt r s) = lang r \<union> lang s"
| "lang (Star r) = star_words (lang r)"
| "lang (UpTo n r) = words_upto n (lang r)"

lemma words_upto_Nil [simp]: "[] \<in> words_upto n L"
  by (cases n) auto

lemma nullable_lang: "nullable r \<longleftrightarrow> [] \<in> lang r"
  by (induction r) auto

lemma words_upto_app: "x \<in> L \<Longrightarrow> y \<in> words_upto n L \<Longrightarrow> x @ y \<in> words_upto (Suc n) L"
  by auto

lemma words_upto_mono: "s \<in> words_upto n L \<Longrightarrow> s \<in> words_upto (Suc n) L"
proof (induction n arbitrary: s)
  case (Suc n)
  then consider "s = []" | x y where "s = x @ y" "x \<in> L" "y \<in> words_upto n L" by auto
  then show ?case
  proof cases
    case 2
    then show ?thesis using Suc.IH words_upto_app by blast
  qed simp
qed simp

lemma star_words_Cons:
  "c # s \<in> star_words L \<longleftrightarrow> (\<exists>x y. s = x @ y \<and> c # x \<in> L \<and> y \<in> star_words L)"
proof
  assume "c # s \<in> star_words L"
  then show "\<exists>x y. s = x @ y \<and> c # x \<in> L \<and> y \<in> star_words L"
  proof (induction "c # s" arbitrary: c s)
    case (star_app x y)
    then show ?case by (cases x) auto
  qed
next
  assume "\<exists>x y. s = x @ y \<and> c # x \<in> L \<and> y \<in> star_words L"
  then obtain x y where "s = x @ y" "c # x \<in> L" "y \<in> star_words L" by blast
  then show "c # s \<in> star_words L" using star_app [of "c # x" L y] by simp
qed

lemma words_upto_Cons:
  "c # s \<in> words_upto n L \<longleftrightarrow> (\<exists>x y m. n = Suc m \<and> s = x @ y \<and> c # x \<in> L \<and> y \<in> words_upto m L)"
proof (induction n)
  case (Suc n)
  show ?case
  proof
    assume "c # s \<in> words_upto (Suc n) L"
    then obtain x y where xy: "c # s = x @ y" "x \<in> L" "y \<in> words_upto n L" by auto
    show "\<exists>x y m. Suc n = Suc m \<and> s = x @ y \<and> c # x \<in> L \<and> y \<in> words_upto m L"
    proof (cases x)
      case Nil
      with xy Suc obtain x' y' m where "n = Suc m" "s = x' @ y'" "c # x' \<in> L" "y' \<in> words_upto m L" by auto
      then show ?thesis using words_upto_mono by blast
    next
      case (Cons d x')
      with xy show ?thesis by auto
    qed
  next
    assume "\<exists>x y m. Suc n = Suc m \<and> s = x @ y \<and> c # x \<in> L \<and> y \<in> words_upto m L"
    then obtain x y where "s = x @ y" "c # x \<in> L" "y \<in> words_upto n L" by auto
    then show "c # s \<in> words_upto (Suc n) L" using words_upto_app [of "c # x" L y n] by simp
  qed
qed simp

lemma seq_Cons:
  "c # s \<in> lang (Seq r1 r2) \<longleftrightarrow>
     ([] \<in> lang r1 \<and> c # s \<in> lang r2) \<or> (\<exists>x y. s = x @ y \<and> c # x \<in> lang r1 \<and> y \<in> lang r2)"
proof
  assume "c # s \<in> lang (Seq r1 r2)"
  then obtain x y where xy: "c # s = x @ y" "x \<in> lang r1" "y \<in> lang r2" by auto
  then show "([] \<in> lang r1 \<and> c # s \<in> lang r2) \<or> (\<exists>x y. s = x @ y \<and> c # x \<in> lang r1 \<and> y \<in> lang r2)"
    by (cases x) auto
next
  assume "([] \<in> lang r1 \<and> c # s \<in> lang r2) \<or> (\<exists>x y. s = x @ y \<and> c # x \<in> lang r1 \<and> y \<in> lang r2)"
  then obtain x y where "c # s = x @ y" "x \<in> lang r1" "y \<in> lang r2"
    by (metis append_Cons append_Nil)
  then show "c # s \<in> lang (Seq r1 r2)" by auto
qed

lemma deriv_lang: "s \<in> lang (deriv c r) \<longleftrightarrow> c # s \<in> lang r"
proof (induction r arbitrary: s)
  case (Seq r1 r2)
  have "s \<in> lang (deriv c (Seq r1 r2)) \<longleftrightarrow>
     ([] \<in> lang r1 \<and> c # s \<in> lang r2) \<or> (\<exists>x y. s = x @ y \<and> c # x \<in> lang r1 \<and> y \<in> lang r2)"
    using Seq by (auto simp: nullable_lang)
  then show ?case by (simp only: seq_Cons)
next
  case (UpTo n r)
  show ?case by (cases n) (auto simp: UpTo words_upto_Cons simp del: words_upto.simps)
qed (auto simp: star_words_Cons)

lemma fullmatch_iff: "fullmatch r s \<longleftrightarrow> s \<in> lang r"
  unfolding fullmatch_def by (induction s arbitrary: r) (simp_all add: nullable_lang deriv_lang)

subsection \<open>Languages of classes\<close>

lemma star_cls: "star_words {[c] | c. p c} = {s. list_all p s}"
proof (intro set_eqI iffI)
  fix s assume "s \<in> star_words {[c] | c. p c}"
  then show "s \<in> {s. list_all p s}" by induction auto
next
  fix s assume "s \<in> {s. list_all p s}"
  then show "s \<in> star_words {[c] | c. p c}"
  proof (induction s)
    case (Cons c s)
    then show ?case using star_app [of "[c]" "{[c] | c. p c}" s] by auto
  qed auto
qed

lemma upto_cls: "words_upto n {[c] | c. p c} = {s. list_all p s \<and> length s \<le> n}"
proof (induction n)
  case (Suc n)
  show ?case
  proof (intro set_eqI iffI)
    fix s assume "s \<in> {s. list_all p s \<and> length s \<le> Suc n}"
    then show "s \<in> words_upto (Suc n) {[c] | c. p c}"
      using Suc words_upto_app [of "[hd s]" "{[c] | c. p c}" "tl s" n] by (cases s) auto
  qed (auto simp: Suc)
qed auto

lemma plus_cls: "lang (Plus (Cls p)) = {s. s \<noteq> [] \<and> list_all p s}"
proof (intro set_eqI iffI)
  fix s assume "s \<in> {s. s \<noteq> [] \<and> list_all p s}"
  then obtain c t where s: "s = c # t" "p c" "list_all p t" by (cases s) auto
  have "[c] @ t \<in> lang (Plus (Cls p))" unfolding lang.simps star_cls using s(2,3) by blast
  then show "s \<in> lang (Plus (Cls p))" by (simp add: s(1) del: lang.simps)
qed (auto simp: star_cls)

lemma seq_cls: "lang (Seq (Cls p) r) = {c # t | c t. p c \<and> t \<in> lang r}"
proof (intro set_eqI iffI)
  fix s assume "s \<in> {c # t | c t. p c \<and> t \<in> lang r}"
  then obtain c t where "s = [c] @ t" "[c] \<in> lang (Cls p)" "t \<in> lang r" by auto
  then show "s \<in> lang (Seq (Cls p) r)" unfolding lang.simps(4) by blast
qed auto

lemma seq_cls_right: "lang (Seq r (Cls p)) = {t @ [c] | c t. p c \<and> t \<in> lang r}"
  by auto

end
