(* ===== verification/Naming.thy ===== *)
theory Naming
  imports Kube Regex
begin

section \<open>Names (\<open>core/naming.py\<close>) and validators (\<open>core/errors.py\<close>)\<close>

text \<open>
  Slugs built from display names, the metadata stamped on new objects, and the validators for names
  and image coordinates. A display name is a list of 8-bit characters; every character outside ASCII
  becomes part of a separator, as in the source. \<open>uuid4\<close> is an argument.
\<close>

subsection \<open>Slugs\<close>

definition DISPLAY_NAME_ANNOTATION :: string where
  "DISPLAY_NAME_ANNOTATION = ''kubevirt-ui.io/display-name''"

definition SLUG_LABEL :: string where
  "SLUG_LABEL = ''kubevirt-ui.io/slug''"

definition DNS_1123_MAX :: nat where
  "DNS_1123_MAX = 63"

definition K8S_GENERATENAME_SUFFIX_LEN :: nat where
  "K8S_GENERATENAME_SUFFIX_LEN = 5"

definition SLUG_MAX :: nat where
  "SLUG_MAX = DNS_1123_MAX - K8S_GENERATENAME_SUFFIX_LEN - 1"

definition slug_char :: "char \<Rightarrow> bool" where
  "slug_char c \<longleftrightarrow> is_lower c \<or> is_digit c"

abbreviation hyphen :: char where
  "hyphen \<equiv> CHR ''-''"

text \<open>\<open>re.sub(r"[^a-z0-9]+", "-", s)\<close>.\<close>

function collapse :: "string \<Rightarrow> string" where
  "collapse [] = []"
| "collapse (c # cs) =
     (if slug_char c then c # collapse cs else hyphen # collapse (dropWhile (\<lambda>x. \<not> slug_char x) cs))"
  by pat_completeness auto
termination
  by (relation "measure length") (auto simp: le_imp_less_Suc length_dropWhile_le)

definition sanitize_display_name :: "string \<Rightarrow> nat \<Rightarrow> string" where
  "sanitize_display_name display_name max_length =
     (let slug1 = lower display_name;
          slug2 = collapse slug1;
          slug3 = take max_length (rstrip (\<lambda>c. c = hyphen) (lstrip (\<lambda>c. c = hyphen) slug2));
          slug = rstrip (\<lambda>c. c = hyphen) slug3
      in if slug \<noteq> [] then slug else ''unnamed'')"

subsection \<open>Metadata\<close>

record obj_meta =
  md_name :: "string option"
  md_generateName :: "string option"
  md_namespace :: "string option"
  md_annotations :: "string dict option"
  md_labels :: "string dict option"

record 'r res_body =
  body_metadata :: "obj_meta option"
  body_rest :: 'r

definition empty_meta :: obj_meta where
  "empty_meta = \<lparr>md_name = None, md_generateName = None, md_namespace = None, md_annotations = None,
     md_labels = None\<rparr>"

definition with_synthetic_metadata :: "'r res_body \<Rightarrow> string \<Rightarrow> string option \<Rightarrow> 'r res_body" where
  "with_synthetic_metadata body display_name namespace =
     (let slug = sanitize_display_name display_name SLUG_MAX;
          md = (case body_metadata body of None \<Rightarrow> empty_meta | Some m \<Rightarrow> m);
          md1 = md\<lparr>md_generateName := Some (slug @ ''-''), md_name := None\<rparr>;
          md2 = (if truthy namespace then md1\<lparr>md_namespace := namespace\<rparr> else md1);
          md3 = md2\<lparr>md_annotations := Some (dict_set (or_nil (md_annotations md2)) DISPLAY_NAME_ANNOTATION display_name)\<rparr>;
          md4 = md3\<lparr>md_labels := Some (dict_set (or_nil (md_labels md3)) SLUG_LABEL slug)\<rparr>
      in body\<lparr>body_metadata := Some md4\<rparr>)"

definition generate_k8s_name :: "string \<Rightarrow> string \<Rightarrow> string" where
  "generate_k8s_name uuid_hex display_name =
     (let slug = sanitize_display_name display_name SLUG_MAX; suffix = take 6 uuid_hex
      in slug @ ''-'' @ suffix)"

definition get_display_name :: "obj_meta \<Rightarrow> bool \<Rightarrow> string option" where
  "get_display_name metadata fallback_to_name =
     (let display_name = dict_get (or_nil (md_annotations metadata)) DISPLAY_NAME_ANNOTATION
      in if truthy display_name then display_name
         else if fallback_to_name then md_name metadata
         else None)"

subsection \<open>Validators\<close>

definition K8S_NAME_RE :: re where
  "K8S_NAME_RE =
     Seq (Cls slug_char) (Opt (Seq (Star (Cls (\<lambda>c. c = hyphen \<or> slug_char c))) (Cls slug_char)))"

definition validate_k8s_name :: "string \<Rightarrow> exc + string" where
  "validate_k8s_name value =
     (if value = [] \<or> length value > 253 \<or> \<not> fullmatch K8S_NAME_RE value then Inl (HTTPException 422)
      else Inr value)"

definition tag_start :: "char \<Rightarrow> bool" where
  "tag_start c \<longleftrightarrow> is_upper c \<or> is_lower c \<or> is_digit c \<or> c = CHR ''_''"

definition tag_char :: "char \<Rightarrow> bool" where
  "tag_char c \<longleftrightarrow> tag_start c \<or> c = CHR ''.'' \<or> c = hyphen"

definition OCI_TAG_RE :: re where
  "OCI_TAG_RE = Seq (Cls tag_start) (UpTo 127 (Cls tag_char))"

definition OCI_SEPARATOR :: re where
  "OCI_SEPARATOR = Alt (Lit CHR ''.'') (Alt (Lit CHR ''_'') (Alt (Seq (Lit CHR ''_'') (Lit CHR ''_''))
     (Plus (Lit hyphen))))"

definition OCI_PATH_COMPONENT :: re where
  "OCI_PATH_COMPONENT = Seq (Plus (Cls slug_char)) (Star (Seq OCI_SEPARATOR (Plus (Cls slug_char))))"

definition OCI_REPOSITORY_RE :: re where
  "OCI_REPOSITORY_RE = Seq OCI_PATH_COMPONENT (Star (Seq (Lit CHR ''/'') OCI_PATH_COMPONENT))"

definition HARBOR_PROJECT_RE :: re where
  "HARBOR_PROJECT_RE = OCI_PATH_COMPONENT"

definition validate_oci_tag :: "string \<Rightarrow> exc + string" where
  "validate_oci_tag value =
     (if value = [] \<or> \<not> fullmatch OCI_TAG_RE value then Inl (HTTPException 422) else Inr value)"

definition validate_oci_repository :: "string \<Rightarrow> exc + string" where
  "validate_oci_repository value =
     (if value = [] \<or> length value > 255 \<or> \<not> fullmatch OCI_REPOSITORY_RE value then Inl (HTTPException 422)
      else Inr value)"

definition validate_harbor_project :: "string \<Rightarrow> exc + string" where
  "validate_harbor_project value =
     (if value = [] \<or> length value > 255 \<or> \<not> fullmatch HARBOR_PROJECT_RE value then Inl (HTTPException 422)
      else Inr value)"

definition k8s_error_to_http :: "nat \<Rightarrow> exc" where
  "k8s_error_to_http status =
     HTTPException (if status \<in> {400, 401, 403, 404, 409, 422, 429, 503} then status else 500)"

subsection \<open>Slugs are DNS-1123 labels\<close>

text \<open>The shape of a slug: lower-case letters and digits with single hyphens between them.\<close>

definition is_slug :: "string \<Rightarrow> bool" where
  "is_slug s \<longleftrightarrow> s \<noteq> [] \<and> list_all (\<lambda>c. slug_char c \<or> c = hyphen) s \<and> slug_char (hd s) \<and> slug_char (last s)
     \<and> successively (\<lambda>a b. \<not> (a = hyphen \<and> b = hyphen)) s"

lemma slug_char_hyphen [simp]: "\<not> slug_char hyphen"
  by (simp add: slug_char_def is_lower_def is_digit_def)

lemma collapse_chars: "list_all (\<lambda>c. slug_char c \<or> c = hyphen) (collapse s)"
  by (induction s rule: collapse.induct) auto

lemma collapse_hd: "s \<noteq> [] \<Longrightarrow> slug_char (hd s) \<Longrightarrow> collapse s = hd s # collapse (tl s)"
  by (cases s) auto

lemma collapse_single: "successively (\<lambda>a b. \<not> (a = hyphen \<and> b = hyphen)) (collapse s)"
proof (induction s rule: collapse.induct)
  case (2 c cs)
  show ?case
  proof (cases "slug_char c")
    case True
    with 2 have "c \<noteq> hyphen" by auto
    with 2 True show ?thesis by (simp add: successively_Cons)
  next
    case False
    let ?r = "dropWhile (\<lambda>x. \<not> slug_char x) cs"
    have "?r \<noteq> [] \<Longrightarrow> hd (collapse ?r) \<noteq> hyphen"
      using collapse_hd [of ?r] hd_dropWhile [of "\<lambda>x. \<not> slug_char x" cs] by (metis list.sel(1) slug_char_hyphen)
    with 2 False show ?thesis by (cases "?r = []") (auto simp: successively_Cons simp del: dropWhile_eq_Nil_conv)
  qed
qed simp

lemma rstrip_prefix: "\<exists>t. s = rstrip p s @ t"
proof
  show "s = rstrip p s @ rev (takeWhile p (rev s))"
    unfolding rstrip_def by (metis rev_append rev_rev_ident takeWhile_dropWhile_id)
qed

lemma rstrip_last: "rstrip p s \<noteq> [] \<Longrightarrow> \<not> p (last (rstrip p s))"
  unfolding rstrip_def by (metis hd_dropWhile last_rev rev_is_Nil_conv)

lemma rstrip_id: "s = [] \<or> \<not> p (last s) \<Longrightarrow> rstrip p s = s"
  unfolding rstrip_def by (cases s rule: rev_cases) auto

lemma lstrip_hd: "lstrip p s \<noteq> [] \<Longrightarrow> \<not> p (hd (lstrip p s))"
  unfolding lstrip_def by (rule hd_dropWhile)

lemma to_lower_slug: "slug_char c \<or> c = hyphen \<Longrightarrow> to_lower c = c"
  by (auto simp: to_lower_def slug_char_def is_lower_def is_digit_def is_upper_def)

lemma unnamed_slug: "is_slug ''unnamed''"
  by (simp add: is_slug_def slug_char_def is_lower_def is_digit_def)

lemma sanitize_slug: "is_slug (sanitize_display_name d m)"
proof -
  let ?h = "\<lambda>c. c = hyphen"
  let ?a = "lstrip ?h (collapse (lower d))"
  let ?b = "take m (rstrip ?h ?a)"
  let ?s = "rstrip ?h ?b"
  obtain t1 where t1: "?a = rstrip ?h ?a @ t1" using rstrip_prefix by blast
  obtain t2 where t2: "?b = ?s @ t2" using rstrip_prefix by blast
  have a: "collapse (lower d) = takeWhile ?h (collapse (lower d)) @ ?a"
    by (simp add: lstrip_def)
  have split: "collapse (lower d) = takeWhile ?h (collapse (lower d)) @ ?s @ t2 @ drop m (rstrip ?h ?a) @ t1"
    using a t1 t2 by (metis append.assoc append_take_drop_id)
  show ?thesis
  proof (cases "?s = []")
    case True
    then show ?thesis by (simp add: sanitize_display_name_def Let_def unnamed_slug)
  next
    case False
    have c: "list_all (\<lambda>c. slug_char c \<or> c = hyphen) ?s"
      using collapse_chars [of "lower d"] by (subst (asm) split) simp
    have "successively (\<lambda>a b. \<not> (a = hyphen \<and> b = hyphen)) ?s"
      using collapse_single [of "lower d"] by (subst (asm) split) (simp add: successively_append_iff)
    moreover have "slug_char (last ?s)"
      using rstrip_last [of ?h ?b] False c by (auto simp: list_all_iff)
    moreover have "slug_char (hd ?s)"
    proof -
      have "?a = ?s @ t2 @ drop m (rstrip ?h ?a) @ t1"
        using t1 t2 by (metis append.assoc append_take_drop_id)
      then have "?a \<noteq> []" "hd ?a = hd ?s" using False by (metis append_is_Nil_conv, metis hd_append2)
      then have "hd ?s \<noteq> hyphen" using lstrip_hd [of ?h "collapse (lower d)"] by metis
      then show ?thesis using c False by (auto simp: list_all_iff)
    qed
    ultimately show ?thesis using False c by (simp add: sanitize_display_name_def Let_def is_slug_def)
  qed
qed

lemma rstrip_length: "length (rstrip p s) \<le> length s"
  using rstrip_prefix [of s p] by (metis le_add1 length_append)

lemma sanitize_length: "length (sanitize_display_name d m) \<le> max m 7"
  using rstrip_length [of "\<lambda>c. c = hyphen"
      "take m (rstrip (\<lambda>c. c = hyphen) (lstrip (\<lambda>c. c = hyphen) (collapse (lower d))))"]
  by (auto simp: sanitize_display_name_def Let_def)

lemma collapse_id:
  "list_all (\<lambda>c. slug_char c \<or> c = hyphen) s \<Longrightarrow> successively (\<lambda>a b. \<not> (a = hyphen \<and> b = hyphen)) s \<Longrightarrow>
   collapse s = s"
proof (induction s)
  case (Cons c s)
  have "dropWhile (\<lambda>x. \<not> slug_char x) s = s" if "c = hyphen"
    using Cons.prems that by (cases s) auto
  with Cons show ?case by (auto simp: successively_Cons)
qed simp

lemma sanitize_fixpoint:
  assumes "is_slug s" "length s \<le> m"
  shows "sanitize_display_name s m = s"
proof -
  have s: "s \<noteq> []" "list_all (\<lambda>c. slug_char c \<or> c = hyphen) s" "slug_char (hd s)" "slug_char (last s)"
    "successively (\<lambda>a b. \<not> (a = hyphen \<and> b = hyphen)) s"
    using assms(1) by (auto simp: is_slug_def)
  have "lower s = s"
    using s(2) unfolding lower_def by (intro map_idI) (auto simp: list_all_iff intro: to_lower_slug)
  moreover have "collapse s = s" by (rule collapse_id [OF s(2,5)])
  moreover have "lstrip (\<lambda>c. c = hyphen) s = s"
    using s(1,3) by (cases s) (auto simp: lstrip_def)
  moreover have "rstrip (\<lambda>c. c = hyphen) s = s"
    using s(4) by (intro rstrip_id) auto
  ultimately show ?thesis using s(1) assms(2) by (simp add: sanitize_display_name_def Let_def)
qed

subsection \<open>What the validators accept\<close>

lemma K8S_NAME_lang:
  "fullmatch K8S_NAME_RE s \<longleftrightarrow>
     s \<noteq> [] \<and> list_all (\<lambda>c. c = hyphen \<or> slug_char c) s \<and> slug_char (hd s) \<and> slug_char (last s)"
proof -
  let ?P = "\<lambda>c. c = hyphen \<or> slug_char c"
  have "s \<in> lang K8S_NAME_RE \<longleftrightarrow> (\<exists>a. slug_char a \<and> (s = [a] \<or> (\<exists>m z. s = a # m @ [z] \<and> list_all ?P m \<and> slug_char z)))"
    unfolding K8S_NAME_RE_def seq_cls lang.simps(1,5,6) seq_cls_right unfolding lang.simps star_cls by blast
  also have "\<dots> \<longleftrightarrow> s \<noteq> [] \<and> list_all ?P s \<and> slug_char (hd s) \<and> slug_char (last s)" (is "?L = ?R")
  proof
    assume ?R
    then obtain a t where "s = a # t" "slug_char a" "list_all ?P t" "t \<noteq> [] \<longrightarrow> slug_char (last t)"
      by (cases s) (auto split: if_splits)
    then show ?L by (cases t rule: rev_cases) auto
  qed auto
  finally show ?thesis by (simp add: fullmatch_iff)
qed

lemma OCI_TAG_lang:
  "fullmatch OCI_TAG_RE s \<longleftrightarrow> s \<noteq> [] \<and> tag_start (hd s) \<and> list_all tag_char s \<and> length s \<le> 128"
proof -
  have "s \<in> lang OCI_TAG_RE \<longleftrightarrow> (\<exists>a t. s = a # t \<and> tag_start a \<and> list_all tag_char t \<and> length t \<le> 127)"
    unfolding OCI_TAG_RE_def seq_cls lang.simps(7) unfolding lang.simps upto_cls by blast
  also have "\<dots> \<longleftrightarrow> s \<noteq> [] \<and> tag_start (hd s) \<and> list_all tag_char s \<and> length s \<le> 128"
    by (cases s) (auto simp: tag_char_def)
  finally show ?thesis by (simp add: fullmatch_iff)
qed

text \<open>What makes a path component safe to put into a reference: the alphabet, alphanumeric ends and
  no two dots in a row.\<close>

definition comp_char :: "char \<Rightarrow> bool" where
  "comp_char c \<longleftrightarrow> slug_char c \<or> c \<in> {CHR ''.'', CHR ''_'', hyphen}"

definition dots_apart :: "string \<Rightarrow> bool" where
  "dots_apart s = successively (\<lambda>a b. \<not> (a = CHR ''.'' \<and> b = CHR ''.'')) s"

definition safe_component :: "string \<Rightarrow> bool" where
  "safe_component s \<longleftrightarrow> s \<noteq> [] \<and> list_all comp_char s \<and> slug_char (hd s) \<and> slug_char (last s) \<and> dots_apart s"

lemma slug_char_dot [simp]: "\<not> slug_char CHR ''.''" "\<not> slug_char CHR ''_''" "\<not> slug_char CHR ''/''"
  by (simp_all add: slug_char_def is_lower_def is_digit_def)

lemma dots_apart_no_dot: "CHR ''.'' \<notin> set s \<Longrightarrow> dots_apart s"
  unfolding dots_apart_def by (induction s) (auto simp: successively_Cons)

lemma alnum_run_safe: "s \<noteq> [] \<Longrightarrow> list_all slug_char s \<Longrightarrow> safe_component s"
  unfolding safe_component_def
  by (auto simp: list_all_iff comp_char_def intro!: dots_apart_no_dot)

lemma separator_lang:
  assumes "s \<in> lang OCI_SEPARATOR"
  shows "s \<noteq> [] \<and> list_all comp_char s \<and> dots_apart s"
proof -
  consider "s = ''.''" | "s = ''_''" | "s = ''__''" | "s \<noteq> []" "list_all (\<lambda>c. c = hyphen) s"
    using assms unfolding OCI_SEPARATOR_def lang.simps(5) plus_cls seq_cls unfolding lang.simps star_cls by auto
  then show ?thesis
  proof cases
    case 4
    then have "set s \<subseteq> {hyphen}" by (auto simp: list_all_iff)
    then show ?thesis using 4 by (auto simp: list_all_iff comp_char_def intro!: dots_apart_no_dot)
  qed (simp_all add: comp_char_def dots_apart_def)
qed

lemma safe_component_sep:
  assumes "safe_component a" "s \<noteq> []" "list_all comp_char s" "dots_apart s" "safe_component b"
  shows "safe_component (a @ s @ b)"
proof -
  have "last a \<noteq> CHR ''.''" "hd b \<noteq> CHR ''.''" using assms(1,5) by (auto simp: safe_component_def)
  then show ?thesis using assms
    by (simp add: safe_component_def dots_apart_def successively_append_iff)
qed

lemma path_component_safe:
  assumes "s \<in> lang OCI_PATH_COMPONENT"
  shows "safe_component s"
proof -
  let ?tail = "lang (Seq OCI_SEPARATOR (Plus (Cls slug_char)))"
  have run: "safe_component x" if "x \<in> lang (Plus (Cls slug_char))" for x
    using that alnum_run_safe unfolding plus_cls by blast
  have tails: "safe_component a \<Longrightarrow> safe_component (a @ t)" if "t \<in> star_words ?tail" for a t
    using that
  proof (induction arbitrary: a)
    case (star_app x y)
    then obtain s b where x: "x = s @ b" "s \<in> lang OCI_SEPARATOR" "b \<in> lang (Plus (Cls slug_char))"
      by (auto simp del: lang.simps simp: lang.simps(4) [of OCI_SEPARATOR])
    then have "safe_component (a @ s @ b)"
      using safe_component_sep [OF star_app.prems _ _ _ run] separator_lang by blast
    then show ?case using star_app.IH x(1) by fastforce
  qed simp
  from assms obtain x t where "s = x @ t" "x \<in> lang (Plus (Cls slug_char))" "t \<in> star_words ?tail"
    unfolding OCI_PATH_COMPONENT_def lang.simps(4) [of "Plus (Cls slug_char)"] lang.simps(6) by blast
  then show ?thesis using tails run by blast
qed

lemma repository_safe:
  assumes "s \<in> lang OCI_REPOSITORY_RE"
  shows "\<exists>ps. ps \<noteq> [] \<and> s = join ''/'' ps \<and> list_all safe_component ps"
proof -
  let ?tail = "lang (Seq (Lit CHR ''/'') OCI_PATH_COMPONENT)"
  have tails: "\<exists>ps. a @ t = join ''/'' (a # ps) \<and> list_all safe_component ps" if "t \<in> star_words ?tail" for a t
    using that
  proof (induction arbitrary: a)
    case star_Nil
    show ?case by (intro exI [of _ "[]"]) simp
  next
    case (star_app x y)
    then obtain b where b: "x = CHR ''/'' # b" "b \<in> lang OCI_PATH_COMPONENT" by auto
    obtain ps where "b @ y = join ''/'' (b # ps)" "list_all safe_component ps" using star_app.IH by blast
    then show ?case using b path_component_safe by (intro exI [of _ "b # ps"]) simp
  qed
  from assms obtain x t where "s = x @ t" "x \<in> lang OCI_PATH_COMPONENT" "t \<in> star_words ?tail"
    by (auto simp: OCI_REPOSITORY_RE_def)
  then show ?thesis using tails [of t x] path_component_safe by (metis list.discI list.pred_inject(2))
qed

subsection \<open>Properties\<close>

text \<open>C5. Every slug is a DNS-1123 label with single inner hyphens, at most \<open>max_length\<close> long (for
  limits that leave room for the fallback), accepted by \<open>validate_k8s_name\<close>; sanitizing it again
  changes nothing.\<close>

theorem sanitize_display_name_correct:
  assumes "7 \<le> m"
  shows "is_slug (sanitize_display_name d m) \<and> length (sanitize_display_name d m) \<le> m
     \<and> sanitize_display_name (sanitize_display_name d m) m = sanitize_display_name d m
     \<and> (m \<le> 253 \<longrightarrow> validate_k8s_name (sanitize_display_name d m) = Inr (sanitize_display_name d m))"
proof -
  let ?s = "sanitize_display_name d m"
  have s: "is_slug ?s" "length ?s \<le> m" using sanitize_slug sanitize_length [of d m] assms by (auto simp: max_def)
  have "fullmatch K8S_NAME_RE ?s"
    using s(1) by (auto simp: K8S_NAME_lang is_slug_def list_all_iff)
  then show ?thesis using s sanitize_fixpoint [OF s] by (simp add: validate_k8s_name_def is_slug_def)
qed

theorem sanitize_display_name_correct_witness:
  "sanitize_display_name ''My   Weird---Name!!!'' 57 = ''my-weird-name'' \<and> is_slug ''my-weird-name''"
proof -
  have "sanitize_display_name ''My   Weird---Name!!!'' 57 = ''my-weird-name''"
    by (simp add: sanitize_display_name_def lower_def to_lower_def is_upper_def slug_char_def is_lower_def is_digit_def
        lstrip_def rstrip_def char_of_def bit_iff_odd_drop_bit)
  then show ?thesis using sanitize_display_name_correct [of 57 "''My   Weird---Name!!!''"] by simp
qed

text \<open>\<open>with_synthetic_metadata\<close> sets a \<open>generateName\<close> that is a slug and a hyphen and leaves
  room for the server's suffix within 63 characters, drops a fixed name, keeps every other label and
  annotation, and the display name is read back by \<open>get_display_name\<close>.\<close>

theorem with_synthetic_metadata_roundtrip:
  "\<exists>md slug. body_metadata (with_synthetic_metadata body d ns) = Some md
     \<and> md_generateName md = Some (slug @ ''-'') \<and> is_slug slug
     \<and> length (slug @ ''-'') + K8S_GENERATENAME_SUFFIX_LEN \<le> DNS_1123_MAX
     \<and> md_name md = None
     \<and> get_display_name md fb = (if d = [] then None else Some d)
     \<and> map_of (or_nil (md_labels md)) =
          (map_of (case body_metadata body of None \<Rightarrow> [] | Some m \<Rightarrow> or_nil (md_labels m)))(SLUG_LABEL \<mapsto> slug)
     \<and> map_of (or_nil (md_annotations md)) =
          (map_of (case body_metadata body of None \<Rightarrow> [] | Some m \<Rightarrow> or_nil (md_annotations m)))(DISPLAY_NAME_ANNOTATION \<mapsto> d)
     \<and> body_rest (with_synthetic_metadata body d ns) = body_rest body"
proof -
  let ?slug = "sanitize_display_name d SLUG_MAX"
  have "length ?slug \<le> 57" "is_slug ?slug"
    using sanitize_length [of d SLUG_MAX] sanitize_slug
    by (auto simp: SLUG_MAX_def DNS_1123_MAX_def K8S_GENERATENAME_SUFFIX_LEN_def)
  then show ?thesis
    by (auto simp: with_synthetic_metadata_def Let_def get_display_name_def update_conv' update_conv empty_meta_def
        DNS_1123_MAX_def K8S_GENERATENAME_SUFFIX_LEN_def intro!: exI [of _ ?slug] split: option.splits)
qed

text \<open>A string that passes an image coordinate check is safe in a registry reference: a tag has
  at most 128 characters of the tag alphabet and starts with none of dot and hyphen, a repository is a
  slash-separated list of components and a Harbor project one component, where a component has
  alphanumeric ends and no two dots in a row.\<close>

theorem oci_validators_safe:
  "(validate_oci_tag t = Inr t' \<longrightarrow>
       t' = t \<and> t \<noteq> [] \<and> length t \<le> 128 \<and> list_all tag_char t \<and> tag_start (hd t))
   \<and> (validate_oci_repository r = Inr r' \<longrightarrow>
       r' = r \<and> length r \<le> 255 \<and> (\<exists>ps. ps \<noteq> [] \<and> r = join ''/'' ps \<and> list_all safe_component ps))
   \<and> (validate_harbor_project p = Inr p' \<longrightarrow> p' = p \<and> length p \<le> 255 \<and> safe_component p)"
  using repository_safe [of r] path_component_safe [of p]
  by (auto simp: validate_oci_tag_def validate_oci_repository_def validate_harbor_project_def HARBOR_PROJECT_RE_def
      OCI_TAG_lang fullmatch_iff [of OCI_REPOSITORY_RE] fullmatch_iff [of OCI_PATH_COMPONENT] split: if_splits)

lemmas class_eval = slug_char_def tag_char_def tag_start_def is_lower_def is_upper_def is_digit_def

theorem oci_validators_safe_witness:
  "list_all tag_char ''v1.0.0'' \<and> (\<exists>ps. ps \<noteq> [] \<and> ''team/sub'' = join ''/'' ps) \<and> safe_component ''lib''"
proof -
  have "validate_oci_tag ''v1.0.0'' = Inr ''v1.0.0''"
    by (simp add: validate_oci_tag_def OCI_TAG_lang class_eval)
  moreover have "validate_oci_repository ''team/sub'' = Inr ''team/sub''"
    by (simp add: validate_oci_repository_def OCI_REPOSITORY_RE_def OCI_PATH_COMPONENT_def OCI_SEPARATOR_def
        fullmatch_def class_eval)
  moreover have "validate_harbor_project ''lib'' = Inr ''lib''"
    by (simp add: validate_harbor_project_def HARBOR_PROJECT_RE_def OCI_PATH_COMPONENT_def OCI_SEPARATOR_def
        fullmatch_def class_eval)
  ultimately show ?thesis
    using oci_validators_safe [of "''v1.0.0''" "''v1.0.0''" "''team/sub''" "''team/sub''" "''lib''" "''lib''"] by blast
qed

end
