(* ===== verification/CpPorts.thy ===== *)
theory CpPorts
  imports Kube
begin

section \<open>Control-plane ports (\<open>api/v1/tenants_cp_ports.py\<close>)\<close>

text \<open>
  One ConfigMap maps every tenant to its two ports on the shared address. The port pool and the
  reserved ports come from the environment. The theory shows that allocations are disjoint, stable
  and within the pool.
\<close>

subsection \<open>The table\<close>

definition CP_PORTS_CM_NAME :: string where
  "CP_PORTS_CM_NAME = ''kubevirt-ui-cp-ports''"

text \<open>The module does not load when a bound is not a number.\<close>

definition PORT_BASE :: "(string \<Rightarrow> string option) \<Rightarrow> int option" where
  "PORT_BASE env = py_int (getenv env ''TENANTS_CP_PORT_BASE'' ''20000'')"

definition PORT_END :: "(string \<Rightarrow> string option) \<Rightarrow> int option" where
  "PORT_END env = py_int (getenv env ''TENANTS_CP_PORT_END'' ''60000'')"

definition reserved_ports :: "(string \<Rightarrow> string option) \<Rightarrow> int list" where
  "reserved_ports env =
     map (\<lambda>tok. int (digits_val tok))
       (filter isdigit (map strip (split_on (CHR '','') (getenv env ''TENANTS_CP_RESERVED_PORTS'' ''8133,8134''))))"

definition entry_part :: "int option \<times> int option \<Rightarrow> string \<Rightarrow> int option \<times> int option" where
  "entry_part acc part =
     (let (k, v) = partition_on (CHR ''='') part; v = strip v
      in if strip k = ''api'' \<and> isdigit v then (Some (int (digits_val v)), snd acc)
         else if strip k = ''konn'' \<and> isdigit v then (fst acc, Some (int (digits_val v)))
         else acc)"

definition parse_entry :: "string \<Rightarrow> (int \<times> int) option" where
  "parse_entry value =
     (case foldl entry_part (None, None) (split_on (CHR '','') value) of
        (Some api, Some konn) \<Rightarrow> Some (api, konn)
      | _ \<Rightarrow> None)"

definition format_entry :: "int \<Rightarrow> int \<Rightarrow> string" where
  "format_entry api konn = ''api='' @ int_str api @ '',konn='' @ int_str konn"

definition read_cm :: "'w cm_api \<Rightarrow> ('w, string dict \<times> string) io" where
  "read_cm api = (\<lambda>w.
     case read_config_map api w of
       (Inr cm, w1) \<Rightarrow> (Inr (or_nil (cm_data cm), or_nil (cm_rv cm)), w1)
     | (Inl e, w1) \<Rightarrow> if e = ApiException 404 then (Inr ([], []), w1) else (Inl e, w1))"

definition write_cm :: "'w cm_api \<Rightarrow> string dict \<Rightarrow> string \<Rightarrow> ('w, unit) io" where
  "write_cm api data rv =
     (let body = \<lparr>cm_name = CP_PORTS_CM_NAME,
            cm_labels = [(''kubevirt-ui.io/managed'', ''true''), (''kubevirt-ui.io/role'', ''cp-port-allocator'')],
            cm_rv = (if rv \<noteq> [] then Some rv else None), cm_data = Some data\<rparr>
      in if rv \<noteq> [] then replace_config_map api body
         else bind_io (create_config_map api body) (\<lambda>_. ret ()))"

definition used_ports :: "string dict \<Rightarrow> int list" where
  "used_ports data =
     concat (map (\<lambda>(k, v). case parse_entry v of None \<Rightarrow> [] | Some (a, b) \<Rightarrow> [a, b]) data)"

subsection \<open>Picking ports\<close>

fun pick_loop :: "int list \<Rightarrow> int list \<Rightarrow> int list \<Rightarrow> (int \<times> int) option" where
  "pick_loop [] blocked picked = None"
| "pick_loop (p # ps) blocked picked =
     (if p \<notin> set blocked then
        (let picked = picked @ [p]; blocked = p # blocked
         in if length picked = 2 then Some (picked ! 0, picked ! 1) else pick_loop ps blocked picked)
      else pick_loop ps blocked picked)"

record port_pool =
  pool_base :: int
  pool_end :: int
  pool_reserved :: "int list"

text \<open>\<open>range(base, end)\<close>.\<close>

definition pick_two_free :: "port_pool \<Rightarrow> int list \<Rightarrow> exc + (int \<times> int)" where
  "pick_two_free pool used =
     (case pick_loop [pool_base pool..pool_end pool - 1] (used @ pool_reserved pool) [] of
        None \<Rightarrow> Inl RuntimeError
      | Some p \<Rightarrow> Inr p)"

subsection \<open>Allocate and release\<close>

text \<open>The loops, by the attempts left.\<close>

fun allocate_loop :: "port_pool \<Rightarrow> 'w cm_api \<Rightarrow> string \<Rightarrow> nat \<Rightarrow> ('w, int \<times> int) io" where
  "allocate_loop pool api tenant 0 w = (Inl RuntimeError, w)"
| "allocate_loop pool api tenant (Suc n) w =
     (case read_cm api w of
        (Inl e, w1) \<Rightarrow> (Inl e, w1)
      | (Inr (data, rv), w1) \<Rightarrow>
          (let existing = dict_get data tenant;
               parsed = (if truthy existing then parse_entry (the existing) else None)
           in case parsed of
                Some p \<Rightarrow> (Inr p, w1)
              | None \<Rightarrow>
                  (case pick_two_free pool (used_ports data) of
                     Inl e \<Rightarrow> (Inl e, w1)
                   | Inr (a, k) \<Rightarrow>
                       (case write_cm api (dict_set data tenant (format_entry a k)) rv w1 of
                          (Inr _, w2) \<Rightarrow> (Inr (a, k), w2)
                        | (Inl e, w2) \<Rightarrow>
                            if e = ApiException 409 then allocate_loop pool api tenant n w2 else (Inl e, w2)))))"

definition allocate_cp_ports :: "port_pool \<Rightarrow> 'w cm_api \<Rightarrow> string \<Rightarrow> nat \<Rightarrow> ('w, int \<times> int) io" where
  "allocate_cp_ports pool api tenant max_retries = allocate_loop pool api tenant max_retries"

fun release_loop :: "'w cm_api \<Rightarrow> string \<Rightarrow> nat \<Rightarrow> ('w, unit) io" where
  "release_loop api tenant 0 w = (Inr (), w)"
| "release_loop api tenant (Suc n) w =
     (case read_cm api w of
        (Inl e, w1) \<Rightarrow> (Inl e, w1)
      | (Inr (data, rv), w1) \<Rightarrow>
          if dict_get data tenant = None then (Inr (), w1)
          else (case write_cm api (dict_del data tenant) rv w1 of
                  (Inr _, w2) \<Rightarrow> (Inr (), w2)
                | (Inl e, w2) \<Rightarrow>
                    if e = ApiException 409 then release_loop api tenant n w2
                    else if e = ApiException 404 then (Inr (), w2)
                    else (Inl e, w2)))"

definition release_cp_ports :: "'w cm_api \<Rightarrow> string \<Rightarrow> nat \<Rightarrow> ('w, unit) io" where
  "release_cp_ports api tenant max_retries = release_loop api tenant max_retries"

subsection \<open>Entries\<close>

lemma int_str_nonneg: "0 \<le> i \<Longrightarrow> int_str i = nat_str (nat i)"
  by (simp add: int_str_def)

lemma partition_on_key:
  "c \<notin> set k \<Longrightarrow> partition_on c (k @ c # v) = (k, v)"
  by (induction k) (auto simp: partition_on_def)

lemma strip_key [simp]: "strip ''api'' = ''api''" "strip ''konn'' = ''konn''"
  by (simp_all add: strip_def lstrip_def rstrip_def is_space_def)

lemma parse_format:
  assumes "0 \<le> a" "0 \<le> k"
  shows "parse_entry (format_entry a k) = Some (a, k)"
proof -
  have s: "split_on (CHR '','') (format_entry a k) = [''api='' @ nat_str (nat a), ''konn='' @ nat_str (nat k)]"
    using split_on_append [of "CHR '',''" "''api='' @ nat_str (nat a)" "''konn='' @ nat_str (nat k)"] assms
    by (simp add: format_entry_def int_str_nonneg split_on_free)
  have "partition_on (CHR ''='') (''api='' @ nat_str (nat a)) = (''api'', nat_str (nat a))"
    "partition_on (CHR ''='') (''konn='' @ nat_str (nat k)) = (''konn'', nat_str (nat k))"
    using partition_on_key [of "CHR ''=''" "''api''"] partition_on_key [of "CHR ''=''" "''konn''"] by simp_all
  then show ?thesis using assms by (simp add: parse_entry_def s entry_part_def Let_def)
qed

subsection \<open>The two lowest free ports\<close>

lemma pick_loop_one:
  "distinct ps \<Longrightarrow> set ps \<inter> {q} = {} \<Longrightarrow>
   pick_loop ps (q # blocked) [q] = (case filter (\<lambda>p. p \<notin> set blocked) ps of [] \<Rightarrow> None | b # _ \<Rightarrow> Some (q, b))"
  by (induction ps) auto

lemma pick_loop_filter:
  "distinct ps \<Longrightarrow>
   pick_loop ps blocked [] = (case filter (\<lambda>p. p \<notin> set blocked) ps of a # b # _ \<Rightarrow> Some (a, b) | _ \<Rightarrow> None)"
proof (induction ps)
  case (Cons p ps)
  show ?case
  proof (cases "p \<in> set blocked")
    case False
    have "pick_loop ps (p # blocked) [p] = (case filter (\<lambda>p. p \<notin> set blocked) ps of [] \<Rightarrow> None | b # _ \<Rightarrow> Some (p, b))"
      by (rule pick_loop_one) (use Cons.prems in auto)
    with False show ?thesis by (simp add: Let_def split: list.splits)
  qed (use Cons in auto)
qed simp

lemma filter_two_lowest:
  fixes a b :: int
  assumes "sorted_wrt (<) xs" "filter P xs = a # b # r"
  shows "a \<in> set xs \<and> b \<in> set xs \<and> P a \<and> P b \<and> a < b \<and> (\<forall>p \<in> set xs. P p \<longrightarrow> p = a \<or> b \<le> p)"
proof -
  have s: "sorted_wrt (<) (a # b # r)" using sorted_wrt_filter [OF assms(1), of P] assms(2) by simp
  have set: "set (a # b # r) = {p \<in> set xs. P p}" using assms(2) by (metis set_filter)
  then have "a \<in> set xs \<and> P a" "b \<in> set xs \<and> P b" by auto
  moreover have "p = a \<or> b \<le> p" if "p \<in> set xs" "P p" for p
  proof -
    have "p \<in> set (a # b # r)" using set that by blast
    then show ?thesis using s by auto
  qed
  ultimately show ?thesis using s by auto
qed

definition free_ports :: "port_pool \<Rightarrow> int list \<Rightarrow> int set" where
  "free_ports pool used =
     {p. pool_base pool \<le> p \<and> p < pool_end pool \<and> p \<notin> set used \<and> p \<notin> set (pool_reserved pool)}"

lemma free_ports_filter:
  "free_ports pool used = set (filter (\<lambda>p. p \<notin> set (used @ pool_reserved pool)) [pool_base pool..pool_end pool - 1])"
  by (auto simp: free_ports_def)

lemma sorted_upto: "sorted_wrt (<) [i..j::int]"
proof (induction i j rule: upto.induct)
  case (1 i j)
  then show ?case by (subst upto.simps) auto
qed

lemma pick_two_free_Inr:
  assumes "pick_two_free pool used = Inr (a, b)"
  shows "a \<in> free_ports pool used \<and> b \<in> free_ports pool used \<and> a < b
     \<and> (\<forall>p \<in> free_ports pool used. p = a \<or> b \<le> p)"
proof -
  let ?P = "\<lambda>p. p \<notin> set (used @ pool_reserved pool)"
  obtain r where "filter ?P [pool_base pool..pool_end pool - 1] = a # b # r"
    using assms by (auto simp: pick_two_free_def pick_loop_filter split: list.splits option.splits)
  from filter_two_lowest [OF sorted_upto this] show ?thesis unfolding free_ports_filter by auto
qed

lemma pick_two_free_Inl:
  "pick_two_free pool used = Inl e \<longleftrightarrow> e = RuntimeError \<and> card (free_ports pool used) < 2"
proof -
  let ?f = "filter (\<lambda>p. p \<notin> set (used @ pool_reserved pool)) [pool_base pool..pool_end pool - 1]"
  have "card (free_ports pool used) = length ?f"
    unfolding free_ports_filter by (rule distinct_card) simp
  moreover have "pick_two_free pool used = Inl e \<longleftrightarrow> e = RuntimeError \<and> (case ?f of a # b # _ \<Rightarrow> False | _ \<Rightarrow> True)"
    by (auto simp: pick_two_free_def pick_loop_filter split: list.splits option.splits)
  ultimately show ?thesis by (auto split: list.splits)
qed

subsection \<open>The table invariant\<close>

definition ports_at :: "string dict \<Rightarrow> string \<Rightarrow> (int \<times> int) option" where
  "ports_at data t = Option.bind (dict_get data t) parse_entry"

definition table_ok :: "string dict \<Rightarrow> bool" where
  "table_ok data \<longleftrightarrow>
     (\<forall>t a k. ports_at data t = Some (a, k) \<longrightarrow> a \<noteq> k)
   \<and> (\<forall>t t' a k a' k'. t \<noteq> t' \<longrightarrow> ports_at data t = Some (a, k) \<longrightarrow> ports_at data t' = Some (a', k') \<longrightarrow>
        {a, k} \<inter> {a', k'} = {})"

lemma ports_at_used: "ports_at data t = Some (a, k) \<Longrightarrow> a \<in> set (used_ports data) \<and> k \<in> set (used_ports data)"
proof -
  assume "ports_at data t = Some (a, k)"
  then obtain v where "(t, v) \<in> set data" "parse_entry v = Some (a, k)"
    by (auto simp: ports_at_def bind_eq_Some_conv dest: map_of_SomeD)
  then show ?thesis unfolding used_ports_def by (intro conjI) (force simp: set_concat)+
qed

lemma ports_at_set:
  "ports_at (dict_set data t v) t' = (if t' = t then parse_entry v else ports_at data t')"
  by (simp add: ports_at_def update_conv')

lemma ports_at_del: "ports_at (dict_del data t) t' = (if t' = t then None else ports_at data t')"
  by (simp add: ports_at_def delete_conv')

lemma parse_entry_Nil: "parse_entry [] = None"
  by (simp add: parse_entry_def entry_part_def partition_on_def strip_def lstrip_def rstrip_def)

text \<open>The entry \<open>allocate_cp_ports\<close> looks at.\<close>

lemma existing_parsed:
  "(if truthy (dict_get data t) then parse_entry (the (dict_get data t)) else None) = ports_at data t"
  by (cases "dict_get data t") (auto simp: ports_at_def parse_entry_Nil)

lemma table_ok_set:
  assumes "table_ok data" "a \<in> free_ports pool (used_ports data)" "k \<in> free_ports pool (used_ports data)"
    and "a \<noteq> k" "0 \<le> pool_base pool"
  shows "table_ok (dict_set data t (format_entry a k))"
    and "ports_at (dict_set data t (format_entry a k)) t = Some (a, k)"
proof -
  have p: "parse_entry (format_entry a k) = Some (a, k)"
    using assms(2,3,5) by (intro parse_format) (auto simp: free_ports_def)
  then show "ports_at (dict_set data t (format_entry a k)) t = Some (a, k)" by (simp add: ports_at_set)
  have new: "{a, k} \<inter> {a', k'} = {}" if "ports_at data t' = Some (a', k')" for t' a' k'
    using ports_at_used [OF that] assms(2,3) by (auto simp: free_ports_def)
  show "table_ok (dict_set data t (format_entry a k))"
    unfolding table_ok_def ports_at_set
  proof (intro conjI allI impI)
    fix t1 x y assume e: "(if t1 = t then parse_entry (format_entry a k) else ports_at data t1) = Some (x, y)"
    show "x \<noteq> y"
    proof (cases "t1 = t")
      case True
      then show ?thesis using e p assms(4) by simp
    next
      case False
      then have "ports_at data t1 = Some (x, y)" using e by simp
      then show ?thesis using assms(1) unfolding table_ok_def by blast
    qed
  next
    fix t1 t2 x y x' y'
    assume ne: "t1 \<noteq> t2"
      and e1: "(if t1 = t then parse_entry (format_entry a k) else ports_at data t1) = Some (x, y)"
      and e2: "(if t2 = t then parse_entry (format_entry a k) else ports_at data t2) = Some (x', y')"
    consider (1) "t1 = t" "t2 \<noteq> t" | (2) "t2 = t" "t1 \<noteq> t" | (3) "t1 \<noteq> t" "t2 \<noteq> t" using ne by blast
    then show "{x, y} \<inter> {x', y'} = {}"
    proof cases
      case 1
      then have "ports_at data t2 = Some (x', y')" "x = a" "y = k" using e1 e2 p by simp_all
      then show ?thesis using new by simp
    next
      case 2
      then have "ports_at data t1 = Some (x, y)" "x' = a" "y' = k" using e1 e2 p by simp_all
      then show ?thesis using new [of t1 x y] by blast
    next
      case 3
      then have "ports_at data t1 = Some (x, y)" "ports_at data t2 = Some (x', y')" using e1 e2 by simp_all
      then show ?thesis using assms(1) ne unfolding table_ok_def by blast
    qed
  qed
qed

lemma table_ok_del: "table_ok data \<Longrightarrow> table_ok (dict_del data t)"
  unfolding table_ok_def ports_at_del by (metis option.discI)

subsection \<open>The loops under the server's concurrency rules\<close>

abbreviation ports_store ::
  "('w \<Rightarrow> 'w \<Rightarrow> bool) \<Rightarrow> ('w \<Rightarrow> (string dict \<times> string) option) \<Rightarrow> 'w cm_api \<Rightarrow> bool" where
  "ports_store rely cur api \<equiv>
     cm_store rely cur (read_config_map api) (create_config_map api) (replace_config_map api)"

text \<open>The data of the ConfigMap; a missing one counts as empty.\<close>

definition data_of :: "('w \<Rightarrow> (string dict \<times> string) option) \<Rightarrow> 'w \<Rightarrow> string dict" where
  "data_of cur w = (case cur w of None \<Rightarrow> [] | Some (d, v) \<Rightarrow> d)"

lemma read_cm_law:
  assumes "ports_store rely cur api" "read_cm api w = (r, w1)"
  shows "rely w w1"
    and "r = Inr (d, rv) \<Longrightarrow> data_of cur w1 = d \<and> (if rv = [] then cur w1 = None else cur w1 = Some (d, rv))"
proof -
  note law = cm_storeD [OF assms(1)]
  show "rely w w1"
    using assms(2) law(4) by (auto simp: read_cm_def split: prod.splits sum.splits if_splits)
  assume r: "r = Inr (d, rv)"
  show "data_of cur w1 = d \<and> (if rv = [] then cur w1 = None else cur w1 = Some (d, rv))"
  proof (cases "read_config_map api w")
    case (Pair q u)
    show ?thesis
    proof (cases q)
      case (Inl e)
      then show ?thesis using assms(2) r Pair law(6) [of w w1]
        by (auto simp: read_cm_def data_of_def split: if_splits)
    next
      case (Inr cm)
      then show ?thesis using assms(2) r Pair law(5) [of w cm u]
        by (auto simp: read_cm_def data_of_def)
    qed
  qed
qed

lemma write_cm_law:
  assumes law: "ports_store rely cur api"
    and seen: "if rv = [] then cur w = None else cur w = Some (d, rv)" "data_of cur w = d"
    and "write_cm api d' rv w = (Inr u, w2)"
  shows "\<exists>w1 v. rely w w1 \<and> data_of cur w1 = d \<and> cur w2 = Some (d', v)"
proof (cases "rv = []")
  case True
  then obtain cm b where "create_config_map api b w = (Inr cm, w2)" "cm_data b = Some d'"
    using assms(4) by (auto simp: write_cm_def Let_def bind_io_Inr)
  moreover have "d = []" using seen True by (simp add: data_of_def)
  ultimately show ?thesis using cm_storeD(7) [OF law] by (fastforce simp: data_of_def)
next
  case False
  then obtain b where b: "replace_config_map api b w = (Inr u, w2)" "cm_data b = Some d'" "cm_rv b = Some rv"
    using assms(4) by (auto simp: write_cm_def Let_def)
  obtain w1 d1 v' where w1: "rely w w1" "cur w1 = Some (d1, rv)" "cur w2 = Some (d', v')"
    using cm_storeD(9) [OF law b(1)] b(2,3) by auto
  moreover have "d1 = d" using cm_storeD(3) [OF law w1(1)] seen False w1(2) by auto
  ultimately show ?thesis by (auto simp: data_of_def)
qed

lemma write_cm_data:
  assumes "write_cm api d' rv w = (Inr u, w2)" "ports_store rely cur api"
    and "data_of cur w = d \<and> (if rv = [] then cur w = None else cur w = Some (d, rv))"
  shows "data_of cur w2 = d'"
  using write_cm_law [OF assms(2) conjunct2 [OF assms(3)] conjunct1 [OF assms(3)] assms(1)]
  by (auto simp: data_of_def)

lemma write_cm_refused:
  assumes "ports_store rely cur api" "write_cm api d' rv w = (Inl (ApiException st), w2)"
  shows "rely w w2"
  using assms(2) cm_storeD(8,10) [OF assms(1)]
  by (auto simp: write_cm_def Let_def bind_io_Inl split: if_splits)

lemma allocate_loop_correct:
  assumes law: "ports_store rely cur api" and base: "0 \<le> pool_base pool"
    and keep: "stable rely (\<lambda>u. table_ok (data_of cur u))"
    and "table_ok (data_of cur w)"
    and "allocate_loop pool api t n w = (Inr (a, k), w')"
  shows "\<exists>w1 d. rely w w1 \<and> data_of cur w1 = d
     \<and> table_ok (data_of cur w') \<and> ports_at (data_of cur w') t = Some (a, k)
     \<and> (\<forall>t'. t' \<noteq> t \<longrightarrow> dict_get (data_of cur w') t' = dict_get d t')
     \<and> (ports_at d t = Some (a, k) \<or> a \<in> free_ports pool (used_ports d) \<and> k \<in> free_ports pool (used_ports d))"
  using assms(4,5)
proof (induction n arbitrary: w)
  case (Suc n)
  obtain r w1 where rd: "read_cm api w = (r, w1)" by (cases "read_cm api w")
  with Suc.prems obtain d rv where r: "r = Inr (d, rv)" by (cases r) auto
  note seen = read_cm_law [OF law rd] and trans = cm_storeD(2) [OF law]
  have ok1: "table_ok d" using stableD [OF keep seen(1) Suc.prems(1)] seen(2) [OF r] by simp
  show ?case
  proof (cases "ports_at d t")
    case (Some p)
    with Suc.prems rd r have "p = (a, k)" "w' = w1" by (auto simp: Let_def existing_parsed)
    then show ?thesis using seen(1) seen(2) [OF r] ok1 Some by auto
  next
    case None
    with Suc.prems rd r obtain x y where pk: "pick_two_free pool (used_ports d) = Inr (x, y)"
      by (cases "pick_two_free pool (used_ports d)") (auto simp: Let_def existing_parsed)
    note free = pick_two_free_Inr [OF pk]
    obtain q w2 where wr: "write_cm api (dict_set d t (format_entry x y)) rv w1 = (q, w2)"
      by (cases "write_cm api (dict_set d t (format_entry x y)) rv w1")
    show ?thesis
    proof (cases q)
      case (Inr u)
      with Suc.prems rd r None pk wr have res: "a = x" "k = y" "w' = w2" by (auto simp: Let_def existing_parsed)
      obtain w3 v where w3: "rely w1 w3" "data_of cur w3 = d" "cur w2 = Some (dict_set d t (format_entry x y), v)"
        using write_cm_law [OF law _ _ wr [unfolded Inr]] seen(2) [OF r] by blast
      have "data_of cur w' = dict_set d t (format_entry x y)" using w3 res by (simp add: data_of_def)
      then show ?thesis
        using w3 res free trans [OF seen(1) w3(1)] table_ok_set [OF ok1 _ _ _ base, of x y t]
        by (auto simp: update_conv' intro!: exI [of _ w3])
    next
      case (Inl e)
      with Suc.prems rd r None pk wr have e: "e = ApiException 409"
        and rec: "allocate_loop pool api t n w2 = (Inr (a, k), w')"
        by (auto simp: Let_def existing_parsed split: if_splits)
      have r2: "rely w1 w2" using write_cm_refused [OF law] wr Inl e by blast
      have "table_ok (data_of cur w2)" using stableD [OF keep r2] ok1 seen(2) [OF r] by simp
      from Suc.IH [OF this rec] trans [OF trans [OF seen(1) r2]] show ?thesis by blast
    qed
  qed
qed simp

lemma allocate_loop_existing:
  assumes "ports_store rely cur api"
    and "stable rely (\<lambda>u. ports_at (data_of cur u) t = Some p)"
    and "ports_at (data_of cur w) t = Some p"
    and "allocate_loop pool api t n w = (Inr q, w')"
  shows "q = p"
proof (cases n)
  case (Suc m)
  obtain r w1 where rd: "read_cm api w = (r, w1)" by (cases "read_cm api w")
  with assms(4) Suc obtain d rv where r: "r = Inr (d, rv)" by (cases r) auto
  have "ports_at d t = Some p"
    using read_cm_law(1) [OF assms(1) rd] read_cm_law(2) [OF assms(1) rd r] stableD [OF assms(2)] assms(3) by blast
  then show ?thesis using assms(4) Suc rd r by (simp add: Let_def existing_parsed)
qed (use assms(4) in simp)

lemma release_loop_keeps:
  assumes law: "ports_store rely cur api"
    and keep: "stable rely (\<lambda>u. P (data_of cur u))"
    and del: "\<And>d. P d \<Longrightarrow> P (dict_del d t)"
    and "P (data_of cur w)" "release_loop api t n w = (Inr u, w')"
  shows "P (data_of cur w')"
  using assms(4,5)
proof (induction n arbitrary: w)
  case (Suc n)
  obtain r w1 where rd: "read_cm api w = (r, w1)" by (cases "read_cm api w")
  with Suc.prems obtain d rv where r: "r = Inr (d, rv)" by (cases r) auto
  note seen = read_cm_law [OF law rd]
  have P1: "P d" using stableD [OF keep seen(1) Suc.prems(1)] seen(2) [OF r] by simp
  show ?case
  proof (cases "dict_get d t")
    case None
    then have "w' = w1" using Suc.prems rd r by simp
    then show ?thesis using P1 seen(2) [OF r] by simp
  next
    case (Some x)
    obtain q w2 where wr: "write_cm api (dict_del d t) rv w1 = (q, w2)"
      by (cases "write_cm api (dict_del d t) rv w1")
    show ?thesis
    proof (cases q)
      case (Inr v)
      with Suc.prems rd r Some wr have "w' = w2" by simp
      then show ?thesis using write_cm_data [OF wr [unfolded Inr] law seen(2) [OF r]] del [OF P1] by simp
    next
      case (Inl e)
      with Suc.prems rd r Some wr have e: "e = ApiException 409 \<and> release_loop api t n w2 = (Inr u, w')
          \<or> e = ApiException 404 \<and> w' = w2" by (auto split: if_splits)
      then have "rely w1 w2" using write_cm_refused [OF law] wr Inl by blast
      then have "P (data_of cur w2)" using stableD [OF keep] P1 seen(2) [OF r] by blast
      then show ?thesis using e Suc.IH by blast
    qed
  qed
qed simp

lemma release_loop_absent:
  assumes law: "ports_store rely cur api" and "n \<noteq> 0"
    and quiet: "\<And>b st u u'. replace_config_map api b u \<noteq> (Inl (ApiException st), u')"
    and "release_loop api t n w = (Inr u, w')"
  shows "dict_get (data_of cur w') t = None"
proof -
  obtain m where n: "n = Suc m" using assms(2) by (cases n) auto
  obtain r w1 where rd: "read_cm api w = (r, w1)" by (cases "read_cm api w")
  with assms(4) n obtain d rv where r: "r = Inr (d, rv)" by (cases r) auto
  note seen = read_cm_law(2) [OF law rd r]
  show ?thesis
  proof (cases "dict_get d t")
    case None
    then show ?thesis using assms(4) n rd r seen by simp
  next
    case (Some x)
    then have rv: "rv \<noteq> []" using seen by (auto simp: data_of_def)
    obtain q w2 where wr: "write_cm api (dict_del d t) rv w1 = (q, w2)"
      by (cases "write_cm api (dict_del d t) rv w1")
    have "q \<noteq> Inl (ApiException st)" for st using wr quiet rv by (auto simp: write_cm_def Let_def)
    then obtain v where q: "q = Inr v" and w': "w' = w2"
      using assms(4) n rd r Some wr by (cases q) (auto split: if_splits)
    show ?thesis using write_cm_data [OF wr [unfolded q] law seen] w' by (simp add: delete_conv')
  qed
qed

subsection \<open>Properties\<close>

text \<open>C6. Whatever other allocators do meanwhile, \<open>allocate_cp_ports\<close> keeps the port table free of
  shared ports, stores the pair it returns under the tenant, changes no other entry, and returns either
  the ports the tenant already had or two ports of the pool that no tenant holds and that are not
  reserved.\<close>

theorem allocate_cp_ports_correct:
  assumes "ports_store rely cur api" "0 \<le> pool_base pool"
    and "stable rely (\<lambda>u. table_ok (data_of cur u))"
    and "table_ok (data_of cur w)"
    and "allocate_cp_ports pool api t n w = (Inr (a, k), w')"
  shows "\<exists>w1 d. rely w w1 \<and> data_of cur w1 = d
     \<and> table_ok (data_of cur w') \<and> ports_at (data_of cur w') t = Some (a, k)
     \<and> (\<forall>t'. t' \<noteq> t \<longrightarrow> dict_get (data_of cur w') t' = dict_get d t')
     \<and> (ports_at d t = Some (a, k) \<or> a \<in> free_ports pool (used_ports d) \<and> k \<in> free_ports pool (used_ports d))"
  by (rule allocate_loop_correct [OF assms(1-4)]) (rule assms(5) [unfolded allocate_cp_ports_def])

text \<open>Ports never change once issued: after a successful allocation, as long as nobody rewrites the
  tenant's entry, a later allocation returns the same pair, even with another pool configured.\<close>

theorem allocate_cp_ports_stable:
  assumes "ports_store rely cur api" "0 \<le> pool_base pool"
    and "stable rely (\<lambda>u. table_ok (data_of cur u))"
    and "stable rely (\<lambda>u. ports_at (data_of cur u) t = Some (a, k))"
    and "table_ok (data_of cur w)"
    and "allocate_cp_ports pool api t n w = (Inr (a, k), w1)" "rely w1 w2"
    and "allocate_cp_ports pool' api t m w2 = (Inr q, w3)"
  shows "q = (a, k)"
proof -
  have "ports_at (data_of cur w1) t = Some (a, k)"
    using allocate_loop_correct [OF assms(1-3,5) assms(6) [unfolded allocate_cp_ports_def]] by blast
  then have "ports_at (data_of cur w2) t = Some (a, k)" by (rule stableD [OF assms(4,7)])
  from allocate_loop_existing [OF assms(1,4) this] assms(8) show ?thesis
    by (simp add: allocate_cp_ports_def)
qed

text \<open>\<open>release_cp_ports\<close> keeps the table free of shared ports and every other tenant's entry, and
  when no write is refused the tenant has no entry afterwards.\<close>

theorem release_cp_ports_correct:
  assumes "ports_store rely cur api" "n \<noteq> 0"
    and "stable rely (\<lambda>u. table_ok (data_of cur u) \<and> dict_get (data_of cur u) t' = x)"
    and "table_ok (data_of cur w)" "dict_get (data_of cur w) t' = x" "t' \<noteq> t"
    and "release_cp_ports api t n w = (Inr (), w')"
  shows "table_ok (data_of cur w') \<and> dict_get (data_of cur w') t' = x
     \<and> ((\<forall>b st u u'. replace_config_map api b u \<noteq> (Inl (ApiException st), u')) \<longrightarrow>
          dict_get (data_of cur w') t = None)"
proof (intro conjI impI)
  note run = assms(7) [unfolded release_cp_ports_def]
  have "table_ok (data_of cur w') \<and> dict_get (data_of cur w') t' = x"
    by (rule release_loop_keeps [OF assms(1,3) _ _ run]) (use assms(4-6) in \<open>auto simp: table_ok_del delete_conv'\<close>)
  then show "table_ok (data_of cur w')" "dict_get (data_of cur w') t' = x" by auto
  assume "\<forall>b st u u'. replace_config_map api b u \<noteq> (Inl (ApiException st), u')"
  then show "dict_get (data_of cur w') t = None" using release_loop_absent [OF assms(1,2) _ run] by blast
qed

text \<open>\<open>_pick_two_free\<close> returns the two lowest ports of the pool that are neither used nor reserved,
  and fails exactly when fewer than two are left.\<close>

theorem pick_two_free_lowest:
  "case pick_two_free pool used of
     Inr (a, b) \<Rightarrow> a \<in> free_ports pool used \<and> b \<in> free_ports pool used \<and> a < b
        \<and> (\<forall>p \<in> free_ports pool used. p = a \<or> b \<le> p)
   | Inl e \<Rightarrow> e = RuntimeError \<and> card (free_ports pool used) < 2"
proof (cases "pick_two_free pool used")
  case (Inl e)
  with pick_two_free_Inl [of pool used e] show ?thesis by simp
next
  case (Inr p)
  obtain a b where p: "p = (a, b)" by (cases p)
  with Inr pick_two_free_Inr [of pool used a b] show ?thesis by simp
qed

text \<open>The entry written for a pair of ports is read back as that pair.\<close>

theorem parse_format_entry:
  assumes "0 \<le> api" "0 \<le> konn"
  shows "parse_entry (format_entry api konn) = Some (api, konn)"
  by (rule parse_format [OF assms])

subsection \<open>Witnesses\<close>

definition demo_pool :: port_pool where
  "demo_pool = \<lparr>pool_base = 20000, pool_end = 20006, pool_reserved = [20001]\<rparr>"

lemma demo_pool_range: "[20000..20005::int] = [20000, 20001, 20002, 20003, 20004, 20005]"
  by (simp add: upto.simps)

lemma table_ok_Nil: "table_ok []"
  by (simp add: table_ok_def ports_at_def)

lemma demo_pick: "pick_two_free demo_pool [] = Inr (20000, 20002)"
  "pick_two_free demo_pool [20000, 20002] = Inr (20003, 20004)"
  by (simp_all add: pick_two_free_def demo_pool_def demo_pool_range)

abbreviation demo_table :: "(string dict \<times> nat) option" where
  "demo_table \<equiv> Some ([(''t1'', ''api=20000,konn=20002'')], 1)"

lemma demo_entry: "format_entry 20000 20002 = ''api=20000,konn=20002''"
  "parse_entry ''api=20000,konn=20002'' = Some (20000, 20002)"
proof -
  show f: "format_entry 20000 20002 = ''api=20000,konn=20002''"
    by (simp add: format_entry_def int_str_def nat_str.simps)
  show "parse_entry ''api=20000,konn=20002'' = Some (20000, 20002)"
    using parse_format [of 20000 20002] by (simp add: f)
qed

lemma demo_ports_run:
  "allocate_cp_ports demo_pool (mem_cm_api CP_PORTS_CM_NAME) ''t1'' (Suc n) None = (Inr (20000, 20002), demo_table)"
  "allocate_cp_ports pool (mem_cm_api CP_PORTS_CM_NAME) ''t1'' (Suc n) demo_table = (Inr (20000, 20002), demo_table)"
  by (simp_all add: allocate_cp_ports_def read_cm_def mem_cm_api_def mem_read_def demo_pick used_ports_def write_cm_def
      bind_io_def mem_create_def demo_entry Let_def)

lemma demo_table_ok: "table_ok (data_of mem_cur None)" "table_ok (data_of mem_cur demo_table)"
  by (auto simp: data_of_def mem_cur_def table_ok_def ports_at_def demo_entry bind_eq_Some_conv split: if_splits)

theorem allocate_cp_ports_correct_witness:
  "\<exists>w1 d. None = w1 \<and> data_of mem_cur w1 = d
     \<and> table_ok (data_of mem_cur demo_table) \<and> ports_at (data_of mem_cur demo_table) ''t1'' = Some (20000, 20002)
     \<and> (\<forall>t'. t' \<noteq> ''t1'' \<longrightarrow> dict_get (data_of mem_cur demo_table) t' = dict_get d t')
     \<and> (ports_at d ''t1'' = Some (20000, 20002)
        \<or> 20000 \<in> free_ports demo_pool (used_ports d) \<and> 20002 \<in> free_ports demo_pool (used_ports d))"
  by (rule allocate_cp_ports_correct [OF mem_cm_api_store _ _ demo_table_ok(1) demo_ports_run(1)])
    (simp_all add: demo_pool_def)

theorem allocate_cp_ports_stable_witness:
  "allocate_cp_ports (demo_pool\<lparr>pool_end := 0\<rparr>) (mem_cm_api CP_PORTS_CM_NAME) ''t1'' 1 demo_table
    = (Inr (20000, 20002), demo_table)"
proof -
  obtain q w3 where run: "allocate_cp_ports (demo_pool\<lparr>pool_end := 0\<rparr>) (mem_cm_api CP_PORTS_CM_NAME) ''t1'' 1 demo_table
      = (Inr q, w3)" and "w3 = demo_table"
    using demo_ports_run(2) [of _ 0] by simp
  moreover have "q = (20000, 20002)"
    by (rule allocate_cp_ports_stable [OF mem_cm_api_store _ _ _ demo_table_ok(1) demo_ports_run(1) refl run])
      (simp_all add: demo_pool_def)
  ultimately show ?thesis by simp
qed

theorem release_cp_ports_correct_witness:
  "release_cp_ports (mem_cm_api CP_PORTS_CM_NAME) ''t1'' 1 demo_table = (Inr (), Some ([], 2))
   \<and> table_ok (data_of mem_cur (Some ([], 2))) \<and> dict_get (data_of mem_cur (Some ([], 2))) ''t2'' = None"
proof -
  have run: "release_cp_ports (mem_cm_api CP_PORTS_CM_NAME) ''t1'' 1 demo_table = (Inr (), Some ([], 2))"
    by (simp add: release_cp_ports_def read_cm_def mem_cm_api_def mem_read_def write_cm_def mem_replace_def Let_def)
  have "dict_get (data_of mem_cur demo_table) ''t2'' = None" by (simp add: data_of_def mem_cur_def)
  from release_cp_ports_correct [OF mem_cm_api_store _ _ demo_table_ok(2) this _ run] run show ?thesis by simp
qed

theorem pick_two_free_lowest_witness:
  "pick_two_free demo_pool [] = Inr (20000, 20002) \<and> 20000 \<in> free_ports demo_pool [] \<and> 20002 \<in> free_ports demo_pool []"
  using pick_two_free_lowest [of demo_pool "[]"] by (simp add: demo_pick)

theorem parse_format_entry_witness: "parse_entry (format_entry 20000 20002) = Some (20000, 20002)"
  by (rule parse_format_entry) simp_all

end
