(* ===== verification/CpVip.thy ===== *)
theory CpVip
  imports CpPorts Ipaddress "HOL-Library.Product_Lexorder"
begin

section \<open>Tenant addresses (\<open>api/v1/tenants_cp_vip.py\<close>) and time (\<open>api/v1/tenants_ntp.py\<close>)\<close>

text \<open>
  Every tenant has one address, assigned by MetalLB. The theory models the check that MetalLB's pool
  is excluded from the subnet kube-ovn allocates from, the two Services that share the tenant's
  address, and the wait for the address. The clock and the API calls are arguments; times are integers.
\<close>

subsection \<open>Ranges\<close>

definition TENANT_API_PORT :: nat where
  "TENANT_API_PORT = 6443"

definition TENANT_KONN_PORT :: nat where
  "TENANT_KONN_PORT = 8132"

definition TENANT_TRUSTD_PORT :: nat where
  "TENANT_TRUSTD_PORT = 50001"

definition per_tenant_vip_enabled :: "(string \<Rightarrow> string option) \<Rightarrow> bool" where
  "per_tenant_vip_enabled env \<longleftrightarrow>
     lower (getenv env ''TENANTS_CP_PER_TENANT_VIP'' ''true'') \<notin> {''false'', ''0'', ''no''}"

definition cp_metallb_pool :: "(string \<Rightarrow> string option) \<Rightarrow> string" where
  "cp_metallb_pool env = getenv env ''TENANTS_CP_METALLB_POOL'' ''traefik''"

definition cp_metallb_namespace :: "(string \<Rightarrow> string option) \<Rightarrow> string" where
  "cp_metallb_namespace env = getenv env ''TENANTS_CP_METALLB_NAMESPACE'' ''o0-metallb''"

text \<open>\<open>text.split(sep, 1)\<close> when \<open>sep in text\<close>.\<close>

fun split_once :: "string \<Rightarrow> string \<Rightarrow> (string \<times> string) option" where
  "split_once sep [] = (if sep = [] then Some ([], []) else None)"
| "split_once sep (c # cs) =
     (if starts_with sep (c # cs) then Some ([], drop (length sep) (c # cs))
      else map_option (\<lambda>(a, b). (c # a, b)) (split_once sep cs))"

definition parse_range :: "string \<Rightarrow> string \<Rightarrow> (nat \<times> nat) option" where
  "parse_range sep text =
     (case split_once sep text of
        Some (lo, hi) \<Rightarrow>
          (case (parse_ipv4 (strip lo), parse_ipv4 (strip hi)) of
             (Some a, Some b) \<Rightarrow> Some (a, b)
           | _ \<Rightarrow> None)
      | None \<Rightarrow>
          if CHR ''/'' \<in> set text then
            map_option (\<lambda>net. (net_addr net, broadcast net)) (parse_net4 text)
          else map_option (\<lambda>one. (one, one)) (parse_ipv4 text))"

definition parse_ranges :: "string list \<Rightarrow> string \<Rightarrow> (nat \<times> nat) list" where
  "parse_ranges entries sep =
     List.map_filter (\<lambda>raw. let text = strip raw in if text = [] then None else parse_range sep text) entries"

fun covered_loop :: "nat \<Rightarrow> nat \<Rightarrow> (nat \<times> nat) list \<Rightarrow> bool" where
  "covered_loop lo hi [] = (lo > hi)"
| "covered_loop lo hi ((start, end) # r) =
     (if start > lo then lo > hi
      else if end \<ge> hi then True
      else covered_loop (if end \<ge> lo then end + 1 else lo) hi r)"

definition covered :: "nat \<times> nat \<Rightarrow> (nat \<times> nat) list \<Rightarrow> bool" where
  "covered inner outer = covered_loop (fst inner) (snd inner) (sort outer)"

definition assert_pool_excluded_from_ovn ::
  "('w, string list option cr) io \<Rightarrow> ('w, subnet_spec cr) io \<Rightarrow> ('w, unit) io" where
  "assert_pool_excluded_from_ovn get_pool get_subnet = (\<lambda>w.
     case bind_io get_pool (\<lambda>p. bind_io get_subnet (\<lambda>s. ret (p, s))) w of
       (Inl e, w1) \<Rightarrow> if is_api e then (Inr (), w1) else (Inl e, w1)
     | (Inr (p, s), w1) \<Rightarrow>
         (let pool_ranges = parse_ranges (or_nil (cr_spec p)) ''-'';
              excluded = parse_ranges (or_nil (excludeIps (cr_spec s))) ''..'';
              uncovered = filter (\<lambda>r. \<not> covered r excluded) pool_ranges
          in if uncovered = [] then (Inr (), w1) else (Inl (HTTPException 422), w1)))"

subsection \<open>The Services on a tenant's address\<close>

record svc_port =
  sp_name :: string
  sp_port :: nat
  sp_targetPort :: nat
  sp_protocol :: string

record service =
  svc_name :: string
  svc_namespace :: string
  svc_labels :: "string dict"
  svc_annotations :: "string dict"
  svc_type :: string
  svc_externalTrafficPolicy :: "string option"
  svc_selector :: "string dict"
  svc_ports :: "svc_port list"

definition cp_sharing_key :: "string \<Rightarrow> string" where
  "cp_sharing_key tenant = tenant @ ''-cp''"

definition build_cp_lb_service :: "string \<Rightarrow> string \<Rightarrow> (string \<times> nat) list \<Rightarrow> string \<Rightarrow> service" where
  "build_cp_lb_service tenant namespace ports pool =
     \<lparr>svc_name = tenant @ ''-cp-lb'', svc_namespace = namespace,
      svc_labels = [(''kubevirt-ui.io/tenant'', tenant), (''kubevirt-ui.io/managed'', ''true'')],
      svc_annotations = [(''service.cilium.io/type'', ''ClusterIP''),
        (''metallb.universe.tf/address-pool'', pool),
        (''metallb.universe.tf/allow-shared-ip'', cp_sharing_key tenant)],
      svc_type = ''LoadBalancer'', svc_externalTrafficPolicy = None,
      svc_selector = [(''kamaji.clastix.io/name'', tenant)],
      svc_ports = map (\<lambda>(name, port). \<lparr>sp_name = name, sp_port = port, sp_targetPort = port, sp_protocol = ''TCP''\<rparr>) ports\<rparr>"

definition tenant_cp_ports :: "string \<Rightarrow> (string \<times> nat) list" where
  "tenant_cp_ports worker_os =
     [(''api'', TENANT_API_PORT), (''konn'', TENANT_KONN_PORT)]
     @ (if worker_os = ''talos'' then [(''trustd'', TENANT_TRUSTD_PORT)] else [])"

definition NTP_PORT :: nat where
  "NTP_PORT = 123"

definition NTP_APP :: string where
  "NTP_APP = ''kubevirt-ui-ntp''"

definition NTP_NAMESPACE :: "(string \<Rightarrow> string option) \<Rightarrow> string" where
  "NTP_NAMESPACE env = getenv env ''TENANTS_NTP_NAMESPACE'' ''kubevirt-ui-system''"

definition PUBLIC_FALLBACK_NTP :: "string list" where
  "PUBLIC_FALLBACK_NTP = [''time.cloudflare.com'', ''pool.ntp.org'']"

definition public_fallbacks :: "(string \<Rightarrow> string option) \<Rightarrow> string list" where
  "public_fallbacks env =
     (case env ''TENANTS_NTP_FALLBACK'' of
        None \<Rightarrow> PUBLIC_FALLBACK_NTP
      | Some raw \<Rightarrow> filter (\<lambda>s. s \<noteq> []) (map strip (split_on (CHR '','') raw)))"

definition worker_time_servers :: "(string \<Rightarrow> string option) \<Rightarrow> string option \<Rightarrow> string list" where
  "worker_time_servers env vip =
     (let fallbacks = public_fallbacks env in if truthy vip then the vip # fallbacks else fallbacks)"

definition build_tenant_ntp_service ::
  "(string \<Rightarrow> string option) \<Rightarrow> string \<Rightarrow> string \<Rightarrow> string \<Rightarrow> service" where
  "build_tenant_ntp_service env tenant namespace vip =
     \<lparr>svc_name = tenant @ ''-ntp'', svc_namespace = NTP_NAMESPACE env,
      svc_labels = [(''kubevirt-ui.io/tenant'', tenant), (''kubevirt-ui.io/managed'', ''true'')],
      svc_annotations = [(''service.cilium.io/type'', ''ClusterIP''),
        (''metallb.universe.tf/loadBalancerIPs'', vip),
        (''metallb.universe.tf/allow-shared-ip'', cp_sharing_key tenant)],
      svc_type = ''LoadBalancer'', svc_externalTrafficPolicy = Some ''Cluster'',
      svc_selector = [(''app'', NTP_APP)],
      svc_ports = [\<lparr>sp_name = ''ntp'', sp_port = NTP_PORT, sp_targetPort = NTP_PORT, sp_protocol = ''UDP''\<rparr>]\<rparr>"

definition ensure_tenant_ntp_service ::
  "(string \<Rightarrow> string option) \<Rightarrow> (string \<Rightarrow> service \<Rightarrow> ('w, unit) io) \<Rightarrow> string \<Rightarrow> string \<Rightarrow> string \<Rightarrow> ('w, unit) io" where
  "ensure_tenant_ntp_service env create_service tenant namespace vip =
     catch_io (create_service (NTP_NAMESPACE env) (build_tenant_ntp_service env tenant namespace vip))
       (\<lambda>e. if is_api e then ret () else raise e)"

subsection \<open>Waiting for the address\<close>

text \<open>What the loop reads of a Service: the addresses of its ingress entries.\<close>

type_synonym ingress = "string option list"

definition first_ip :: "ingress \<Rightarrow> string option" where
  "first_ip ingress = Option.bind (find truthy ingress) id"

partial_function (option) poll_vip ::
  "('w, ingress) io \<Rightarrow> ('w, int) io \<Rightarrow> int \<Rightarrow> 'w \<Rightarrow> ((exc + string) \<times> 'w) option" where
  "poll_vip read_service now deadline w =
     (case read_service w of
        (Inl e, w1) \<Rightarrow> Some (Inl (if is_api e then HTTPException 500 else e), w1)
      | (Inr ingress, w1) \<Rightarrow>
          (case first_ip ingress of
             Some ip \<Rightarrow> Some (Inr ip, w1)
           | None \<Rightarrow>
               (case now w1 of
                  (Inl e, w2) \<Rightarrow> Some (Inl e, w2)
                | (Inr t, w2) \<Rightarrow>
                    if t \<ge> deadline then Some (Inl (HTTPException 409), w2)
                    else poll_vip read_service now deadline w2)))"

definition acquire_tenant_vip ::
  "(string \<Rightarrow> string option) \<Rightarrow> (string \<Rightarrow> service \<Rightarrow> ('w, unit) io) \<Rightarrow> (string \<Rightarrow> string \<Rightarrow> ('w, ingress) io) \<Rightarrow>
   ('w, int) io \<Rightarrow> string \<Rightarrow> string \<Rightarrow> string \<Rightarrow> int \<Rightarrow> 'w \<Rightarrow> ((exc + string) \<times> 'w) option" where
  "acquire_tenant_vip env create_service read_service now tenant namespace worker_os timeout w =
     (let body = build_cp_lb_service tenant namespace (tenant_cp_ports worker_os) (cp_metallb_pool env)
      in case create_service namespace body w of
           (r, w1) \<Rightarrow>
             if (case r of Inl e \<Rightarrow> e \<noteq> ApiException 409 | Inr _ \<Rightarrow> False) then Some (map_sum id (\<lambda>_. []) r, w1)
             else (case now w1 of
                     (Inl e, w2) \<Rightarrow> Some (Inl e, w2)
                   | (Inr t, w2) \<Rightarrow> poll_vip (read_service (tenant @ ''-cp-lb'') namespace) now (t + timeout) w2))"

subsection \<open>Coverage of ranges\<close>

definition in_ranges :: "nat \<Rightarrow> (nat \<times> nat) list \<Rightarrow> bool" where
  "in_ranges x rs \<longleftrightarrow> (\<exists>(a, b) \<in> set rs. a \<le> x \<and> x \<le> b)"

lemma in_ranges_Cons: "in_ranges x ((a, b) # r) \<longleftrightarrow> a \<le> x \<and> x \<le> b \<or> in_ranges x r"
  by (auto simp: in_ranges_def)

lemma covered_loop_iff:
  "sorted rs \<Longrightarrow> covered_loop lo hi rs \<longleftrightarrow> (\<forall>x. lo \<le> x \<and> x \<le> hi \<longrightarrow> in_ranges x rs)"
proof (induction lo hi rs rule: covered_loop.induct)
  case (1 lo hi)
  then show ?case by (auto simp: in_ranges_def)
next
  case (2 lo hi s e r)
  have later: "s \<le> a" if "(a, b) \<in> set r" for a b
    using "2.prems" that by (auto simp: less_eq_prod_def)
  consider "s > lo" | "s \<le> lo" "e \<ge> hi" | "s \<le> lo" "e < hi" by linarith
  then show ?case
  proof cases
    case 1
    then have "\<not> in_ranges lo ((s, e) # r)" using later by (force simp: in_ranges_def)
    with 1 show ?thesis by auto
  next
    case 2
    then show ?thesis by (auto simp: in_ranges_def)
  next
    case 3
    let ?lo = "if e \<ge> lo then e + 1 else lo"
    have "covered_loop lo hi ((s, e) # r) \<longleftrightarrow> (\<forall>x. ?lo \<le> x \<and> x \<le> hi \<longrightarrow> in_ranges x r)"
      using 3 "2.IH" "2.prems" by auto
    also have "\<dots> \<longleftrightarrow> (\<forall>x. lo \<le> x \<and> x \<le> hi \<longrightarrow> in_ranges x ((s, e) # r))"
    proof (intro iffI allI impI)
      fix x assume "\<forall>x. ?lo \<le> x \<and> x \<le> hi \<longrightarrow> in_ranges x r" "lo \<le> x \<and> x \<le> hi"
      then show "in_ranges x ((s, e) # r)" using 3 by (cases "x \<le> e") (auto simp: in_ranges_Cons)
    next
      fix x assume "\<forall>x. lo \<le> x \<and> x \<le> hi \<longrightarrow> in_ranges x ((s, e) # r)" "?lo \<le> x \<and> x \<le> hi"
      then have "in_ranges x ((s, e) # r)" "\<not> x \<le> e" by (auto split: if_splits)
      then show "in_ranges x r" by (simp add: in_ranges_Cons)
    qed
    finally show ?thesis .
  qed
qed

lemma covered_spec: "covered (lo, hi) outer \<longleftrightarrow> (\<forall>x. lo \<le> x \<and> x \<le> hi \<longrightarrow> in_ranges x outer)"
  unfolding covered_def using covered_loop_iff [of "sort outer" lo hi] by (simp add: in_ranges_def)

subsection \<open>Waiting ends\<close>

lemma poll_vip_returns:
  assumes clock: "\<And>u. \<exists>t u'. now u = (Inr t, u') \<and> clk u' = t \<and> clk u < t"
    and svc: "\<And>u r u'. read_service u = (r, u') \<Longrightarrow> clk u \<le> clk u'"
  shows "\<exists>y. poll_vip read_service now deadline w = Some y"
proof (induction "nat (deadline - clk w)" arbitrary: w rule: less_induct)
  case less
  obtain r w1 where rd: "read_service w = (r, w1)" by (cases "read_service w")
  obtain t w2 where nw: "now w1 = (Inr t, w2)" "clk w2 = t" "clk w1 < t" using clock by blast
  have "t < deadline \<Longrightarrow> \<exists>y. poll_vip read_service now deadline w2 = Some y"
    by (rule less) (use nw svc [OF rd] in linarith)
  then show ?case using rd nw
    by (subst poll_vip.simps) (auto split: sum.splits option.splits)
qed

lemma first_ip_Some: "first_ip ingress = Some ip \<Longrightarrow> ip \<noteq> [] \<and> Some ip \<in> set ingress"
proof -
  assume "first_ip ingress = Some ip"
  then have "find truthy ingress = Some (Some ip)" by (simp add: first_ip_def bind_eq_Some_conv)
  then show ?thesis by (metis find_Some_iff nth_mem truthy_simps(2))
qed

definition assigned_in :: "('w, ingress) io \<Rightarrow> (exc + string) \<times> 'w \<Rightarrow> bool" where
  "assigned_in rs y \<longleftrightarrow> (\<forall>ip w'. y = (Inr ip, w') \<longrightarrow>
     ip \<noteq> [] \<and> (\<exists>u ingress. rs u = (Inr ingress, w') \<and> Some ip \<in> set ingress))"

lemma poll_vip_address: "poll_vip read_service now deadline w = Some y \<Longrightarrow> assigned_in read_service y"
proof (rule poll_vip.raw_induct [where P = "\<lambda>rs nw dl w y. assigned_in rs y"])
  fix f and rs :: "('a, ingress) io" and nw :: "('a, int) io" and dl w y
  assume ih: "\<And>rs (nw :: ('a, int) io) dl w y. f rs nw dl w = Some y \<Longrightarrow> assigned_in rs y"
    and step: "(case rs w of
        (Inl e, w1) \<Rightarrow> Some (Inl (if is_api e then HTTPException 500 else e), w1)
      | (Inr ingress, w1) \<Rightarrow>
          (case first_ip ingress of
             None \<Rightarrow>
               (case nw w1 of
                  (Inl e, w2) \<Rightarrow> Some (Inl e, w2)
                | (Inr t, w2) \<Rightarrow>
                    if dl \<le> t then Some (Inl (HTTPException 409), w2) else f rs nw dl w2)
           | Some ip \<Rightarrow> Some (Inr ip, w1))) = Some y"
  show "assigned_in rs y"
  proof (cases "rs w")
    case (Pair r w1)
    show ?thesis
    proof (cases r)
      case (Inl e)
      with step Pair show ?thesis by (auto simp: assigned_in_def)
    next
      case (Inr ing)
      then show ?thesis
      proof (cases "first_ip ing")
        case (Some ip)
        with step Pair Inr first_ip_Some [OF Some] show ?thesis by (auto simp: assigned_in_def)
      next
        case None
        with step Pair Inr ih show ?thesis
          by (auto simp: assigned_in_def split: prod.splits sum.splits if_splits)
      qed
    qed
  qed
qed

subsection \<open>Properties\<close>

text \<open>\<open>_covered\<close> is exact: a range counts as covered iff every address of it lies in one of the
  outer ranges, whatever their order and however they touch or overlap.\<close>

theorem covered_exact: "covered (lo, hi) outer = (\<forall>x. lo \<le> x \<and> x \<le> hi \<longrightarrow> in_ranges x outer)"
  by (rule covered_spec)

theorem covered_exact_witness:
  "covered (5, 9) [(8, 20), (1, 7)] = (\<forall>x. 5 \<le> x \<and> x \<le> 9 \<longrightarrow> in_ranges x [(8, 20), (1, 7)])
   \<and> covered (5, 9) [(8, 20), (1, 7)]"
  using covered_exact [of 5 9 "[(8, 20), (1, 7)]"] by (simp add: covered_def insort_key.simps less_eq_prod_def)

text \<open>C7. When both objects can be read, a tenant's pool passes the check iff every address of every
  range of the pool is excluded from kube-ovn's subnet; otherwise the request is refused with 422.\<close>

theorem assert_pool_excluded_exact:
  assumes "get_pool w = (Inr p, w1)" "get_subnet w1 = (Inr s, w2)"
  shows "assert_pool_excluded_from_ovn get_pool get_subnet w =
     (if \<forall>x. in_ranges x (parse_ranges (or_nil (cr_spec p)) ''-'') \<longrightarrow>
            in_ranges x (parse_ranges (or_nil (excludeIps (cr_spec s))) ''..'')
      then Inr () else Inl (HTTPException 422), w2)"
proof -
  let ?ex = "parse_ranges (or_nil (excludeIps (cr_spec s))) ''..''" and ?po = "parse_ranges (or_nil (cr_spec p)) ''-''"
  have "filter (\<lambda>r. \<not> covered r ?ex) ?po = [] \<longleftrightarrow> (\<forall>x. in_ranges x ?po \<longrightarrow> in_ranges x ?ex)"
    unfolding filter_empty_conv in_ranges_def [of _ ?po] by (force simp: covered_spec split_paired_all)
  then show ?thesis using assms by (simp add: assert_pool_excluded_from_ovn_def bind_io_def Let_def)
qed

text \<open>The two Services of one tenant carry the same sharing key and no common port and protocol,
  so MetalLB lets them share the tenant's address; Services of different tenants never carry the same
  key.\<close>

theorem tenant_services_share:
  "dict_get (svc_annotations (build_cp_lb_service t ns (tenant_cp_ports os) pool)) ''metallb.universe.tf/allow-shared-ip'' =
     dict_get (svc_annotations (build_tenant_ntp_service env t ns' vip)) ''metallb.universe.tf/allow-shared-ip''
   \<and> (\<lambda>p. (sp_port p, sp_protocol p)) ` set (svc_ports (build_cp_lb_service t ns (tenant_cp_ports os) pool))
      \<inter> (\<lambda>p. (sp_port p, sp_protocol p)) ` set (svc_ports (build_tenant_ntp_service env t ns' vip)) = {}
   \<and> distinct (map sp_port (svc_ports (build_cp_lb_service t ns (tenant_cp_ports os) pool)))
   \<and> (dict_get (svc_annotations (build_cp_lb_service t ns (tenant_cp_ports os) pool)) ''metallb.universe.tf/allow-shared-ip'' =
      dict_get (svc_annotations (build_tenant_ntp_service env t' ns' vip)) ''metallb.universe.tf/allow-shared-ip''
      \<longleftrightarrow> t = t')"
  by (auto simp: build_cp_lb_service_def build_tenant_ntp_service_def tenant_cp_ports_def cp_sharing_key_def
      TENANT_API_PORT_def TENANT_KONN_PORT_def TENANT_TRUSTD_PORT_def)

text \<open>C8. With a clock that moves forward between two polls, \<open>acquire_tenant_vip\<close> returns: it never
  waits for ever.\<close>

theorem acquire_tenant_vip_returns:
  assumes "\<And>u. \<exists>t u'. now u = (Inr t, u') \<and> clk u' = t \<and> clk u < t"
    and "\<And>n m u r u'. read_service n m u = (r, u') \<Longrightarrow> clk u \<le> (clk u' :: int)"
  shows "\<exists>y. acquire_tenant_vip env create_service read_service now t ns os timeout w = Some y"
proof -
  obtain r w1 where c: "create_service ns (build_cp_lb_service t ns (tenant_cp_ports os) (cp_metallb_pool env)) w = (r, w1)"
    by fastforce
  obtain t0 w2 where "now w1 = (Inr t0, w2)" using assms(1) by blast
  then show ?thesis using c poll_vip_returns [of now clk "read_service (t @ ''-cp-lb'') ns" "t0 + timeout" w2] assms
    by (auto simp: acquire_tenant_vip_def Let_def)
qed

text \<open>An address returned by \<open>acquire_tenant_vip\<close> is not empty and is one the Service's status
  listed at that moment.\<close>

theorem acquire_tenant_vip_address:
  assumes "acquire_tenant_vip env create_service read_service now t ns os timeout w = Some (Inr ip, w')"
  shows "ip \<noteq> [] \<and> (\<exists>u ingress. read_service (t @ ''-cp-lb'') ns u = (Inr ingress, w') \<and> Some ip \<in> set ingress)"
proof -
  obtain dl u where "poll_vip (read_service (t @ ''-cp-lb'') ns) now dl u = Some (Inr ip, w')"
    using assms by (auto simp: acquire_tenant_vip_def Let_def split: prod.splits sum.splits if_splits)
  from poll_vip_address [OF this] show ?thesis by (simp add: assigned_in_def)
qed

subsection \<open>Witnesses\<close>

definition demo_ovn_pool :: "string list option cr" where
  "demo_ovn_pool = \<lparr>cr_name = ''traefik'', cr_labels = [], cr_rv = ''1'', cr_spec = Some [''10.0.0.5-10.0.0.9'']\<rparr>"

definition demo_ovn_subnet :: "subnet_spec cr" where
  "demo_ovn_subnet = \<lparr>cr_name = ''ovn-default'', cr_labels = [], cr_rv = ''1'',
     cr_spec = \<lparr>cidrBlock = Some ''10.0.0.0/24'', subnet_vpc = None,
       excludeIps = Some [''10.0.0.8..10.0.0.20'', ''10.0.0.1..10.0.0.7''], acls = None\<rparr>\<rparr>"

lemma demo_ranges:
  "parse_ranges [''10.0.0.5-10.0.0.9''] ''-'' = [(167772165, 167772169)]"
  "parse_ranges [''10.0.0.8..10.0.0.20'', ''10.0.0.1..10.0.0.7''] ''..'' = [(167772168, 167772180), (167772161, 167772167)]"
  by (simp_all add: parse_ranges_def List.map_filter_def parse_range_def strip_def lstrip_def rstrip_def is_space_def
      starts_with_def parse_ipv4_def parse_octet_def isdigit_def is_digit_def digits_val_def digit_val_def)

theorem assert_pool_excluded_exact_witness:
  "assert_pool_excluded_from_ovn (ret demo_ovn_pool) (ret demo_ovn_subnet) () = (Inr (), ())"
proof -
  have all: "\<forall>x. in_ranges x [(167772165, 167772169)] \<longrightarrow> in_ranges x [(167772168, 167772180), (167772161, 167772167)]"
    by (auto simp: in_ranges_def)
  have "assert_pool_excluded_from_ovn (ret demo_ovn_pool) (ret demo_ovn_subnet) () =
     (if \<forall>x. in_ranges x (parse_ranges (or_nil (cr_spec demo_ovn_pool)) ''-'') \<longrightarrow>
            in_ranges x (parse_ranges (or_nil (excludeIps (cr_spec demo_ovn_subnet))) ''..'')
      then Inr () else Inl (HTTPException 422), ())"
    by (rule assert_pool_excluded_exact) simp_all
  then show ?thesis using all by (simp add: demo_ovn_pool_def demo_ovn_subnet_def demo_ranges)
qed

text \<open>A world that is a clock; the address is there from time 3 on.\<close>

definition demo_read :: "string \<Rightarrow> string \<Rightarrow> (int, ingress) io" where
  "demo_read n ns w = (Inr (if w < 3 then [] else [None, Some ''10.0.0.5'']), w)"

definition demo_now :: "(int, int) io" where
  "demo_now w = (Inr (w + 1), w + 1)"

definition demo_create :: "string \<Rightarrow> service \<Rightarrow> (int, unit) io" where
  "demo_create ns body w = (Inl (ApiException 409), w)"

theorem acquire_tenant_vip_returns_witness:
  "\<exists>y. acquire_tenant_vip (\<lambda>_. None) demo_create (\<lambda>n m w. (Inr [], w)) demo_now ''t1'' ''tenant-t1'' ''talos'' 60 0 = Some y"
  by (rule acquire_tenant_vip_returns [where clk = id]) (auto simp: demo_now_def)

theorem acquire_tenant_vip_address_witness:
  "\<exists>u ingress. demo_read ''t1-cp-lb'' ''tenant-t1'' u = (Inr ingress, 3) \<and> Some ''10.0.0.5'' \<in> set ingress"
proof -
  have p: "poll_vip (demo_read ''t1-cp-lb'' ''tenant-t1'') demo_now 61 3 = Some (Inr ''10.0.0.5'', 3)"
    "poll_vip (demo_read ''t1-cp-lb'' ''tenant-t1'') demo_now 61 2 = Some (Inr ''10.0.0.5'', 3)"
    "poll_vip (demo_read ''t1-cp-lb'' ''tenant-t1'') demo_now 61 1 = Some (Inr ''10.0.0.5'', 3)"
    by (simp_all add: poll_vip.simps demo_read_def demo_now_def first_ip_def)
  then have "acquire_tenant_vip (\<lambda>_. None) demo_create demo_read demo_now ''t1'' ''tenant-t1'' ''talos'' 60 0 =
     Some (Inr ''10.0.0.5'', 3)"
    by (simp add: acquire_tenant_vip_def Let_def demo_create_def demo_now_def)
  from acquire_tenant_vip_address [OF this] show ?thesis by simp
qed

end
