(* ===== verification/Access.thy ===== *)
theory Access
  imports Kube
begin

section \<open>Roles (\<open>core/groups.py\<close>, \<open>core/auth.py\<close>, \<open>core/vpc_access.py\<close>)\<close>

text \<open>
  Who may do what: the platform admin check, the folder and environment roles, the gates the routes
  depend on, and the visibility of VPCs. The text of a JSON document in a ConfigMap is represented by
  its value, or by \<open>NotJson\<close> when it does not parse. Settings and environment are arguments.
\<close>

subsection \<open>Users, settings and folder metadata\<close>

record user =
  user_id :: string
  user_email :: string
  user_username :: string
  user_groups :: "string list"
  user_raw_token :: "string option"

record auth_cfg =
  AUTH_TYPE :: string
  admin_groups :: string
  admin_users :: string

record env_access_spec =
  ea_admins :: "string list option"
  ea_members :: "string list option"
  ea_viewers :: "string list option"

record access_block =
  ac_admins :: "string list option"
  ac_members :: "string list option"
  ac_viewers :: "string list option"
  ac_env_access :: "env_access_spec dict option"

record folder_quota =
  q_cpu :: "string option"
  q_memory :: "string option"
  q_storage :: "string option"

record access_entry =
  ae_binding_name :: "string option"
  ae_type :: "string option"
  ae_name :: string
  ae_role :: "string option"

record folder_meta =
  display_name :: "string option"
  description :: "string option"
  parent_id :: "string option"
  created_by :: "string option"
  created_at :: "string option"
  quota :: "folder_quota option"
  access :: "access_block option"
  access_entries :: "access_entry list option"

datatype 'v json = Doc 'v | NotJson

definition empty_folder_meta :: folder_meta where
  "empty_folder_meta = \<lparr>display_name = None, description = None, parent_id = None, created_by = None,
     created_at = None, quota = None, access = None, access_entries = None\<rparr>"

definition empty_access :: access_block where
  "empty_access = \<lparr>ac_admins = None, ac_members = None, ac_viewers = None, ac_env_access = None\<rparr>"

definition empty_env_access :: env_access_spec where
  "empty_env_access = \<lparr>ea_admins = None, ea_members = None, ea_viewers = None\<rparr>"

definition or_else_value :: "'a option \<Rightarrow> 'a \<Rightarrow> 'a" where
  "or_else_value x d = (case x of None \<Rightarrow> d | Some y \<Rightarrow> y)"

lemma or_else_value_simps [simp]: "or_else_value None d = d" "or_else_value (Some y) d = y"
  by (simp_all add: or_else_value_def)

subsection \<open>Platform admins\<close>

definition csv_list :: "string \<Rightarrow> string list" where
  "csv_list s = filter (\<lambda>g. g \<noteq> []) (map strip (split_on (CHR '','') s))"

definition admin_groups_list :: "auth_cfg \<Rightarrow> string list" where
  "admin_groups_list cfg = csv_list (admin_groups cfg)"

definition admin_users_list :: "auth_cfg \<Rightarrow> string list" where
  "admin_users_list cfg = map lower (csv_list (admin_users cfg))"

definition get_user_groups :: "string \<Rightarrow> string list option \<Rightarrow> string list" where
  "get_user_groups email oidc_groups = or_nil oidc_groups"

definition is_admin :: "auth_cfg \<Rightarrow> string list \<Rightarrow> user option \<Rightarrow> bool" where
  "is_admin cfg groups u \<longleftrightarrow>
     (if AUTH_TYPE cfg = ''none'' then True
      else if (case u of None \<Rightarrow> False
               | Some u \<Rightarrow> set (admin_users_list cfg) \<inter> ({lower (user_email u), lower (user_username u)} - {[]}) \<noteq> {})
      then True
      else if ''system:masters'' \<in> set groups then True
      else (\<exists>g \<in> set groups. g \<in> set (admin_groups_list cfg)))"

subsection \<open>Folder and environment roles\<close>

definition access_block_of :: "folder_meta \<Rightarrow> access_block" where
  "access_block_of meta = or_else_value (access meta) empty_access"

definition env_access_block :: "folder_meta \<Rightarrow> string \<Rightarrow> env_access_spec" where
  "env_access_block meta env =
     (let env_access = or_nil (ac_env_access (access_block_of meta))
      in or_else_value (dict_get env_access env) empty_env_access)"

definition has_group :: "string list \<Rightarrow> string list option \<Rightarrow> bool" where
  "has_group gs names \<longleftrightarrow> or_nil names \<noteq> [] \<and> set gs \<inter> set (or_nil names) \<noteq> {}"

definition is_folder_admin :: "auth_cfg \<Rightarrow> user \<Rightarrow> folder_meta \<Rightarrow> bool" where
  "is_folder_admin cfg u meta \<longleftrightarrow>
     (if is_admin cfg (user_groups u) (Some u) then True
      else has_group (user_groups u) (ac_admins (access_block_of meta)))"

definition is_folder_member :: "auth_cfg \<Rightarrow> user \<Rightarrow> folder_meta \<Rightarrow> bool" where
  "is_folder_member cfg u meta \<longleftrightarrow>
     (if is_folder_admin cfg u meta then True
      else has_group (user_groups u) (ac_members (access_block_of meta)))"

definition tenant_create_role :: "(string \<Rightarrow> string option) \<Rightarrow> string" where
  "tenant_create_role env =
     (let value = lower (strip (or_nil (env ''TENANTS_CREATE_ROLE'')))
      in if value \<in> {''member'', ''folder-member''} then ''folder-member'' else ''folder-admin'')"

definition may_create_tenant :: "(string \<Rightarrow> string option) \<Rightarrow> auth_cfg \<Rightarrow> user \<Rightarrow> folder_meta \<Rightarrow> bool" where
  "may_create_tenant env cfg u meta \<longleftrightarrow>
     (if is_folder_admin cfg u meta then True
      else if tenant_create_role env = ''folder-member'' then is_folder_member cfg u meta
      else False)"

definition is_folder_viewer :: "auth_cfg \<Rightarrow> user \<Rightarrow> folder_meta \<Rightarrow> bool" where
  "is_folder_viewer cfg u meta \<longleftrightarrow>
     (if is_folder_member cfg u meta then True
      else has_group (user_groups u) (ac_viewers (access_block_of meta)))"

definition is_env_admin :: "auth_cfg \<Rightarrow> user \<Rightarrow> folder_meta \<Rightarrow> string \<Rightarrow> bool" where
  "is_env_admin cfg u meta env \<longleftrightarrow>
     (if is_folder_admin cfg u meta then True
      else has_group (user_groups u) (ea_admins (env_access_block meta env)))"

definition is_env_member :: "auth_cfg \<Rightarrow> user \<Rightarrow> folder_meta \<Rightarrow> string \<Rightarrow> bool" where
  "is_env_member cfg u meta env \<longleftrightarrow>
     (if is_env_admin cfg u meta env then True
      else if is_folder_member cfg u meta then True
      else has_group (user_groups u) (ea_members (env_access_block meta env)))"

definition is_env_viewer :: "auth_cfg \<Rightarrow> user \<Rightarrow> folder_meta \<Rightarrow> string \<Rightarrow> bool" where
  "is_env_viewer cfg u meta env \<longleftrightarrow>
     (if is_env_member cfg u meta env then True
      else if is_folder_viewer cfg u meta then True
      else has_group (user_groups u) (ea_viewers (env_access_block meta env)))"

lemmas role_defs = is_folder_admin_def is_folder_member_def is_folder_viewer_def is_env_admin_def
  is_env_member_def is_env_viewer_def

subsection \<open>Looking up folders and environments\<close>

record namespace =
  ns_name :: string
  ns_labels :: "string dict option"

type_synonym 'w folders_read = "('w, folder_meta json dict option) io"

definition ENV_FOLDER_LABEL :: string where
  "ENV_FOLDER_LABEL = ''kubevirt-ui.io/folder''"

definition ENV_ENVIRONMENT_LABEL :: string where
  "ENV_ENVIRONMENT_LABEL = ''kubevirt-ui.io/environment''"

definition parse_folder :: "folder_meta json \<Rightarrow> folder_meta" where
  "parse_folder raw = (case raw of Doc m \<Rightarrow> m | NotJson \<Rightarrow> empty_folder_meta)"

definition parse_all_folders :: "folder_meta json dict \<Rightarrow> folder_meta dict" where
  "parse_all_folders data = map (\<lambda>(n, raw). (n, parse_folder raw)) data"

definition load_folders :: "'w folders_read \<Rightarrow> ('w, folder_meta dict) io" where
  "load_folders read_cm = (\<lambda>w.
     case read_cm w of
       (Inl e, w1) \<Rightarrow> (Inl (if e = ApiException 404 then HTTPException 404 else e), w1)
     | (Inr data, w1) \<Rightarrow> (Inr (parse_all_folders (or_nil data)), w1))"

definition load_folder :: "'w folders_read \<Rightarrow> string \<Rightarrow> ('w, folder_meta) io" where
  "load_folder read_cm name =
     bind_io (load_folders read_cm)
       (\<lambda>folders. case dict_get folders name of None \<Rightarrow> raise (HTTPException 404) | Some m \<Rightarrow> ret m)"

definition resolve_env :: "(string \<Rightarrow> ('w, namespace) io) \<Rightarrow> string \<Rightarrow> ('w, string \<times> string) io" where
  "resolve_env read_ns name = (\<lambda>w.
     case read_ns name w of
       (Inl e, w1) \<Rightarrow> (Inl (if e = ApiException 404 then HTTPException 404 else e), w1)
     | (Inr ns, w1) \<Rightarrow>
         (let labels = or_nil (ns_labels ns);
              folder = dict_get labels ENV_FOLDER_LABEL;
              env = dict_get labels ENV_ENVIRONMENT_LABEL
          in if \<not> truthy folder \<or> \<not> truthy env then (Inl (HTTPException 404), w1)
             else (Inr (the folder, the env), w1)))"






subsection \<open>Gates\<close>

definition require_auth :: "user option \<Rightarrow> exc + user" where
  "require_auth u =
     (case u of
        None \<Rightarrow> Inl (HTTPException 401)
      | Some u \<Rightarrow> if ''disabled-users'' \<in> set (user_groups u) then Inl (HTTPException 403) else Inr u)"

definition require_admin :: "auth_cfg \<Rightarrow> user \<Rightarrow> exc + user" where
  "require_admin cfg u =
     (if \<not> is_admin cfg (user_groups u) (Some u) then Inl (HTTPException 403) else Inr u)"

definition folder_role_dep ::
  "(user \<Rightarrow> folder_meta \<Rightarrow> bool) \<Rightarrow> 'w folders_read \<Rightarrow> string \<Rightarrow> user \<Rightarrow> ('w, user) io" where
  "folder_role_dep role_check read_cm name u =
     bind_io (load_folder read_cm name)
       (\<lambda>meta. if \<not> role_check u meta then raise (HTTPException 403) else ret u)"

definition env_role_dep ::
  "(user \<Rightarrow> folder_meta \<Rightarrow> string \<Rightarrow> bool) \<Rightarrow> 'w folders_read \<Rightarrow> (string \<Rightarrow> ('w, namespace) io) \<Rightarrow> string \<Rightarrow>
   user \<Rightarrow> ('w, user) io" where
  "env_role_dep role_check read_cm read_ns name u =
     bind_io (resolve_env read_ns name) (\<lambda>(folder, env).
     bind_io (load_folder read_cm folder)
       (\<lambda>meta. if \<not> role_check u meta env then raise (HTTPException 403) else ret u))"

definition require_folder_admin :: "auth_cfg \<Rightarrow> 'w folders_read \<Rightarrow> string \<Rightarrow> user \<Rightarrow> ('w, user) io" where
  "require_folder_admin cfg = folder_role_dep (is_folder_admin cfg)"

definition require_folder_member :: "auth_cfg \<Rightarrow> 'w folders_read \<Rightarrow> string \<Rightarrow> user \<Rightarrow> ('w, user) io" where
  "require_folder_member cfg = folder_role_dep (is_folder_member cfg)"

definition require_folder_viewer :: "auth_cfg \<Rightarrow> 'w folders_read \<Rightarrow> string \<Rightarrow> user \<Rightarrow> ('w, user) io" where
  "require_folder_viewer cfg = folder_role_dep (is_folder_viewer cfg)"

definition require_env_admin ::
  "auth_cfg \<Rightarrow> 'w folders_read \<Rightarrow> (string \<Rightarrow> ('w, namespace) io) \<Rightarrow> string \<Rightarrow> user \<Rightarrow> ('w, user) io" where
  "require_env_admin cfg = env_role_dep (is_env_admin cfg)"

definition require_env_member ::
  "auth_cfg \<Rightarrow> 'w folders_read \<Rightarrow> (string \<Rightarrow> ('w, namespace) io) \<Rightarrow> string \<Rightarrow> user \<Rightarrow> ('w, user) io" where
  "require_env_member cfg = env_role_dep (is_env_member cfg)"

definition require_env_viewer ::
  "auth_cfg \<Rightarrow> 'w folders_read \<Rightarrow> (string \<Rightarrow> ('w, namespace) io) \<Rightarrow> string \<Rightarrow> user \<Rightarrow> ('w, user) io" where
  "require_env_viewer cfg = env_role_dep (is_env_viewer cfg)"

subsection \<open>Authentication\<close>

record review_status =
  rs_authenticated :: bool
  rs_uid :: "string option"
  rs_username :: string
  rs_groups :: "string list option"

text \<open>\<open>create_token_review\<close> is the API call; a failure of any kind is no user.\<close>

definition validate_k8s_token :: "(string \<Rightarrow> ('w, review_status) io) \<Rightarrow> string \<Rightarrow> ('w, user option) io" where
  "validate_k8s_token review token = (\<lambda>w.
     case review token w of
       (Inl _, w1) \<Rightarrow> (Inr None, w1)
     | (Inr st, w1) \<Rightarrow>
         if \<not> rs_authenticated st then (Inr None, w1)
         else (Inr (Some \<lparr>user_id = (if truthy (rs_uid st) then the (rs_uid st) else rs_username st),
                user_email = rs_username st @ ''@serviceaccount'', user_username = rs_username st,
                user_groups = or_nil (rs_groups st), user_raw_token = Some token\<rparr>), w1))"

definition get_current_user ::
  "auth_cfg \<Rightarrow> (string \<Rightarrow> ('w, review_status) io) \<Rightarrow> (string \<Rightarrow> ('w, user option) io) \<Rightarrow> string option \<Rightarrow>
   ('w, user option) io" where
  "get_current_user cfg review validate_oidc_token credentials =
     (if AUTH_TYPE cfg = ''none'' then
        ret (Some \<lparr>user_id = ''anonymous'', user_email = ''anonymous@local'', user_username = ''anonymous'',
               user_groups = [''kubevirt-ui-admins''], user_raw_token = None\<rparr>)
      else case credentials of
             None \<Rightarrow> ret None
           | Some token \<Rightarrow>
               if AUTH_TYPE cfg = ''token'' then validate_k8s_token review token
               else if AUTH_TYPE cfg = ''oidc'' then validate_oidc_token token
               else ret None)"

record sar =
  sar_user :: string
  sar_groups :: "string list"
  sar_namespace :: string
  sar_verb :: string
  sar_resource :: string
  sar_group :: string

definition check_namespace_access ::
  "auth_cfg \<Rightarrow> (sar \<Rightarrow> ('w, bool) io) \<Rightarrow> user \<Rightarrow> string \<Rightarrow> string \<Rightarrow> ('w, bool) io" where
  "check_namespace_access cfg review u ns verb =
     (if AUTH_TYPE cfg = ''none'' then ret True
      else catch_io (review \<lparr>sar_user = user_email u, sar_groups = user_groups u, sar_namespace = ns,
               sar_verb = verb, sar_resource = ''virtualmachines'', sar_group = ''kubevirt.io''\<rparr>)
             (\<lambda>_. ret False))"

text \<open>The walk from a folder to its root. It stops at a parent it has already seen, so a cyclic tree
  does not keep it going.\<close>

definition parents_of :: "folder_meta dict \<Rightarrow> string set" where
  "parents_of folders = {p. \<exists>n m. dict_get folders n = Some m \<and> parent_id m = Some p}"

definition parent_of :: "folder_meta dict \<Rightarrow> string \<Rightarrow> string option" where
  "parent_of folders name = Option.bind (dict_get folders name) parent_id"

lemma parents_of_finite: "finite (parents_of folders)"
proof -
  have "parents_of folders \<subseteq> (\<lambda>(n, m). the (parent_id m)) ` set folders"
    by (force simp: parents_of_def dest: map_of_SomeD)
  then show ?thesis by (rule finite_subset) simp
qed

lemma parent_of_in: "parent_of folders n = Some p \<Longrightarrow> p \<in> parents_of folders"
  by (auto simp: parent_of_def parents_of_def bind_eq_Some_conv)

function folder_chain :: "folder_meta dict \<Rightarrow> string list \<Rightarrow> string list \<Rightarrow> string \<Rightarrow> string list" where
  "folder_chain folders chain visited current =
     (let parent = parent_of folders current
      in if \<not> truthy parent \<or> the parent \<in> set visited then chain
         else folder_chain folders (chain @ [the parent]) (the parent # visited) (the parent))"
  by pat_completeness auto
termination
proof (relation "measure (\<lambda>(folders, chain, visited, current). card (parents_of folders - set visited))")
  fix folders :: "folder_meta dict" and chain visited current x
  assume x: "x = parent_of folders current" and "\<not> (\<not> truthy x \<or> the x \<in> set visited)"
  then obtain p where p: "x = Some p" "p \<notin> set visited" by (cases "parent_of folders current") auto
  then have "p \<in> parents_of folders - set visited" using parent_of_in x by simp
  then have "parents_of folders - set (p # visited) \<subset> parents_of folders - set visited" by auto
  then have "card (parents_of folders - set (p # visited)) < card (parents_of folders - set visited)"
    by (intro psubset_card_mono) (simp add: parents_of_finite)
  then show "((folders, chain @ [the x], the x # visited, the x), folders, chain, visited, current)
      \<in> measure (\<lambda>(folders, chain, visited, current). card (parents_of folders - set visited))"
    using p by simp
qed simp

declare folder_chain.simps [simp del]

text \<open>The loop over the chain: the first namespace that admits the user ends it; a folder whose
  namespaces cannot be listed is skipped.\<close>

fun any_ns_access :: "(string \<Rightarrow> ('w, bool) io) \<Rightarrow> string list \<Rightarrow> ('w, bool) io" where
  "any_ns_access chk [] = ret False"
| "any_ns_access chk (n # ns) = bind_io (chk n) (\<lambda>ok. if ok then ret True else any_ns_access chk ns)"

fun chain_access ::
  "(string \<Rightarrow> ('w, string list) io) \<Rightarrow> (string \<Rightarrow> ('w, bool) io) \<Rightarrow> string list \<Rightarrow> ('w, bool) io" where
  "chain_access list_ns chk [] = ret False"
| "chain_access list_ns chk (f # fs) =
     bind_io (catch_io (bind_io (list_ns f) (any_ns_access chk)) (\<lambda>e. if is_api e then ret False else raise e))
       (\<lambda>ok. if ok then ret True else chain_access list_ns chk fs)"

definition check_folder_access ::
  "auth_cfg \<Rightarrow> 'w folders_read \<Rightarrow> (string \<Rightarrow> ('w, string list) io) \<Rightarrow> (sar \<Rightarrow> ('w, bool) io) \<Rightarrow> user \<Rightarrow>
   string \<Rightarrow> string \<Rightarrow> ('w, bool) io" where
  "check_folder_access cfg read_cm list_ns review u folder_name verb =
     (if AUTH_TYPE cfg = ''none'' then ret True
      else if is_admin cfg (user_groups u) (Some u) then ret True
      else catch_io (\<lambda>w.
        case read_cm w of
          (Inl e, w1) \<Rightarrow> if is_api e then (Inr False, w1) else (Inl e, w1)
        | (Inr data, w1) \<Rightarrow>
            (let folders = parse_all_folders (or_nil data)
             in if dict_get folders folder_name = None then (Inr False, w1)
                else chain_access list_ns (\<lambda>ns. check_namespace_access cfg review u ns verb)
                       (folder_chain folders [folder_name] [folder_name] folder_name) w1))
        (\<lambda>_. ret False))"

subsection \<open>Visible VPCs\<close>

record VpcFacts =
  vf_name :: string
  vf_folder :: "string option"
  vf_environment :: "string option"
  vf_namespaces :: "string list"



definition facts_from_item :: "vpc_spec cr \<Rightarrow> VpcFacts" where
  "facts_from_item item =
     (let labels = cr_labels item;
          label = (\<lambda>k. if truthy (dict_get labels k) then dict_get labels k else None)
      in \<lparr>vf_name = cr_name item, vf_folder = label ENV_FOLDER_LABEL,
          vf_environment = label ENV_ENVIRONMENT_LABEL,
          vf_namespaces = or_nil (vpc_namespaces (cr_spec item))\<rparr>)"

subsection \<open>The ladder of roles\<close>

text \<open>A stronger role includes the weaker ones; whatever asks for a role can rely on it.\<close>

locale role_ladder =
  fixes admin member viewer :: "'x \<Rightarrow> bool"
  assumes member_of_admin: "admin x \<Longrightarrow> member x"
    and viewer_of_member: "member x \<Longrightarrow> viewer x"
begin

lemma viewer_of_admin: "admin x \<Longrightarrow> viewer x"
  by (rule viewer_of_member [OF member_of_admin])

lemma gate_member_of_admin:
  "bind_io m (\<lambda>y. if \<not> admin (f y) then raise e else ret u) w = (Inr v, w') \<Longrightarrow>
   bind_io m (\<lambda>y. if \<not> member (f y) then raise e else ret u) w = (Inr v, w')"
  by (auto simp: bind_io_Inr split: if_splits dest: member_of_admin)

lemma gate_viewer_of_member:
  "bind_io m (\<lambda>y. if \<not> member (f y) then raise e else ret u) w = (Inr v, w') \<Longrightarrow>
   bind_io m (\<lambda>y. if \<not> viewer (f y) then raise e else ret u) w = (Inr v, w')"
  by (auto simp: bind_io_Inr split: if_splits dest: viewer_of_member)

end

text \<open>Two ladders, one inside the other: a role on the outer scope is the same role on the inner one.\<close>

locale nested_roles =
  outer: role_ladder admin member viewer + inner: role_ladder admin' member' viewer'
  for admin member viewer :: "'x \<Rightarrow> bool" and admin' member' viewer' :: "'x \<times> 'y \<Rightarrow> bool" +
  assumes inner_admin: "admin x \<Longrightarrow> admin' (x, y)"
    and inner_member: "member x \<Longrightarrow> member' (x, y)"
    and inner_viewer: "viewer x \<Longrightarrow> viewer' (x, y)"
begin

lemma inner_viewer_of_outer_admin: "admin x \<Longrightarrow> viewer' (x, y)"
  by (rule inner.viewer_of_admin [OF inner_admin])

lemma no_inner_no_outer: "\<not> viewer' (x, y) \<Longrightarrow> \<not> admin x \<and> \<not> member x \<and> \<not> viewer x"
  using inner_viewer outer.viewer_of_member outer.viewer_of_admin by blast

end

interpretation folder_roles: role_ladder
  "\<lambda>(cfg, u, meta). is_folder_admin cfg u meta" "\<lambda>(cfg, u, meta). is_folder_member cfg u meta"
  "\<lambda>(cfg, u, meta). is_folder_viewer cfg u meta"
  by unfold_locales (auto simp: is_folder_member_def is_folder_viewer_def)

interpretation env_roles: nested_roles
  "\<lambda>(cfg, u, meta). is_folder_admin cfg u meta" "\<lambda>(cfg, u, meta). is_folder_member cfg u meta"
  "\<lambda>(cfg, u, meta). is_folder_viewer cfg u meta"
  "\<lambda>((cfg, u, meta), env). is_env_admin cfg u meta env" "\<lambda>((cfg, u, meta), env). is_env_member cfg u meta env"
  "\<lambda>((cfg, u, meta), env). is_env_viewer cfg u meta env"
  by unfold_locales (auto simp: is_env_admin_def is_env_member_def is_env_viewer_def)

subsection \<open>The chain of a folder\<close>

definition parent_step :: "folder_meta dict \<Rightarrow> string \<Rightarrow> string \<Rightarrow> bool" where
  "parent_step folders a b \<longleftrightarrow> parent_of folders a = Some b \<and> b \<noteq> []"

lemma folder_chain_closed:
  assumes "set chain = set visited" "current \<in> set visited"
    and "\<And>a b. a \<in> set visited \<Longrightarrow> a \<noteq> current \<Longrightarrow> parent_step folders a b \<Longrightarrow> b \<in> set visited"
    and "\<And>a. a \<in> set visited \<Longrightarrow> (parent_step folders)\<^sup>*\<^sup>* start a" "start \<in> set visited"
  shows "set (folder_chain folders chain visited current) = {a. (parent_step folders)\<^sup>*\<^sup>* start a}"
  using assms
proof (induction folders chain visited current rule: folder_chain.induct)
  case (1 folders chain visited current)
  let ?p = "parent_of folders current"
  show ?case
  proof (cases "\<not> truthy ?p \<or> the ?p \<in> set visited")
    case True
    have step: "b \<in> set visited" if "a \<in> set visited" "parent_step folders a b" for a b
    proof (cases "a = current")
      case True
      then show ?thesis using that \<open>\<not> truthy ?p \<or> the ?p \<in> set visited\<close> by (auto simp: parent_step_def)
    next
      case False
      then show ?thesis using "1.prems"(3) that by blast
    qed
    have "a \<in> set visited" if "(parent_step folders)\<^sup>*\<^sup>* start a" for a
      using that by induction (use "1.prems"(5) step in auto)
    then have "set visited = {a. (parent_step folders)\<^sup>*\<^sup>* start a}" using "1.prems"(4) by blast
    then show ?thesis using True "1.prems"(1) by (subst folder_chain.simps) (simp add: Let_def)
  next
    case False
    then obtain q where q: "?p = Some q" "q \<noteq> []" "q \<notin> set visited" by (cases ?p) auto
    then have step: "parent_step folders current q" by (simp add: parent_step_def)
    have "set (folder_chain folders (chain @ [the ?p]) (the ?p # visited) (the ?p))
        = {a. (parent_step folders)\<^sup>*\<^sup>* start a}"
    proof (rule "1.IH" [OF refl False])
      show "set (chain @ [the ?p]) = set (the ?p # visited)" using "1.prems"(1) by auto
      show "the ?p \<in> set (the ?p # visited)" "start \<in> set (the ?p # visited)" using "1.prems"(5) by auto
      show "b \<in> set (the ?p # visited)" if "a \<in> set (the ?p # visited)" "a \<noteq> the ?p" "parent_step folders a b" for a b
        using that "1.prems"(3) [of a b] q by (cases "a = current") (auto simp: parent_step_def)
      show "(parent_step folders)\<^sup>*\<^sup>* start a" if "a \<in> set (the ?p # visited)" for a
        using that "1.prems"(4) [of a] "1.prems"(4) [OF "1.prems"(2)] step q by (auto intro: rtranclp.rtrancl_into_rtrancl)
    qed
    then show ?thesis using False by (subst folder_chain.simps) (simp add: Let_def)
  qed
qed

lemma folder_chain_set:
  "set (folder_chain folders [n] [n] n) = {a. (parent_step folders)\<^sup>*\<^sup>* n a}"
  by (rule folder_chain_closed) auto

lemma any_ns_access_True:
  "any_ns_access chk ns w = (Inr True, w') \<Longrightarrow> \<exists>n \<in> set ns. \<exists>w1. chk n w1 = (Inr True, w')"
  by (induction ns arbitrary: w) (fastforce simp: bind_io_Inr split: if_splits)+

lemma chain_access_True:
  "chain_access list_ns chk fs w = (Inr True, w') \<Longrightarrow>
   \<exists>f \<in> set fs. \<exists>w1 ns w2. list_ns f w1 = (Inr ns, w2) \<and> (\<exists>n \<in> set ns. \<exists>w3. chk n w3 = (Inr True, w'))"
proof (induction fs arbitrary: w)
  case (Cons f fs)
  from Cons.prems obtain ok w1 where
    c: "catch_io (bind_io (list_ns f) (any_ns_access chk)) (\<lambda>e. if is_api e then ret False else raise e) w = (Inr ok, w1)"
    and r: "(if ok then ret True else chain_access list_ns chk fs) w1 = (Inr True, w')"
    by (auto simp: bind_io_Inr)
  show ?case
  proof (cases ok)
    case True
    with r have "w' = w1" by simp
    with c True have "bind_io (list_ns f) (any_ns_access chk) w = (Inr True, w')"
      by (auto simp: catch_io_Inr split: if_splits)
    then show ?thesis using any_ns_access_True by (fastforce simp: bind_io_Inr)
  next
    case False
    with r Cons.IH show ?thesis by fastforce
  qed
qed simp

subsection \<open>Properties\<close>

text \<open>The gates of an environment are ordered: a user who passes \<open>require_env_admin\<close> passes
  \<open>require_env_member\<close>, and one who passes that passes \<open>require_env_viewer\<close>, with the same calls.\<close>

theorem env_gates_ordered:
  "(require_env_admin cfg rc rn ns u w = (Inr v, w') \<longrightarrow> require_env_member cfg rc rn ns u w = (Inr v, w'))
   \<and> (require_env_member cfg rc rn ns u w = (Inr v, w') \<longrightarrow> require_env_viewer cfg rc rn ns u w = (Inr v, w'))"
proof -
  note inner = env_roles.inner.gate_member_of_admin [of "load_folder rc f" "\<lambda>m. ((cfg, u, m), env)" for f env]
    env_roles.inner.gate_viewer_of_member [of "load_folder rc f" "\<lambda>m. ((cfg, u, m), env)" for f env]
  show ?thesis
    unfolding require_env_admin_def require_env_member_def require_env_viewer_def env_role_dep_def
    using inner by (fastforce simp: bind_io_Inr [of "resolve_env rn ns"])
qed

text \<open>A folder without an access block is open to platform admins only: every role check on it and
  on its environments is the platform admin check.\<close>

theorem no_access_block_admins_only:
  assumes "access meta = None"
  shows "is_folder_viewer cfg u meta = is_admin cfg (user_groups u) (Some u)
     \<and> is_env_viewer cfg u meta env = is_admin cfg (user_groups u) (Some u)
     \<and> may_create_tenant penv cfg u meta = is_admin cfg (user_groups u) (Some u)"
  using assms
  by (auto simp: role_defs may_create_tenant_def access_block_of_def env_access_block_def has_group_def
      empty_access_def empty_env_access_def)

text \<open>C9. With authentication on, a request without a valid credential has no user and is refused with
  401; a user exists only when the token review, or the OIDC check, accepted the token of the request;
  and a member of \<open>disabled-users\<close> is refused with 403.\<close>

theorem authentication_fails_closed:
  assumes "AUTH_TYPE cfg \<noteq> ''none''" "get_current_user cfg review oidc credentials w = (Inr r, w')"
  shows "(r = None \<longrightarrow> require_auth r = Inl (HTTPException 401))
     \<and> (\<forall>u. r = Some u \<longrightarrow> (\<exists>token. credentials = Some token \<and>
          (AUTH_TYPE cfg = ''token'' \<and> (\<exists>st. review token w = (Inr st, w') \<and> rs_authenticated st
               \<and> user_username u = rs_username st \<and> user_groups u = or_nil (rs_groups st))
           \<or> AUTH_TYPE cfg = ''oidc'' \<and> oidc token w = (Inr (Some u), w'))))
     \<and> (\<forall>u. r = Some u \<and> ''disabled-users'' \<in> set (user_groups u) \<longrightarrow> require_auth r = Inl (HTTPException 403))"
  using assms
  by (auto simp: get_current_user_def require_auth_def validate_k8s_token_def
      split: option.splits if_splits prod.splits sum.splits)

text \<open>The walk up the folder tree ends for every stored tree, cyclic ones included, and visits
  exactly the folder and its ancestors.\<close>

theorem folder_chain_exact:
  "set (folder_chain folders [name] [name] name) = {a. (parent_step folders)\<^sup>*\<^sup>* name a}"
  by (rule folder_chain_set)

text \<open>C10. \<open>check_folder_access\<close> never raises, and for a user who is not an admin it grants access only
  if a subject access review allowed the verb in a namespace of the folder or of one of its ancestors.\<close>

theorem check_folder_access_sound:
  assumes "AUTH_TYPE cfg \<noteq> ''none''" "\<not> is_admin cfg (user_groups u) (Some u)"
    and "check_folder_access cfg rc list_ns review u folder verb w = (r, w')"
  shows "(\<exists>b. r = Inr b) \<and> (r = Inr True \<longrightarrow>
     (\<exists>data u1 f ns n u2 u3 u4. rc w = (Inr data, u1)
        \<and> (parent_step (parse_all_folders (or_nil data)))\<^sup>*\<^sup>* folder f
        \<and> list_ns f u2 = (Inr ns, u3) \<and> n \<in> set ns
        \<and> review \<lparr>sar_user = user_email u, sar_groups = user_groups u, sar_namespace = n, sar_verb = verb,
             sar_resource = ''virtualmachines'', sar_group = ''kubevirt.io''\<rparr> u4 = (Inr True, w')))"
proof -
  have tot: "\<exists>b. r = Inr b"
    using assms by (auto simp: check_folder_access_def catch_io_def split: prod.splits sum.splits)
  have "\<exists>data u1 f ns n u2 u3 u4. rc w = (Inr data, u1)
        \<and> (parent_step (parse_all_folders (or_nil data)))\<^sup>*\<^sup>* folder f
        \<and> list_ns f u2 = (Inr ns, u3) \<and> n \<in> set ns
        \<and> review \<lparr>sar_user = user_email u, sar_groups = user_groups u, sar_namespace = n, sar_verb = verb,
             sar_resource = ''virtualmachines'', sar_group = ''kubevirt.io''\<rparr> u4 = (Inr True, w')"
    if granted: "r = Inr True"
  proof -
    let ?chk = "\<lambda>ns. check_namespace_access cfg review u ns verb"
    obtain data u1 where d: "rc w = (Inr data, u1)" and
      c: "chain_access list_ns ?chk (folder_chain (parse_all_folders (or_nil data)) [folder] [folder] folder) u1
          = (Inr True, w')"
      using assms granted
      by (auto simp: check_folder_access_def catch_io_Inr Let_def split: prod.splits sum.splits if_splits)
    obtain f ns n u2 u3 u4 where f: "f \<in> set (folder_chain (parse_all_folders (or_nil data)) [folder] [folder] folder)"
      "list_ns f u2 = (Inr ns, u3)" "n \<in> set ns" "?chk n u4 = (Inr True, w')"
      using chain_access_True [OF c] by blast
    have "review \<lparr>sar_user = user_email u, sar_groups = user_groups u, sar_namespace = n, sar_verb = verb,
             sar_resource = ''virtualmachines'', sar_group = ''kubevirt.io''\<rparr> u4 = (Inr True, w')"
      using f(4) assms(1) by (auto simp: check_namespace_access_def catch_io_Inr)
    then show ?thesis using d f(1-3) unfolding folder_chain_set by blast
  qed
  then show ?thesis using tot by blast
qed


subsection \<open>Witnesses\<close>

definition demo_cfg :: auth_cfg where
  "demo_cfg = \<lparr>AUTH_TYPE = ''token'', admin_groups = ''kubevirt-ui-admins'', admin_users = []\<rparr>"

definition demo_user :: user where
  "demo_user = \<lparr>user_id = ''u1'', user_email = ''u1@serviceaccount'', user_username = ''u1'', user_groups = [''devs''],
     user_raw_token = Some ''tok''\<rparr>"

definition demo_meta :: folder_meta where
  "demo_meta = empty_folder_meta\<lparr>access := Some (empty_access\<lparr>ac_admins := Some [''devs'']\<rparr>)\<rparr>"

definition demo_folders :: "folder_meta json dict" where
  "demo_folders = [(''root'', NotJson), (''team'', Doc (demo_meta\<lparr>parent_id := Some ''root''\<rparr>))]"

lemma demo_not_admin: "\<not> is_admin demo_cfg (user_groups demo_user) (Some demo_user)"
  by (simp add: is_admin_def demo_cfg_def demo_user_def admin_users_list_def admin_groups_list_def csv_list_def
      strip_def lstrip_def rstrip_def is_space_def)

lemma demo_folder_admin: "is_folder_admin demo_cfg demo_user (demo_meta\<lparr>parent_id := p\<rparr>)"
  by (simp add: is_folder_admin_def access_block_of_def demo_meta_def has_group_def demo_user_def empty_access_def)

theorem env_gates_ordered_witness:
  "require_env_viewer demo_cfg (ret (Some demo_folders))
     (\<lambda>n. ret \<lparr>ns_name = n, ns_labels = Some [(ENV_FOLDER_LABEL, ''team''), (ENV_ENVIRONMENT_LABEL, ''dev'')]\<rparr>)
     ''team-dev'' demo_user () = (Inr demo_user, ())"
proof -
  let ?rn = "\<lambda>n. ret \<lparr>ns_name = n, ns_labels = Some [(ENV_FOLDER_LABEL, ''team''), (ENV_ENVIRONMENT_LABEL, ''dev'')]\<rparr>"
  have "is_env_admin demo_cfg demo_user (demo_meta\<lparr>parent_id := p\<rparr>) env" for p env
    using demo_folder_admin by (simp add: is_env_admin_def)
  then have "require_env_admin demo_cfg (ret (Some demo_folders)) ?rn ''team-dev'' demo_user () = (Inr demo_user, ())"
    by (simp add: require_env_admin_def env_role_dep_def resolve_env_def load_folder_def load_folders_def bind_io_def
        parse_all_folders_def demo_folders_def parse_folder_def ENV_FOLDER_LABEL_def ENV_ENVIRONMENT_LABEL_def)
  then show ?thesis
    using env_gates_ordered [of demo_cfg "ret (Some demo_folders)" ?rn "''team-dev''" demo_user "()" demo_user "()"] by blast
qed

theorem no_access_block_admins_only_witness:
  "is_env_viewer demo_cfg demo_user empty_folder_meta ''dev'' = is_admin demo_cfg (user_groups demo_user) (Some demo_user)"
  using no_access_block_admins_only [of empty_folder_meta demo_cfg demo_user "''dev''" "\<lambda>_. None"]
  by (simp add: empty_folder_meta_def)

theorem authentication_fails_closed_witness:
  "require_auth None = Inl (HTTPException 401)"
proof -
  have "get_current_user demo_cfg (\<lambda>t. ret \<lparr>rs_authenticated = False, rs_uid = None, rs_username = [], rs_groups = None\<rparr>)
      (\<lambda>_. ret None) (Some ''tok'') () = (Inr None, ())"
    by (simp add: get_current_user_def demo_cfg_def validate_k8s_token_def)
  from authentication_fails_closed [OF _ this] show ?thesis by (simp add: demo_cfg_def)
qed

lemma demo_chain: "folder_chain (parse_all_folders demo_folders) [''team''] [''team''] ''team'' = [''team'', ''root'']"
  by (simp add: folder_chain.simps parse_all_folders_def demo_folders_def parse_folder_def parent_of_def demo_meta_def
      empty_folder_meta_def)

lemma demo_known: "\<exists>m. dict_get (parse_all_folders demo_folders) ''team'' = Some m"
  by (simp add: parse_all_folders_def demo_folders_def)

lemma demo_auth: "AUTH_TYPE demo_cfg = ''token''"
  by (simp add: demo_cfg_def)

theorem check_folder_access_sound_witness:
  "\<exists>f. (parent_step (parse_all_folders demo_folders))\<^sup>*\<^sup>* ''team'' f"
proof -
  have "check_folder_access demo_cfg (ret (Some demo_folders)) (\<lambda>f. ret [f @ ''-dev''])
      (\<lambda>s. ret (sar_namespace s = ''root-dev'')) demo_user ''team'' ''get'' () = (Inr True, ())"
    using demo_not_admin
    by (simp add: check_folder_access_def catch_io_def bind_io_def check_namespace_access_def demo_chain demo_known
        demo_auth Let_def)
  from check_folder_access_sound [OF _ demo_not_admin this] show ?thesis
    by (auto simp: demo_cfg_def)
qed


end
