(* ===== verification/FolderTree.thy ===== *)
theory FolderTree
  imports Access "HOL-Library.Multiset"
begin

section \<open>The folder tree (\<open>api/v1/folders.py\<close>)\<close>

text \<open>
  Folders are entries of one ConfigMap that name their parent. The theory models the walks over the
  tree, the writes to the ConfigMap, and the handlers that move and delete folders. A handler whose loop
  may not end has the value \<^const>\<open>None\<close> for a run that does not return. The response of a move, which
  only reads, is not modelled.
\<close>

subsection \<open>Walks\<close>

definition get_ancestor_chain :: "folder_meta dict \<Rightarrow> string \<Rightarrow> string list" where
  "get_ancestor_chain folders folder_name = rev (folder_chain folders [] [] folder_name)"

definition children_of :: "folder_meta dict \<Rightarrow> string \<Rightarrow> string list" where
  "children_of folders p = map fst (filter (\<lambda>(n, m). parent_id m = Some p) folders)"

text \<open>The \<open>while stack\<close> loop; the top of the stack is its last element.\<close>

partial_function (option) descend ::
  "folder_meta dict \<Rightarrow> string list \<Rightarrow> string list \<Rightarrow> string list option" where
  "descend folders stack result =
     (if stack = [] then Some result
      else let child = last stack
           in descend folders (butlast stack @ children_of folders child) (result @ [child]))"

definition get_descendant_names :: "folder_meta dict \<Rightarrow> string \<Rightarrow> string list option" where
  "get_descendant_names folders folder_name = descend folders (children_of folders folder_name) []"

definition would_create_cycle :: "folder_meta dict \<Rightarrow> string \<Rightarrow> string option \<Rightarrow> bool option" where
  "would_create_cycle folders folder_name new_parent =
     (case new_parent of
        None \<Rightarrow> Some False
      | Some np \<Rightarrow>
          if np = folder_name then Some True
          else map_option (\<lambda>descendants. np \<in> set descendants) (get_descendant_names folders folder_name))"

definition ns_name_of :: "string \<Rightarrow> string \<Rightarrow> string" where
  "ns_name_of folder environment = folder @ ''-'' @ environment"

subsection \<open>The ConfigMap\<close>

record 'w folders_api =
  fa_read :: "('w, folder_meta json dict option \<times> string) io"
  fa_read_system_ns :: "('w, unit) io"
  fa_create :: "('w, unit) io"
  fa_patch :: "string \<Rightarrow> folder_meta json \<Rightarrow> ('w, unit) io"
  fa_replace :: "string \<Rightarrow> folder_meta json dict \<Rightarrow> ('w, unit) io"
  fa_list_ns :: "string \<Rightarrow> ('w, namespace list) io"
  fa_delete_ns :: "string \<Rightarrow> ('w, unit) io"

definition ensure_folders_configmap :: "'w folders_api \<Rightarrow> ('w, folder_meta json dict) io" where
  "ensure_folders_configmap api = (\<lambda>w.
     case fa_read api w of
       (Inr (data, _), w1) \<Rightarrow> (Inr (or_nil data), w1)
     | (Inl e, w1) \<Rightarrow>
         if e = ApiException 404 then
           (case fa_read_system_ns api w1 of
              (Inl e2, w2) \<Rightarrow> (Inl (if e2 = ApiException 404 then HTTPException 503 else e2), w2)
            | (Inr _, w2) \<Rightarrow> bind_io (fa_create api) (\<lambda>_. ret []) w2)
         else (Inl e, w1))"

definition save_folder_meta :: "'w folders_api \<Rightarrow> string \<Rightarrow> folder_meta \<Rightarrow> ('w, unit) io" where
  "save_folder_meta api name meta = fa_patch api name (Doc meta)"

definition delete_folder_meta :: "'w folders_api \<Rightarrow> string \<Rightarrow> ('w, unit) io" where
  "delete_folder_meta api name =
     bind_io (fa_read api) (\<lambda>(data, rv). fa_replace api rv (dict_del (or_nil data) name))"

definition get_folder_namespaces :: "'w folders_api \<Rightarrow> string \<Rightarrow> ('w, namespace list) io" where
  "get_folder_namespaces api folder_name =
     catch_io (fa_list_ns api folder_name) (\<lambda>e. if is_api e then ret [] else raise e)"

subsection \<open>Move and delete\<close>

definition move_folder ::
  "'w folders_api \<Rightarrow> string \<Rightarrow> string option \<Rightarrow> 'w \<Rightarrow> ((exc + unit) \<times> 'w) option" where
  "move_folder api name new_parent w =
     (case ensure_folders_configmap api w of
        (Inl e, w1) \<Rightarrow> Some (Inl e, w1)
      | (Inr data, w1) \<Rightarrow>
          (let folders = parse_all_folders data
           in case dict_get folders name of
                None \<Rightarrow> Some (Inl (HTTPException 404), w1)
              | Some meta \<Rightarrow>
                  if truthy new_parent \<and> dict_get folders (the new_parent) = None
                  then Some (Inl (HTTPException 404), w1)
                  else (case would_create_cycle folders name new_parent of
                          None \<Rightarrow> None
                        | Some True \<Rightarrow> Some (Inl (HTTPException 400), w1)
                        | Some False \<Rightarrow> Some (save_folder_meta api name (meta\<lparr>parent_id := new_parent\<rparr>) w1))))"

text \<open>The environments of one folder, then its entry.\<close>

definition delete_one :: "'w folders_api \<Rightarrow> string \<Rightarrow> ('w, unit) io" where
  "delete_one api fname =
     bind_io (catch_io
         (bind_io (fa_list_ns api fname) (\<lambda>items. for_each items
            (\<lambda>ns. catch_io (fa_delete_ns api (ns_name ns)) (\<lambda>e. if is_api e then ret () else raise e))))
         (\<lambda>e. if is_api e then ret () else raise e))
       (\<lambda>_. delete_folder_meta api fname)"

definition delete_folder :: "'w folders_api \<Rightarrow> string \<Rightarrow> bool \<Rightarrow> 'w \<Rightarrow> ((exc + unit) \<times> 'w) option" where
  "delete_folder api name cascade w =
     (case ensure_folders_configmap api w of
        (Inl e, w1) \<Rightarrow> Some (Inl e, w1)
      | (Inr data, w1) \<Rightarrow>
          (let folders = parse_all_folders data
           in if dict_get folders name = None then Some (Inl (HTTPException 404), w1)
              else (case get_descendant_names folders name of
                      None \<Rightarrow> None
                    | Some descendants \<Rightarrow>
                        Some ((if \<not> cascade then
                                 (if descendants \<noteq> [] then raise (HTTPException 409)
                                  else bind_io (get_folder_namespaces api name) (\<lambda>ns_items.
                                    if ns_items \<noteq> [] then raise (HTTPException 409)
                                    else for_each (descendants @ [name]) (delete_one api)))
                               else for_each (descendants @ [name]) (delete_one api)) w1))))"

subsection \<open>The tree\<close>

definition parent_rel :: "folder_meta dict \<Rightarrow> (string \<times> string) set" where
  "parent_rel folders = {(c, p). parent_of folders c = Some p}"

definition tree_ok :: "folder_meta dict \<Rightarrow> bool" where
  "tree_ok folders \<longleftrightarrow> keys_distinct folders \<and> acyclic (parent_rel folders)
     \<and> (\<forall>c p. parent_of folders c = Some p \<longrightarrow> p \<noteq> [] \<longrightarrow> dict_get folders p \<noteq> None)"

lemma children_of_set: "keys_distinct folders \<Longrightarrow> set (children_of folders p) = {c. (c, p) \<in> parent_rel folders}"
  by (force simp: children_of_def parent_rel_def parent_of_def bind_eq_Some_conv)

lemma parent_rel_finite: "finite (parent_rel folders)"
proof -
  have "parent_rel folders \<subseteq> fst ` set folders \<times> parents_of folders"
    by (force simp: parent_rel_def parent_of_def bind_eq_Some_conv parents_of_def dest: map_of_SomeD)
  then show ?thesis using parents_of_finite finite_subset by blast
qed

lemma parent_rel_wf: "acyclic (parent_rel folders) \<Longrightarrow> wf (parent_rel folders)"
  by (rule finite_acyclic_wf [OF parent_rel_finite])

definition below :: "folder_meta dict \<Rightarrow> string \<Rightarrow> string set" where
  "below folders p = {c. (c, p) \<in> (parent_rel folders)\<^sup>+}"

lemma below_children:
  assumes "keys_distinct folders"
  shows "below folders p = (\<Union>c \<in> set (children_of folders p). insert c (below folders c))"
proof (intro set_eqI iffI)
  fix x assume "x \<in> below folders p"
  then have "(x, p) \<in> (parent_rel folders)\<^sup>+" by (simp add: below_def)
  then show "x \<in> (\<Union>c \<in> set (children_of folders p). insert c (below folders c))"
    by (cases rule: tranclE) (auto simp: children_of_set [OF assms] below_def)
next
  fix x assume "x \<in> (\<Union>c \<in> set (children_of folders p). insert c (below folders c))"
  then show "x \<in> below folders p"
    by (auto simp: children_of_set [OF assms] below_def intro: trancl_into_trancl)
qed

lemma stack_decreases:
  assumes "keys_distinct folders" "stack \<noteq> []"
  shows "(mset (butlast stack @ children_of folders (last stack)), mset stack) \<in> mult (parent_rel folders)"
proof -
  have "mset stack = mset (butlast stack) + {#last stack#}"
    using assms(2) by (metis append_butlast_last_id mset_append mset_single_iff_right)
  moreover have "(mset (butlast stack) + mset (children_of folders (last stack)), mset (butlast stack) + {#last stack#})
      \<in> mult (parent_rel folders)"
    by (rule one_step_implies_mult) (auto simp: children_of_set [OF assms(1)])
  ultimately show ?thesis by simp
qed

lemma descend_returns:
  assumes "keys_distinct folders" "acyclic (parent_rel folders)"
  shows "\<exists>ds. descend folders stack result = Some (result @ ds)
     \<and> set ds = (\<Union>c \<in> set stack. insert c (below folders c))"
proof (induction "mset stack" arbitrary: stack result rule: wf_induct_rule [OF wf_mult [OF parent_rel_wf [OF assms(2)]]])
  case 1
  show ?case
  proof (cases "stack = []")
    case True
    then show ?thesis by (simp add: descend.simps)
  next
    case False
    let ?c = "last stack" and ?s = "butlast stack @ children_of folders (last stack)"
    obtain ds where ds: "descend folders ?s (result @ [?c]) = Some ((result @ [?c]) @ ds)"
      "set ds = (\<Union>c \<in> set ?s. insert c (below folders c))"
      using "1.hyps" [OF stack_decreases [OF assms(1) False]] by blast
    have "set (?c # ds) = (\<Union>c \<in> set (butlast stack) \<union> {?c}. insert c (below folders c))"
      using ds(2) below_children [OF assms(1), of ?c] by auto
    also have "set (butlast stack) \<union> {?c} = set stack"
      using False by (metis append_butlast_last_id list.set(1) list.simps(15) set_append)
    finally show ?thesis using False ds(1) by (subst descend.simps) (auto simp: Let_def)
  qed
qed

lemma get_descendant_names_ok:
  assumes "keys_distinct folders" "acyclic (parent_rel folders)"
  shows "\<exists>ds. get_descendant_names folders name = Some ds \<and> set ds = below folders name"
  using descend_returns [OF assms, of "children_of folders name" "[]"] below_children [OF assms(1), of name]
  by (auto simp: get_descendant_names_def)

definition on_cycle :: "folder_meta dict \<Rightarrow> string \<Rightarrow> bool" where
  "on_cycle folders x \<longleftrightarrow> (x, x) \<in> (parent_rel folders)\<^sup>+"

lemma on_cycle_child:
  assumes "keys_distinct folders" "on_cycle folders x"
  shows "\<exists>c \<in> set (children_of folders x). on_cycle folders c"
proof -
  from assms(2) obtain c where c: "(x, c) \<in> (parent_rel folders)\<^sup>*" "(c, x) \<in> parent_rel folders"
    unfolding on_cycle_def by (meson tranclD2)
  then have "(c, c) \<in> (parent_rel folders)\<^sup>+" by (meson rtrancl_into_trancl2)
  then show ?thesis using c(2) by (auto simp: children_of_set [OF assms(1)] on_cycle_def)
qed

lemma descend_no_cycle:
  assumes "descend folders stack result = Some y" "keys_distinct folders"
  shows "\<forall>x \<in> set stack. \<not> on_cycle folders x"
proof -
  have "keys_distinct folders \<longrightarrow> (\<forall>x \<in> set stack. \<not> on_cycle folders x)"
  proof (rule descend.raw_induct [where P = "\<lambda>fs st r y. keys_distinct fs \<longrightarrow> (\<forall>x \<in> set st. \<not> on_cycle fs x)", OF _ assms(1)],
      intro impI ballI)
    fix f fs st r y x
    assume ih: "\<And>fs st r y. f fs st r = Some y \<Longrightarrow> keys_distinct fs \<longrightarrow> (\<forall>x \<in> set st. \<not> on_cycle fs x)"
      and run: "(if st = [] then Some r else let child = last st in f fs (butlast st @ children_of fs child) (r @ [child])) = Some y"
      and d: "keys_distinct fs" and x: "x \<in> set st"
    have ne: "st \<noteq> []" using x by auto
    with run have "f fs (butlast st @ children_of fs (last st)) (r @ [last st]) = Some y" by (simp add: Let_def)
    then have no: "\<forall>z \<in> set (butlast st @ children_of fs (last st)). \<not> on_cycle fs z" using ih d by blast
    show "\<not> on_cycle fs x"
    proof (cases "x = last st")
      case True
      then show ?thesis using on_cycle_child [OF d] no by fastforce
    next
      case False
      then have "x \<in> set (butlast st)" using x ne by (metis append_butlast_last_id in_set_butlastD insert_iff list.set(2) rotate1.simps(2) set_rotate1)
      then show ?thesis using no by auto
    qed
  qed
  then show ?thesis using assms(2) by blast
qed

lemma descendants_None:
  assumes "keys_distinct folders" "(name, name) \<in> (parent_rel folders)\<^sup>+"
  shows "get_descendant_names folders name = None"
proof (rule ccontr)
  assume "get_descendant_names folders name \<noteq> None"
  then obtain y where "descend folders (children_of folders name) [] = Some y"
    by (auto simp: get_descendant_names_def)
  from descend_no_cycle [OF this assms(1)] on_cycle_child [OF assms(1), of name] assms(2) show False
    by (auto simp: on_cycle_def)
qed

subsection \<open>Updates of the tree\<close>

lemma parse_all_set: "parse_all_folders (dict_set data n raw) = dict_set (parse_all_folders data) n (parse_folder raw)"
  by (induction data) (auto simp: parse_all_folders_def)

lemma parse_all_keys: "map fst (parse_all_folders data) = map fst data"
  by (auto simp: parse_all_folders_def)

lemma parent_of_set: "parent_of (dict_set folders n m) c = (if c = n then parent_id m else parent_of folders c)"
  by (simp add: parent_of_def update_conv')

lemma move_tree_ok:
  assumes "tree_ok folders" "dict_get folders name = Some meta"
    and "truthy np \<longrightarrow> dict_get folders (the np) \<noteq> None"
    and "\<forall>p. np = Some p \<longrightarrow> p \<noteq> name \<and> p \<notin> below folders name"
  shows "tree_ok (dict_set folders name (meta\<lparr>parent_id := np\<rparr>))"
proof -
  let ?f = "dict_set folders name (meta\<lparr>parent_id := np\<rparr>)"
  have par: "parent_of ?f c = (if c = name then np else parent_of folders c)" for c
    by (simp add: parent_of_set)
  have "acyclic (parent_rel ?f)"
  proof (cases np)
    case None
    then have "parent_rel ?f \<subseteq> parent_rel folders" by (auto simp: parent_rel_def parent_of_set split: if_splits)
    then show ?thesis using assms(1) acyclic_subset by (auto simp: tree_ok_def)
  next
    case (Some p)
    then have sub: "parent_rel ?f \<subseteq> insert (name, p) (parent_rel folders)"
      by (auto simp: parent_rel_def parent_of_set split: if_splits)
    have "(p, name) \<notin> (parent_rel folders)\<^sup>*"
      using assms(4) Some by (auto simp: below_def rtrancl_eq_or_trancl)
    then have "acyclic (insert (name, p) (parent_rel folders))"
      using assms(1) by (simp add: acyclic_insert tree_ok_def)
    then show ?thesis using sub acyclic_subset by blast
  qed
  moreover have "keys_distinct ?f" using assms(1) by (simp add: tree_ok_def distinct_update)
  moreover have "dict_get ?f q \<noteq> None" if "parent_of ?f c = Some q" "q \<noteq> []" for c q
    using that assms(1,3) by (auto simp: par update_conv' tree_ok_def split: if_splits)
  ultimately show ?thesis by (simp add: tree_ok_def)
qed

lemma dict_del_filter: "dict_del d k = filter (\<lambda>(n, _). n \<noteq> k) d"
  by (auto simp: AList.delete_eq case_prod_unfold intro!: filter_cong)

lemma filter_tree_ok:
  assumes "tree_ok folders" "\<And>c p. parent_of folders c = Some p \<Longrightarrow> p \<in> D \<Longrightarrow> c \<in> D"
  shows "tree_ok (filter (\<lambda>(n, _). n \<notin> D) folders)"
proof -
  let ?f = "filter (\<lambda>(n, _). n \<notin> D) folders"
  have get: "dict_get ?f n = (if n \<in> D then None else dict_get folders n)" for n
    by (induction folders) auto
  have par: "parent_of ?f c = (if c \<in> D then None else parent_of folders c)" for c
    by (simp add: parent_of_def get)
  have "parent_rel ?f \<subseteq> parent_rel folders" by (auto simp: parent_rel_def par split: if_splits)
  then have "acyclic (parent_rel ?f)" using assms(1) acyclic_subset by (auto simp: tree_ok_def)
  moreover have "keys_distinct ?f" using assms(1) by (simp add: tree_ok_def distinct_map_filter)
  moreover have "dict_get ?f q \<noteq> None" if "parent_of ?f c = Some q" "q \<noteq> []" for c q
  proof -
    have c: "c \<notin> D" "parent_of folders c = Some q" using that(1) by (auto simp: par split: if_splits)
    then have "q \<notin> D" using assms(2) by blast
    moreover have "dict_get folders q \<noteq> None" using assms(1) c(2) that(2) unfolding tree_ok_def by blast
    ultimately show ?thesis by (simp add: get)
  qed
  ultimately show ?thesis unfolding tree_ok_def by blast
qed

subsection \<open>A server with one writer\<close>

text \<open>\<open>folder_server st api\<close>: the calls act on the stored entries \<open>st\<close> as documented, and nobody
  else writes.\<close>

definition folder_server :: "('w \<Rightarrow> folder_meta json dict) \<Rightarrow> 'w folders_api \<Rightarrow> bool" where
  "folder_server st api \<longleftrightarrow>
     (\<forall>w. \<exists>v. fa_read api w = (Inr (Some (st w), v), w)
        \<and> (\<forall>d. \<exists>w'. fa_replace api v d w = (Inr (), w') \<and> st w' = d))
   \<and> (\<forall>k d w. \<exists>w'. fa_patch api k d w = (Inr (), w') \<and> st w' = dict_set (st w) k d)
   \<and> (\<forall>f w r w'. fa_list_ns api f w = (r, w') \<longrightarrow> st w' = st w)
   \<and> (\<forall>n w r w'. fa_delete_ns api n w = (r, w') \<longrightarrow> st w' = st w)"

lemma ensure_server: "folder_server st api \<Longrightarrow> ensure_folders_configmap api w = (Inr (st w), w)"
  unfolding folder_server_def ensure_folders_configmap_def by (metis (no_types, lifting) case_prod_conv or_nil_simps(2) sum.simps(6))

lemma for_each_keeps:
  assumes "\<And>x w r w'. f x w = (r, w') \<Longrightarrow> st w' = st w" "for_each xs f w = (r, w')"
  shows "st w' = st w"
  using assms(2)
proof (induction xs arbitrary: w)
  case (Cons x xs)
  show ?case
  proof (cases "f x w")
    case (Pair q w1)
    then have "st w1 = st w" by (rule assms(1))
    then show ?thesis using Cons Pair by (cases q) (auto simp: bind_io_def)
  qed
qed simp

lemma catch_keeps:
  assumes "\<And>r w'. m w = (r, w') \<Longrightarrow> st w' = st w"
    and "catch_io m (\<lambda>e. if is_api e then ret d else raise e) w = (r, w')"
  shows "st w' = st w"
  using assms by (auto simp: catch_io_def split: prod.splits sum.splits if_splits)

lemma delete_one_server:
  assumes "folder_server st api" "delete_one api f w = (Inr u, w')"
  shows "st w' = dict_del (st w) f"
proof -
  let ?del = "\<lambda>ns. catch_io (fa_delete_ns api (ns_name ns)) (\<lambda>e. if is_api e then ret () else raise e)"
  let ?body = "bind_io (fa_list_ns api f) (\<lambda>items. for_each items ?del)"
  have keep: "st v' = st v" if "?del ns v = (r, v')" for ns v r v'
    by (rule catch_keeps [OF _ that]) (use assms(1) in \<open>auto simp: folder_server_def\<close>)
  have body: "st v' = st v" if "?body v = (r, v')" for v r v'
  proof (cases "fa_list_ns api f v")
    case (Pair q v1)
    then have "st v1 = st v" using assms(1) unfolding folder_server_def by blast
    moreover have "st v' = st v1" if "q = Inr items" for items
      by (rule for_each_keeps [of ?del st items v1 r]) (use keep \<open>?body v = (r, v')\<close> Pair that in \<open>auto simp: bind_io_def\<close>)
    moreover have "v' = v1" if "q = Inl e" for e
      using \<open>?body v = (r, v')\<close> Pair that by (auto simp: bind_io_def)
    ultimately show ?thesis by (cases q) auto
  qed
  obtain w1 where c: "catch_io ?body (\<lambda>e. if is_api e then ret () else raise e) w = (Inr (), w1)"
    and d: "delete_folder_meta api f w1 = (Inr u, w')"
    using assms(2) by (auto simp: delete_one_def bind_io_Inr)
  have s1: "st w1 = st w" using catch_keeps [OF _ c] body by blast
  obtain v where rd: "fa_read api w1 = (Inr (Some (st w1), v), w1)"
    and rp: "\<And>d. \<exists>w'. fa_replace api v d w1 = (Inr (), w') \<and> st w' = d"
    using assms(1) unfolding folder_server_def by blast
  have "fa_replace api v (dict_del (st w1) f) w1 = (Inr u, w')"
    using d rd by (simp add: delete_folder_meta_def bind_io_def)
  then show ?thesis using rp [of "dict_del (st w1) f"] s1 by auto
qed

lemma delete_all_server:
  assumes "folder_server st api" "for_each fs (delete_one api) w = (Inr u, w')"
  shows "st w' = filter (\<lambda>(n, _). n \<notin> set fs) (st w)"
  using assms(2)
proof (induction fs arbitrary: w)
  case Nil
  then show ?case by (simp add: case_prod_unfold)
next
  case (Cons f fs)
  then obtain u1 w1 where "delete_one api f w = (Inr u1, w1)" "for_each fs (delete_one api) w1 = (Inr u, w')"
    by (auto simp: bind_io_Inr)
  then have "st w1 = dict_del (st w) f" "st w' = filter (\<lambda>(n, _). n \<notin> set fs) (st w1)"
    using delete_one_server [OF assms(1)] Cons.IH by blast+
  then show ?case by (simp add: dict_del_filter case_prod_unfold conj_commute)
qed

subsection \<open>Properties\<close>

text \<open>In an acyclic tree the descendant walk returns, and returns exactly the folders below the
  given one.\<close>

theorem descendants_exact:
  assumes "tree_ok folders"
  shows "\<exists>ds. get_descendant_names folders name = Some ds \<and> set ds = {c. (c, name) \<in> (parent_rel folders)\<^sup>+}"
  using get_descendant_names_ok [of folders name] assms by (simp add: tree_ok_def below_def)

text \<open>Once the stored tree has a cycle, the descendant walk from a folder on it never returns.\<close>

theorem descendants_diverge_on_cycle:
  assumes "keys_distinct folders" "(name, name) \<in> (parent_rel folders)\<^sup>+"
  shows "get_descendant_names folders name = None"
  by (rule descendants_None [OF assms])

text \<open>C12. A move on a well-formed tree with no other writer always returns and keeps the tree
  well-formed; it is refused without a write or sets just the parent of that folder.\<close>

theorem move_folder_correct:
  assumes "folder_server st api" "tree_ok (parse_all_folders (st w))"
  shows "\<exists>r w'. move_folder api name np w = Some (r, w') \<and> tree_ok (parse_all_folders (st w'))
     \<and> (case r of
          Inl e \<Rightarrow> st w' = st w
        | Inr _ \<Rightarrow> \<exists>meta. dict_get (parse_all_folders (st w)) name = Some meta
             \<and> st w' = dict_set (st w) name (Doc (meta\<lparr>parent_id := np\<rparr>)))"
proof -
  let ?f = "parse_all_folders (st w)"
  obtain ds where ds: "get_descendant_names ?f name = Some ds" "set ds = below ?f name"
    using get_descendant_names_ok [of ?f name] assms(2) by (auto simp: tree_ok_def)
  have cyc: "\<exists>b. would_create_cycle ?f name np = Some b
      \<and> (b \<or> (\<forall>p. np = Some p \<longrightarrow> p \<noteq> name \<and> p \<notin> below ?f name))"
    using ds by (auto simp: would_create_cycle_def split: option.splits)
  note en = ensure_server [OF assms(1), of w]
  show ?thesis
  proof (cases "dict_get ?f name")
    case None
    then show ?thesis using en assms(2) by (simp add: move_folder_def Let_def)
  next
    case meta: (Some meta)
    obtain b where b: "would_create_cycle ?f name np = Some b"
      "b \<or> (\<forall>p. np = Some p \<longrightarrow> p \<noteq> name \<and> p \<notin> below ?f name)" using cyc by blast
    show ?thesis
    proof (cases "(truthy np \<and> dict_get ?f (the np) = None) \<or> b")
      case True
      then show ?thesis using en assms(2) meta b(1) by (auto simp: move_folder_def Let_def)
    next
      case False
      obtain w' where p: "fa_patch api name (Doc (meta\<lparr>parent_id := np\<rparr>)) w = (Inr (), w')"
        "st w' = dict_set (st w) name (Doc (meta\<lparr>parent_id := np\<rparr>))"
        using assms(1) unfolding folder_server_def by blast
      have "tree_ok (parse_all_folders (st w'))"
        unfolding p(2) parse_all_set using move_tree_ok [OF assms(2) meta, of np] False b(2)
        by (auto simp: parse_folder_def)
      then show ?thesis using False en meta b(1) p
        by (auto simp: move_folder_def Let_def save_folder_meta_def)
    qed
  qed
qed

text \<open>C13. A delete that succeeds, with no other writer, removes exactly the folder and everything below
  it, and leaves a well-formed tree.\<close>

theorem delete_folder_correct:
  assumes "folder_server st api" "tree_ok (parse_all_folders (st w))"
    and "delete_folder api name cascade w = Some (Inr (), w')"
  shows "st w' = filter (\<lambda>(n, _). n \<notin> insert name (below (parse_all_folders (st w)) name)) (st w)
     \<and> tree_ok (parse_all_folders (st w'))"
proof -
  let ?f = "parse_all_folders (st w)" and ?D = "insert name (below (parse_all_folders (st w)) name)"
  obtain ds where ds: "get_descendant_names ?f name = Some ds" "set ds = below ?f name"
    using get_descendant_names_ok [of ?f name] assms(2) by (auto simp: tree_ok_def)
  note en = ensure_server [OF assms(1), of w]
  have "\<exists>w1. st w1 = st w \<and> for_each (ds @ [name]) (delete_one api) w1 = (Inr (), w')"
  proof (cases cascade)
    case True
    then show ?thesis using assms(3) en ds(1) by (auto simp: delete_folder_def Let_def split: if_splits)
  next
    case False
    then obtain w1 where "get_folder_namespaces api name w = (Inr [], w1)"
      "for_each (ds @ [name]) (delete_one api) w1 = (Inr (), w')"
      using assms(3) en ds(1) by (auto simp: delete_folder_def Let_def bind_io_Inr split: if_splits)
    moreover have "st w1 = st w"
      using catch_keeps [OF _ calculation(1) [unfolded get_folder_namespaces_def]] assms(1)
      unfolding folder_server_def by blast
    ultimately show ?thesis by blast
  qed
  then have eq: "st w' = filter (\<lambda>(n, _). n \<notin> ?D) (st w)"
    using delete_all_server [OF assms(1)] ds(2) by fastforce
  have p: "parse_all_folders (st w') = filter (\<lambda>(n, _). n \<notin> ?D) ?f"
    unfolding eq parse_all_folders_def by (simp add: filter_map case_prod_unfold comp_def)
  have "tree_ok (parse_all_folders (st w'))"
    unfolding p by (rule filter_tree_ok [OF assms(2)])
      (auto simp: below_def parent_rel_def intro: trancl_into_trancl2)
  then show ?thesis using eq by blast
qed

subsection \<open>Two moves at once\<close>

definition mem_folders :: "folder_meta json dict folders_api" where
  "mem_folders = \<lparr>fa_read = (\<lambda>w. (Inr (Some w, ''1''), w)), fa_read_system_ns = ret (), fa_create = (\<lambda>w. (Inr (), [])),
     fa_patch = (\<lambda>k d w. (Inr (), dict_set w k d)), fa_replace = (\<lambda>v d w. (Inr (), d)),
     fa_list_ns = (\<lambda>f. ret []), fa_delete_ns = (\<lambda>n. ret ())\<rparr>"

lemma mem_folders_server: "folder_server id mem_folders"
  by (simp add: folder_server_def mem_folders_def)

text \<open>The same server while another request's write lands right after the read.\<close>

definition overtaken :: "folder_meta json dict \<Rightarrow> folder_meta json dict folders_api" where
  "overtaken landed = mem_folders\<lparr>fa_read := (\<lambda>w. (Inr (Some w, ''1''), landed))\<rparr>"

definition two_roots :: "folder_meta json dict" where
  "two_roots = [(''a'', Doc empty_folder_meta), (''b'', Doc empty_folder_meta)]"

definition b_under_a :: "folder_meta json dict" where
  "b_under_a = [(''a'', Doc empty_folder_meta), (''b'', Doc (empty_folder_meta\<lparr>parent_id := Some ''a''\<rparr>))]"

definition both_moved :: "folder_meta json dict" where
  "both_moved = [(''a'', Doc (empty_folder_meta\<lparr>parent_id := Some ''b''\<rparr>)),
     (''b'', Doc (empty_folder_meta\<lparr>parent_id := Some ''a''\<rparr>))]"

lemma moves_eval:
  "move_folder mem_folders ''b'' (Some ''a'') two_roots = Some (Inr (), b_under_a)"
  "move_folder (overtaken b_under_a) ''a'' (Some ''b'') two_roots = Some (Inr (), both_moved)"
  by (simp_all add: move_folder_def ensure_folders_configmap_def overtaken_def mem_folders_def Let_def two_roots_def
      parse_all_folders_def parse_folder_def would_create_cycle_def get_descendant_names_def children_of_def
      descend.simps save_folder_meta_def b_under_a_def both_moved_def empty_folder_meta_def)

lemma both_moved_cycle: "(''a'', ''a'') \<in> (parent_rel (parse_all_folders both_moved))\<^sup>+"
proof -
  have "(''a'', ''b'') \<in> parent_rel (parse_all_folders both_moved)" "(''b'', ''a'') \<in> parent_rel (parse_all_folders both_moved)"
    by (simp_all add: parent_rel_def parent_of_def parse_all_folders_def parse_folder_def both_moved_def)
  then show ?thesis by (meson trancl.simps)
qed

text \<open>C14. Two moves that read the same tree and each pass the cycle check put each folder under the
  other: the write carries no version, so both succeed, and from then on the descendant walk from
  either folder never returns.\<close>

theorem racing_moves_make_cycle:
  "move_folder mem_folders ''b'' (Some ''a'') two_roots = Some (Inr (), b_under_a)
   \<and> move_folder (overtaken b_under_a) ''a'' (Some ''b'') two_roots = Some (Inr (), both_moved)
   \<and> get_descendant_names (parse_all_folders both_moved) ''a'' = None
   \<and> delete_folder mem_folders ''a'' True both_moved = None"
proof -
  have k: "keys_distinct (parse_all_folders both_moved)"
    by (simp add: parse_all_keys both_moved_def)
  have d: "get_descendant_names (parse_all_folders both_moved) ''a'' = None"
    by (rule descendants_None [OF k both_moved_cycle])
  have "\<exists>m. dict_get (parse_all_folders both_moved) ''a'' = Some m"
    by (simp add: parse_all_folders_def both_moved_def)
  then have "delete_folder mem_folders ''a'' True both_moved = None"
    using d by (simp add: delete_folder_def ensure_folders_configmap_def mem_folders_def Let_def)
  then show ?thesis using moves_eval d by blast
qed

subsection \<open>Witnesses\<close>

lemma two_roots_ok: "tree_ok (parse_all_folders two_roots)"
proof -
  have "parent_rel (parse_all_folders two_roots) = {}"
    by (auto simp: parent_rel_def parent_of_def two_roots_def parse_all_folders_def parse_folder_def
        empty_folder_meta_def bind_eq_Some_conv split: if_splits)
  moreover from this have "parent_of (parse_all_folders two_roots) c \<noteq> Some p" for c p
    by (auto simp: parent_rel_def)
  ultimately show ?thesis by (simp add: tree_ok_def parse_all_keys acyclic_def) (simp add: two_roots_def)
qed

theorem descendants_exact_witness:
  "\<exists>ds. get_descendant_names (parse_all_folders two_roots) ''a'' = Some ds
     \<and> set ds = {c. (c, ''a'') \<in> (parent_rel (parse_all_folders two_roots))\<^sup>+}"
  by (rule descendants_exact [OF two_roots_ok])

theorem descendants_diverge_on_cycle_witness:
  "get_descendant_names (parse_all_folders both_moved) ''a'' = None"
  by (rule descendants_diverge_on_cycle [OF _ both_moved_cycle]) (simp add: parse_all_keys both_moved_def)

theorem move_folder_correct_witness:
  "move_folder mem_folders ''b'' (Some ''a'') two_roots = Some (Inr (), b_under_a)
   \<and> tree_ok (parse_all_folders b_under_a)"
  using move_folder_correct [OF mem_folders_server, of two_roots "''b''" "Some ''a''"] two_roots_ok moves_eval(1)
  by (auto simp: id_def)

theorem delete_folder_correct_witness:
  "delete_folder mem_folders ''a'' False two_roots = Some (Inr (), [(''b'', Doc empty_folder_meta)])
   \<and> tree_ok (parse_all_folders [(''b'', Doc empty_folder_meta)])"
proof -
  have "delete_folder mem_folders ''a'' False two_roots = Some (Inr (), [(''b'', Doc empty_folder_meta)])"
    by (simp add: delete_folder_def ensure_folders_configmap_def mem_folders_def Let_def two_roots_def parse_all_folders_def
        parse_folder_def get_descendant_names_def children_of_def descend.simps empty_folder_meta_def bind_io_def
        get_folder_namespaces_def catch_io_def delete_one_def delete_folder_meta_def)
  then show ?thesis
    using delete_folder_correct [OF mem_folders_server, of two_roots "''a''" False] two_roots_ok by (auto simp: id_def)
qed

end
