(* ===== verification/Rbac.thy ===== *)
theory Rbac
  imports FolderTree
begin

section \<open>RoleBindings from folder access (\<open>api/v1/folders.py\<close>)\<close>

text \<open>
  The access block of a folder is materialised as three RoleBindings in every namespace of the folder.
  The theory models the subjects, the roles bound in ordinary and in tenant namespaces, the idempotent
  write of one binding and the reconcilers, and relates the bindings to the gates of \<open>Access\<close>. It also
  holds the visibility of folders.
\<close>

subsection \<open>Bindings\<close>

definition ROLE_TO_CLUSTERROLE :: "string dict" where
  "ROLE_TO_CLUSTERROLE = [(''admin'', ''kubevirt-ui-admin''), (''editor'', ''kubevirt-ui-editor''),
     (''viewer'', ''kubevirt-ui-viewer'')]"

definition RB_NAME_ADMIN :: string where
  "RB_NAME_ADMIN = ''kubevirt-ui-folder-admins''"

definition RB_NAME_MEMBER :: string where
  "RB_NAME_MEMBER = ''kubevirt-ui-folder-members''"

definition RB_NAME_VIEWER :: string where
  "RB_NAME_VIEWER = ''kubevirt-ui-folder-viewers''"

definition RBAC_ROLE_NAMES :: "(string \<times> string \<times> string) list" where
  "RBAC_ROLE_NAMES =
     [(''admin'', RB_NAME_ADMIN, the (dict_get ROLE_TO_CLUSTERROLE ''admin'')),
      (''member'', RB_NAME_MEMBER, the (dict_get ROLE_TO_CLUSTERROLE ''editor'')),
      (''viewer'', RB_NAME_VIEWER, the (dict_get ROLE_TO_CLUSTERROLE ''viewer''))]"

definition TENANT_CLUSTERROLES :: "string dict" where
  "TENANT_CLUSTERROLES =
     [(the (dict_get ROLE_TO_CLUSTERROLE ''admin''), ''kubevirt-ui-tenant-admin''),
      (the (dict_get ROLE_TO_CLUSTERROLE ''editor''), ''kubevirt-ui-tenant-editor''),
      (the (dict_get ROLE_TO_CLUSTERROLE ''viewer''), ''kubevirt-ui-tenant-viewer'')]"

definition TENANT_NS_LABEL :: string where
  "TENANT_NS_LABEL = ''kubevirt-ui.io/tenant''"

definition is_tenant_ns :: "namespace \<Rightarrow> bool" where
  "is_tenant_ns ns \<longleftrightarrow> truthy (dict_get (or_nil (ns_labels ns)) TENANT_NS_LABEL)"

definition role_for_namespace :: "string \<Rightarrow> string dict option \<Rightarrow> string" where
  "role_for_namespace cluster_role labels =
     (if truthy (dict_get (or_nil labels) TENANT_NS_LABEL)
      then or_else_value (dict_get TENANT_CLUSTERROLES cluster_role) cluster_role
      else cluster_role)"

text \<open>\<open>access.get(f"{role}s")\<close> for the three roles.\<close>

definition folder_role_groups :: "access_block \<Rightarrow> string \<Rightarrow> string list" where
  "folder_role_groups a role =
     (if role = ''admin'' then or_nil (ac_admins a)
      else if role = ''member'' then or_nil (ac_members a)
      else if role = ''viewer'' then or_nil (ac_viewers a)
      else [])"

definition env_role_groups :: "env_access_spec \<Rightarrow> string \<Rightarrow> string list" where
  "env_role_groups a role =
     (if role = ''admin'' then or_nil (ea_admins a)
      else if role = ''member'' then or_nil (ea_members a)
      else if role = ''viewer'' then or_nil (ea_viewers a)
      else [])"

definition collect_subjects :: "folder_meta \<Rightarrow> string \<Rightarrow> string \<Rightarrow> string list" where
  "collect_subjects meta env role =
     (let a = or_else_value (access meta) empty_access;
          folder_groups = folder_role_groups a role;
          ea = or_else_value (dict_get (or_nil (ac_env_access a)) env) empty_env_access;
          env_groups = env_role_groups ea role
      in filter (\<lambda>g. g \<noteq> []) (sorted_list_of_set (set folder_groups \<union> set env_groups)))"

record role_binding =
  rb_name :: string
  rb_namespace :: string
  rb_labels :: "string dict"
  rb_rv :: "string option"
  rb_roleRef :: string
  rb_groups :: "string list"

definition build_phase2_rb_body ::
  "string \<Rightarrow> string \<Rightarrow> string \<Rightarrow> string \<Rightarrow> string \<Rightarrow> string list \<Rightarrow> role_binding" where
  "build_phase2_rb_body name namespace folder env cluster_role groups =
     \<lparr>rb_name = name, rb_namespace = namespace,
      rb_labels = [(''kubevirt-ui.io/managed'', ''true''), (''kubevirt-ui.io/access-source'', ''folder-access-block''),
        (ENV_FOLDER_LABEL, folder), (ENV_ENVIRONMENT_LABEL, env)],
      rb_rv = None, rb_roleRef = cluster_role, rb_groups = groups\<rparr>"

record 'w rbac_api =
  rbac_create :: "role_binding \<Rightarrow> ('w, unit) io"
  rbac_read :: "string \<Rightarrow> string \<Rightarrow> ('w, role_binding) io"
  rbac_replace :: "role_binding \<Rightarrow> ('w, unit) io"
  rbac_delete :: "string \<Rightarrow> string \<Rightarrow> ('w, unit) io"

definition on_api :: "('w, unit) io \<Rightarrow> ('w, unit) io" where
  "on_api m = catch_io m (\<lambda>e. if is_api e then ret () else raise e)"

definition update_phase2_rb :: "'w rbac_api \<Rightarrow> role_binding \<Rightarrow> string \<Rightarrow> ('w, unit) io" where
  "update_phase2_rb api body cluster_role =
     bind_io (rbac_read api (rb_namespace body) (rb_name body)) (\<lambda>existing.
       if rb_roleRef existing \<noteq> cluster_role then
         bind_io (on_api (rbac_delete api (rb_namespace body) (rb_name body)))
           (\<lambda>_. rbac_create api (body\<lparr>rb_rv := None\<rparr>))
       else rbac_replace api (body\<lparr>rb_rv := rb_rv existing\<rparr>))"

definition apply_phase2_rb ::
  "'w rbac_api \<Rightarrow> string \<Rightarrow> string \<Rightarrow> string \<Rightarrow> string \<Rightarrow> string \<Rightarrow> string list \<Rightarrow> ('w, unit) io" where
  "apply_phase2_rb api name namespace folder env cluster_role groups =
     (if groups = [] then on_api (rbac_delete api namespace name)
      else (let body = build_phase2_rb_body name namespace folder env cluster_role groups
            in (\<lambda>w. case rbac_create api body w of
                      (Inr _, w1) \<Rightarrow> (Inr (), w1)
                    | (Inl e, w1) \<Rightarrow>
                        if \<not> is_api e then (Inl e, w1)
                        else if e \<noteq> ApiException 409 then (Inr (), w1)
                        else on_api (update_phase2_rb api body cluster_role) w1)))"

definition reconcile_roles ::
  "'w rbac_api \<Rightarrow> string \<Rightarrow> string dict option \<Rightarrow> string \<Rightarrow> string \<Rightarrow> folder_meta \<Rightarrow> ('w, unit) io" where
  "reconcile_roles api namespace labels folder env meta =
     for_each RBAC_ROLE_NAMES (\<lambda>(role, name, cluster_role).
       apply_phase2_rb api name namespace folder env (role_for_namespace cluster_role labels)
         (collect_subjects meta env role))"

definition reconcile_folder_rbac ::
  "'w rbac_api \<Rightarrow> 'w folders_api \<Rightarrow> string \<Rightarrow> folder_meta \<Rightarrow> ('w, unit) io" where
  "reconcile_folder_rbac api fapi folder meta =
     bind_io (get_folder_namespaces fapi folder) (\<lambda>items.
       for_each items (\<lambda>ns.
         reconcile_roles api (ns_name ns) (ns_labels ns) folder
           (or_else_value (dict_get (or_nil (ns_labels ns)) ENV_ENVIRONMENT_LABEL) (ns_name ns)) meta))"

definition reconcile_namespace_rbac ::
  "'w rbac_api \<Rightarrow> (string \<Rightarrow> ('w, namespace) io) \<Rightarrow> string \<Rightarrow> string \<Rightarrow> string \<Rightarrow> folder_meta \<Rightarrow> ('w, unit) io" where
  "reconcile_namespace_rbac api read_ns namespace folder env meta =
     bind_io (catch_io (bind_io (read_ns namespace) (\<lambda>ns. ret (or_nil (ns_labels ns))))
        (\<lambda>e. if is_api e then ret [] else raise e))
      (\<lambda>labels. reconcile_roles api namespace (Some labels) folder env meta)"

definition reconcile_env_rbac ::
  "'w rbac_api \<Rightarrow> (string \<Rightarrow> ('w, namespace) io) \<Rightarrow> string \<Rightarrow> string \<Rightarrow> folder_meta \<Rightarrow> ('w, unit) io" where
  "reconcile_env_rbac api read_ns folder env meta =
     reconcile_namespace_rbac api read_ns (ns_name_of folder env) folder env meta"

subsection \<open>Folders a user may see\<close>

definition may_create_in :: "auth_cfg \<Rightarrow> user \<Rightarrow> folder_meta \<Rightarrow> namespace list \<Rightarrow> bool" where
  "may_create_in cfg u meta env_ns_list \<longleftrightarrow>
     (if is_admin cfg (user_groups u) (Some u) then True
      else if is_folder_member cfg u meta then True
      else (\<exists>ns \<in> set env_ns_list. let env = dict_get (or_nil (ns_labels ns)) ENV_ENVIRONMENT_LABEL
              in truthy env \<and> is_env_member cfg u meta (the env)))"

text \<open>\<open>name.removeprefix(p)\<close>.\<close>

definition removeprefix :: "string \<Rightarrow> string \<Rightarrow> string" where
  "removeprefix p s = (if starts_with p s then drop (length p) s else s)"

definition ns_env :: "string \<Rightarrow> namespace \<Rightarrow> string" where
  "ns_env folder ns =
     (let l = dict_get (or_nil (ns_labels ns)) ENV_ENVIRONMENT_LABEL
      in if truthy l then the l else removeprefix (folder @ ''-'') (ns_name ns))"

definition directly_visible ::
  "auth_cfg \<Rightarrow> user \<Rightarrow> string set \<Rightarrow> namespace list dict \<Rightarrow> string \<Rightarrow> folder_meta \<Rightarrow> bool" where
  "directly_visible cfg u user_ns ns_by_folder name meta \<longleftrightarrow>
     (let items = or_nil (dict_get ns_by_folder name)
      in if is_folder_viewer cfg u meta then True
         else if \<exists>env \<in> set (map (ns_env name) items). env \<noteq> [] \<and> is_env_viewer cfg u meta env then True
         else set (map ns_name items) \<inter> user_ns \<noteq> {})"

text \<open>The ancestors of one visible folder that are still entries of the tree.\<close>

function visible_ancestors :: "folder_meta dict \<Rightarrow> string list \<Rightarrow> string option \<Rightarrow> string list" where
  "visible_ancestors folders seen parent =
     (if truthy parent \<and> dict_get folders (the parent) \<noteq> None \<and> the parent \<notin> set seen
      then the parent # visible_ancestors folders (the parent # seen) (parent_of folders (the parent))
      else [])"
  by pat_completeness auto
termination
proof (relation "measure (\<lambda>(folders, seen, parent). card (fst ` set folders - set seen))")
  fix folders :: "folder_meta dict" and seen parent
  assume "truthy parent \<and> dict_get folders (the parent) \<noteq> None \<and> the parent \<notin> set seen"
  then have "the parent \<in> fst ` set folders - set seen" by (force dest: map_of_SomeD)
  then have "fst ` set folders - set (the parent # seen) \<subset> fst ` set folders - set seen" by auto
  then have "card (fst ` set folders - set (the parent # seen)) < card (fst ` set folders - set seen)"
    by (intro psubset_card_mono) simp
  then show "((folders, the parent # seen, parent_of folders (the parent)), folders, seen, parent)
      \<in> measure (\<lambda>(folders, seen, parent). card (fst ` set folders - set seen))" by simp
qed simp

declare visible_ancestors.simps [simp del]

definition folders_you_may_see ::
  "auth_cfg \<Rightarrow> user \<Rightarrow> folder_meta dict \<Rightarrow> string set \<Rightarrow> namespace list dict \<Rightarrow> folder_meta dict" where
  "folders_you_may_see cfg u folders user_ns ns_by_folder =
     (let direct = map fst (filter (\<lambda>(n, m). directly_visible cfg u user_ns ns_by_folder n m) folders);
          visible = set direct \<union> (\<Union>n \<in> set direct. set (visible_ancestors folders [n] (parent_of folders n)))
      in filter (\<lambda>(n, m). n \<in> visible) folders)"

subsection \<open>Subjects and gates\<close>

lemma collect_subjects_set:
  "set (collect_subjects meta env role) =
     (set (folder_role_groups (access_block_of meta) role) \<union> set (env_role_groups (env_access_block meta env) role)) - {[]}"
  by (auto simp: collect_subjects_def Let_def access_block_of_def env_access_block_def)

lemma has_group_iff: "has_group gs names \<longleftrightarrow> (\<exists>g \<in> set gs. g \<in> set (or_nil names))"
  by (auto simp: has_group_def)

definition bound_as :: "user \<Rightarrow> folder_meta \<Rightarrow> string \<Rightarrow> string \<Rightarrow> bool" where
  "bound_as u meta env role \<longleftrightarrow> set (user_groups u) \<inter> set (collect_subjects meta env role) \<noteq> {}"

lemma bound_as_iff:
  assumes "[] \<notin> set (user_groups u)"
  shows "bound_as u meta env ''admin'' \<longleftrightarrow> has_group (user_groups u) (ac_admins (access_block_of meta))
           \<or> has_group (user_groups u) (ea_admins (env_access_block meta env))"
    and "bound_as u meta env ''member'' \<longleftrightarrow> has_group (user_groups u) (ac_members (access_block_of meta))
           \<or> has_group (user_groups u) (ea_members (env_access_block meta env))"
    and "bound_as u meta env ''viewer'' \<longleftrightarrow> has_group (user_groups u) (ac_viewers (access_block_of meta))
           \<or> has_group (user_groups u) (ea_viewers (env_access_block meta env))"
  using assms unfolding bound_as_def collect_subjects_set has_group_iff
  by (auto simp: folder_role_groups_def env_role_groups_def)

subsection \<open>One binding\<close>

abbreviation rb_core :: "role_binding \<Rightarrow> role_binding" where
  "rb_core b \<equiv> b\<lparr>rb_rv := None\<rparr>"

abbreviation rb_key :: "role_binding \<Rightarrow> string \<times> string" where
  "rb_key b \<equiv> (rb_namespace b, rb_name b)"

text \<open>\<open>rbac_server st api\<close>: the calls act on the stored bindings as documented and nobody else
  writes. A stored binding is kept without its version.\<close>

definition rbac_server :: "('w \<Rightarrow> (string \<times> string \<Rightarrow> role_binding option)) \<Rightarrow> 'w rbac_api \<Rightarrow> bool" where
  "rbac_server st api \<longleftrightarrow>
     (\<forall>b w. st w (rb_key b) = None \<longrightarrow>
        (\<exists>w'. rbac_create api b w = (Inr (), w') \<and> st w' = (st w)(rb_key b \<mapsto> rb_core b)))
   \<and> (\<forall>b w c. st w (rb_key b) = Some c \<longrightarrow> rbac_create api b w = (Inl (ApiException 409), w))
   \<and> (\<forall>ns n w c. st w (ns, n) = Some c \<longrightarrow>
        (\<exists>x. rbac_read api ns n w = (Inr x, w) \<and> rb_core x = c
          \<and> (\<forall>b. rb_key b = (ns, n) \<and> rb_rv b = rb_rv x \<and> rb_roleRef b = rb_roleRef x \<longrightarrow>
               (\<exists>w'. rbac_replace api b w = (Inr (), w') \<and> st w' = (st w)((ns, n) \<mapsto> rb_core b)))))
   \<and> (\<forall>ns n w. st w (ns, n) = None \<longrightarrow> rbac_delete api ns n w = (Inl (ApiException 404), w))
   \<and> (\<forall>ns n w c. st w (ns, n) = Some c \<longrightarrow>
        (\<exists>w'. rbac_delete api ns n w = (Inr (), w') \<and> st w' = (st w)((ns, n) := None)))"

lemma rbac_serverD:
  assumes "rbac_server st api"
  shows "\<forall>b w. st w (rb_key b) = None \<longrightarrow>
        (\<exists>w'. rbac_create api b w = (Inr (), w') \<and> st w' = (st w)(rb_key b \<mapsto> rb_core b))"
    and "\<forall>b w c. st w (rb_key b) = Some c \<longrightarrow> rbac_create api b w = (Inl (ApiException 409), w)"
    and "\<forall>ns n w c. st w (ns, n) = Some c \<longrightarrow>
        (\<exists>x. rbac_read api ns n w = (Inr x, w) \<and> rb_core x = c
          \<and> (\<forall>b. rb_key b = (ns, n) \<and> rb_rv b = rb_rv x \<and> rb_roleRef b = rb_roleRef x \<longrightarrow>
               (\<exists>w'. rbac_replace api b w = (Inr (), w') \<and> st w' = (st w)((ns, n) \<mapsto> rb_core b))))"
    and "\<forall>ns n w. st w (ns, n) = None \<longrightarrow> rbac_delete api ns n w = (Inl (ApiException 404), w)"
    and "\<forall>ns n w c. st w (ns, n) = Some c \<longrightarrow>
        (\<exists>w'. rbac_delete api ns n w = (Inr (), w') \<and> st w' = (st w)((ns, n) := None))"
  using assms unfolding rbac_server_def by - (elim conjE, assumption)+

lemma on_api_ok: "m w = (Inr (), w') \<Longrightarrow> on_api m w = (Inr (), w')"
  and on_api_api: "m w = (Inl (ApiException s), w') \<Longrightarrow> on_api m w = (Inr (), w')"
  by (simp_all add: on_api_def catch_io_def)

lemma rbac_delete_server:
  assumes "rbac_server st api"
  shows "\<exists>w'. on_api (rbac_delete api ns n) w = (Inr (), w') \<and> st w' = (st w)((ns, n) := None)"
proof (cases "st w (ns, n)")
  case None
  then have "rbac_delete api ns n w = (Inl (ApiException 404), w)" by (rule rbac_serverD(4) [OF assms, rule_format])
  then show ?thesis using None on_api_api by (metis fun_upd_triv)
next
  case (Some c)
  then obtain w' where "rbac_delete api ns n w = (Inr (), w')" "st w' = (st w)((ns, n) := None)"
    using rbac_serverD(5) [OF assms, rule_format, OF Some] by (elim exE conjE)
  then show ?thesis by (intro exI [of _ w'] conjI on_api_ok)
qed

lemma rbac_create_server:
  assumes "rbac_server st api" "st w (rb_key b) = None"
  shows "\<exists>w'. rbac_create api b w = (Inr (), w') \<and> st w' = (st w)(rb_key b \<mapsto> rb_core b)"
  by (rule rbac_serverD(1) [OF assms(1), rule_format, OF assms(2)])

lemma update_phase2_rb_server:
  assumes law: "rbac_server st api" and c: "st w (rb_key body) = Some c" and "rb_roleRef body = cluster_role"
    and "rb_rv body = None"
  shows "\<exists>w'. update_phase2_rb api body cluster_role w = (Inr (), w') \<and> st w' = (st w)(rb_key body \<mapsto> body)"
proof -
  obtain x where x: "rbac_read api (rb_namespace body) (rb_name body) w = (Inr x, w)" "rb_core x = c"
    and rep: "\<And>b. rb_key b = rb_key body \<Longrightarrow> rb_rv b = rb_rv x \<Longrightarrow> rb_roleRef b = rb_roleRef x \<Longrightarrow>
               \<exists>w'. rbac_replace api b w = (Inr (), w') \<and> st w' = (st w)(rb_key body \<mapsto> rb_core b)"
    using rbac_serverD(3) [OF law, rule_format, OF c] by blast
  have core: "rb_core body = body" using assms(4) by simp
  show ?thesis
  proof (cases "rb_roleRef x = cluster_role")
    case True
    have "\<exists>w'. rbac_replace api (body\<lparr>rb_rv := rb_rv x\<rparr>) w = (Inr (), w')
        \<and> st w' = (st w)(rb_key body \<mapsto> rb_core (body\<lparr>rb_rv := rb_rv x\<rparr>))"
      by (rule rep) (use True assms(3) in simp_all)
    then show ?thesis using x True core by (auto simp: update_phase2_rb_def bind_io_def)
  next
    case False
    obtain w1 where d: "on_api (rbac_delete api (rb_namespace body) (rb_name body)) w = (Inr (), w1)"
      "st w1 = (st w)(rb_key body := None)" using rbac_delete_server [OF law] by blast
    obtain w2 where "rbac_create api (rb_core body) w1 = (Inr (), w2)" "st w2 = (st w1)(rb_key body \<mapsto> rb_core body)"
      using rbac_create_server [OF law, of w1 "rb_core body"] d(2) by auto
    then show ?thesis using x False d core by (auto simp: update_phase2_rb_def bind_io_def)
  qed
qed

lemma apply_phase2_rb_server:
  assumes law: "rbac_server st api"
  shows "\<exists>w'. apply_phase2_rb api name ns folder env cr groups w = (Inr (), w')
     \<and> st w' = (st w)((ns, name) := if groups = [] then None else Some (build_phase2_rb_body name ns folder env cr groups))"
proof (cases "groups = []")
  case True
  then show ?thesis using rbac_delete_server [OF law] by (simp add: apply_phase2_rb_def)
next
  case False
  let ?b = "build_phase2_rb_body name ns folder env cr groups"
  have b: "rb_key ?b = (ns, name)" "rb_core ?b = ?b" "rb_rv ?b = None" "rb_roleRef ?b = cr"
    by (simp_all add: build_phase2_rb_body_def)
  show ?thesis
  proof (cases "st w (ns, name)")
    case None
    then show ?thesis using rbac_create_server [OF law, of w ?b] b False
      by (auto simp: apply_phase2_rb_def Let_def)
  next
    case (Some c)
    then have "rbac_create api ?b w = (Inl (ApiException 409), w)"
      by (intro rbac_serverD(2) [OF law, rule_format]) (simp add: b(1))
    moreover obtain w' where "update_phase2_rb api ?b cr w = (Inr (), w')" "st w' = (st w)((ns, name) \<mapsto> ?b)"
      using update_phase2_rb_server [OF law, of w ?b c cr] Some b by auto
    ultimately show ?thesis using False by (auto simp: apply_phase2_rb_def Let_def on_api_ok)
  qed
qed

lemma reconcile_roles_server:
  assumes law: "rbac_server st api"
  shows "\<exists>w'. reconcile_roles api ns labels folder env meta w = (Inr (), w')
     \<and> (\<forall>role name cr. (role, name, cr) \<in> set RBAC_ROLE_NAMES \<longrightarrow>
          st w' (ns, name) = (if collect_subjects meta env role = [] then None
            else Some (build_phase2_rb_body name ns folder env (role_for_namespace cr labels) (collect_subjects meta env role))))
     \<and> (\<forall>k. k \<notin> {(ns, RB_NAME_ADMIN), (ns, RB_NAME_MEMBER), (ns, RB_NAME_VIEWER)} \<longrightarrow> st w' k = st w k)"
proof -
  let ?want = "\<lambda>role name cr. if collect_subjects meta env role = [] then None
     else Some (build_phase2_rb_body name ns folder env (role_for_namespace cr labels) (collect_subjects meta env role))"
  have names: "RB_NAME_ADMIN \<noteq> RB_NAME_MEMBER" "RB_NAME_ADMIN \<noteq> RB_NAME_VIEWER" "RB_NAME_MEMBER \<noteq> RB_NAME_VIEWER"
    by (simp_all add: RB_NAME_ADMIN_def RB_NAME_MEMBER_def RB_NAME_VIEWER_def)
  have step: "\<exists>w'. apply_phase2_rb api name ns folder env (role_for_namespace cr labels) (collect_subjects meta env role) w
      = (Inr (), w') \<and> st w' = (st w)((ns, name) := ?want role name cr)" for role name cr w
    using apply_phase2_rb_server [OF law] by simp
  let ?a = "the (dict_get ROLE_TO_CLUSTERROLE ''admin'')" and ?e = "the (dict_get ROLE_TO_CLUSTERROLE ''editor'')"
    and ?v = "the (dict_get ROLE_TO_CLUSTERROLE ''viewer'')"
  obtain w1 where 1: "apply_phase2_rb api RB_NAME_ADMIN ns folder env (role_for_namespace ?a labels) (collect_subjects meta env ''admin'') w = (Inr (), w1)"
    "st w1 = (st w)((ns, RB_NAME_ADMIN) := ?want ''admin'' RB_NAME_ADMIN ?a)" using step by blast
  obtain w2 where 2: "apply_phase2_rb api RB_NAME_MEMBER ns folder env (role_for_namespace ?e labels) (collect_subjects meta env ''member'') w1 = (Inr (), w2)"
    "st w2 = (st w1)((ns, RB_NAME_MEMBER) := ?want ''member'' RB_NAME_MEMBER ?e)" using step by blast
  obtain w3 where 3: "apply_phase2_rb api RB_NAME_VIEWER ns folder env (role_for_namespace ?v labels) (collect_subjects meta env ''viewer'') w2 = (Inr (), w3)"
    "st w3 = (st w2)((ns, RB_NAME_VIEWER) := ?want ''viewer'' RB_NAME_VIEWER ?v)" using step by blast
  have run: "reconcile_roles api ns labels folder env meta w = (Inr (), w3)"
    using 1(1) 2(1) 3(1) by (simp add: reconcile_roles_def RBAC_ROLE_NAMES_def bind_io_ok)
  have st: "st w3 = (st w)((ns, RB_NAME_ADMIN) := ?want ''admin'' RB_NAME_ADMIN ?a,
      (ns, RB_NAME_MEMBER) := ?want ''member'' RB_NAME_MEMBER ?e, (ns, RB_NAME_VIEWER) := ?want ''viewer'' RB_NAME_VIEWER ?v)"
    using 1(2) 2(2) 3(2) by simp
  have "st w3 (ns, name) = ?want role name cr" if "(role, name, cr) \<in> set RBAC_ROLE_NAMES" for role name cr
  proof -
    have "(role = ''admin'' \<and> name = RB_NAME_ADMIN \<and> cr = ?a) \<or> (role = ''member'' \<and> name = RB_NAME_MEMBER \<and> cr = ?e)
        \<or> (role = ''viewer'' \<and> name = RB_NAME_VIEWER \<and> cr = ?v)" using that by (simp add: RBAC_ROLE_NAMES_def)
    then show ?thesis unfolding st using names by (elim disjE conjE) simp_all
  qed
  moreover have "st w3 k = st w k" if "k \<notin> {(ns, RB_NAME_ADMIN), (ns, RB_NAME_MEMBER), (ns, RB_NAME_VIEWER)}" for k
    unfolding st using that by simp
  ultimately show ?thesis using run by blast
qed

subsection \<open>The visible part of the tree\<close>

definition known_step :: "folder_meta dict \<Rightarrow> string \<Rightarrow> string \<Rightarrow> bool" where
  "known_step folders a b \<longleftrightarrow> parent_step folders a b \<and> dict_get folders b \<noteq> None"

lemma visible_ancestors_closed:
  assumes "parent = parent_of folders current" "current \<in> set seen" "start \<in> set seen"
    and "\<And>a b. a \<in> set seen \<Longrightarrow> a \<noteq> current \<Longrightarrow> known_step folders a b \<Longrightarrow> b \<in> set seen"
    and "\<And>a. a \<in> set seen \<Longrightarrow> (known_step folders)\<^sup>*\<^sup>* start a"
  shows "set seen \<union> set (visible_ancestors folders seen parent) = {a. (known_step folders)\<^sup>*\<^sup>* start a}"
  using assms
proof (induction folders seen parent arbitrary: current rule: visible_ancestors.induct)
  case (1 folders seen parent)
  show ?case
  proof (cases "truthy parent \<and> dict_get folders (the parent) \<noteq> None \<and> the parent \<notin> set seen")
    case False
    have step: "b \<in> set seen" if "a \<in> set seen" "known_step folders a b" for a b
    proof (cases "a = current")
      case True
      with that "1.prems"(1) have "parent = Some b" "b \<noteq> []" "dict_get folders b \<noteq> None"
        by (auto simp: known_step_def parent_step_def)
      then show ?thesis using False by auto
    next
      case False
      then show ?thesis using "1.prems"(4) that by blast
    qed
    have "a \<in> set seen" if "(known_step folders)\<^sup>*\<^sup>* start a" for a
      using that by induction (use "1.prems"(3) step in auto)
    then show ?thesis using "1.prems"(5) False by (subst visible_ancestors.simps) auto
  next
    case True
    then obtain q where q: "parent = Some q" "q \<noteq> []" "dict_get folders q \<noteq> None" "q \<notin> set seen"
      by (cases parent) auto
    have cq: "known_step folders current q" using q "1.prems"(1) by (auto simp: known_step_def parent_step_def)
    have rec: "visible_ancestors folders seen parent = q # visible_ancestors folders (q # seen) (parent_of folders q)"
      using q by (subst visible_ancestors.simps) simp
    have "set (q # seen) \<union> set (visible_ancestors folders (q # seen) (parent_of folders q))
        = {a. (known_step folders)\<^sup>*\<^sup>* start a}"
    proof (rule "1.IH" [OF True, simplified q option.sel])
      show "parent_of folders q = parent_of folders q" "q \<in> set (q # seen)" by simp_all
      show "start \<in> set (q # seen)" using "1.prems"(3) by simp
      show "b \<in> set (q # seen)" if "a \<in> set (q # seen)" "a \<noteq> q" "known_step folders a b" for a b
        using that "1.prems"(1,4) q(1) by (cases "a = current") (auto simp: known_step_def parent_step_def)
      show "(known_step folders)\<^sup>*\<^sup>* start a" if "a \<in> set (q # seen)" for a
        using that "1.prems"(5) [of a] "1.prems"(5) [OF "1.prems"(2)] cq by (auto intro: rtranclp.rtrancl_into_rtrancl)
    qed
    then show ?thesis unfolding rec by auto
  qed
qed

lemma visible_ancestors_set:
  "insert n (set (visible_ancestors folders [n] (parent_of folders n))) = {a. (known_step folders)\<^sup>*\<^sup>* n a}"
  using visible_ancestors_closed [of "parent_of folders n" folders n "[n]" n] by auto

subsection \<open>Properties\<close>

text \<open>C15. The gates of the API and the RoleBindings of the cluster agree: for a user who is not a
  platform admin and has no empty group name, the role check on an environment holds iff one of the
  user's groups is a subject of a binding of that role or of a stronger one.\<close>

theorem gates_agree_with_bindings:
  assumes "\<not> is_admin cfg (user_groups u) (Some u)" "[] \<notin> set (user_groups u)"
  shows "(is_env_admin cfg u meta env \<longleftrightarrow> bound_as u meta env ''admin'')
     \<and> (is_env_member cfg u meta env \<longleftrightarrow> bound_as u meta env ''admin'' \<or> bound_as u meta env ''member'')
     \<and> (is_env_viewer cfg u meta env \<longleftrightarrow>
          bound_as u meta env ''admin'' \<or> bound_as u meta env ''member'' \<or> bound_as u meta env ''viewer'')"
  using assms(1) unfolding bound_as_iff [OF assms(2)] role_defs by auto

text \<open>A tenant namespace never gets a folder role: whatever of the three roles is bound, in a
  namespace with the tenant label it is a tenant role, and in any other namespace it is the folder
  role.\<close>

theorem tenant_namespaces_get_tenant_roles:
  "\<forall>(role, name, cr) \<in> set RBAC_ROLE_NAMES.
     role_for_namespace cr labels \<in> set (map (if truthy (dict_get (or_nil labels) TENANT_NS_LABEL) then snd else fst) TENANT_CLUSTERROLES)
     \<and> (truthy (dict_get (or_nil labels) TENANT_NS_LABEL) \<longrightarrow> role_for_namespace cr labels \<notin> set (map snd ROLE_TO_CLUSTERROLE))"
  by (simp add: RBAC_ROLE_NAMES_def role_for_namespace_def TENANT_CLUSTERROLES_def ROLE_TO_CLUSTERROLE_def)

text \<open>C16. On a server with no other writer, reconciling a namespace whose labels can be read always
  succeeds and leaves for each of the three roles exactly the binding the access block asks for (none
  when it names no group), with the role that fits the namespace, and every other binding as it was.\<close>

theorem reconcile_namespace_rbac_correct:
  assumes "rbac_server st api" "read_ns ns w = (Inr x, w)"
  shows "\<exists>w'. reconcile_namespace_rbac api read_ns ns folder env meta w = (Inr (), w')
     \<and> (\<forall>role name cr. (role, name, cr) \<in> set RBAC_ROLE_NAMES \<longrightarrow>
          st w' (ns, name) = (if collect_subjects meta env role = [] then None
            else Some (build_phase2_rb_body name ns folder env (role_for_namespace cr (Some (or_nil (ns_labels x))))
                   (collect_subjects meta env role))))
     \<and> (\<forall>k. k \<notin> {(ns, RB_NAME_ADMIN), (ns, RB_NAME_MEMBER), (ns, RB_NAME_VIEWER)} \<longrightarrow> st w' k = st w k)"
  using reconcile_roles_server [OF assms(1), of ns "Some (or_nil (ns_labels x))" folder env meta w] assms(2)
  by (simp add: reconcile_namespace_rbac_def bind_io_def catch_io_def)

text \<open>The folders a user may see are exactly the directly visible ones and their ancestors, so the
  parent of a visible folder is visible whenever it exists.\<close>

theorem folders_you_may_see_closed:
  "fst ` set (folders_you_may_see cfg u folders user_ns nbf) =
     {a. \<exists>n m. (n, m) \<in> set folders \<and> directly_visible cfg u user_ns nbf n m \<and> (known_step folders)\<^sup>*\<^sup>* n a
        \<and> a \<in> fst ` set folders}"
proof -
  have mem: "a \<in> set (visible_ancestors folders [n] (parent_of folders n)) \<or> a = n \<longleftrightarrow> (known_step folders)\<^sup>*\<^sup>* n a" for a n
    using visible_ancestors_set [of n folders] by blast
  show ?thesis
    unfolding folders_you_may_see_def Let_def by (auto simp: mem [symmetric] image_iff split: prod.splits) force+
qed

subsection \<open>Witnesses\<close>

definition mem_rbac :: "(string \<times> string \<Rightarrow> role_binding option) rbac_api" where
  "mem_rbac = \<lparr>
     rbac_create = (\<lambda>b w. if w (rb_key b) = None then (Inr (), w(rb_key b \<mapsto> rb_core b)) else (Inl (ApiException 409), w)),
     rbac_read = (\<lambda>ns n w. case w (ns, n) of None \<Rightarrow> (Inl (ApiException 404), w) | Some b \<Rightarrow> (Inr b, w)),
     rbac_replace = (\<lambda>b w. (Inr (), w(rb_key b \<mapsto> rb_core b))),
     rbac_delete = (\<lambda>ns n w. if w (ns, n) = None then (Inl (ApiException 404), w) else (Inr (), w((ns, n) := None)))\<rparr>"

text \<open>The server stores bindings without their version.\<close>

definition mem_rbac_st :: "(string \<times> string \<Rightarrow> role_binding option) \<Rightarrow> string \<times> string \<Rightarrow> role_binding option" where
  "mem_rbac_st w = (\<lambda>k. map_option rb_core (w k))"

lemma mem_rbac_st_simps:
  "mem_rbac_st (w(k \<mapsto> b)) = (mem_rbac_st w)(k \<mapsto> rb_core b)"
  "mem_rbac_st (w(k := None)) = (mem_rbac_st w)(k := None)"
  "mem_rbac_st w k = None \<longleftrightarrow> w k = None"
  by (auto simp: mem_rbac_st_def fun_eq_iff)

lemma mem_rbac_server: "rbac_server mem_rbac_st mem_rbac"
proof -
  have "w k = Some b \<Longrightarrow> mem_rbac_st w k = Some (rb_core b)" for w k b
    by (simp add: mem_rbac_st_def)
  then show ?thesis
    unfolding rbac_server_def mem_rbac_def
    by (auto simp: mem_rbac_st_simps split: option.splits)
qed

theorem gates_agree_with_bindings_witness:
  "is_env_viewer demo_cfg demo_user demo_meta ''dev''
   \<longleftrightarrow> bound_as demo_user demo_meta ''dev'' ''admin'' \<or> bound_as demo_user demo_meta ''dev'' ''member''
     \<or> bound_as demo_user demo_meta ''dev'' ''viewer''"
  using gates_agree_with_bindings [OF demo_not_admin, of demo_meta "''dev''"] by (simp add: demo_user_def)

theorem tenant_namespaces_get_tenant_roles_witness:
  "role_for_namespace ''kubevirt-ui-viewer'' (Some [(TENANT_NS_LABEL, ''t1'')]) \<notin> set (map snd ROLE_TO_CLUSTERROLE)"
  using tenant_namespaces_get_tenant_roles [of "Some [(TENANT_NS_LABEL, ''t1'')]"]
  by (simp add: RBAC_ROLE_NAMES_def ROLE_TO_CLUSTERROLE_def)

theorem reconcile_namespace_rbac_correct_witness:
  "\<exists>w'. reconcile_namespace_rbac mem_rbac (\<lambda>n. ret \<lparr>ns_name = n, ns_labels = None\<rparr>) ''team-dev'' ''team'' ''dev'' demo_meta (\<lambda>_. None)
      = (Inr (), w') \<and> mem_rbac_st w' (''x'', ''y'') = None"
  using reconcile_namespace_rbac_correct [OF mem_rbac_server, of "\<lambda>n. ret \<lparr>ns_name = n, ns_labels = None\<rparr>" "''team-dev''" "\<lambda>_. None"
      "\<lparr>ns_name = ''team-dev'', ns_labels = None\<rparr>" "''team''" "''dev''" demo_meta]
  by (auto simp: mem_rbac_st_def)

end
