(* ===== verification/WatchCache.thy ===== *)
theory WatchCache
  imports Kube
begin

section \<open>The watch-backed cache (\<open>core/watch_cache.py\<close>, \<open>core/vm_cache.py\<close>)\<close>

text \<open>
  A cache is filled by a LIST and then follows a watch stream. One round of the loop is a function of
  what the stream delivered and how it ended. The API server is a log of changes; what it may deliver
  from a version on is an inductive predicate, and the states of a running cache are the states of a
  step relation in which the log grows between rounds. Times are whole seconds.
\<close>

subsection \<open>Objects, events and the cache\<close>

record 'b raw =
  raw_ns :: "string option"
  raw_name :: "string option"
  raw_rv :: "string option"
  raw_body :: 'b

datatype 'b event = Event (ev_type: string) (ev_object: "'b raw")

definition default_key :: "'b raw \<Rightarrow> string" where
  "default_key r =
     (if truthy (raw_ns r) then the (raw_ns r) @ ''/'' @ or_nil (raw_name r) else or_nil (raw_name r))"

record 'v cache =
  entries :: "'v dict"
  resource_version :: "string option"
  ready :: bool
  running :: bool
  stopped :: bool
  last_error :: "exc option"
  backoff :: nat

definition BACKOFF_INITIAL :: nat where
  "BACKOFF_INITIAL = 1"

definition BACKOFF_MAX :: nat where
  "BACKOFF_MAX = 30"

definition new_cache :: "'v cache" where
  "new_cache = \<lparr>entries = [], resource_version = None, ready = False, running = False, stopped = False,
     last_error = None, backoff = BACKOFF_INITIAL\<rparr>"

subsection \<open>Reads\<close>

definition cache_get :: "'v cache \<Rightarrow> string \<Rightarrow> 'v option" where
  "cache_get c key = dict_get (entries c) key"

definition cache_all :: "'v cache \<Rightarrow> 'v list" where
  "cache_all c = map snd (entries c)"

definition cache_filter :: "'v cache \<Rightarrow> ('v \<Rightarrow> bool) \<Rightarrow> 'v list" where
  "cache_filter c predicate = filter predicate (cache_all c)"

subsection \<open>LIST and events\<close>

text \<open>\<open>key_func\<close> and \<open>project\<close> may raise (\<^const>\<open>None\<close>); the item is then skipped.\<close>

record ('b, 'v) funcs =
  key_func :: "'b raw \<Rightarrow> string option"
  project :: "'b raw \<Rightarrow> 'v option"

definition list_item :: "('b, 'v) funcs \<Rightarrow> 'v dict \<Rightarrow> 'b raw \<Rightarrow> 'v dict" where
  "list_item fs acc item =
     (case (project fs item, key_func fs item) of
        (Some v, Some k) \<Rightarrow> dict_set acc k v
      | _ \<Rightarrow> acc)"

definition initial_list ::
  "('b, 'v) funcs \<Rightarrow> 'v cache \<Rightarrow> 'b raw list \<Rightarrow> string option \<Rightarrow> 'v cache" where
  "initial_list fs c items rv =
     c\<lparr>entries := foldl (list_item fs) [] items, resource_version := rv, ready := True\<rparr>"

definition start :: "('b, 'v) funcs \<Rightarrow> 'v cache \<Rightarrow> exc + ('b raw list \<times> string option) \<Rightarrow> exc option \<times> 'v cache" where
  "start fs c result =
     (if running c then (None, c)
      else case result of
             Inl e \<Rightarrow> (Some e, c)
           | Inr (items, rv) \<Rightarrow> (None, (initial_list fs c items rv)\<lparr>running := True\<rparr>))"

definition stop :: "'v cache \<Rightarrow> 'v cache" where
  "stop c = c\<lparr>stopped := True, running := False, entries := [], ready := False\<rparr>"

definition apply_event :: "('b, 'v) funcs \<Rightarrow> 'v cache \<Rightarrow> string \<Rightarrow> 'b raw \<Rightarrow> 'v cache" where
  "apply_event fs c event_type obj =
     (case key_func fs obj of
        None \<Rightarrow> c
      | Some key \<Rightarrow>
          if event_type = ''DELETED'' then c\<lparr>entries := dict_del (entries c) key\<rparr>
          else if event_type \<in> {''ADDED'', ''MODIFIED''} then
            (case project fs obj of
               None \<Rightarrow> c
             | Some v \<Rightarrow> c\<lparr>entries := dict_set (entries c) key v\<rparr>)
          else c)"

definition take_version :: "'v cache \<Rightarrow> string option \<Rightarrow> 'v cache" where
  "take_version c rv = (if truthy rv then c\<lparr>resource_version := rv\<rparr> else c)"

text \<open>\<open>async for event in stream\<close>; an \<open>ERROR\<close> event leaves the loop.\<close>

fun run_events :: "('b, 'v) funcs \<Rightarrow> 'v cache \<Rightarrow> 'b event list \<Rightarrow> 'v cache \<times> bool" where
  "run_events fs c [] = (c, False)"
| "run_events fs c (Event t obj # evs) =
     (if t = ''BOOKMARK'' then run_events fs (take_version c (raw_rv obj)) evs
      else if t = ''ERROR'' then (c, True)
      else run_events fs (take_version (apply_event fs c t obj) (raw_rv obj)) evs)"

definition back_off :: "'v cache \<Rightarrow> exc \<Rightarrow> 'v cache" where
  "back_off c e = c\<lparr>last_error := Some e, backoff := min (backoff c * 2) BACKOFF_MAX\<rparr>"

text \<open>One round of \<open>_watch_loop\<close>: the events the stream delivered, the exception that ended it
  (none for a clean end) and the result of the LIST that a 410 asks for.\<close>

definition watch_round ::
  "('b, 'v) funcs \<Rightarrow> 'v cache \<Rightarrow> 'b event list \<Rightarrow> exc option \<Rightarrow> exc + ('b raw list \<times> string option) \<Rightarrow> 'v cache" where
  "watch_round fs c evs ending relist =
     (let (c1, broke) = run_events fs c evs
      in if broke \<or> ending = None then c1\<lparr>backoff := BACKOFF_INITIAL\<rparr>
         else if ending = Some (ApiException 410) then
           (let c2 = c1\<lparr>resource_version := None\<rparr>
            in case relist of
                 Inl e \<Rightarrow> back_off c2 e
               | Inr (items, rv) \<Rightarrow> (initial_list fs c2 items rv)\<lparr>backoff := BACKOFF_INITIAL\<rparr>)
         else back_off c1 (the ending))"

subsection \<open>The registry\<close>

record 'v registry =
  caches :: "'v cache dict"

text \<open>\<open>_ensure_cache\<close>; the lock makes it one step. \<open>result\<close> is the answer of the LIST a new cache
  would make.\<close>

definition ensure_cache ::
  "('b, 'v) funcs \<Rightarrow> 'v registry \<Rightarrow> string \<Rightarrow> exc + ('b raw list \<times> string option) \<Rightarrow> 'v cache option \<times> 'v registry" where
  "ensure_cache fs reg namespace result =
     (case dict_get (caches reg) namespace of
        Some c \<Rightarrow> (Some c, reg)
      | None \<Rightarrow>
          (case start fs new_cache result of
             (Some e, _) \<Rightarrow> (None, reg)
           | (None, c) \<Rightarrow> (Some c, reg\<lparr>caches := dict_set (caches reg) namespace c\<rparr>)))"

text \<open>\<open>became_ready\<close> says whether \<open>wait_ready\<close> ended before its timeout; \<open>direct\<close> is the answer of the
  direct LIST.\<close>

definition list_vms ::
  "('b, 'v) funcs \<Rightarrow> 'v registry \<Rightarrow> string \<Rightarrow> exc + ('b raw list \<times> string option) \<Rightarrow> bool \<Rightarrow> exc + 'v list \<Rightarrow>
   (exc + 'v list) \<times> 'v registry" where
  "list_vms fs reg namespace result became_ready direct =
     (case ensure_cache fs reg namespace result of
        (None, reg1) \<Rightarrow> (direct, reg1)
      | (Some c, reg1) \<Rightarrow>
          if \<not> ready c \<and> \<not> became_ready then (direct, reg1) else (Inr (cache_all c), reg1))"

definition close_registry :: "'v registry \<Rightarrow> 'v registry" where
  "close_registry reg = reg\<lparr>caches := []\<rparr>"

subsection \<open>What the server delivers\<close>

text \<open>The server's changes in order: an object was written, or deleted. The change at position
  \<open>i\<close> has version \<open>i + 1\<close>.\<close>

datatype 'b change = Write (changed: "'b raw") | Delete (changed: "'b raw")

definition stamp :: "nat \<Rightarrow> 'b raw \<Rightarrow> 'b raw" where
  "stamp n r = r\<lparr>raw_rv := Some (nat_str n)\<rparr>"

fun change_event :: "nat \<Rightarrow> 'b change \<Rightarrow> string \<Rightarrow> 'b event" where
  "change_event n (Write r) t = Event t (stamp n r)"
| "change_event n (Delete r) t = Event ''DELETED'' (stamp n r)"

text \<open>The projected content after the first \<open>n\<close> changes, for total functions.\<close>

definition apply_change :: "('b, 'v) funcs \<Rightarrow> (string \<rightharpoonup> 'v) \<Rightarrow> nat \<times> 'b change \<Rightarrow> (string \<rightharpoonup> 'v)" where
  "apply_change fs m nc =
     (case nc of (n, ch) \<Rightarrow>
       (let r = stamp (n + 1) (changed ch); k = the (key_func fs r)
        in case ch of Write _ \<Rightarrow> m(k \<mapsto> the (project fs r)) | Delete _ \<Rightarrow> m(k := None)))"

definition server_at :: "('b, 'v) funcs \<Rightarrow> 'b change list \<Rightarrow> nat \<Rightarrow> (string \<rightharpoonup> 'v)" where
  "server_at fs log n = foldl (apply_change fs) Map.empty (zip [0..<n] (take n log))"

text \<open>\<open>stream_from log n evs m\<close>: a watch from version \<open>n\<close> delivered \<open>evs\<close> and got to version \<open>m\<close>:
  every change once and in order, bookmarks anywhere.\<close>

inductive stream_from :: "'b change list \<Rightarrow> nat \<Rightarrow> 'b event list \<Rightarrow> nat \<Rightarrow> bool" for log where
  stream_end: "stream_from log n [] n"
| stream_change: "n < length log \<Longrightarrow> t \<in> {''ADDED'', ''MODIFIED''} \<Longrightarrow> stream_from log (n + 1) evs m \<Longrightarrow>
     stream_from log n (change_event (n + 1) (log ! n) t # evs) m"
| stream_bookmark: "raw_rv r = Some (nat_str n) \<Longrightarrow> stream_from log n evs m \<Longrightarrow>
     stream_from log n (Event ''BOOKMARK'' r # evs) m"
| stream_error: "stream_from log n [Event ''ERROR'' r] n"

text \<open>A LIST at version \<open>n\<close>.\<close>

definition list_at :: "('b, 'v) funcs \<Rightarrow> 'b change list \<Rightarrow> nat \<Rightarrow> 'b raw list \<Rightarrow> bool" where
  "list_at fs log n items \<longleftrightarrow> n \<le> length log \<and> map_of (foldl (list_item fs) [] items) = server_at fs log n"

text \<open>The states of a started cache while the server goes on; the flag says that no LIST after a 410 has
  failed. A cache without a version watches from the current state, which is delivered as \<open>ADDED\<close>
  events.\<close>

inductive cache_run ::
  "('b, 'v) funcs \<Rightarrow> bool \<Rightarrow> 'b change list \<Rightarrow> 'v cache \<Rightarrow> bool" for fs where
  started: "list_at fs log n items \<Longrightarrow> start fs new_cache (Inr (items, Some (nat_str n))) = (None, c) \<Longrightarrow>
     cache_run fs True log c"
| server: "cache_run fs ok log c \<Longrightarrow> cache_run fs ok (log @ [ch]) c"
| watched: "cache_run fs ok log c \<Longrightarrow> resource_version c = Some (nat_str n) \<Longrightarrow> stream_from log n evs m \<Longrightarrow>
     ending \<noteq> Some (ApiException 410) \<Longrightarrow> cache_run fs ok log (watch_round fs c evs ending relist)"
| gone: "cache_run fs ok log c \<Longrightarrow> resource_version c = Some (nat_str n) \<Longrightarrow> stream_from log n evs m \<Longrightarrow>
     list_at fs log k items \<Longrightarrow>
     cache_run fs ok log (watch_round fs c evs (Some (ApiException 410)) (Inr (items, Some (nat_str k))))"
| gone_failed: "cache_run fs ok log c \<Longrightarrow> resource_version c = Some (nat_str n) \<Longrightarrow> stream_from log n evs m \<Longrightarrow>
     cache_run fs False log (watch_round fs c evs (Some (ApiException 410)) (Inl e))"
| unversioned: "cache_run fs ok log c \<Longrightarrow> resource_version c = None \<Longrightarrow> list_at fs log k items \<Longrightarrow>
     stream_from log k evs m \<Longrightarrow> ending \<noteq> Some (ApiException 410) \<Longrightarrow>
     cache_run fs ok log (watch_round fs c (map (Event ''ADDED'') items @ evs) ending relist)"

inductive_cases stream_fromE: "stream_from log n evs m"

subsection \<open>Following the stream\<close>

definition total_funcs :: "('b, 'v) funcs \<Rightarrow> bool" where
  "total_funcs fs \<longleftrightarrow> (\<forall>r. key_func fs r \<noteq> None \<and> project fs r \<noteq> None)"

definition synced :: "('b, 'v) funcs \<Rightarrow> 'b change list \<Rightarrow> nat \<Rightarrow> 'v cache \<Rightarrow> bool" where
  "synced fs log n c \<longleftrightarrow> n \<le> length log \<and> resource_version c = Some (nat_str n)
     \<and> map_of (entries c) = server_at fs log n"

lemma server_at_Suc:
  "n < length log \<Longrightarrow> server_at fs log (Suc n) = apply_change fs (server_at fs log n) (n, log ! n)"
  by (simp add: server_at_def take_Suc_conv_app_nth)

lemma server_at_append: "n \<le> length log \<Longrightarrow> server_at fs (log @ [ch]) n = server_at fs log n"
  by (simp add: server_at_def)

lemma synced_append: "synced fs log n c \<Longrightarrow> synced fs (log @ [ch]) n c"
  by (simp add: synced_def server_at_append)

lemma take_version_simps [simp]:
  "entries (take_version c rv) = entries c" "backoff (take_version c rv) = backoff c"
  "ready (take_version c rv) = ready c" "running (take_version c rv) = running c"
  by (simp_all add: take_version_def)

lemma apply_event_frame [simp]:
  "backoff (apply_event fs c t r) = backoff c" "ready (apply_event fs c t r) = ready c"
  "running (apply_event fs c t r) = running c"
  by (simp_all add: apply_event_def split: option.splits)

lemma apply_change_synced:
  assumes "total_funcs fs" "synced fs log n c" "n < length log" "t \<in> {''ADDED'', ''MODIFIED''}"
    and "change_event (n + 1) (log ! n) t = Event u r"
  shows "u \<noteq> ''BOOKMARK'' \<and> u \<noteq> ''ERROR'' \<and> synced fs log (n + 1) (take_version (apply_event fs c u r) (raw_rv r))"
proof -
  have r: "r = stamp (n + 1) (changed (log ! n))" and u: "u = (case log ! n of Write _ \<Rightarrow> t | Delete _ \<Rightarrow> ''DELETED'')"
    using assms(5) by (cases "log ! n"; auto)+
  obtain k v where kv: "key_func fs r = Some k" "project fs r = Some v"
    using assms(1) unfolding total_funcs_def by (metis option.exhaust)
  have "map_of (entries (apply_event fs c u r)) = apply_change fs (map_of (entries c)) (n, log ! n)"
    using kv r u assms(4)
    by (cases "log ! n") (auto simp: apply_event_def apply_change_def Let_def update_conv' delete_conv')
  then show ?thesis using assms(2,3,4) u r
    by (auto simp: synced_def server_at_Suc take_version_def stamp_def split: change.splits)
qed

lemma run_events_synced:
  assumes "stream_from log n evs m" "total_funcs fs" "synced fs log n c" "run_events fs c evs = (c1, broke)"
  shows "synced fs log m c1"
  using assms(1,3,4)
proof (induction arbitrary: c)
  case (stream_change n t evs m)
  obtain u r where e: "change_event (n + 1) (log ! n) t = Event u r" by (cases "change_event (n + 1) (log ! n) t")
  note s = apply_change_synced [OF assms(2) stream_change.prems(1) stream_change.hyps(1,2) e]
  show ?case using stream_change.IH [of "take_version (apply_event fs c u r) (raw_rv r)"] s stream_change.prems(2)
    by (simp add: e [simplified])
next
  case (stream_bookmark r n evs m)
  then have "synced fs log n (take_version c (raw_rv r))" by (simp add: synced_def take_version_def)
  then show ?case using stream_bookmark by simp
qed auto

lemma run_events_frame:
  "run_events fs c evs = (c1, b) \<Longrightarrow> backoff c1 = backoff c \<and> ready c1 = ready c \<and> running c1 = running c"
  by (induction fs c evs rule: run_events.induct) (auto split: if_splits)

lemma cache_run_synced:
  assumes "cache_run fs ok log c" "ok" "total_funcs fs"
  shows "\<exists>n. synced fs log n c"
  using assms(1,2)
proof induction
  case (started log n items c)
  then have "synced fs log n c"
    by (auto simp: start_def new_cache_def initial_list_def synced_def list_at_def)
  then show ?case by blast
next
  case (server ok log c ch)
  then show ?case using synced_append by blast
next
  case (watched ok log c n evs m ending relist)
  then obtain n' where n': "synced fs log n' c" by blast
  then have "n' = n" using watched.hyps(2) by (simp add: synced_def)
  obtain c1 b where r: "run_events fs c evs = (c1, b)" by fastforce
  have "synced fs log m c1" by (rule run_events_synced [OF watched.hyps(3) assms(3) _ r]) (use n' \<open>n' = n\<close> in simp)
  then have "synced fs log m (watch_round fs c evs ending relist)"
    using watched.hyps(4) by (auto simp: watch_round_def r synced_def back_off_def)
  then show ?case by blast
next
  case (gone ok log c n evs m k items)
  then obtain n' where n': "synced fs log n' c" by blast
  then have eq: "n' = n" using gone.hyps(2) by (simp add: synced_def)
  obtain c1 b where r: "run_events fs c evs = (c1, b)" by fastforce
  have "synced fs log m c1" by (rule run_events_synced [OF gone.hyps(3) assms(3) _ r]) (use n' eq in simp)
  then have "synced fs log (if b then m else k) (watch_round fs c evs (Some (ApiException 410)) (Inr (items, Some (nat_str k))))"
    using gone.hyps(4) by (auto simp: watch_round_def r synced_def initial_list_def list_at_def)
  then show ?case by blast
next
  case (unversioned ok log c k items evs m ending relist)
  then show ?case by (auto simp: synced_def)
qed simp

lemma cache_run_alive:
  assumes "cache_run fs ok log c"
  shows "1 \<le> backoff c \<and> backoff c \<le> BACKOFF_MAX \<and> ready c \<and> running c"
  using assms
proof induction
  case (started log n items c)
  then show ?case
    by (auto simp: start_def new_cache_def initial_list_def BACKOFF_INITIAL_def BACKOFF_MAX_def)
next
  case (watched ok log c n evs m ending relist)
  obtain c1 b where r: "run_events fs c evs = (c1, b)" by fastforce
  from run_events_frame [OF r] watched show ?case
    by (auto simp: watch_round_def r back_off_def BACKOFF_INITIAL_def BACKOFF_MAX_def)
next
  case (gone ok log c n evs m k items)
  obtain c1 b where r: "run_events fs c evs = (c1, b)" by fastforce
  from run_events_frame [OF r] gone show ?case
    by (auto simp: watch_round_def r initial_list_def BACKOFF_INITIAL_def BACKOFF_MAX_def)
next
  case (gone_failed ok log c n evs m e)
  obtain c1 b where r: "run_events fs c evs = (c1, b)" by fastforce
  from run_events_frame [OF r] gone_failed show ?case
    by (auto simp: watch_round_def r back_off_def BACKOFF_INITIAL_def BACKOFF_MAX_def)
next
  case (unversioned ok log c k items evs m ending relist)
  obtain c1 b where r: "run_events fs c (map (Event ''ADDED'') items @ evs) = (c1, b)" by fastforce
  from run_events_frame [OF r] unversioned show ?case
    by (auto simp: watch_round_def r back_off_def BACKOFF_INITIAL_def BACKOFF_MAX_def)
qed simp

subsection \<open>Properties\<close>

text \<open>C17. As long as no re-LIST after a 410 failed, the cache always holds exactly the server's content at
  the version it is at, whatever the streams delivered, however they ended, and however the server
  changed meanwhile.\<close>

theorem watch_cache_follows_server:
  assumes "cache_run fs True log c" "total_funcs fs"
  shows "\<exists>n. n \<le> length log \<and> resource_version c = Some (nat_str n)
     \<and> (\<forall>key. cache_get c key = server_at fs log n key)"
  using cache_run_synced [OF assms(1) TrueI assms(2)] by (auto simp: synced_def cache_get_def)

text \<open>In every state the cache reaches, failures included, it is ready and the next delay is between
  1 and 30 seconds.\<close>

theorem watch_cache_alive:
  assumes "cache_run fs ok log c"
  shows "1 \<le> backoff c \<and> backoff c \<le> BACKOFF_MAX \<and> ready c \<and> running c"
  by (rule cache_run_alive [OF assms])

subsection \<open>A failed re-LIST\<close>

definition demo_funcs :: "(nat, nat) funcs" where
  "demo_funcs = \<lparr>key_func = (\<lambda>r. Some (default_key r)), project = (\<lambda>r. Some (raw_body r))\<rparr>"

definition demo_obj :: "string \<Rightarrow> nat raw" where
  "demo_obj n = \<lparr>raw_ns = None, raw_name = Some n, raw_rv = None, raw_body = 7\<rparr>"

definition demo_log :: "nat change list" where
  "demo_log = [Write (demo_obj ''x''), Delete (demo_obj ''x''), Write (demo_obj ''y'')]"

lemma demo_server:
  "server_at demo_funcs [Write (demo_obj ''x'')] (Suc 0) = Map.empty(''x'' \<mapsto> 7)"
  "server_at demo_funcs [Write (demo_obj ''x''), Delete (demo_obj ''x'')] 2 = Map.empty"
  "server_at demo_funcs demo_log 2 = Map.empty"
  "server_at demo_funcs demo_log 3 = Map.empty(''y'' \<mapsto> 7)"
  by (auto simp: server_at_def demo_log_def apply_change_def Let_def demo_funcs_def demo_obj_def stamp_def default_key_def
      upt_rec numeral_eq_Suc)

definition demo_started :: "nat cache" where
  "demo_started = new_cache\<lparr>entries := [(''x'', 7)], resource_version := Some (nat_str 1), ready := True, running := True\<rparr>"

lemma demo_start: "cache_run demo_funcs True [Write (demo_obj ''x'')] demo_started"
proof (rule started)
  show "list_at demo_funcs [Write (demo_obj ''x'')] 1 [demo_obj ''x'']"
    by (simp add: list_at_def demo_server list_item_def) (simp add: demo_funcs_def demo_obj_def default_key_def)
  show "start demo_funcs new_cache (Inr ([demo_obj ''x''], Some (nat_str 1))) = (None, demo_started)"
    by (simp add: start_def new_cache_def initial_list_def list_item_def demo_funcs_def demo_obj_def default_key_def
        demo_started_def)
qed

definition demo_stale :: "nat cache" where
  "demo_stale = new_cache\<lparr>entries := [(''x'', 7), (''y'', 7)], resource_version := Some (nat_str 3), ready := True,
     running := True, last_error := Some OtherError\<rparr>"

text \<open>When the re-LIST after a 410 fails once, the cache goes on watching without a version and is
  never listed again: here an object deleted in the gap is still served after the cache has caught up
  with the last version of the server.\<close>

theorem failed_relist_keeps_deleted:
  "cache_run demo_funcs False demo_log demo_stale
   \<and> resource_version demo_stale = Some (nat_str (length demo_log))
   \<and> cache_get demo_stale ''x'' = Some 7 \<and> server_at demo_funcs demo_log (length demo_log) ''x'' = None"
proof -
  let ?l1 = "[Write (demo_obj ''x''), Delete (demo_obj ''x'')]"
  let ?c1 = "watch_round demo_funcs demo_started [] (Some (ApiException 410)) (Inl OtherError)"
  have "cache_run demo_funcs True ([Write (demo_obj ''x'')] @ [Delete (demo_obj ''x'')]) demo_started"
    by (rule server [OF demo_start])
  then have "cache_run demo_funcs False ?l1 ?c1"
    by (intro gone_failed [where n = 1 and m = 1]) (auto simp: demo_started_def intro: stream_end)
  then have r2: "cache_run demo_funcs False demo_log ?c1"
    using server [of demo_funcs False ?l1 ?c1 "Write (demo_obj ''y'')"] by (simp add: demo_log_def)
  have c1: "resource_version ?c1 = None"
    by (simp add: watch_round_def back_off_def)
  have ev: "change_event 3 (demo_log ! 2) ''ADDED'' = Event ''ADDED'' (stamp 3 (demo_obj ''y''))"
    by (simp add: demo_log_def)
  have str: "stream_from demo_log 2 [Event ''ADDED'' (stamp 3 (demo_obj ''y''))] 3"
    using stream_change [of 2 demo_log "''ADDED''" "[]" 3] stream_end [of demo_log 3]
    by (simp add: ev) (simp add: demo_log_def)
  have la: "list_at demo_funcs demo_log 2 []" by (simp add: list_at_def demo_server) (simp add: demo_log_def)
  have "cache_run demo_funcs False demo_log
      (watch_round demo_funcs ?c1 (map (Event ''ADDED'') [] @ [Event ''ADDED'' (stamp 3 (demo_obj ''y''))]) None (Inl OtherError))"
    by (rule unversioned [OF r2 c1 la str]) simp
  moreover have "watch_round demo_funcs ?c1 [Event ''ADDED'' (stamp 3 (demo_obj ''y''))] None (Inl OtherError) = demo_stale"
    by (simp add: watch_round_def back_off_def demo_started_def demo_stale_def apply_event_def demo_funcs_def stamp_def
        demo_obj_def default_key_def take_version_def new_cache_def BACKOFF_INITIAL_def)
  moreover have "length demo_log = 3" by (simp add: demo_log_def)
  ultimately show ?thesis by (simp add: demo_server cache_get_def) (simp add: demo_stale_def)
qed

theorem watch_cache_follows_server_witness:
  "\<exists>n. n \<le> length [Write (demo_obj ''x'')] \<and> resource_version demo_started = Some (nat_str n)
     \<and> (\<forall>key. cache_get demo_started key = server_at demo_funcs [Write (demo_obj ''x'')] n key)"
  by (rule watch_cache_follows_server [OF demo_start]) (simp add: total_funcs_def demo_funcs_def)

theorem watch_cache_alive_witness:
  "1 \<le> backoff demo_started \<and> backoff demo_started \<le> BACKOFF_MAX \<and> ready demo_started \<and> running demo_started"
  by (rule watch_cache_alive [OF demo_start])

end
