(* ===== verification/TransitRanges.thy ===== *)
theory TransitRanges
  imports CpVip
begin

section \<open>The allocatable part of the transit subnet\<close>

text \<open>
  \<open>_allocatable_ranges\<close> and \<open>build_transit_deny\<close> of \<open>core/tenant_transit.py\<close>, with the parts of
  Python's \<open>ipaddress\<close> they use (\<open>summarize_address_range\<close> and \<open>address_exclude\<close>). The main fact
  is that the ranges of the deny rule are exactly the addresses of the subnet outside
  \<open>excludeIps\<close>, read the way the pool check of \<open>CpVip\<close> reads them.
\<close>

subsection \<open>Address arithmetic of \<open>ipaddress\<close>\<close>

text \<open>\<open>n.bit_length()\<close> and \<open>_count_righthand_zero_bits(n, bits)\<close>.\<close>

fun bit_length :: "nat \<Rightarrow> nat" where
  "bit_length n = (if n = 0 then 0 else Suc (bit_length (n div 2)))"

declare bit_length.simps [simp del]

fun zero_bits :: "nat \<Rightarrow> nat \<Rightarrow> nat" where
  "zero_bits n 0 = 0"
| "zero_bits n (Suc b) = (if even n then Suc (zero_bits (n div 2) b) else 0)"

definition range_bits :: "nat \<Rightarrow> nat \<Rightarrow> nat" where
  "range_bits lo hi = min (zero_bits lo 32) (bit_length (hi - lo + 1) - 1)"

text \<open>\<open>summarize_address_range\<close> for two IPv4 addresses with \<open>lo <= hi\<close>.\<close>

function summarize_range :: "nat \<Rightarrow> nat \<Rightarrow> ip_net list" where
  "summarize_range lo hi =
     (if hi < lo then []
      else let nbits = range_bits lo hi
           in \<lparr>net_ver = V4, net_addr = lo, net_len = 32 - nbits\<rparr> # summarize_range (lo + 2 ^ nbits) hi)"
  by pat_completeness auto
termination
  by (relation "measure (\<lambda>(lo, hi). Suc hi - lo)") (auto intro!: diff_less_mono2)

declare summarize_range.simps [simp del]

definition halves :: "ip_net \<Rightarrow> ip_net \<times> ip_net" where
  "halves n = (let l = net_len n + 1
     in (\<lparr>net_ver = net_ver n, net_addr = net_addr n, net_len = l\<rparr>,
         \<lparr>net_ver = net_ver n, net_addr = net_addr n + 2 ^ (width (net_ver n) - l), net_len = l\<rparr>))"

text \<open>The loop of \<open>address_exclude\<close>, for the network whose halves are compared. A single address has
  no halves (\<open>ValueError\<close>), and a network that is in neither half is an \<open>AssertionError\<close>.\<close>

function exclude_loop :: "ip_net \<Rightarrow> ip_net \<Rightarrow> exc + ip_net list" where
  "exclude_loop other n =
     (if width (net_ver n) \<le> net_len n then Inl ValueError
      else (case halves n of (s1, s2) \<Rightarrow>
        if s1 = other then Inr [s2]
        else if s2 = other then Inr [s1]
        else if subnet_of other s1 then map_sum id (Cons s2) (exclude_loop other s1)
        else if subnet_of other s2 then map_sum id (Cons s1) (exclude_loop other s2)
        else Inl OtherError))"
  by pat_completeness auto
termination
  by (relation "measure (\<lambda>(other, n). width (net_ver n) - net_len n)") (auto simp: halves_def Let_def)

declare exclude_loop.simps [simp del]

definition address_exclude :: "ip_net \<Rightarrow> ip_net \<Rightarrow> exc + ip_net list" where
  "address_exclude n other =
     (if net_ver n \<noteq> net_ver other then Inl OtherError
      else if \<not> subnet_of other n then Inl ValueError
      else if other = n then Inr []
      else exclude_loop other n)"

subsection \<open>The ranges and the deny rule\<close>

definition reserved_blocks :: "string \<Rightarrow> ip_net list" where
  "reserved_blocks raw =
     (let entry = strip raw
      in case split_once ''..'' entry of
           Some (lo, hi) \<Rightarrow>
             (case (parse_ipv4 (strip lo), parse_ipv4 (strip hi)) of
                (Some a, Some b) \<Rightarrow> if b < a then [] else summarize_range a b
              | _ \<Rightarrow> [])
         | None \<Rightarrow>
             if CHR ''/'' \<in> set entry then (case ip_network entry of Some n \<Rightarrow> [n] | None \<Rightarrow> [])
             else if entry \<noteq> [] then (case strict_network (entry @ ''/32'') of Some n \<Rightarrow> [n] | None \<Rightarrow> [])
             else [])"

definition minus_net :: "ip_net \<Rightarrow> ip_net \<Rightarrow> exc + ip_net list" where
  "minus_net block net =
     (if net_ver block \<noteq> net_ver net then Inl OtherError
      else if subnet_of block net then address_exclude net block
      else if \<not> overlaps net block then Inr [net]
      else Inr [])"

fun minus_block :: "ip_net \<Rightarrow> ip_net list \<Rightarrow> exc + ip_net list" where
  "minus_block block [] = Inr []"
| "minus_block block (net # nets) =
     (case minus_net block net of
        Inl e \<Rightarrow> Inl e
      | Inr xs \<Rightarrow> map_sum id ((@) xs) (minus_block block nets))"

fun minus_blocks :: "ip_net list \<Rightarrow> ip_net list \<Rightarrow> exc + ip_net list" where
  "minus_blocks remaining [] = Inr remaining"
| "minus_blocks remaining (block # blocks) =
     (case minus_block block remaining of Inl e \<Rightarrow> Inl e | Inr nxt \<Rightarrow> minus_blocks nxt blocks)"

definition allocatable_ranges :: "string \<Rightarrow> string list \<Rightarrow> exc + string list" where
  "allocatable_ranges cidr exclude_ips =
     (case ip_network cidr of
        None \<Rightarrow> Inl ValueError
      | Some network \<Rightarrow>
          (case minus_blocks [network] (concat (map reserved_blocks exclude_ips)) of
             Inl e \<Rightarrow> Inl e
           | Inr remaining \<Rightarrow>
               Inr (map net_str (filter (\<lambda>n. \<not> (net_len n = 32 \<and> net_addr n = net_addr network))
                 (sort_key (\<lambda>n. (net_addr n, net_len n)) remaining)))))"

definition TRANSIT_ALLOW_PRIORITY :: int where
  "TRANSIT_ALLOW_PRIORITY = 3200"

definition TRANSIT_DENY_PRIORITY :: int where
  "TRANSIT_DENY_PRIORITY = 3000"

definition deny_match :: "string list \<Rightarrow> string" where
  "deny_match ranges =
     (if length ranges = 1 then ''ip4.src == '' @ hd ranges
      else ''ip4.src == {'' @ join '', '' ranges @ ''}'')"

definition build_transit_deny :: "string \<Rightarrow> string list \<Rightarrow> exc + acl" where
  "build_transit_deny transit_cidr exclude_ips =
     (case allocatable_ranges transit_cidr exclude_ips of
        Inl e \<Rightarrow> Inl e
      | Inr rs \<Rightarrow>
          (case (if rs = [] then map_option (\<lambda>n. [net_str n]) (ip_network transit_cidr) else Some rs) of
             None \<Rightarrow> Inl ValueError
           | Some ranges \<Rightarrow>
               Inr \<lparr>acl_action = Some ''drop'', acl_direction = Some ''from-lport'',
                    acl_priority = Some TRANSIT_DENY_PRIORITY, acl_match = Some (deny_match ranges)\<rparr>))"

subsection \<open>Excluding a block\<close>

lemma halves_correct:
  assumes "wf_net n" "net_len n < width (net_ver n)" "halves n = (s1, s2)"
  shows "wf_net s1" "wf_net s2" "net_ver s1 = net_ver n" "net_ver s2 = net_ver n"
    "net_len s1 = net_len n + 1" "net_len s2 = net_len n + 1"
    "addrs s1 \<union> addrs s2 = addrs n" "addrs s1 \<inter> addrs s2 = {}"
proof -
  let ?h = "2 ^ (width (net_ver n) - (net_len n + 1)) :: nat"
  have size: "block_size n = 2 * ?h"
    using assms(2) by (simp add: block_size_def power_Suc [symmetric] Suc_diff_Suc del: power_Suc)
  have s: "s1 = \<lparr>net_ver = net_ver n, net_addr = net_addr n, net_len = net_len n + 1\<rparr>"
    "s2 = \<lparr>net_ver = net_ver n, net_addr = net_addr n + ?h, net_len = net_len n + 1\<rparr>"
    using assms(3) by (auto simp: halves_def Let_def)
  have d: "?h dvd net_addr n" using assms(1) size by (auto simp: wf_net_def intro: dvd_mult_right)
  have "net_addr n + block_size n - 1 \<in> addrs n" using broadcast_in [of n] by (simp add: broadcast_def)
  then have "net_addr n + block_size n - 1 < 2 ^ width (net_ver n)" using wf_addrs_bound [OF assms(1)] by blast
  moreover have "0 < ?h" by simp
  then have "net_addr n + ?h \<le> net_addr n + block_size n - 1" using size by linarith
  ultimately have top: "net_addr n + ?h < 2 ^ width (net_ver n)" by linarith
  show "wf_net s1" "wf_net s2"
    using assms(1,2) d top by (auto simp: wf_net_def s block_size_def)
  show "addrs s1 \<union> addrs s2 = addrs n" "addrs s1 \<inter> addrs s2 = {}"
    by (auto simp: addrs_def s size) (auto simp: block_size_def)
qed (use assms(3) in \<open>auto simp: halves_def Let_def\<close>)

lemma exclude_loop_correct:
  assumes "wf_net n" "wf_net other" "net_ver other = net_ver n" "addrs other \<subset> addrs n"
  shows "\<exists>ns. exclude_loop other n = Inr ns \<and> (\<forall>m \<in> set ns. wf_net m \<and> net_ver m = net_ver n)
     \<and> \<Union> (addrs ` set ns) = addrs n - addrs other"
  using assms
proof (induction other n rule: exclude_loop.induct)
  case (1 other n)
  have "block_size other < block_size n" using psubset_card_mono [OF finite_addrs 1(6)] by simp
  then have len: "net_len n < net_len other" using net_len_of_size 1(3-5) by blast
  then have l: "net_len n < width (net_ver n)" using 1(4,5) by (simp add: wf_net_def)
  obtain s1 s2 where h: "halves n = (s1, s2)" by (cases "halves n")
  note hc = halves_correct [OF 1(3) l h]
  have "addrs other \<inter> addrs s1 \<noteq> {} \<or> addrs other \<inter> addrs s2 \<noteq> {}"
    using hc(7) 1(6) net_addr_in [of other] by blast
  moreover have sub: "addrs other \<subseteq> addrs s" if "addrs other \<inter> addrs s \<noteq> {}" "wf_net s" "net_ver s = net_ver n" "net_len s = net_len n + 1" for s
  proof -
    have "\<not> addrs s \<subset> addrs other"
      using psubset_card_mono [of "addrs other" "addrs s"] net_len_of_size [OF that(2) 1(4)] that(3,4) 1(5) len by fastforce
    then show ?thesis using nets_nested [OF 1(4) that(2)] that(1,3) 1(5) by auto
  qed
  ultimately have cases: "subnet_of other s1 \<or> subnet_of other s2" using hc unfolding subnet_of_iff by blast
  have proper: "addrs other \<subset> addrs s" if "subnet_of other s" "s \<noteq> other" "wf_net s" "net_ver s = net_ver n" for s
    using that net_eqI [OF that(3) 1(4)] 1(5) unfolding subnet_of_iff by auto
  have disj: "subnet_of other s1 \<Longrightarrow> addrs other \<inter> addrs s2 = {}" "subnet_of other s2 \<Longrightarrow> addrs other \<inter> addrs s1 = {}"
    using hc(8) unfolding subnet_of_iff by blast+
  note step = exclude_loop.simps [of other n] h
  consider "s1 = other" | "s2 = other" "s1 \<noteq> other" | "s1 \<noteq> other" "s2 \<noteq> other" "subnet_of other s1"
    | "s1 \<noteq> other" "s2 \<noteq> other" "\<not> subnet_of other s1" "subnet_of other s2"
    using cases by blast
  then show ?case
  proof cases
    case 1
    then show ?thesis using l hc by (auto simp: step)
  next
    case 2
    then show ?thesis using l hc by (auto simp: step)
  next
    case 3
    from "1.IH"(1) [OF _ h [symmetric] 3 hc(1) "1.prems"(2)] l 3 hc(1,3) proper [OF 3(3,1)] "1.prems"(3)
    obtain ns where "exclude_loop other s1 = Inr ns" "\<forall>m \<in> set ns. wf_net m \<and> net_ver m = net_ver n"
      "\<Union> (addrs ` set ns) = addrs s1 - addrs other" by auto
    then show ?thesis using 3 l hc disj(1) by (intro exI [of _ "s2 # ns"]) (auto simp: step)
  next
    case 4
    from "1.IH"(2) [OF _ h [symmetric] 4 hc(2) "1.prems"(2)] l 4 hc(2,4) proper [OF 4(4,2)] "1.prems"(3)
    obtain ns where "exclude_loop other s2 = Inr ns" "\<forall>m \<in> set ns. wf_net m \<and> net_ver m = net_ver n"
      "\<Union> (addrs ` set ns) = addrs s2 - addrs other" by auto
    then show ?thesis using 4 l hc disj(2) by (intro exI [of _ "s1 # ns"]) (auto simp: step)
  qed
qed

lemma address_exclude_correct:
  assumes "wf_net n" "wf_net other" "net_ver other = net_ver n" "subnet_of other n"
  shows "\<exists>ns. address_exclude n other = Inr ns \<and> (\<forall>m \<in> set ns. wf_net m \<and> net_ver m = net_ver n)
     \<and> \<Union> (addrs ` set ns) = addrs n - addrs other"
proof (cases "other = n")
  case False
  then have "addrs other \<subset> addrs n" using assms net_eqI unfolding subnet_of_iff by blast
  then show ?thesis using exclude_loop_correct [OF assms(1-3)] False assms(3,4) by (simp add: address_exclude_def)
qed (simp add: address_exclude_def assms subnet_of_def)

lemma minus_net_correct:
  assumes "wf_net n" "wf_net b" "net_ver b = net_ver n"
  shows "\<exists>ns. minus_net b n = Inr ns \<and> (\<forall>m \<in> set ns. wf_net m \<and> net_ver m = net_ver n)
     \<and> \<Union> (addrs ` set ns) = addrs n - addrs b"
proof (cases "subnet_of b n")
  case True
  then show ?thesis using address_exclude_correct [OF assms] assms(3) by (simp add: minus_net_def)
next
  case False
  then show ?thesis
    using assms nets_nested [of n b] by (auto simp: minus_net_def overlaps_iff subnet_of_iff)
qed

lemma minus_block_correct:
  assumes "\<forall>n \<in> set nets. wf_net n \<and> net_ver n = v" "wf_net b" "net_ver b = v"
  shows "\<exists>ns. minus_block b nets = Inr ns \<and> (\<forall>m \<in> set ns. wf_net m \<and> net_ver m = v)
     \<and> \<Union> (addrs ` set ns) = \<Union> (addrs ` set nets) - addrs b"
  using assms(1)
proof (induction nets)
  case (Cons n nets)
  from minus_net_correct [of n b] assms(2,3) Cons.prems obtain xs where "minus_net b n = Inr xs"
    "\<forall>m \<in> set xs. wf_net m \<and> net_ver m = v" "\<Union> (addrs ` set xs) = addrs n - addrs b" by auto
  with Cons show ?case by (fastforce simp: image_Un)
qed simp

lemma minus_blocks_correct:
  assumes "\<forall>n \<in> set nets. wf_net n \<and> net_ver n = v" "\<forall>b \<in> set bs. wf_net b"
    and "minus_blocks nets bs = Inr ns"
  shows "(\<forall>m \<in> set ns. wf_net m \<and> net_ver m = v)
     \<and> \<Union> (addrs ` set ns) = \<Union> (addrs ` set nets) - \<Union> (addrs ` {b \<in> set bs. net_ver b = v})"
  using assms
proof (induction bs arbitrary: nets)
  case (Cons b bs)
  show ?case
  proof (cases "net_ver b = v")
    case True
    with minus_block_correct [OF Cons.prems(1), of b] Cons.prems(2) obtain nx where nx: "minus_block b nets = Inr nx"
      "\<forall>m \<in> set nx. wf_net m \<and> net_ver m = v" "\<Union> (addrs ` set nx) = \<Union> (addrs ` set nets) - addrs b" by auto
    with Cons.IH [OF nx(2)] Cons.prems(2,3) True show ?thesis by auto
  next
    case False
    show ?thesis
    proof (cases nets)
      case Nil
      with Cons.IH [of "[]"] Cons.prems(2,3) False show ?thesis by auto
    next
      case (Cons n rest)
      with False Cons.prems show ?thesis by (auto simp: minus_net_def)
    qed
  qed
qed simp


subsection \<open>Summarizing a range\<close>

lemma bit_length_le: "0 < n \<Longrightarrow> 2 ^ (bit_length n - 1) \<le> n"
proof (induction n rule: bit_length.induct)
  case (1 n)
  show ?case
  proof (cases "n div 2 = 0")
    case False
    then have "bit_length (n div 2) \<noteq> 0" by (simp add: bit_length.simps [of "n div 2"])
    then have "(2::nat) ^ (bit_length n - 1) = 2 * 2 ^ (bit_length (n div 2) - 1)"
      using "1.prems" by (cases "bit_length (n div 2)") (simp_all add: bit_length.simps [of n])
    also have "\<dots> \<le> 2 * (n div 2)" using "1.IH" "1.prems" False by simp
    also have "\<dots> \<le> n" by simp
    finally show ?thesis .
  qed (use "1.prems" in \<open>simp add: bit_length.simps [of n] bit_length.simps [of 0]\<close>)
qed

lemma zero_bits_dvd: "2 ^ zero_bits n b dvd n" and zero_bits_le: "zero_bits n b \<le> b"
proof (induction b arbitrary: n)
  case (Suc b)
  { case 1
    show ?case using Suc(1) [of "n div 2"] by (cases "even n") (auto elim!: evenE) }
  { case 2
    show ?case using Suc(2) [of "n div 2"] by simp }
qed simp_all

lemma range_bits_facts:
  assumes "lo \<le> hi"
  shows "range_bits lo hi \<le> 32" "2 ^ range_bits lo hi dvd lo" "lo + 2 ^ range_bits lo hi \<le> Suc hi"
proof -
  show "range_bits lo hi \<le> 32" using zero_bits_le [of lo 32] by (simp add: range_bits_def)
  show "2 ^ range_bits lo hi dvd lo"
    by (rule dvd_trans [OF le_imp_power_dvd zero_bits_dvd [of lo 32]]) (simp add: range_bits_def)
  have "(2::nat) ^ range_bits lo hi \<le> 2 ^ (bit_length (hi - lo + 1) - 1)"
    by (rule power_increasing) (simp_all add: range_bits_def)
  also have "\<dots> \<le> hi - lo + 1" by (rule bit_length_le) simp
  finally show "lo + 2 ^ range_bits lo hi \<le> Suc hi" using assms by simp
qed

lemma summarize_range_correct:
  assumes "hi < 2 ^ 32"
  shows "(\<forall>n \<in> set (summarize_range lo hi). wf_net n \<and> net_ver n = V4) \<and> \<Union> (addrs ` set (summarize_range lo hi)) = {lo..hi}"
  using assms
proof (induction lo hi rule: summarize_range.induct)
  case (1 lo hi)
  show ?case
  proof (cases "hi < lo")
    case False
    let ?k = "range_bits lo hi"
    let ?n = "\<lparr>net_ver = V4, net_addr = lo, net_len = 32 - ?k\<rparr>"
    note f = range_bits_facts [of lo hi]
    have b: "block_size ?n = 2 ^ ?k" using f(1) False by (simp add: block_size_def)
    have "wf_net ?n" using f False "1.prems" unfolding wf_net_def b by simp
    moreover have "addrs ?n \<union> {lo + 2 ^ ?k..hi} = {lo..hi}"
      unfolding addrs_def b using f(3) False by auto
    ultimately show ?thesis using "1.IH" [OF False refl "1.prems"] False by (auto simp: summarize_range.simps [of lo hi] Let_def)
  qed (simp add: summarize_range.simps)
qed


subsection \<open>Reserved entries\<close>

text \<open>The IPv4 addresses of a list of blocks.\<close>

definition v4_blocks :: "ip_net list \<Rightarrow> nat set" where
  "v4_blocks bs = \<Union> (addrs ` {b \<in> set bs. net_ver b = V4})"

lemma v4_blocks_simps [simp]:
  "v4_blocks [] = {}" "v4_blocks [b] = (if net_ver b = V4 then addrs b else {})"
  "v4_blocks (xs @ ys) = v4_blocks xs \<union> v4_blocks ys"
  by (auto simp: v4_blocks_def)

lemma in_ranges_parse_Cons: "in_ranges x (parse_ranges (raw # ex) sep) \<longleftrightarrow>
   strip raw \<noteq> [] \<and> (\<exists>a b. parse_range sep (strip raw) = Some (a, b) \<and> a \<le> x \<and> x \<le> b) \<or> in_ranges x (parse_ranges ex sep)"
  by (auto simp: in_ranges_def parse_ranges_def map_filter_simps Let_def split: option.split)

lemma addrs_broadcast: "x \<in> addrs n \<longleftrightarrow> net_addr n \<le> x \<and> x \<le> broadcast n"
  using block_size_pos [of n] by (auto simp: addrs_def broadcast_def simp del: block_size_pos)

lemma range_blocks:
  assumes "split_once ''..'' (strip raw) = Some (lo, hi)"
  shows "(\<forall>b \<in> set (reserved_blocks raw). wf_net b \<and> net_ver b = V4)
    \<and> (x \<in> v4_blocks (reserved_blocks raw) \<longleftrightarrow> (\<exists>a b. parse_range ''..'' (strip raw) = Some (a, b) \<and> a \<le> x \<and> x \<le> b))"
proof (cases "(parse_ipv4 (strip lo), parse_ipv4 (strip hi))")
  case (Pair p q)
  show ?thesis
  proof (cases "\<exists>a b. p = Some a \<and> q = Some b")
    case True
    then obtain a b where ab: "parse_ipv4 (strip lo) = Some a" "parse_ipv4 (strip hi) = Some b" using Pair by auto
    note s = summarize_range_correct [OF parse_ipv4_bound [OF ab(2)], of a]
    have "v4_blocks (summarize_range a b) = {a..b}" unfolding v4_blocks_def using s by blast
    then show ?thesis using s ab assms by (simp add: reserved_blocks_def parse_range_def)
  qed (use Pair assms in \<open>auto simp: reserved_blocks_def parse_range_def split: option.splits\<close>)
qed

lemma net_blocks:
  assumes "split_once ''..'' (strip raw) = None" "CHR ''/'' \<in> set (strip raw)"
  shows "(\<forall>b \<in> set (reserved_blocks raw). wf_net b \<and> (net_ver b = V6 \<longrightarrow> CHR '':'' \<in> set (strip raw)))
    \<and> (x \<in> v4_blocks (reserved_blocks raw) \<longleftrightarrow> (\<exists>a b. parse_range ''..'' (strip raw) = Some (a, b) \<and> a \<le> x \<and> x \<le> b))"
proof (cases "parse_net4 (strip raw)")
  case None
  then show ?thesis
    using assms parse_net6_wf parse_net6_colon
    by (auto simp: reserved_blocks_def parse_range_def ip_network_def split: option.splits)
next
  case (Some n)
  then show ?thesis
    using assms parse_net4_wf [OF Some] by (simp add: reserved_blocks_def parse_range_def ip_network_def addrs_broadcast)
qed

lemma single_blocks:
  assumes "split_once ''..'' (strip raw) = None" "CHR ''/'' \<notin> set (strip raw)"
  shows "(\<forall>b \<in> set (reserved_blocks raw). wf_net b \<and> (net_ver b = V6 \<longrightarrow> CHR '':'' \<in> set (strip raw)))
    \<and> (x \<in> v4_blocks (reserved_blocks raw) \<longleftrightarrow>
        strip raw \<noteq> [] \<and> (\<exists>a b. parse_range ''..'' (strip raw) = Some (a, b) \<and> a \<le> x \<and> x \<le> b))"
proof (cases "parse_ipv4 (strip raw)")
  case None
  have "net_ver n = V6 \<and> wf_net n \<and> CHR '':'' \<in> set (strip raw)" if "strict_network (strip raw @ ''/32'') = Some n" for n
    using that parse_net6_wf [of "strip raw @ ''/32''"] parse_net6_colon [of "strip raw @ ''/32''"] slash32 [OF assms(2)] None
    by (auto simp: strict_network_def ip_network_def split: option.splits if_splits)
  moreover have "reserved_blocks raw = (if strip raw = [] then [] else case strict_network (strip raw @ ''/32'') of Some n \<Rightarrow> [n] | None \<Rightarrow> [])"
    using assms by (simp add: reserved_blocks_def Let_def)
  moreover have "parse_range ''..'' (strip raw) = None" using assms None by (simp add: parse_range_def)
  ultimately show ?thesis by (cases "strict_network (strip raw @ ''/32'')") simp_all
next
  case (Some a)
  have "partition_on (CHR ''/'') (strip raw @ ''/32'') = (strip raw, ''32'')"
    using assms(2) by (auto simp: partition_on_def takeWhile_append dropWhile_append)
  then have "strict_network (strip raw @ ''/32'') = Some (mk_net V4 a 32)"
    using slash32 [OF assms(2)] Some by (simp add: strict_network_def ip_network_def ip_address_def mask_down_def)
  then show ?thesis
    using assms Some wf_mk_net [of 32 V4 a] parse_ipv4_bound [OF Some]
    by (cases "strip raw = []") (auto simp: reserved_blocks_def parse_range_def Let_def)
qed

lemma reserved_blocks_correct:
  "(\<forall>b \<in> set (concat (map reserved_blocks ex)). wf_net b) \<and>
   (x \<in> v4_blocks (concat (map reserved_blocks ex)) \<longleftrightarrow> in_ranges x (parse_ranges ex ''..''))"
proof (induction ex)
  case (Cons raw ex)
  have "strip raw = [] \<Longrightarrow> reserved_blocks raw = []" by (simp add: reserved_blocks_def)
  then show ?case
    using Cons range_blocks [of raw _ _ x] net_blocks [of raw x] single_blocks [of raw x]
    unfolding in_ranges_parse_Cons
    by (cases "split_once ''..'' (strip raw)"; cases "CHR ''/'' \<in> set (strip raw)") auto
qed (simp add: in_ranges_def parse_ranges_def map_filter_simps)


lemma no_v6_blocks:
  assumes "\<forall>e \<in> set ex. CHR '':'' \<notin> set e" "b \<in> set (concat (map reserved_blocks ex))"
  shows "net_ver b = V4"
proof -
  obtain raw where raw: "raw \<in> set ex" "b \<in> set (reserved_blocks raw)" using assms(2) by auto
  have "set (strip raw) \<subseteq> set raw"
    by (auto simp: strip_def lstrip_def rstrip_def dest!: set_dropWhileD)
  then have "CHR '':'' \<notin> set (strip raw)" using assms(1) raw(1) by blast
  then show ?thesis
    using raw(2) range_blocks [of raw] net_blocks [of raw] single_blocks [of raw]
    by (cases "split_once ''..'' (strip raw)"; cases "CHR ''/'' \<in> set (strip raw)"; cases "net_ver b") auto
qed

lemma minus_blocks_total:
  assumes "\<forall>n \<in> set nets. wf_net n \<and> net_ver n = v" "\<forall>b \<in> set bs. wf_net b \<and> net_ver b = v"
  shows "\<exists>ns. minus_blocks nets bs = Inr ns"
  using assms
proof (induction bs arbitrary: nets)
  case (Cons b bs)
  then obtain nx where "minus_block b nets = Inr nx" "\<forall>m \<in> set nx. wf_net m \<and> net_ver m = v"
    using minus_block_correct [OF Cons.prems(1), of b] by auto
  with Cons show ?case by simp
qed simp

text \<open>C21. For an IPv4 transit subnet and entries without IPv6 text, the ranges of the deny rule are
  computed without error and, the network address apart, they contain exactly the addresses of the
  subnet that \<open>excludeIps\<close> does not reserve, where the reserved addresses are those the pool check of
  the control-plane address reads from the same field.\<close>

theorem deny_ranges_exact:
  assumes net: "ip_network cidr = Some net" "net_ver net = V4" and ex: "\<forall>e \<in> set ex. CHR '':'' \<notin> set e"
  shows "\<exists>rs. allocatable_ranges cidr ex = Inr rs \<and>
     (\<forall>x. x \<noteq> net_addr net \<longrightarrow>
        ((\<exists>r \<in> set rs. \<exists>n. ip_network r = Some n \<and> x \<in> addrs n)
           \<longleftrightarrow> x \<in> addrs net \<and> \<not> in_ranges x (parse_ranges ex ''..'')))"
proof -
  let ?bs = "concat (map reserved_blocks ex)"
  have n: "\<forall>n \<in> set [net]. wf_net n \<and> net_ver n = V4" using ip_network_wf [OF net(1)] net(2) by simp
  have wf: "\<forall>b \<in> set ?bs. wf_net b" using reserved_blocks_correct by blast
  then obtain ns where ns: "minus_blocks [net] ?bs = Inr ns"
    using minus_blocks_total [OF n, of ?bs] no_v6_blocks [OF ex] by blast
  from minus_blocks_correct [OF n wf ns] have v4: "\<And>m. m \<in> set ns \<Longrightarrow> wf_net m \<and> net_ver m = V4"
    and un: "\<Union> (addrs ` set ns) = addrs net - v4_blocks ?bs" by (auto simp: v4_blocks_def)
  let ?keep = "\<lambda>n. \<not> (net_len n = 32 \<and> net_addr n = net_addr net)"
  let ?rs = "map net_str (filter ?keep (sort_key (\<lambda>n. (net_addr n, net_len n)) ns))"
  have run: "allocatable_ranges cidr ex = Inr ?rs" using net(1) ns by (simp add: allocatable_ranges_def)
  have "(\<exists>r \<in> set ?rs. \<exists>n. ip_network r = Some n \<and> x \<in> addrs n) \<longleftrightarrow> x \<in> addrs net \<and> \<not> in_ranges x (parse_ranges ex ''..'')"
    if "x \<noteq> net_addr net" for x
  proof -
    have "x \<notin> addrs m" if "m \<in> set ns" "\<not> ?keep m" for m
      using v4 [OF that(1)] that(2) \<open>x \<noteq> net_addr net\<close> by (auto simp: addrs_def block_size_def)
    moreover have "ip_network (net_str m) = Some n \<longleftrightarrow> n = m" if "m \<in> set ns" for m n
      using ip_network_net_str v4 [OF that] by auto
    ultimately have "(\<exists>r \<in> set ?rs. \<exists>n. ip_network r = Some n \<and> x \<in> addrs n) \<longleftrightarrow> x \<in> \<Union> (addrs ` set ns)" by auto
    then show ?thesis using un reserved_blocks_correct [of ex x] by blast
  qed
  with run show ?thesis by blast
qed

subsection \<open>Witness\<close>

lemma demo_transit_net: "ip_network ''10.199.0.0/22'' = Some (mk_net V4 180813824 22)"
  by (simp add: net_eval)

lemma demo_excluded: "parse_ranges [''10.199.0.1..10.199.0.255''] ''..'' = [(180813825, 180814079)]"
  by (simp add: parse_ranges_def map_filter_simps parse_range_def strip_def lstrip_def rstrip_def starts_with_def
      char_class_defs net_eval Let_def)

theorem deny_ranges_exact_witness:
  "\<exists>rs. allocatable_ranges ''10.199.0.0/22'' [''10.199.0.1..10.199.0.255''] = Inr rs
     \<and> (\<exists>r \<in> set rs. \<exists>n. ip_network r = Some n \<and> 180814085 \<in> addrs n)
     \<and> \<not> (\<exists>r \<in> set rs. \<exists>n. ip_network r = Some n \<and> 180813831 \<in> addrs n)"
proof -
  obtain rs where run: "allocatable_ranges ''10.199.0.0/22'' [''10.199.0.1..10.199.0.255''] = Inr rs"
    and iff: "\<And>x. x \<noteq> 180813824 \<Longrightarrow> (\<exists>r \<in> set rs. \<exists>n. ip_network r = Some n \<and> x \<in> addrs n)
       \<longleftrightarrow> x \<in> addrs (mk_net V4 180813824 22) \<and> \<not> in_ranges x [(180813825, 180814079)]"
    using deny_ranges_exact [OF demo_transit_net, of "[''10.199.0.1..10.199.0.255'']"]
    unfolding demo_excluded by (auto simp: mask_down_def)
  have "180814085 \<in> addrs (mk_net V4 180813824 22)" by (simp add: addrs_def mask_down_def block_size_def)
  then show ?thesis using run iff [of 180814085] iff [of 180813831] by (simp add: in_ranges_def)
qed

end
