(* ===== verification/Transit.thy ===== *)
theory Transit
  imports TransitRanges Peering
begin

section \<open>The control-plane transit plane (\<open>core/tenant_transit.py\<close>)\<close>

text \<open>
  Attaching a VPC to the transit subnet, choosing and cleaning up the source address of a tenant,
  and the access rules on the subnet. The compare-and-set writes go through \<open>Cas\<close>; the calls on
  source address rules and addresses are the fields of \<open>transit_api\<close>.
\<close>

subsection \<open>Objects and calls\<close>

record snat_rule =
  sn_name :: string
  sn_labels :: "string dict"
  sn_deletionTimestamp :: "string option"
  sn_vpc :: "string option"
  sn_vpcSubnet :: "string option"
  sn_ovnEip :: "string option"

record 'w transit_api =
  vpc_objects :: "'w vpc_api"
  subnet_objects :: "('w, subnet_spec, acl list) custom_api"
  list_snat_rules :: "('w, snat_rule list) io"
  create_snat_rule :: "snat_rule \<Rightarrow> ('w, unit) io"
  delete_snat_rule :: "string \<Rightarrow> ('w, unit) io"
  release_finalizers :: "string \<Rightarrow> ('w, unit) io"
  list_transit_eips :: "('w, ovn_eip list) io"
  get_ovn_eip :: "string \<Rightarrow> ('w, ovn_eip) io"
  create_ovn_eip :: "string dict \<Rightarrow> ovn_eip \<Rightarrow> ('w, unit) io"
  delete_ovn_eip :: "string \<Rightarrow> ('w, unit) io"

definition CP_GUARD_PRIORITY :: int where
  "CP_GUARD_PRIORITY = 30000"

definition transit_subnet_name :: "env_vars \<Rightarrow> string option" where
  "transit_subnet_name env = (if truthy (env ''TENANTS_CP_TRANSIT_SUBNET'') then env ''TENANTS_CP_TRANSIT_SUBNET'' else None)"

definition cpt_eip_name :: "string \<Rightarrow> string" where
  "cpt_eip_name tenant = ''cpt-eip-'' @ tenant"

definition snat_name :: "string \<Rightarrow> string" where
  "snat_name tenant = ''cpt-snat-'' @ tenant"

definition transit_labels :: "string \<Rightarrow> string dict" where
  "transit_labels tenant = [(''kubevirt-ui.io/managed'', ''true''), (''kubevirt-ui.io/tenant'', tenant)]"

definition get_or_none :: "('w, 'a) io \<Rightarrow> ('w, 'a option) io" where
  "get_or_none m = catch_io (bind_io m (\<lambda>x. ret (Some x))) (\<lambda>e. if e = ApiException 404 then ret None else raise e)"

definition create_ignore_conflict :: "('w, unit) io \<Rightarrow> ('w, unit) io" where
  "create_ignore_conflict m = catch_io m (\<lambda>e. if e = ApiException 409 then ret () else raise e)"

definition delete_ignore_missing :: "('w, unit) io \<Rightarrow> ('w, unit) io" where
  "delete_ignore_missing m = catch_io m (\<lambda>e. if is_api e then ret () else raise e)"

subsection \<open>The attachment of the VPC\<close>

definition subnet_coords :: "string \<Rightarrow> coords" where
  "subnet_coords name = \<lparr>co_group = ''kubeovn.io'', co_version = ''v1'', co_plural = ''subnets'', co_name = name\<rparr>"

definition cp_guard :: "string \<Rightarrow> policy_route" where
  "cp_guard transit_cidr = \<lparr>pr_priority = Some CP_GUARD_PRIORITY, pr_action = Some ''allow'',
     pr_match = Some (''ip4.dst == '' @ transit_cidr)\<rparr>"

definition has_guard :: "string \<Rightarrow> policy_route list \<Rightarrow> bool" where
  "has_guard transit_cidr policies \<longleftrightarrow>
     list_ex (\<lambda>p. pr_priority p = Some CP_GUARD_PRIORITY \<and> pr_match p = pr_match (cp_guard transit_cidr)) policies"

definition attach_mutate :: "string \<Rightarrow> string \<Rightarrow> vpc_spec \<Rightarrow> vpc_patch option" where
  "attach_mutate transit_subnet transit_cidr spec =
     (let externals = or_nil (extraExternalSubnets spec);
          policies = or_nil (policyRoutes spec);
          want_external = (transit_subnet \<notin> set externals);
          want_guard = (\<not> has_guard transit_cidr policies)
      in if \<not> want_external \<and> \<not> want_guard \<and> enableExternal spec = Some True then None
         else Some (empty_vpc_patch\<lparr>
           vp_enableExternal := Some True,
           vp_extraExternalSubnets := Some (externals @ (if want_external then [transit_subnet] else [])),
           vp_policyRoutes := Some (policies @ (if want_guard then [cp_guard transit_cidr] else []))\<rparr>))"

definition attach_vpc_to_transit :: "'w transit_api \<Rightarrow> string \<Rightarrow> string \<Rightarrow> ('w, unit) io" where
  "attach_vpc_to_transit api vpc_name transit_subnet =
     bind_io (get_or_none (get_cluster_custom_object (subnet_objects api) (subnet_coords transit_subnet))) (\<lambda>subnet.
     case subnet of
       None \<Rightarrow> raise LookupError
     | Some s \<Rightarrow>
         let transit_cidr = or_nil (cidrBlock (cr_spec s))
         in if transit_cidr = [] then raise LookupError
            else bind_io (patch_spec_with_retry (vpc_objects api) None (vpc_coords vpc_name)
                   (\<lambda>spec. Inr (attach_mutate transit_subnet transit_cidr spec)) DEFAULT_RETRIES) (\<lambda>_. ret ()))"

subsection \<open>The source address\<close>

record snat_candidate =
  sc_item :: snat_rule
  sc_eip :: string
  sc_address :: string
  sc_subnet :: string

definition claims :: "string \<Rightarrow> string \<Rightarrow> string \<Rightarrow> snat_rule \<Rightarrow> bool" where
  "claims vpc_name tenant_subnet skip r \<longleftrightarrow>
     sn_name r \<noteq> skip \<and> sn_vpc r = Some vpc_name \<and> sn_vpcSubnet r = Some tenant_subnet \<and> truthy (sn_ovnEip r)"

fun resolve_rules :: "'w transit_api \<Rightarrow> snat_rule list \<Rightarrow> ('w, snat_candidate list \<times> snat_candidate list) io" where
  "resolve_rules api [] = ret ([], [])"
| "resolve_rules api (r # rs) =
     bind_io (get_or_none (get_ovn_eip api (or_nil (sn_ovnEip r)))) (\<lambda>eip.
     let address = (case eip of None \<Rightarrow> [] | Some e \<Rightarrow> or_nil (eip_v4Ip e));
         sn = (case eip of None \<Rightarrow> [] | Some e \<Rightarrow> or_nil (eip_externalSubnet e));
         c = \<lparr>sc_item = r, sc_eip = or_nil (sn_ovnEip r), sc_address = (if address = [] then ''<no address>'' else address),
              sc_subnet = (if sn = [] then ''<unknown>'' else sn)\<rparr>
     in bind_io (resolve_rules api rs) (\<lambda>(found, dangling).
          ret (if address = [] then (found, c # dangling) else (c # found, dangling))))"

definition rules_covering ::
  "'w transit_api \<Rightarrow> string \<Rightarrow> string \<Rightarrow> string \<Rightarrow> ('w, snat_candidate list \<times> snat_candidate list) io" where
  "rules_covering api vpc_name tenant_subnet skip =
     bind_io (catch_io (bind_io (list_snat_rules api) (\<lambda>items. ret (Some items)))
        (\<lambda>e. if is_api e then ret None else raise e))
      (\<lambda>items. case items of
         None \<Rightarrow> ret ([], [])
       | Some its \<Rightarrow> resolve_rules api (filter (claims vpc_name tenant_subnet skip) (sort_key sn_name its)))"

definition unwedge_if_terminating :: "'w transit_api \<Rightarrow> snat_candidate \<Rightarrow> ('w, unit) io" where
  "unwedge_if_terminating api loser =
     (if \<not> truthy (sn_deletionTimestamp (sc_item loser)) then ret ()
      else bind_io (get_or_none (get_ovn_eip api (sc_eip loser))) (\<lambda>eip.
             if eip \<noteq> None then ret ()
             else delete_ignore_missing (release_finalizers api (sn_name (sc_item loser)))))"

definition drop_losing_rule :: "'w transit_api \<Rightarrow> string \<Rightarrow> snat_candidate \<Rightarrow> ('w, unit) io" where
  "drop_losing_rule api keep_eip loser =
     bind_io (delete_ignore_missing (delete_snat_rule api (sn_name (sc_item loser)))) (\<lambda>_.
     bind_io (unwedge_if_terminating api loser) (\<lambda>_.
     if sc_eip loser \<noteq> [] \<and> sc_eip loser \<noteq> keep_eip then delete_ignore_missing (delete_ovn_eip api (sc_eip loser))
     else ret ()))"

definition new_rule :: "string \<Rightarrow> string dict \<Rightarrow> string \<Rightarrow> string \<Rightarrow> string \<Rightarrow> snat_rule" where
  "new_rule name labels eip vpc_name tenant_subnet =
     \<lparr>sn_name = name, sn_labels = labels, sn_deletionTimestamp = None, sn_vpc = Some vpc_name,
      sn_vpcSubnet = Some tenant_subnet, sn_ovnEip = Some eip\<rparr>"

definition existing_snat_address ::
  "'w transit_api \<Rightarrow> string \<Rightarrow> string \<Rightarrow> string \<Rightarrow> string \<Rightarrow> ('w, string option) io" where
  "existing_snat_address api vpc_name tenant_subnet skip transit_subnet =
     bind_io (rules_covering api vpc_name tenant_subnet skip) (\<lambda>(candidates, dangling).
     case filter (\<lambda>c. sc_subnet c = transit_subnet) candidates of
       [] \<Rightarrow>
         (case candidates of
            [] \<Rightarrow> ret None
          | first # _ \<Rightarrow> raise (TransitSnatSlotTaken (sn_name (sc_item first)) (sc_address first) (sc_subnet first)))
     | winner # extra_transit \<Rightarrow>
         let losers = extra_transit @ filter (\<lambda>c. sc_subnet c \<noteq> transit_subnet) candidates
         in bind_io (for_each (losers @ dangling) (drop_losing_rule api (sc_eip winner))) (\<lambda>_.
            bind_io (delete_ignore_missing (delete_snat_rule api (sn_name (sc_item winner)))) (\<lambda>_.
            bind_io (create_ignore_conflict (create_snat_rule api
              (new_rule (sn_name (sc_item winner)) (sn_labels (sc_item winner)) (sc_eip winner) vpc_name tenant_subnet))) (\<lambda>_.
            ret (Some (sc_address winner))))))"

definition effective_snat_address ::
  "'w transit_api \<Rightarrow> string \<Rightarrow> string \<Rightarrow> string \<Rightarrow> ('w, string option) io" where
  "effective_snat_address api vpc_name tenant_subnet transit_subnet =
     bind_io (rules_covering api vpc_name tenant_subnet []) (\<lambda>(candidates, dangling).
     ret (case filter (\<lambda>c. sc_subnet c = transit_subnet) candidates of [] \<Rightarrow> None | c # _ \<Rightarrow> Some (sc_address c)))"

definition tenant_rule :: "string \<Rightarrow> string \<Rightarrow> string \<Rightarrow> snat_rule" where
  "tenant_rule tenant vpc_name tenant_subnet =
     new_rule (snat_name tenant) (transit_labels tenant) (cpt_eip_name tenant) vpc_name tenant_subnet"

definition ensure_tenant_snat ::
  "'w transit_api \<Rightarrow> string \<Rightarrow> string \<Rightarrow> string \<Rightarrow> string \<Rightarrow> ('w, string option) io" where
  "ensure_tenant_snat api tenant vpc_name tenant_subnet transit_subnet =
     bind_io (existing_snat_address api vpc_name tenant_subnet (snat_name tenant) transit_subnet) (\<lambda>inherited.
     if truthy inherited then ret inherited
     else
       bind_io (create_ignore_conflict (create_ovn_eip api (transit_labels tenant @ [(''kubevirt-ui.io/vpc'', vpc_name)])
         \<lparr>eip_name = cpt_eip_name tenant, eip_type = Some ''nat'', eip_externalSubnet = Some transit_subnet, eip_v4Ip = None\<rparr>)) (\<lambda>_.
       bind_io (create_ignore_conflict (create_snat_rule api (tenant_rule tenant vpc_name tenant_subnet))) (\<lambda>_.
       bind_io (get_or_none (get_ovn_eip api (cpt_eip_name tenant))) (\<lambda>item.
       ret (case item of None \<Rightarrow> None | Some e \<Rightarrow> if truthy (eip_v4Ip e) then eip_v4Ip e else None)))))"

definition recreate_snat_rule :: "'w transit_api \<Rightarrow> string \<Rightarrow> string \<Rightarrow> string \<Rightarrow> ('w, unit) io" where
  "recreate_snat_rule api tenant vpc_name tenant_subnet =
     bind_io (delete_ignore_missing (delete_snat_rule api (snat_name tenant))) (\<lambda>_.
     create_ignore_conflict (create_snat_rule api (tenant_rule tenant vpc_name tenant_subnet)))"

subsection \<open>The access rules\<close>

definition allow_match :: "string \<Rightarrow> string \<Rightarrow> string \<Rightarrow> int \<Rightarrow> string" where
  "allow_match eip vip proto port =
     ''ip4.src == '' @ eip @ '' && ip4.dst == '' @ vip @ '' && '' @ proto @ ''.dst == '' @ int_str port"

definition allow_acl :: "string \<Rightarrow> string \<Rightarrow> string \<Rightarrow> int \<Rightarrow> acl" where
  "allow_acl eip vip proto port =
     \<lparr>acl_action = Some ''allow-related'', acl_direction = Some ''from-lport'',
      acl_priority = Some TRANSIT_ALLOW_PRIORITY, acl_match = Some (allow_match eip vip proto port)\<rparr>"

definition build_transit_acls :: "string \<Rightarrow> string \<Rightarrow> int list \<Rightarrow> int list \<Rightarrow> acl list" where
  "build_transit_acls eip vip ports udp_ports =
     concat (map (\<lambda>(proto, plist). map (allow_acl eip vip proto) (filter (\<lambda>port. port \<noteq> 0) plist))
       [(''tcp'', ports), (''udp'', udp_ports)])"

text \<open>\<open>re.search(r"ip4\.src\s*==\s*([0-9.]+)\b", match)\<close>: at the first position that matches, the
  group is the longest run of digits and dots that ends at a word boundary.\<close>

definition is_word :: "char \<Rightarrow> bool" where
  "is_word c \<longleftrightarrow> is_digit c \<or> is_lower c \<or> is_upper c \<or> c = CHR ''_''"

definition word_at :: "string \<Rightarrow> nat \<Rightarrow> bool" where
  "word_at s k \<longleftrightarrow> k < length s \<and> is_word (s ! k)"

definition group_at :: "string \<Rightarrow> string option" where
  "group_at s =
     (let n = length (takeWhile (\<lambda>c. is_digit c \<or> c = CHR ''.'') s)
      in map_option (\<lambda>k. take k s) (find (\<lambda>k. word_at s (k - 1) \<noteq> word_at s k) (rev [1..<Suc n])))"

definition source_at :: "string \<Rightarrow> string option" where
  "source_at s =
     (if starts_with ''ip4.src'' s then
        (let r = lstrip is_space (drop 7 s)
         in if starts_with ''=='' r then group_at (lstrip is_space (drop 2 r)) else None)
      else None)"

fun allow_source :: "string \<Rightarrow> string option" where
  "allow_source [] = None"
| "allow_source (c # cs) = (case source_at (c # cs) of Some g \<Rightarrow> Some g | None \<Rightarrow> allow_source cs)"

definition live_transit_addresses :: "'w transit_api \<Rightarrow> string \<Rightarrow> ('w, string list option) io" where
  "live_transit_addresses api transit_subnet =
     catch_io (bind_io (list_transit_eips api) (\<lambda>items.
        ret (Some (filter (\<lambda>a. a \<noteq> []) (map (\<lambda>e. or_nil (eip_v4Ip e))
          (filter (\<lambda>e. eip_externalSubnet e = Some transit_subnet) items))))))
       (\<lambda>e. if is_api e then ret None else raise e)"

definition keep_live :: "string list option \<Rightarrow> acl list \<Rightarrow> acl list" where
  "keep_live live as =
     (case live of
        None \<Rightarrow> as
      | Some l \<Rightarrow> filter (\<lambda>a. acl_priority a \<noteq> Some TRANSIT_ALLOW_PRIORITY
            \<or> or_nil (allow_source (or_nil (acl_match a))) \<in> set l) as)"

definition has_deny :: "acl list \<Rightarrow> bool" where
  "has_deny as \<longleftrightarrow> list_ex (\<lambda>a. acl_action a = Some ''drop'' \<and> acl_priority a = Some TRANSIT_DENY_PRIORITY) as"

definition add_deny :: "subnet_spec \<Rightarrow> acl list \<Rightarrow> exc + acl list" where
  "add_deny spec as =
     (let cidr = or_nil (cidrBlock spec)
      in if cidr \<noteq> [] \<and> \<not> has_deny as
         then map_sum id (\<lambda>d. as @ [d]) (build_transit_deny cidr (or_nil (excludeIps spec)))
         else Inr as)"

definition ensure_acls_mutate :: "string list option \<Rightarrow> acl list \<Rightarrow> subnet_spec \<Rightarrow> exc + acl list option" where
  "ensure_acls_mutate live wanted spec =
     (let before = or_nil (acls spec)
      in case add_deny spec (keep_live live before) of
           Inl e \<Rightarrow> Inl e
         | Inr as \<Rightarrow>
             let new = as @ filter (\<lambda>a. a \<notin> set as) wanted
             in Inr (if new = before then None else Some new))"

definition ensure_transit_acls ::
  "'w transit_api \<Rightarrow> string \<Rightarrow> string \<Rightarrow> string \<Rightarrow> int list \<Rightarrow> int list \<Rightarrow> ('w, unit) io" where
  "ensure_transit_acls api transit_subnet eip vip ports udp_ports =
     (let wanted = build_transit_acls eip vip ports udp_ports
      in if wanted = [] then ret ()
         else bind_io (live_transit_addresses api transit_subnet) (\<lambda>live.
              bind_io (patch_spec_with_retry (subnet_objects api) None (subnet_coords transit_subnet)
                 (ensure_acls_mutate (map_option (Cons eip) live) wanted) DEFAULT_RETRIES) (\<lambda>_. ret ())))"

definition remove_acls_mutate :: "string \<Rightarrow> subnet_spec \<Rightarrow> exc + acl list option" where
  "remove_acls_mutate eip_address spec =
     (let as = or_nil (acls spec);
          remaining = filter (\<lambda>a. \<not> contains_str (''ip4.src == '' @ eip_address @ '' '') (or_nil (acl_match a))) as
      in Inr (if length remaining = length as then None else Some remaining))"

definition remove_tenant_transit :: "'w transit_api \<Rightarrow> string \<Rightarrow> string \<Rightarrow> string option \<Rightarrow> ('w, unit) io" where
  "remove_tenant_transit api tenant transit_subnet eip_address =
     bind_io (delete_ignore_missing (delete_snat_rule api (snat_name tenant))) (\<lambda>_.
     bind_io (delete_ignore_missing (delete_ovn_eip api (cpt_eip_name tenant))) (\<lambda>_.
     if \<not> truthy eip_address then ret ()
     else bind_io (patch_spec_with_retry (subnet_objects api) None (subnet_coords transit_subnet)
            (remove_acls_mutate (or_nil eip_address)) DEFAULT_RETRIES) (\<lambda>_. ret ())))"

subsection \<open>The text of the access rules\<close>

text \<open>The text of an address: digits and dots, with a digit at the end.\<close>

definition addr_text :: "string \<Rightarrow> bool" where
  "addr_text e \<longleftrightarrow> e \<noteq> [] \<and> list_all (\<lambda>c. is_digit c \<or> c = CHR ''.'') e \<and> is_digit (last e)"

lemma addr_text_ipv4: "addr_text (ipv4_str a)"
proof -
  have "ipv4_str a = (nat_str (a div 2 ^ 24 mod 256) @ ''.'' @ nat_str (a div 2 ^ 16 mod 256) @ ''.''
     @ nat_str (a div 2 ^ 8 mod 256) @ ''.'') @ nat_str (a mod 256)" by (simp add: ipv4_str_def)
  moreover have "is_digit (last (nat_str (a mod 256)))" using nat_str_set [of _ "a mod 256"] by (metis last_in_set nat_str_ne)
  ultimately have "is_digit (last (ipv4_str a))" "ipv4_str a \<noteq> []" by simp_all
  then show ?thesis using ipv4_str_chars by (auto simp: addr_text_def list_all_iff)
qed

lemma addr_text_facts:
  assumes "addr_text e"
  shows "e \<noteq> []" "CHR '' '' \<notin> set e" "CHR ''r'' \<notin> set e" "\<not> is_space (hd e)" "is_digit (last e)"
proof -
  have "\<forall>c \<in> set e. is_digit c \<or> c = CHR ''.''" "e \<noteq> []" using assms by (auto simp: addr_text_def list_all_iff)
  then show "e \<noteq> []" "CHR '' '' \<notin> set e" "CHR ''r'' \<notin> set e" "\<not> is_space (hd e)" "is_digit (last e)"
    using assms hd_in_set [of e] by (fastforce simp: addr_text_def char_class_defs)+
qed

lemma group_at_address:
  assumes "addr_text e"
  shows "group_at (e @ CHR '' '' # r) = Some e"
proof -
  let ?s = "e @ CHR '' '' # r"
  have tw: "takeWhile (\<lambda>c. is_digit c \<or> c = CHR ''.'') ?s = e"
    using assms by (auto simp: addr_text_def list_all_iff char_class_defs takeWhile_append)
  have "word_at ?s (length e - 1)" "\<not> word_at ?s (length e)"
    using addr_text_facts [OF assms] by (auto simp: word_at_def is_word_def nth_append last_conv_nth char_class_defs)
  moreover have "rev [1..<Suc (length e)] = length e # rev [1..<length e]"
    using addr_text_facts(1) [OF assms] by (cases e) auto
  ultimately show ?thesis unfolding group_at_def Let_def tw by simp
qed

lemma allow_source_match:
  assumes "addr_text e"
  shows "allow_source (allow_match e vip proto port) = Some e"
proof -
  obtain r where m: "allow_match e vip proto port = ''ip4.src == '' @ e @ CHR '' '' # r" by (simp add: allow_match_def)
  have "lstrip is_space (e @ CHR '' '' # r) = e @ CHR '' '' # r"
    using addr_text_facts [OF assms] by (cases e) (auto simp: lstrip_def)
  then have "source_at (allow_match e vip proto port) = Some e"
    using group_at_address [OF assms]
    by (simp add: m source_at_def starts_with_def lstrip_def is_space_def numeral_eq_Suc)
  then show ?thesis by (simp add: m)
qed

lemma allow_match_contains:
  assumes "addr_text e" "addr_text e'" "addr_text vip" "proto \<in> {''tcp'', ''udp''}"
  shows "contains_str (''ip4.src == '' @ e @ '' '') (allow_match e' vip proto port) \<longleftrightarrow> e = e'"
proof
  let ?rest = "''c == '' @ e' @ '' && ip4.dst == '' @ vip @ '' && '' @ proto @ ''.dst == '' @ int_str port"
  have m: "allow_match e' vip proto port = ''ip4.s'' @ CHR ''r'' # ?rest" by (simp add: allow_match_def)
  have "CHR ''r'' \<notin> set (int_str port)" by (auto simp: int_str_def dest: nat_str_set simp: char_class_defs)
  then have no: "CHR ''r'' \<notin> set ?rest" using addr_text_facts(3) [OF assms(2)] addr_text_facts(3) [OF assms(3)] assms(4) by auto
  assume "contains_str (''ip4.src == '' @ e @ '' '') (allow_match e' vip proto port)"
  then obtain u v where "''ip4.s'' @ CHR ''r'' # ?rest = u @ (''ip4.src == '' @ e @ '' '') @ v"
    unfolding contains_str_iff m by blast
  then have "''ip4.s'' @ CHR ''r'' # ?rest = (u @ ''ip4.s'') @ CHR ''r'' # ''c == '' @ e @ '' '' @ v" by simp
  then have "?rest = ''c == '' @ e @ '' '' @ v"
    using no by (subst (asm) append_Cons_eq_iff) auto
  then have eq: "e' @ CHR '' '' # (''&& ip4.dst == '' @ vip @ '' && '' @ proto @ ''.dst == '' @ int_str port) = e @ CHR '' '' # v" by simp
  have "e' = takeWhile (\<lambda>c. c \<noteq> CHR '' '') (e' @ CHR '' '' # (''&& ip4.dst == '' @ vip @ '' && '' @ proto @ ''.dst == '' @ int_str port))"
    using addr_text_facts(2) [OF assms(2)] by (subst takeWhile_append2) auto
  also have "\<dots> = e" unfolding eq using addr_text_facts(2) [OF assms(1)] by (subst takeWhile_append2) auto
  finally show "e = e'" by simp
next
  assume "e = e'"
  then show "contains_str (''ip4.src == '' @ e @ '' '') (allow_match e' vip proto port)"
    unfolding contains_str_iff by - (rule exI [of _ "[]"], simp add: allow_match_def)
qed


subsection \<open>The rules after a write\<close>

text \<open>What the access rules of the transit subnet have to be for a tenant with the rules \<open>wanted\<close>:
  all of them present, no allow for a source outside \<open>live\<close>, and the deny in place.\<close>

definition transit_ok :: "string list option \<Rightarrow> acl list \<Rightarrow> subnet_spec \<Rightarrow> bool" where
  "transit_ok live wanted spec \<longleftrightarrow>
     set wanted \<subseteq> set (or_nil (acls spec))
   \<and> (\<forall>a \<in> set (or_nil (acls spec)). acl_priority a = Some TRANSIT_ALLOW_PRIORITY \<longrightarrow>
        (case live of None \<Rightarrow> True | Some l \<Rightarrow> or_nil (allow_source (or_nil (acl_match a))) \<in> set l))
   \<and> (truthy (cidrBlock spec) \<longrightarrow> has_deny (or_nil (acls spec)))"

text \<open>The rules that are not allows of the transit plane.\<close>

definition other_acls :: "subnet_spec \<Rightarrow> acl set" where
  "other_acls spec = {a \<in> set (or_nil (acls spec)). acl_priority a \<noteq> Some TRANSIT_ALLOW_PRIORITY}"

lemma build_deny_fields:
  assumes "build_transit_deny cidr ex = Inr d"
  shows "acl_action d = Some ''drop'' \<and> acl_priority d = Some TRANSIT_DENY_PRIORITY"
  using assms by (auto simp: build_transit_deny_def split: sum.splits option.splits)

lemma add_deny_correct:
  assumes "add_deny spec as = Inr as'"
  shows "set as \<subseteq> set as'" "truthy (cidrBlock spec) \<Longrightarrow> has_deny as'"
    "\<forall>a \<in> set as' - set as. acl_priority a = Some TRANSIT_DENY_PRIORITY"
  using assms by (cases "build_transit_deny (or_nil (cidrBlock spec)) (or_nil (excludeIps spec))";
    auto simp: add_deny_def Let_def truthy_def has_deny_def split: if_splits dest: build_deny_fields)+

lemma priorities_differ: "TRANSIT_ALLOW_PRIORITY \<noteq> TRANSIT_DENY_PRIORITY"
  by (simp add: TRANSIT_ALLOW_PRIORITY_def TRANSIT_DENY_PRIORITY_def)

lemma new_rules_ok:
  assumes "add_deny spec (keep_live live (or_nil (acls spec))) = Inr as"
    and "new = as @ filter (\<lambda>a. a \<notin> set as) wanted"
    and "\<forall>a \<in> set wanted. case live of None \<Rightarrow> True | Some l \<Rightarrow> or_nil (allow_source (or_nil (acl_match a))) \<in> set l"
    and "or_nil (acls spec') = new" "cidrBlock spec' = cidrBlock spec"
  shows "transit_ok live wanted spec' \<and> other_acls spec \<subseteq> other_acls spec'"
proof -
  note d = add_deny_correct [OF assms(1)]
  have kept: "a \<in> set (keep_live live (or_nil (acls spec)))"
    if "a \<in> set (or_nil (acls spec))" "acl_priority a \<noteq> Some TRANSIT_ALLOW_PRIORITY" for a
    using that by (simp add: keep_live_def split: option.splits)
  have live: "case live of None \<Rightarrow> True | Some l \<Rightarrow> or_nil (allow_source (or_nil (acl_match a))) \<in> set l"
    if "a \<in> set as" "acl_priority a = Some TRANSIT_ALLOW_PRIORITY" for a
  proof -
    have "acl_priority a \<noteq> Some TRANSIT_DENY_PRIORITY" using that(2) priorities_differ by simp
    then have "a \<in> set (keep_live live (or_nil (acls spec)))" using that(1) d(3) by blast
    then show ?thesis using that(2) by (auto simp: keep_live_def split: option.splits)
  qed
  have "truthy (cidrBlock spec') \<Longrightarrow> has_deny new" using d(2) assms(2,5) by (auto simp: has_deny_def)
  then show ?thesis
    using d(1) kept live assms(2-4) by (auto simp: transit_ok_def other_acls_def)
qed

lemma ensure_mutate_ok:
  assumes "\<forall>a \<in> set wanted. case live of None \<Rightarrow> True | Some l \<Rightarrow> or_nil (allow_source (or_nil (acl_match a))) \<in> set l"
    and "ensure_acls_mutate live wanted spec = Inr r"
    and "spec' = (case r of None \<Rightarrow> spec | Some p \<Rightarrow> merge_acls spec p)"
  shows "transit_ok live wanted spec' \<and> other_acls spec \<subseteq> other_acls spec'"
proof -
  from assms(2) obtain as where as: "add_deny spec (keep_live live (or_nil (acls spec))) = Inr as"
    and r: "r = (let new = as @ filter (\<lambda>a. a \<notin> set as) wanted in if new = or_nil (acls spec) then None else Some new)"
    by (auto simp: ensure_acls_mutate_def Let_def split: sum.splits)
  show ?thesis
    by (rule new_rules_ok [OF as refl assms(1)]) (auto simp: assms(3) r Let_def merge_acls_def)
qed

abbreviation subnet_cas ::
  "('w \<Rightarrow> 'w \<Rightarrow> bool) \<Rightarrow> ('w \<Rightarrow> (subnet_spec \<times> string) option) \<Rightarrow> 'w transit_api \<Rightarrow> string \<Rightarrow> bool" where
  "subnet_cas rely cur api name \<equiv>
     cas_object rely cur (cas_get (subnet_objects api) None (subnet_coords name))
       (cas_patch (subnet_objects api) None (subnet_coords name)) merge_acls"

lemma built_rules: "a \<in> set (build_transit_acls eip vip ports udp) \<longleftrightarrow>
   (\<exists>proto port. a = allow_acl eip vip proto port \<and> port \<noteq> 0 \<and> (proto = ''tcp'' \<and> port \<in> set ports \<or> proto = ''udp'' \<and> port \<in> set udp))"
  by (auto simp: build_transit_acls_def)

text \<open>C22. After \<open>ensure_transit_acls\<close> the transit subnet, unless it is gone, has every rule of the tenant,
  the deny they are exceptions to, and no allow whose source is an address that no listed
  EIP on the subnet holds; the rules that are not allows are kept. This holds whatever other writers
  do while the call runs.\<close>

theorem ensure_transit_acls_correct:
  assumes law: "subnet_cas rely cur api transit_subnet" and "addr_text eip"
    and eips: "list_transit_eips api w = (Inr eips, w0)"
    and wanted: "build_transit_acls eip vip ports udp_ports \<noteq> []"
    and run: "ensure_transit_acls api transit_subnet eip vip ports udp_ports w = (Inr (), w')"
  shows "cur w' = None \<or> (\<exists>w1 d v d' v'. rely w0 w1 \<and> cur w1 = Some (d, v) \<and> cur w' = Some (d', v')
     \<and> transit_ok (Some (eip # filter (\<lambda>a. a \<noteq> []) (map (\<lambda>e. or_nil (eip_v4Ip e))
          (filter (\<lambda>e. eip_externalSubnet e = Some transit_subnet) eips)))) (build_transit_acls eip vip ports udp_ports) d'
     \<and> other_acls d \<subseteq> other_acls d')"
proof -
  let ?wanted = "build_transit_acls eip vip ports udp_ports"
  let ?live = "Some (eip # filter (\<lambda>a. a \<noteq> []) (map (\<lambda>e. or_nil (eip_v4Ip e))
          (filter (\<lambda>e. eip_externalSubnet e = Some transit_subnet) eips)))"
  have own: "\<forall>a \<in> set ?wanted. case ?live of None \<Rightarrow> True | Some l \<Rightarrow> or_nil (allow_source (or_nil (acl_match a))) \<in> set l"
    by (auto simp: built_rules allow_acl_def allow_source_match [OF assms(2)])
  from run eips wanted obtain ok where
    "patch_spec_with_retry (subnet_objects api) None (subnet_coords transit_subnet) (ensure_acls_mutate ?live ?wanted) DEFAULT_RETRIES w0 = (Inr ok, w')"
    by (auto simp: ensure_transit_acls_def live_transit_addresses_def bind_io_def catch_io_def Let_def split: prod.splits sum.splits)
  from patch_spec_with_retry_leaves [OF law _ this] show ?thesis
    using ensure_mutate_ok [OF own] by (simp add: DEFAULT_RETRIES_def) blast
qed

subsection \<open>The attachment\<close>

definition attached :: "string \<Rightarrow> string \<Rightarrow> vpc_spec \<Rightarrow> bool" where
  "attached transit_subnet transit_cidr spec \<longleftrightarrow>
     transit_subnet \<in> set (or_nil (extraExternalSubnets spec)) \<and> has_guard transit_cidr (or_nil (policyRoutes spec))
   \<and> enableExternal spec = Some True"

lemma attach_mutate_ok:
  assumes "spec' = (case attach_mutate sn cidr spec of None \<Rightarrow> spec | Some p \<Rightarrow> merge_vpc spec p)"
  shows "attached sn cidr spec' \<and> set (or_nil (extraExternalSubnets spec)) \<subseteq> set (or_nil (extraExternalSubnets spec'))
    \<and> set (or_nil (policyRoutes spec)) \<subseteq> set (or_nil (policyRoutes spec'))
    \<and> vpcPeerings spec' = vpcPeerings spec \<and> staticRoutes spec' = staticRoutes spec"
  unfolding assms
  by (auto simp: attach_mutate_def attached_def Let_def merge_vpc_def or_else_def empty_vpc_patch_def has_guard_def cp_guard_def)

text \<open>After \<open>attach_vpc_to_transit\<close> the VPC, unless it is gone, is on the transit subnet with the
  control-plane guard in place, and nothing it had (external subnets, policy routes, peerings, static
  routes) is lost.\<close>

theorem attach_vpc_to_transit_correct:
  assumes law: "cas_object rely cur (cas_get (vpc_objects api) None (vpc_coords vpc)) (cas_patch (vpc_objects api) None (vpc_coords vpc)) merge_vpc"
    and sn: "get_cluster_custom_object (subnet_objects api) (subnet_coords transit_subnet) w = (Inr s, w0)"
    and run: "attach_vpc_to_transit api vpc transit_subnet w = (Inr (), w')"
  shows "cur w' = None \<or> (\<exists>w1 d v d' v'. rely w0 w1 \<and> cur w1 = Some (d, v) \<and> cur w' = Some (d', v')
     \<and> attached transit_subnet (or_nil (cidrBlock (cr_spec s))) d'
     \<and> set (or_nil (extraExternalSubnets d)) \<subseteq> set (or_nil (extraExternalSubnets d'))
     \<and> set (or_nil (policyRoutes d)) \<subseteq> set (or_nil (policyRoutes d'))
     \<and> vpcPeerings d' = vpcPeerings d \<and> staticRoutes d' = staticRoutes d)"
proof -
  from run sn obtain ok where
    "patch_spec_with_retry (vpc_objects api) None (vpc_coords vpc)
       (\<lambda>spec. Inr (attach_mutate transit_subnet (or_nil (cidrBlock (cr_spec s))) spec)) DEFAULT_RETRIES w0 = (Inr ok, w')"
    by (auto simp: attach_vpc_to_transit_def get_or_none_def bind_io_def catch_io_def Let_def split: prod.splits sum.splits if_splits)
  from patch_spec_with_retry_leaves [OF law _ this] show ?thesis
    using attach_mutate_ok by (simp add: DEFAULT_RETRIES_def) blast
qed

subsection \<open>The removal\<close>

lemma delete_ignore_rely:
  assumes "\<forall>w r w'. m w = (r, w') \<longrightarrow> rely w w'" "delete_ignore_missing m w = (r, w')"
  shows "rely w w'"
  using assms by (auto simp: delete_ignore_missing_def catch_io_def split: prod.splits sum.splits if_splits)

lemma filter_length_eq: "length (filter P xs) = length xs \<longleftrightarrow> filter P xs = xs"
  by (metis filter_id_conv length_filter_less linorder_neq_iff)

lemma remove_acls_result:
  assumes "remove_acls_mutate eip spec = Inr r" "spec' = (case r of None \<Rightarrow> spec | Some p \<Rightarrow> merge_acls spec p)"
  shows "or_nil (acls spec') = filter (\<lambda>a. \<not> contains_str (''ip4.src == '' @ eip @ '' '') (or_nil (acl_match a))) (or_nil (acls spec))"
  using assms by (auto simp: remove_acls_mutate_def Let_def merge_acls_def filter_length_eq split: if_splits)

text \<open>C24. \<open>remove_tenant_transit\<close> drops exactly the allows of the given address: the allow of any other
  address, also one that has the given address as a prefix, is kept.\<close>

theorem remove_tenant_transit_exact:
  assumes law: "subnet_cas rely cur api transit_subnet" and "addr_text eip"
    and other: "\<forall>n w r w'. delete_snat_rule api n w = (r, w') \<longrightarrow> rely w w'" "\<forall>n w r w'. delete_ovn_eip api n w = (r, w') \<longrightarrow> rely w w'"
    and run: "remove_tenant_transit api tenant transit_subnet (Some eip) w = (Inr (), w')"
  shows "cur w' = None \<or> (\<exists>w1 d v d' v'. rely w w1 \<and> cur w1 = Some (d, v) \<and> cur w' = Some (d', v')
     \<and> set (or_nil (acls d')) \<subseteq> set (or_nil (acls d))
     \<and> (\<forall>e vip proto port. addr_text e \<and> addr_text vip \<and> proto \<in> {''tcp'', ''udp''} \<longrightarrow>
          (allow_acl e vip proto port \<in> set (or_nil (acls d')) \<longleftrightarrow> allow_acl e vip proto port \<in> set (or_nil (acls d)) \<and> e \<noteq> eip)))"
proof -
  have ne: "eip \<noteq> []" using addr_text_facts(1) assms(2) by blast
  from run ne obtain w1 w2 ok where del: "delete_ignore_missing (delete_snat_rule api (snat_name tenant)) w = (Inr (), w1)"
      "delete_ignore_missing (delete_ovn_eip api (cpt_eip_name tenant)) w1 = (Inr (), w2)"
    and p: "patch_spec_with_retry (subnet_objects api) None (subnet_coords transit_subnet) (remove_acls_mutate eip) DEFAULT_RETRIES w2 = (Inr ok, w')"
    by (auto simp: remove_tenant_transit_def bind_io_Inr)
  have r: "rely w w2"
    using delete_ignore_rely [OF _ del(1), of rely] delete_ignore_rely [OF _ del(2), of rely] other cas_objectD(2) [OF law] by blast
  have acl: "acl_match (allow_acl e vip proto port) = Some (allow_match e vip proto port)" for e vip proto port
    by (simp add: allow_acl_def)
  have kept: "set (or_nil (acls d')) \<subseteq> set (or_nil (acls d)) \<and>
     (\<forall>e vip proto port. addr_text e \<and> addr_text vip \<and> proto \<in> {''tcp'', ''udp''} \<longrightarrow>
          (allow_acl e vip proto port \<in> set (or_nil (acls d')) \<longleftrightarrow> allow_acl e vip proto port \<in> set (or_nil (acls d)) \<and> e \<noteq> eip))"
    if "remove_acls_mutate eip d = Inr q" "d' = (case q of None \<Rightarrow> d | Some p \<Rightarrow> merge_acls d p)" for d q d'
    unfolding remove_acls_result [OF that] using allow_match_contains [OF assms(2)] by (auto simp: acl)
  from patch_spec_with_retry_leaves [OF law _ p] consider "cur w' = None"
    | w3 d v q v' where "rely w2 w3" "cur w3 = Some (d, v)" "remove_acls_mutate eip d = Inr q"
        "cur w' = Some (case q of None \<Rightarrow> d | Some p \<Rightarrow> merge_acls d p, v')"
    by (auto simp: DEFAULT_RETRIES_def)
  then show ?thesis
  proof cases
    case 2
    then show ?thesis using kept [OF 2(3) refl] cas_objectD(2) [OF law r] by blast
  qed simp
qed

subsection \<open>The contest for the source address\<close>

text \<open>A cluster with one writer where a deleted object is gone at once: \<open>rules\<close> and \<open>eips\<close> are the
  stored source address rules and addresses.\<close>

definition find_eip :: "string \<Rightarrow> ovn_eip list \<Rightarrow> ovn_eip option" where
  "find_eip n es = find (\<lambda>e. eip_name e = n) es"

definition snat_store :: "('w \<Rightarrow> snat_rule list) \<Rightarrow> ('w \<Rightarrow> ovn_eip list) \<Rightarrow> 'w transit_api \<Rightarrow> bool" where
  "snat_store rules eips api \<longleftrightarrow>
     (\<forall>w. list_snat_rules api w = (Inr (rules w), w))
   \<and> (\<forall>n w. get_ovn_eip api n w = (case find_eip n (eips w) of None \<Rightarrow> Inl (ApiException 404) | Some e \<Rightarrow> Inr e, w))
   \<and> (\<forall>n w r w'. delete_snat_rule api n w = (r, w') \<longrightarrow> r \<in> {Inr (), Inl (ApiException 404)}
        \<and> rules w' = filter (\<lambda>x. sn_name x \<noteq> n) (rules w) \<and> eips w' = eips w)
   \<and> (\<forall>n w r w'. delete_ovn_eip api n w = (r, w') \<longrightarrow> r \<in> {Inr (), Inl (ApiException 404)}
        \<and> rules w' = rules w \<and> eips w' = filter (\<lambda>e. eip_name e \<noteq> n) (eips w))
   \<and> (\<forall>n w r w'. release_finalizers api n w = (r, w') \<longrightarrow> r \<in> {Inr (), Inl (ApiException 404)}
        \<and> rules w' = rules w \<and> eips w' = eips w)
   \<and> (\<forall>b w. if sn_name b \<in> sn_name ` set (rules w) then create_snat_rule api b w = (Inl (ApiException 409), w)
        else \<exists>w'. create_snat_rule api b w = (Inr (), w') \<and> rules w' = rules w @ [b] \<and> eips w' = eips w)"

text \<open>The candidate of a rule, from the stored addresses.\<close>

definition eip_of :: "ovn_eip list \<Rightarrow> snat_rule \<Rightarrow> ovn_eip option" where
  "eip_of es r = find_eip (or_nil (sn_ovnEip r)) es"

definition address_of :: "ovn_eip list \<Rightarrow> snat_rule \<Rightarrow> string" where
  "address_of es r = (case eip_of es r of None \<Rightarrow> [] | Some e \<Rightarrow> or_nil (eip_v4Ip e))"

definition network_of :: "ovn_eip list \<Rightarrow> snat_rule \<Rightarrow> string" where
  "network_of es r = (case eip_of es r of None \<Rightarrow> [] | Some e \<Rightarrow> or_nil (eip_externalSubnet e))"

definition candidate_of :: "ovn_eip list \<Rightarrow> snat_rule \<Rightarrow> snat_candidate" where
  "candidate_of es r = \<lparr>sc_item = r, sc_eip = or_nil (sn_ovnEip r),
     sc_address = (if address_of es r = [] then ''<no address>'' else address_of es r),
     sc_subnet = (if network_of es r = [] then ''<unknown>'' else network_of es r)\<rparr>"

lemma candidate_of_simps [simp]: "sc_item (candidate_of es r) = r" "sc_eip (candidate_of es r) = or_nil (sn_ovnEip r)"
  by (simp_all add: candidate_of_def)

lemma get_or_none_found:
  assumes "snat_store rules eips api"
  shows "get_or_none (get_ovn_eip api n) w = (Inr (find_eip n (eips w)), w)"
  using assms by (auto simp: snat_store_def get_or_none_def catch_io_def bind_io_def split: option.splits)

lemma resolve_rules_result:
  assumes "snat_store rules eips api"
  shows "resolve_rules api rs w =
     (Inr (map (candidate_of (eips w)) (filter (\<lambda>r. address_of (eips w) r \<noteq> []) rs),
           map (candidate_of (eips w)) (filter (\<lambda>r. address_of (eips w) r = []) rs)), w)"
proof (induction rs)
  case (Cons r rs)
  then show ?case
    by (simp add: bind_io_def get_or_none_found [OF assms] Let_def candidate_of_def address_of_def network_of_def eip_of_def)
qed simp

abbreviation claimants :: "string \<Rightarrow> string \<Rightarrow> string \<Rightarrow> snat_rule list \<Rightarrow> snat_rule list" where
  "claimants vpc sn skip rs \<equiv> filter (claims vpc sn skip) (sort_key sn_name rs)"

lemma rules_covering_result:
  assumes "snat_store rules eips api"
  shows "rules_covering api vpc sn skip w =
     (Inr (map (candidate_of (eips w)) (filter (\<lambda>r. address_of (eips w) r \<noteq> []) (claimants vpc sn skip (rules w))),
           map (candidate_of (eips w)) (filter (\<lambda>r. address_of (eips w) r = []) (claimants vpc sn skip (rules w)))), w)"
proof -
  have "list_snat_rules api w = (Inr (rules w), w)" using assms by (simp add: snat_store_def)
  then show ?thesis by (simp add: rules_covering_def bind_io_def catch_io_def resolve_rules_result [OF assms])
qed

lemma delete_ignore_missing_ok: "m w = (r, w') \<Longrightarrow> r \<in> {Inr (), Inl (ApiException 404)} \<Longrightarrow> delete_ignore_missing m w = (Inr (), w')"
  by (auto simp: delete_ignore_missing_def catch_io_def)

lemma delete_rule_effect:
  assumes "snat_store rules eips api"
  obtains w' where "delete_ignore_missing (delete_snat_rule api n) w = (Inr (), w')"
    "rules w' = filter (\<lambda>x. sn_name x \<noteq> n) (rules w)" "eips w' = eips w"
proof -
  obtain r w' where d: "delete_snat_rule api n w = (r, w')" by (cases "delete_snat_rule api n w")
  then have "r \<in> {Inr (), Inl (ApiException 404)} \<and> rules w' = filter (\<lambda>x. sn_name x \<noteq> n) (rules w) \<and> eips w' = eips w"
    using assms by (simp add: snat_store_def)
  then show thesis using that delete_ignore_missing_ok [of "delete_snat_rule api n", OF d] by blast
qed

lemma delete_eip_effect:
  assumes "snat_store rules eips api"
  obtains w' where "delete_ignore_missing (delete_ovn_eip api n) w = (Inr (), w')"
    "rules w' = rules w" "eips w' = filter (\<lambda>e. eip_name e \<noteq> n) (eips w)"
proof -
  obtain r w' where d: "delete_ovn_eip api n w = (r, w')" by (cases "delete_ovn_eip api n w")
  then have "r \<in> {Inr (), Inl (ApiException 404)} \<and> rules w' = rules w \<and> eips w' = filter (\<lambda>e. eip_name e \<noteq> n) (eips w)"
    using assms by (simp add: snat_store_def)
  then show thesis using that delete_ignore_missing_ok [of "delete_ovn_eip api n", OF d] by blast
qed

lemma unwedge_effect:
  assumes "snat_store rules eips api"
  obtains w' where "unwedge_if_terminating api c w = (Inr (), w')" "rules w' = rules w" "eips w' = eips w"
proof -
  obtain r w' where d: "release_finalizers api (sn_name (sc_item c)) w = (r, w')" by (cases "release_finalizers api (sn_name (sc_item c)) w")
  then have "r \<in> {Inr (), Inl (ApiException 404)}" "rules w' = rules w" "eips w' = eips w"
    using assms by (auto simp: snat_store_def)
  then show thesis using that delete_ignore_missing_ok [of "release_finalizers api (sn_name (sc_item c))", OF d] get_or_none_found [OF assms, of "sc_eip c" w]
    by (cases "truthy (sn_deletionTimestamp (sc_item c))"; cases "find_eip (sc_eip c) (eips w)")
      (auto simp: unwedge_if_terminating_def bind_io_def)
qed

lemma find_eip_other: "n \<noteq> k \<Longrightarrow> find_eip n (filter (\<lambda>e. eip_name e \<noteq> k) es) = find_eip n es"
  unfolding find_eip_def by (induction es) auto

lemma drop_losing_rule_effect:
  assumes law: "snat_store rules eips api"
  obtains w' where "drop_losing_rule api keep c w = (Inr (), w')"
    "rules w' = filter (\<lambda>x. sn_name x \<noteq> sn_name (sc_item c)) (rules w)" "find_eip keep (eips w') = find_eip keep (eips w)"
proof -
  obtain w1 where w1: "delete_ignore_missing (delete_snat_rule api (sn_name (sc_item c))) w = (Inr (), w1)"
    "rules w1 = filter (\<lambda>x. sn_name x \<noteq> sn_name (sc_item c)) (rules w)" "eips w1 = eips w" by (rule delete_rule_effect [OF law])
  obtain w2 where w2: "unwedge_if_terminating api c w1 = (Inr (), w2)" "rules w2 = rules w1" "eips w2 = eips w1"
    by (rule unwedge_effect [OF law])
  obtain w3 where w3: "delete_ignore_missing (delete_ovn_eip api (sc_eip c)) w2 = (Inr (), w3)"
    "rules w3 = rules w2" "eips w3 = filter (\<lambda>e. eip_name e \<noteq> sc_eip c) (eips w2)" by (rule delete_eip_effect [OF law])
  show thesis
  proof (cases "sc_eip c \<noteq> [] \<and> sc_eip c \<noteq> keep")
    case True
    then have "find_eip keep (eips w3) = find_eip keep (eips w)" using w1 w2 w3 find_eip_other by metis
    with True that [of w3] w1 w2 w3 show thesis by (simp add: drop_losing_rule_def bind_io_def)
  next
    case False
    with that [of w2] w1 w2 show thesis by (auto simp: drop_losing_rule_def bind_io_def)
  qed
qed

lemma drop_all_effect:
  assumes law: "snat_store rules eips api"
  shows "\<exists>w'. for_each cs (drop_losing_rule api keep) w = (Inr (), w')
    \<and> rules w' = filter (\<lambda>x. sn_name x \<notin> sn_name ` sc_item ` set cs) (rules w) \<and> find_eip keep (eips w') = find_eip keep (eips w)"
proof (induction cs arbitrary: w)
  case (Cons c cs)
  obtain w1 where w1: "drop_losing_rule api keep c w = (Inr (), w1)"
    "rules w1 = filter (\<lambda>x. sn_name x \<noteq> sn_name (sc_item c)) (rules w)" "find_eip keep (eips w1) = find_eip keep (eips w)"
    by (rule drop_losing_rule_effect [OF law])
  with Cons [of w1] show ?case by (auto simp: bind_io_def conj_commute intro: filter_cong)
qed simp


text \<open>The claimants whose address is on the transit subnet, and those whose address is elsewhere.\<close>

definition on_transit :: "ovn_eip list \<Rightarrow> string \<Rightarrow> snat_rule \<Rightarrow> bool" where
  "on_transit es transit r \<longleftrightarrow> address_of es r \<noteq> [] \<and> sc_subnet (candidate_of es r) = transit"

lemma winner_filter:
  "filter (\<lambda>c. sc_subnet c = transit) (map (candidate_of es) (filter (\<lambda>r. address_of es r \<noteq> []) rs))
   = map (candidate_of es) (filter (on_transit es transit) rs)"
  by (induction rs) (auto simp: on_transit_def)

lemma existing_snat_None:
  assumes law: "snat_store rules eips api"
    and no: "filter (on_transit (eips w) transit) (claimants vpc sn skip (rules w)) = []"
  shows "existing_snat_address api vpc sn skip transit w =
    (case filter (\<lambda>r. address_of (eips w) r \<noteq> []) (claimants vpc sn skip (rules w)) of
       [] \<Rightarrow> Inr None
     | r # _ \<Rightarrow> Inl (TransitSnatSlotTaken (sn_name r) (address_of (eips w) r) (sc_subnet (candidate_of (eips w) r))), w)"
proof -
  define found where "found = filter (\<lambda>r. address_of (eips w) r \<noteq> []) (claimants vpc sn skip (rules w))"
  have "sc_address (candidate_of (eips w) r) = address_of (eips w) r" if "r \<in> set found" for r
    using that by (simp add: candidate_of_def found_def)
  then show ?thesis
    unfolding existing_snat_address_def bind_io_ok [OF rules_covering_result [OF law]] prod.case winner_filter no list.case
    unfolding found_def [symmetric] by (cases found) simp_all
qed

lemma existing_snat_Some:
  assumes law: "snat_store rules eips api"
    and win: "filter (on_transit (eips w) transit) (claimants vpc sn skip (rules w)) = r # rest"
  obtains w' new where "existing_snat_address api vpc sn skip transit w = (Inr (Some (address_of (eips w) r)), w')"
    "sn_name new = sn_name r" "sn_ovnEip new = Some (or_nil (sn_ovnEip r))" "sn_vpc new = Some vpc" "sn_vpcSubnet new = Some sn"
    "rules w' = filter (\<lambda>x. sn_name x \<notin> sn_name ` set (claimants vpc sn skip (rules w))) (rules w) @ [new]"
    "find_eip (or_nil (sn_ovnEip r)) (eips w') = find_eip (or_nil (sn_ovnEip r)) (eips w)"
proof -
  let ?cl = "claimants vpc sn skip (rules w)" and ?c = "candidate_of (eips w)"
  let ?losers = "map ?c rest @ filter (\<lambda>c. sc_subnet c \<noteq> transit) (map ?c (filter (\<lambda>r. address_of (eips w) r \<noteq> []) ?cl))"
  let ?dang = "map ?c (filter (\<lambda>r. address_of (eips w) r = []) ?cl)"
  let ?keep = "or_nil (sn_ovnEip r)"
  let ?new = "new_rule (sn_name r) (sn_labels r) ?keep vpc sn"
  from drop_all_effect [OF law, of "?losers @ ?dang" ?keep w] obtain w1 where
    w1: "for_each (?losers @ ?dang) (drop_losing_rule api ?keep) w = (Inr (), w1)"
      "rules w1 = filter (\<lambda>x. sn_name x \<notin> sn_name ` sc_item ` set (?losers @ ?dang)) (rules w)"
      "find_eip ?keep (eips w1) = find_eip ?keep (eips w)" by blast
  obtain w2 where w2: "delete_ignore_missing (delete_snat_rule api (sn_name r)) w1 = (Inr (), w2)"
    "rules w2 = filter (\<lambda>x. sn_name x \<noteq> sn_name r) (rules w1)" "eips w2 = eips w1" by (rule delete_rule_effect [OF law])
  have "sn_name ?new \<notin> sn_name ` set (rules w2)" by (auto simp: w2(2) new_rule_def)
  then obtain w3 where w3: "create_snat_rule api ?new w2 = (Inr (), w3)" "rules w3 = rules w2 @ [?new]" "eips w3 = eips w2"
    using law unfolding snat_store_def by meson
  have names: "sn_name ` set ?cl = insert (sn_name r) (sn_name ` sc_item ` set (?losers @ ?dang))"
  proof -
    let ?L = "sc_item ` set (?losers @ ?dang)"
    have rest: "set rest \<subseteq> ?L" by (force simp: image_iff)
    have "x = r \<or> x \<in> ?L" if "x \<in> set ?cl" for x
    proof (cases "on_transit (eips w) transit x")
      case True
      then have "x \<in> set (filter (on_transit (eips w) transit) ?cl)" using that by (simp only: set_filter mem_Collect_eq)
      then show ?thesis unfolding win using rest by auto
    next
      case False
      then show ?thesis using that by (force simp: on_transit_def image_iff)
    qed
    moreover have "set (r # rest) \<subseteq> set ?cl" by (metis filter_is_subset win)
    then have "insert r ?L \<subseteq> set ?cl" by auto
    ultimately have "set ?cl = insert r ?L" by blast
    then show ?thesis by (simp only: image_insert)
  qed
  then have "rules w3 = filter (\<lambda>x. sn_name x \<notin> sn_name ` set ?cl) (rules w) @ [?new]"
    using w1(2) w2(2) w3(2) unfolding names by (simp only: filter_filter) (auto intro: filter_cong)
  moreover have "existing_snat_address api vpc sn skip transit w = (Inr (Some (address_of (eips w) r)), w3)"
  proof -
    have "r \<in> set (filter (on_transit (eips w) transit) ?cl)" unfolding win by simp
    then have "sc_address (?c r) = address_of (eips w) r" by (simp add: on_transit_def candidate_of_def)
    then show ?thesis
      unfolding existing_snat_address_def bind_io_ok [OF rules_covering_result [OF law]] prod.case winner_filter win
      using w1(1) w2(1) w3(1) by (simp add: Let_def bind_io_def create_ignore_conflict_def catch_io_def)
  qed
  ultimately show thesis using that [of w3 ?new] w1(3) w2(3) w3(3) by (simp add: new_rule_def)
qed



lemma claimants_skip:
  assumes "\<forall>r \<in> set rs. sn_name r \<noteq> [] \<and> sn_name r \<noteq> skip"
  shows "claimants vpc sn skip rs = claimants vpc sn [] rs"
  using assms by (intro filter_cong) (auto simp: claims_def)

lemma effective_snat_result:
  assumes law: "snat_store rules eips api"
  shows "effective_snat_address api vpc sn transit w =
    (Inr (case filter (on_transit (eips w) transit) (claimants vpc sn [] (rules w)) of
        [] \<Rightarrow> None | r # _ \<Rightarrow> Some (sc_address (candidate_of (eips w) r))), w)"
  unfolding effective_snat_address_def bind_io_ok [OF rules_covering_result [OF law]] prod.case winner_filter
  by (simp split: list.split)

text \<open>The read-only \<open>effective_snat_address\<close> shows the address that the contest would settle on, when no
  rule carries the name that the contest skips.\<close>

theorem effective_snat_address_agrees:
  assumes law: "snat_store rules eips api"
    and names: "\<forall>r \<in> set (rules w). sn_name r \<noteq> [] \<and> sn_name r \<noteq> skip"
  shows "effective_snat_address api vpc sn transit w =
    (Inr (case existing_snat_address api vpc sn skip transit w of (Inr x, _) \<Rightarrow> x | (Inl _, _) \<Rightarrow> None), w)"
proof (cases "filter (on_transit (eips w) transit) (claimants vpc sn skip (rules w))")
  case Nil
  then show ?thesis
    unfolding effective_snat_result [OF law] existing_snat_None [OF law Nil] claimants_skip [OF names, symmetric]
    by (simp del: filter_filter split: list.split)
next
  case (Cons r rest)
  from law Cons obtain w2 where ex: "existing_snat_address api vpc sn skip transit w = (Inr (Some (address_of (eips w) r)), w2)"
    by (rule existing_snat_Some)
  have "r \<in> set (filter (on_transit (eips w) transit) (claimants vpc sn skip (rules w)))" unfolding Cons by simp
  then have "sc_address (candidate_of (eips w) r) = address_of (eips w) r" by (simp add: on_transit_def candidate_of_def)
  then show ?thesis unfolding effective_snat_result [OF law] ex claimants_skip [OF names, symmetric] Cons by simp
qed

subsection \<open>Witnesses\<close>

type_synonym snat_world = "snat_rule list \<times> ovn_eip list"

definition no_custom_api :: "('w, 's, 'p) custom_api" where
  "no_custom_api = \<lparr>get_cluster_custom_object = (\<lambda>_. raise OtherError), get_namespaced_custom_object = (\<lambda>_ _. raise OtherError),
     patch_cluster_custom_object = (\<lambda>_ _. raise OtherError), patch_namespaced_custom_object = (\<lambda>_ _ _. raise OtherError)\<rparr>"

text \<open>A server whose deletes take effect at once, and one that keeps a deleted rule, marked, until its
  finalizer is released, as the API server does for an object with a finalizer.\<close>

definition mem_snat :: "snat_world transit_api" where
  "mem_snat = \<lparr>vpc_objects = no_custom_api, subnet_objects = no_custom_api,
     list_snat_rules = (\<lambda>w. (Inr (fst w), w)),
     create_snat_rule = (\<lambda>b w. if sn_name b \<in> sn_name ` set (fst w) then (Inl (ApiException 409), w) else (Inr (), (fst w @ [b], snd w))),
     delete_snat_rule = (\<lambda>n w. (Inr (), (filter (\<lambda>x. sn_name x \<noteq> n) (fst w), snd w))),
     release_finalizers = (\<lambda>n w. (Inr (), w)),
     list_transit_eips = (\<lambda>w. (Inr (snd w), w)),
     get_ovn_eip = (\<lambda>n w. (case find_eip n (snd w) of None \<Rightarrow> Inl (ApiException 404) | Some e \<Rightarrow> Inr e, w)),
     create_ovn_eip = (\<lambda>_ e w. (Inr (), (fst w, snd w @ [e]))),
     delete_ovn_eip = (\<lambda>n w. (Inr (), (fst w, filter (\<lambda>e. eip_name e \<noteq> n) (snd w))))\<rparr>"

definition finalizing_snat :: "snat_world transit_api" where
  "finalizing_snat = mem_snat\<lparr>delete_snat_rule := (\<lambda>n w. (Inr (),
     (map (\<lambda>x. if sn_name x = n then x\<lparr>sn_deletionTimestamp := Some ''now''\<rparr> else x) (fst w), snd w)))\<rparr>"

lemma mem_snat_store: "snat_store fst snd mem_snat"
  by (auto simp: snat_store_def mem_snat_def)

text \<open>On a server with finalizers the delete only marks the rule and the create that follows is refused
  with 409, which is ignored: after \<open>recreate_snat_rule\<close> has returned, the only rule of the tenant is
  the old one, about to disappear.\<close>

lemma recreate_lost_behind_finalizer:
  assumes "r \<in> set rs" "sn_name r = snat_name tenant"
  shows "\<exists>rs'. recreate_snat_rule finalizing_snat tenant vpc sn (rs, es) = (Inr (), (rs', es))
     \<and> (\<forall>x \<in> set rs'. sn_name x = snat_name tenant \<longrightarrow> sn_deletionTimestamp x = Some ''now'')"
proof -
  have "snat_name tenant \<in> sn_name ` (\<lambda>x. if sn_name x = snat_name tenant then x\<lparr>sn_deletionTimestamp := Some ''now''\<rparr> else x) ` set rs"
    by (intro image_eqI [OF _ image_eqI [OF refl assms(1)]]) (simp add: assms(2))
  then show ?thesis
    by (auto simp: recreate_snat_rule_def finalizing_snat_def mem_snat_def bind_io_def delete_ignore_missing_def
        create_ignore_conflict_def catch_io_def tenant_rule_def new_rule_def)
qed

definition demo_rule :: "string \<Rightarrow> string \<Rightarrow> snat_rule" where
  "demo_rule name eip = new_rule name [] eip ''v'' ''s''"

definition demo_eip :: "string \<Rightarrow> string \<Rightarrow> string \<Rightarrow> ovn_eip" where
  "demo_eip name net addr = \<lparr>eip_name = name, eip_type = Some ''nat'', eip_externalSubnet = Some net, eip_v4Ip = Some addr\<rparr>"

definition demo_contest :: snat_world where
  "demo_contest = ([demo_rule ''snat-v'' ''e2'', demo_rule ''cpt-snat-t'' ''e1''],
     [demo_eip ''e1'' ''cp-transit'' ''10.199.1.20'', demo_eip ''e2'' ''cp-transit'' ''10.199.1.5''])"

lemmas demo_contest_defs = demo_contest_def demo_rule_def demo_eip_def new_rule_def

lemma demo_claims:
  "claimants ''v'' ''s'' ''cpt-snat-t'' (fst demo_contest) = [demo_rule ''snat-v'' ''e2'']"
  "claimants ''v'' ''s'' [] (fst demo_contest) = [demo_rule ''cpt-snat-t'' ''e1'', demo_rule ''snat-v'' ''e2'']"
  "claimants ''v'' ''s'' ''other'' (fst demo_contest) = [demo_rule ''cpt-snat-t'' ''e1'', demo_rule ''snat-v'' ''e2'']"
  by code_simp+


lemma demo_addresses:
  "address_of (snd demo_contest) (demo_rule ''snat-v'' ''e2'') = ''10.199.1.5''" "network_of (snd demo_contest) (demo_rule ''snat-v'' ''e2'') = ''cp-transit''"
  "address_of (snd demo_contest) (demo_rule ''cpt-snat-t'' ''e1'') = ''10.199.1.20''" "network_of (snd demo_contest) (demo_rule ''cpt-snat-t'' ''e1'') = ''cp-transit''"
  by (simp_all add: demo_contest_defs address_of_def network_of_def eip_of_def find_eip_def)

text \<open>With the tenant's own rule beside another one on the transit subnet, the address that is shown is
  the one of the tenant's rule, and the one the access rules are written for is the other.\<close>

lemma own_rule_shown_other_kept:
  "(\<exists>w'. ensure_tenant_snat mem_snat ''t'' ''v'' ''s'' ''cp-transit'' demo_contest = (Inr (Some ''10.199.1.5''), w'))
   \<and> effective_snat_address mem_snat ''v'' ''s'' ''cp-transit'' demo_contest = (Inr (Some ''10.199.1.20''), demo_contest)"
proof -
  have "filter (on_transit (snd demo_contest) ''cp-transit'') (claimants ''v'' ''s'' ''cpt-snat-t'' (fst demo_contest)) = [demo_rule ''snat-v'' ''e2'']"
    unfolding demo_claims by (simp add: on_transit_def candidate_of_def demo_addresses)
  from mem_snat_store this obtain w' where "existing_snat_address mem_snat ''v'' ''s'' ''cpt-snat-t'' ''cp-transit'' demo_contest
      = (Inr (Some (address_of (snd demo_contest) (demo_rule ''snat-v'' ''e2''))), w')"
    by (rule existing_snat_Some)
  then have "ensure_tenant_snat mem_snat ''t'' ''v'' ''s'' ''cp-transit'' demo_contest = (Inr (Some ''10.199.1.5''), w')"
    by (simp add: ensure_tenant_snat_def snat_name_def bind_io_def demo_addresses)
  moreover have "effective_snat_address mem_snat ''v'' ''s'' ''cp-transit'' demo_contest = (Inr (Some ''10.199.1.20''), demo_contest)"
    unfolding effective_snat_result [OF mem_snat_store] demo_claims by (simp add: on_transit_def candidate_of_def demo_addresses)
  ultimately show ?thesis by blast
qed

theorem effective_snat_address_agrees_witness:
  "effective_snat_address mem_snat ''v'' ''s'' ''cp-transit'' demo_contest =
    (Inr (case existing_snat_address mem_snat ''v'' ''s'' ''cpt-snat-u'' ''cp-transit'' demo_contest of (Inr x, _) \<Rightarrow> x | (Inl _, _) \<Rightarrow> None),
     demo_contest)"
  by (rule effective_snat_address_agrees [OF mem_snat_store]) (simp add: demo_contest_defs)


definition plain_transit :: "'w vpc_api \<Rightarrow> ('w, subnet_spec, acl list) custom_api \<Rightarrow> ovn_eip list \<Rightarrow> 'w transit_api" where
  "plain_transit va sa es = \<lparr>vpc_objects = va, subnet_objects = sa, list_snat_rules = ret [],
     create_snat_rule = (\<lambda>_. ret ()), delete_snat_rule = (\<lambda>_. ret ()), release_finalizers = (\<lambda>_. ret ()),
     list_transit_eips = ret es, get_ovn_eip = (\<lambda>_. raise (ApiException 404)), create_ovn_eip = (\<lambda>_ _. ret ()),
     delete_ovn_eip = (\<lambda>_. ret ())\<rparr>"

definition demo_deny :: acl where
  "demo_deny = \<lparr>acl_action = Some ''drop'', acl_direction = Some ''from-lport'', acl_priority = Some TRANSIT_DENY_PRIORITY,
     acl_match = Some ''ip4.src == 10.199.1.0/24''\<rparr>"

definition demo_spec :: "acl list \<Rightarrow> subnet_spec" where
  "demo_spec as = \<lparr>cidrBlock = Some ''10.199.0.0/22'', subnet_vpc = None, excludeIps = None, acls = Some as\<rparr>"

definition demo_allow :: "string \<Rightarrow> acl" where
  "demo_allow eip = allow_acl eip ''10.199.0.9'' ''tcp'' 6443"

lemma demo_addr_text: "addr_text ''10.199.1.20''" "addr_text ''10.199.1.9''" "addr_text ''10.199.0.9''"
  by (simp_all add: addr_text_def is_digit_def)

lemma demo_ensure_mutate:
  "ensure_acls_mutate (Some [''10.199.1.20'']) (build_transit_acls ''10.199.1.20'' ''10.199.0.9'' [6443] [])
     (demo_spec [demo_deny, demo_allow ''10.199.1.9'']) = Inr (Some [demo_deny, demo_allow ''10.199.1.20''])"
  by (simp add: ensure_acls_mutate_def demo_spec_def keep_live_def demo_deny_def demo_allow_def allow_acl_def
      allow_source_match [OF demo_addr_text(2)] add_deny_def has_deny_def build_transit_acls_def
      TRANSIT_ALLOW_PRIORITY_def TRANSIT_DENY_PRIORITY_def)
    (simp add: allow_match_def)

lemma demo_remove_mutate:
  "remove_acls_mutate ''10.199.1.9'' (demo_spec [demo_deny, demo_allow ''10.199.1.9'']) = Inr (Some [demo_deny])"
proof -
  have "contains_str (''ip4.src == '' @ ''10.199.1.9'' @ '' '') (allow_match ''10.199.1.9'' ''10.199.0.9'' ''tcp'' 6443)"
    by (rule iffD2 [OF allow_match_contains [OF demo_addr_text(2) demo_addr_text(2) demo_addr_text(3)]]) simp_all
  then show ?thesis
    by (simp add: remove_acls_mutate_def demo_spec_def demo_deny_def demo_allow_def allow_acl_def starts_with_def)
qed

lemma demo_write:
  "m s = Inr (Some p) \<Longrightarrow>
   patch_spec_with_retry (mem_custom_api merge) None co m DEFAULT_RETRIES (Some (s, v)) = (Inr True, Some (merge s p, v + 1))"
  by (simp add: patch_spec_with_retry_def DEFAULT_RETRIES_def numeral_eq_Suc mem_custom_api_def cas_get_def cas_patch_def mem_get_def mem_patch_def)

abbreviation demo_api :: "(subnet_spec \<times> nat) option transit_api" where
  "demo_api \<equiv> plain_transit no_custom_api (mem_custom_api merge_acls) []"

lemma demo_subnet_cas: "subnet_cas (=) mem_cur demo_api name"
  using mem_custom_cas by (simp add: plain_transit_def)

theorem ensure_transit_acls_correct_witness:
  "\<exists>d' v'. ensure_transit_acls demo_api ''cp-transit'' ''10.199.1.20'' ''10.199.0.9'' [6443] []
       (Some (demo_spec [demo_deny, demo_allow ''10.199.1.9''], 7)) = (Inr (), Some (d', v'))
     \<and> transit_ok (Some [''10.199.1.20'']) (build_transit_acls ''10.199.1.20'' ''10.199.0.9'' [6443] []) d'"
proof -
  let ?w = "Some (demo_spec [demo_deny, demo_allow ''10.199.1.9''], 7) :: (subnet_spec \<times> nat) option"
  let ?as = "[demo_deny, demo_allow ''10.199.1.20'']"
  let ?w' = "Some (merge_acls (demo_spec [demo_deny, demo_allow ''10.199.1.9'']) ?as, 8) :: (subnet_spec \<times> nat) option"
  have some: "build_transit_acls ''10.199.1.20'' ''10.199.0.9'' [6443] [] \<noteq> []" by (simp add: build_transit_acls_def)
  have run: "ensure_transit_acls demo_api ''cp-transit'' ''10.199.1.20'' ''10.199.0.9'' [6443] [] ?w = (Inr (), ?w')"
    using some by (simp add: ensure_transit_acls_def live_transit_addresses_def bind_io_def catch_io_def plain_transit_def Let_def
        demo_write demo_ensure_mutate)
  have "list_transit_eips demo_api ?w = (Inr [], ?w)" by (simp add: plain_transit_def)
  from ensure_transit_acls_correct [OF demo_subnet_cas demo_addr_text(1) this some run] run show ?thesis
    by (auto simp: mem_cur_def)
qed

theorem remove_tenant_transit_exact_witness:
  "\<exists>d' v'. remove_tenant_transit demo_api ''t'' ''cp-transit'' (Some ''10.199.1.9'')
       (Some (demo_spec [demo_deny, demo_allow ''10.199.1.9''], 7)) = (Inr (), Some (d', v'))
     \<and> demo_allow ''10.199.1.9'' \<notin> set (or_nil (acls d'))"
proof -
  let ?w = "Some (demo_spec [demo_deny, demo_allow ''10.199.1.9''], 7) :: (subnet_spec \<times> nat) option"
  let ?w' = "Some (merge_acls (demo_spec [demo_deny, demo_allow ''10.199.1.9'']) [demo_deny], 8) :: (subnet_spec \<times> nat) option"
  have run: "remove_tenant_transit demo_api ''t'' ''cp-transit'' (Some ''10.199.1.9'') ?w = (Inr (), ?w')"
    by (simp add: remove_tenant_transit_def bind_io_def delete_ignore_missing_def catch_io_def plain_transit_def
        demo_write demo_remove_mutate)
  from remove_tenant_transit_exact [OF demo_subnet_cas demo_addr_text(2) _ _ run] demo_addr_text run show ?thesis
    by (auto simp: mem_cur_def plain_transit_def demo_allow_def)
qed

theorem attach_vpc_to_transit_correct_witness:
  "\<exists>d' v'. attach_vpc_to_transit (plain_transit (mem_custom_api merge_vpc)
        (no_custom_api\<lparr>get_cluster_custom_object := (\<lambda>co. ret \<lparr>cr_name = co_name co, cr_labels = [], cr_rv = ''1'', cr_spec = demo_spec []\<rparr>)\<rparr>) [])
        ''v'' ''cp-transit'' (Some (demo_vpc [], 7)) = (Inr (), Some (d', v'))
     \<and> attached ''cp-transit'' ''10.199.0.0/22'' d'"
proof -
  let ?api = "plain_transit (mem_custom_api merge_vpc)
     (no_custom_api\<lparr>get_cluster_custom_object := (\<lambda>co. ret \<lparr>cr_name = co_name co, cr_labels = [], cr_rv = ''1'', cr_spec = demo_spec []\<rparr>)\<rparr>) []"
  let ?s = "\<lparr>cr_name = ''cp-transit'', cr_labels = [], cr_rv = ''1'', cr_spec = demo_spec []\<rparr>"
  let ?w = "Some (demo_vpc [], 7) :: (vpc_spec \<times> nat) option"
  let ?d = "merge_vpc (demo_vpc []) (the (attach_mutate ''cp-transit'' ''10.199.0.0/22'' (demo_vpc [])))"
  have law: "cas_object (=) mem_cur (cas_get (vpc_objects ?api) None (vpc_coords ''v'')) (cas_patch (vpc_objects ?api) None (vpc_coords ''v'')) merge_vpc"
    using mem_custom_cas by (simp add: plain_transit_def)
  have sn: "get_cluster_custom_object (subnet_objects ?api) (subnet_coords ''cp-transit'') ?w = (Inr ?s, ?w)"
    by (simp add: plain_transit_def subnet_coords_def)
  have "attach_mutate ''cp-transit'' ''10.199.0.0/22'' (demo_vpc []) \<noteq> None" by (simp add: attach_mutate_def demo_vpc_def)
  then obtain p where "attach_mutate ''cp-transit'' ''10.199.0.0/22'' (demo_vpc []) = Some p" by blast
  then have run: "attach_vpc_to_transit ?api ''v'' ''cp-transit'' ?w = (Inr (), Some (?d, 8))"
    by (simp add: attach_vpc_to_transit_def get_or_none_def bind_io_def catch_io_def plain_transit_def demo_spec_def Let_def demo_write)
  from attach_vpc_to_transit_correct [OF law sn run] run show ?thesis by (auto simp: mem_cur_def demo_spec_def)
qed

end
