(* ===== verification/Announce.thy ===== *)
theory Announce
  imports Kube Ipaddress "HOL-Library.Product_Lexorder" "HOL-Library.Multiset"
begin

section \<open>Announcing tenant prefixes to the border router\<close>

text \<open>
  \<open>core/b3_announce.py\<close>: which VPC prefixes are announced and with which next hop, the FRR text that
  carries them, the nodes that announce, the write of the FRRConfiguration and the range the
  upstream router accepts sessions from. The calls to the API server are the fields of
  \<open>b3_api\<close>. The two upstream templates \<open>render_border_bird\<close> and \<open>render_border_frr\<close> are
  fixed text and are not modelled.
\<close>

subsection \<open>Settings\<close>

definition CONFIG_NAME :: string where
  "CONFIG_NAME = ''kubevirt-ui-b3''"

definition frr_namespace :: "env_vars \<Rightarrow> string" where
  "frr_namespace env = getenv env ''B3_FRR_NAMESPACE'' ''o0-metallb''"

definition some_or_none :: "string option \<Rightarrow> string option" where
  "some_or_none x = (if truthy x then x else None)"

definition border_peer :: "env_vars \<Rightarrow> string option" where
  "border_peer env = some_or_none (env ''B3_BGP_PEER'')"

definition local_asn :: "env_vars \<Rightarrow> int option" where
  "local_asn env = py_int (getenv env ''B3_LOCAL_ASN'' ''65030'')"

definition peer_asn :: "env_vars \<Rightarrow> int option" where
  "peer_asn env = py_int (getenv env ''B3_PEER_ASN'' ''65000'')"

definition external_subnet :: "env_vars \<Rightarrow> string" where
  "external_subnet env = getenv env ''B3_EXTERNAL_SUBNET'' ''external''"

definition vpc_gateway :: "env_vars \<Rightarrow> string option" where
  "vpc_gateway env = some_or_none (env ''B3_VPC_GATEWAY'')"

definition b3_enabled :: "env_vars \<Rightarrow> bool" where
  "b3_enabled env \<longleftrightarrow> truthy (border_peer env) \<and> truthy (vpc_gateway env)"

definition announce_replicas :: "env_vars \<Rightarrow> nat" where
  "announce_replicas env =
     (case py_int (getenv env ''B3_ANNOUNCE_NODES'' ''2'') of None \<Rightarrow> 2 | Some n \<Rightarrow> nat (max 1 n))"

subsection \<open>The FRR text\<close>

record announcement =
  an_vpc :: string
  an_cidr :: string
  an_next_hop :: string

definition slug :: "string \<Rightarrow> string" where
  "slug vpc = upper (map (\<lambda>c. if is_digit c \<or> is_lower c \<or> is_upper c \<or> c = CHR ''-'' then c else CHR ''-'') vpc)"

abbreviation an_key :: "announcement \<Rightarrow> string \<times> string" where
  "an_key a \<equiv> (an_vpc a, an_cidr a)"

definition prefix_list_line :: "announcement \<Rightarrow> string" where
  "prefix_list_line a = ''ip prefix-list PL-'' @ slug (an_vpc a) @ '' seq 5 permit '' @ an_cidr a"

definition route_map_lines :: "nat \<times> announcement \<Rightarrow> string list" where
  "route_map_lines = (\<lambda>(i, a).
     [''route-map B3-NH permit '' @ nat_str (i * 10),
      '' match ip address prefix-list PL-'' @ slug (an_vpc a),
      '' set ip next-hop '' @ an_next_hop a])"

definition config_lines :: "announcement list \<Rightarrow> string \<Rightarrow> int \<Rightarrow> int \<Rightarrow> string list" where
  "config_lines ordered peer asn remote_asn =
     [''router bgp '' @ int_str asn,
      '' no bgp ebgp-requires-policy'',
      '' no bgp network import-check'',
      '' neighbor '' @ peer @ '' remote-as '' @ int_str remote_asn,
      '' neighbor '' @ peer @ '' timers 10 30'',
      '' address-family ipv4 unicast'']
     @ map (\<lambda>a. ''  network '' @ an_cidr a) ordered
     @ (if ordered \<noteq> [] then [''  neighbor '' @ peer @ '' route-map B3-NH out''] else [])
     @ ['' exit-address-family'', ''!'']
     @ map prefix_list_line ordered
     @ [''!'']
     @ concat (map route_map_lines (zip [1..<Suc (length ordered)] ordered))"

definition newline :: string where
  "newline = [char_of (10 :: nat)]"

definition render_raw_config :: "announcement list \<Rightarrow> string \<Rightarrow> int \<Rightarrow> int \<Rightarrow> string" where
  "render_raw_config announcements peer asn remote_asn =
     join newline (config_lines (sort_key an_key announcements) peer asn remote_asn) @ newline"

text \<open>The FRRConfiguration. \<open>frr_spec\<close> is the shape the code writes; a stored spec of any other
  shape is \<^const>\<open>None\<close> in \<open>frr_object\<close>, which differs from every desired one.\<close>

record frr_spec =
  fs_nodes :: "string list"
  fs_priority :: int
  fs_rawConfig :: string

record frr_object =
  fo_name :: string
  fo_namespace :: string
  fo_labels :: "string dict"
  fo_spec :: "frr_spec option"

definition build_frr_configuration ::
  "announcement list \<Rightarrow> string list \<Rightarrow> string \<Rightarrow> int \<Rightarrow> int \<Rightarrow> string \<Rightarrow> frr_object" where
  "build_frr_configuration announcements nodes peer asn remote_asn ns =
     \<lparr>fo_name = CONFIG_NAME, fo_namespace = ns, fo_labels = [(''kubevirt-ui.io/managed'', ''true'')],
      fo_spec = Some \<lparr>fs_nodes = sort nodes, fs_priority = 10,
        fs_rawConfig = render_raw_config announcements peer asn remote_asn\<rparr>\<rparr>"

subsection \<open>What the cluster has\<close>

record k8s_node =
  node_name :: string
  node_labels :: "string dict option"
  node_conditions :: "(string \<times> string) list option"
  node_addresses :: "(string \<times> string) list option"

record frr_node_state =
  lastConversionResult :: "string option"
  lastReloadResult :: "string option"

record 'w b3_api =
  list_ovn_eips :: "('w, ovn_eip list) io"
  list_subnets :: "('w, subnet_spec cr list) io"
  list_vpcs :: "('w, vpc_spec cr list) io"
  list_nodes :: "('w, k8s_node list) io"
  read_node :: "string \<Rightarrow> ('w, k8s_node) io"
  get_node_state :: "string \<Rightarrow> ('w, frr_node_state) io"
  get_frr :: "string \<Rightarrow> string \<Rightarrow> ('w, frr_object) io"
  create_frr :: "frr_object \<Rightarrow> ('w, unit) io"
  patch_frr :: "string \<Rightarrow> string \<Rightarrow> frr_spec option \<Rightarrow> ('w, unit) io"

text \<open>\<open>except ApiException: return dflt\<close>.\<close>

definition api_default :: "('w, 'a) io \<Rightarrow> 'a \<Rightarrow> ('w, 'a) io" where
  "api_default m dflt = catch_io m (\<lambda>e. if is_api e then ret dflt else raise e)"

definition route_hop :: "static_route \<Rightarrow> (ip_ver \<times> nat) option" where
  "route_hop r = (if sr_cidr r = Some ''0.0.0.0/0'' then ip_address (or_nil (sr_nextHopIP r)) else None)"

definition default_via :: "ip_net \<Rightarrow> vpc_spec cr \<Rightarrow> bool" where
  "default_via net v \<longleftrightarrow>
     list_ex (\<lambda>r. case route_hop r of None \<Rightarrow> False | Some (ver, a) \<Rightarrow> in_net ver a net)
       (or_nil (staticRoutes (cr_spec v)))"

definition vpcs_routed_via :: "('w, vpc_spec cr list) io \<Rightarrow> string \<Rightarrow> ('w, string list) io" where
  "vpcs_routed_via vpcs external_cidr =
     (case ip_network external_cidr of
        None \<Rightarrow> ret []
      | Some net \<Rightarrow> api_default (bind_io vpcs (\<lambda>items. ret (map cr_name (filter (default_via net) items)))) [])"

text \<open>The CIDR of the named subnet: the last one listed, as the loop has no \<open>break\<close>.\<close>

definition cidr_of :: "string \<Rightarrow> subnet_spec cr list \<Rightarrow> string" where
  "cidr_of name items =
     foldl (\<lambda>c item. if cr_name item = name then or_nil (cidrBlock (cr_spec item)) else c) [] items"

text \<open>The VPC a leg belongs to, from its name \<open><vpc>-<external>\<close>; empty when there is none.\<close>

definition leg_vpc :: "string \<Rightarrow> string \<Rightarrow> string" where
  "leg_vpc external name =
     (if ends_with (CHR ''-'' # external) name then take (length name - Suc (length external)) name else [])"

definition leg_step :: "string \<Rightarrow> string list \<Rightarrow> string dict \<Rightarrow> ovn_eip \<Rightarrow> string dict" where
  "leg_step external routed legs e =
     (if eip_type e \<noteq> Some ''lrp'' \<or> eip_externalSubnet e \<noteq> Some external then legs
      else (case eip_v4Ip e of
              None \<Rightarrow> legs
            | Some address \<Rightarrow>
                let vpc = leg_vpc external (eip_name e)
                in if address \<noteq> [] \<and> vpc \<noteq> [] \<and> vpc \<in> set routed then dict_set legs vpc address else legs))"

definition announce_subnet :: "string dict \<Rightarrow> subnet_spec cr \<Rightarrow> announcement list" where
  "announce_subnet legs item =
     (case (subnet_vpc (cr_spec item), cidrBlock (cr_spec item)) of
        (Some vpc, Some cidr) \<Rightarrow>
          (case dict_get legs vpc of
             Some hop \<Rightarrow> if cidr \<noteq> [] then [\<lparr>an_vpc = vpc, an_cidr = cidr, an_next_hop = hop\<rparr>] else []
           | None \<Rightarrow> [])
      | _ \<Rightarrow> [])"

definition collect_announcements :: "env_vars \<Rightarrow> 'w b3_api \<Rightarrow> ('w, announcement list) io" where
  "collect_announcements env api =
     bind_io (api_default (bind_io (list_ovn_eips api) (\<lambda>eips. bind_io (list_subnets api)
        (\<lambda>sns. ret (Some (eips, sns))))) None)
      (\<lambda>r. case r of
         None \<Rightarrow> ret []
       | Some (eips, sns) \<Rightarrow>
           let external = external_subnet env; external_cidr = cidr_of external sns
           in if external_cidr = [] then ret []
              else bind_io (vpcs_routed_via (list_vpcs api) external_cidr)
                (\<lambda>routed. let legs = foldl (leg_step external routed) [] eips
                          in ret (concat (map (announce_subnet legs) sns))))"

subsection \<open>Nodes\<close>

definition explicit_nodes :: "env_vars \<Rightarrow> string list" where
  "explicit_nodes env =
     filter (\<lambda>n. n \<noteq> []) (map strip (split_on (CHR '','') (or_nil (env ''B3_ANNOUNCE_NODE_LIST''))))"

definition ready_worker :: "k8s_node \<Rightarrow> bool" where
  "ready_worker node \<longleftrightarrow>
     dict_get (or_nil (node_labels node)) ''node-role.kubernetes.io/control-plane'' = None
   \<and> (''Ready'', ''True'') \<in> set (or_nil (node_conditions node))"

definition pick_announce_nodes :: "env_vars \<Rightarrow> 'w b3_api \<Rightarrow> nat \<Rightarrow> ('w, string list) io" where
  "pick_announce_nodes env api n =
     (if explicit_nodes env \<noteq> [] then ret (take n (sort (explicit_nodes env)))
      else api_default (bind_io (list_nodes api)
             (\<lambda>nodes. ret (take n (sort (map node_name (filter ready_worker nodes)))))) [])"

text \<open>The first line of a non-empty result, cut to 200 characters. Lines end at a line feed or a
  carriage return; the other separators of \<open>splitlines\<close> do not occur in the messages of FRR.\<close>

definition first_line :: "string \<Rightarrow> string" where
  "first_line s = take 200 (takeWhile (\<lambda>c. of_char c \<noteq> (10 :: nat) \<and> of_char c \<noteq> (13 :: nat)) s)"

definition refusal :: "string \<Rightarrow> string option \<Rightarrow> string option" where
  "refusal field v =
     (let result = strip (or_nil v)
      in if result \<noteq> [] \<and> result \<noteq> ''success'' then Some (field @ '': '' @ first_line result) else None)"

definition node_refusal :: "frr_node_state \<Rightarrow> string option" where
  "node_refusal st =
     (case refusal ''lastConversionResult'' (lastConversionResult st) of
        Some f \<Rightarrow> Some f
      | None \<Rightarrow> refusal ''lastReloadResult'' (lastReloadResult st))"

fun reload_loop :: "(string \<Rightarrow> ('w, frr_node_state) io) \<Rightarrow> string dict \<Rightarrow> string list \<Rightarrow> ('w, string dict) io" where
  "reload_loop get failures [] = ret failures"
| "reload_loop get failures (name # names) =
     bind_io (api_default (bind_io (get name) (\<lambda>st. ret (node_refusal st))) None)
       (\<lambda>f. reload_loop get (case f of None \<Rightarrow> failures | Some m \<Rightarrow> dict_set failures name m) names)"

definition reload_failures :: "'w b3_api \<Rightarrow> string list \<Rightarrow> ('w, string dict) io" where
  "reload_failures api nodes = reload_loop (get_node_state api) [] nodes"

subsection \<open>The pass\<close>

datatype b3_report =
    Skipped
  | ReadFailed nat
  | Report (r_announced: "announcement list") (r_nodes: "string list") (r_failures: "string dict")

definition write_frr :: "'w b3_api \<Rightarrow> string \<Rightarrow> frr_object option \<Rightarrow> frr_object \<Rightarrow> ('w, unit) io" where
  "write_frr api ns current desired =
     (case current of
        None \<Rightarrow> create_frr api desired
      | Some c \<Rightarrow> if fo_spec c \<noteq> fo_spec desired then patch_frr api ns CONFIG_NAME (fo_spec desired) else ret ())"

text \<open>\<open>Inl st\<close>: the read was refused with a status other than 404.\<close>

definition read_frr :: "'w b3_api \<Rightarrow> string \<Rightarrow> ('w, nat + frr_object option) io" where
  "read_frr api ns =
     catch_io (bind_io (get_frr api ns CONFIG_NAME) (\<lambda>c. ret (Inr (Some c))))
       (\<lambda>e. case e of ApiException st \<Rightarrow> if st = 404 then ret (Inr None) else ret (Inl st) | _ \<Rightarrow> raise e)"

definition py_asn :: "int option \<Rightarrow> ('w, int) io" where
  "py_asn n = (case n of None \<Rightarrow> raise ValueError | Some i \<Rightarrow> ret i)"

definition ensure_announcements :: "env_vars \<Rightarrow> 'w b3_api \<Rightarrow> ('w, b3_report) io" where
  "ensure_announcements env api =
     (case border_peer env of
        None \<Rightarrow> ret Skipped
      | Some peer \<Rightarrow>
          bind_io (collect_announcements env api) (\<lambda>announcements.
          bind_io (pick_announce_nodes env api (announce_replicas env)) (\<lambda>nodes.
          if nodes = [] then ret Skipped else
          bind_io (py_asn (local_asn env)) (\<lambda>asn.
          bind_io (py_asn (peer_asn env)) (\<lambda>remote_asn.
          let desired = build_frr_configuration announcements nodes peer asn remote_asn (frr_namespace env) in
          bind_io (read_frr api (frr_namespace env)) (\<lambda>current.
          case current of
            Inl st \<Rightarrow> ret (ReadFailed st)
          | Inr cur \<Rightarrow>
              bind_io (write_frr api (frr_namespace env) cur desired) (\<lambda>_.
              bind_io (reload_failures api nodes) (\<lambda>failures.
              ret (Report announcements nodes failures)))))))))"

subsection \<open>What the upstream is told\<close>

fun first_cidr :: "string \<Rightarrow> subnet_spec cr list \<Rightarrow> string" where
  "first_cidr name [] = []"
| "first_cidr name (item # items) =
     (if cr_name item = name then or_nil (cidrBlock (cr_spec item)) else first_cidr name items)"

definition external_subnet_cidr :: "env_vars \<Rightarrow> 'w b3_api \<Rightarrow> ('w, string) io" where
  "external_subnet_cidr env api =
     api_default (bind_io (list_subnets api) (\<lambda>sns. ret (first_cidr (external_subnet env) sns))) []"

text \<open>\<open>all(n.subnet_of(candidate) for n in nets)\<close>: \<open>subnet_of\<close> raises \<open>TypeError\<close>
  (\<open>OtherError\<close>) on two versions, and the test stops at the first network outside.\<close>

fun all_inside :: "ip_net list \<Rightarrow> ip_net \<Rightarrow> exc + bool" where
  "all_inside [] c = Inr True"
| "all_inside (n # ns) c =
     (if net_ver n \<noteq> net_ver c then Inl OtherError
      else if subnet_of n c then all_inside ns c else Inr False)"

function widen :: "ip_net list \<Rightarrow> ip_net \<Rightarrow> exc + ip_net" where
  "widen nets c =
     (case all_inside nets c of
        Inl e \<Rightarrow> Inl e
      | Inr True \<Rightarrow> Inr c
      | Inr False \<Rightarrow> (let c' = supernet c in if net_len c' = 0 then Inr c' else widen nets c'))"
  by pat_completeness auto
termination
  by (relation "measure (\<lambda>(nets, c). net_len c)") (auto simp: supernet_def split: if_splits)

declare widen.simps [simp del]

definition supernet_of :: "ip_net list \<Rightarrow> exc + ip_net" where
  "supernet_of nets = widen nets (hd nets)"

definition internal_ip :: "k8s_node \<Rightarrow> string list" where
  "internal_ip node = map snd (take 1 (filter (\<lambda>a. fst a = ''InternalIP'') (or_nil (node_addresses node))))"

fun node_ips :: "(string \<Rightarrow> ('w, k8s_node) io) \<Rightarrow> string list \<Rightarrow> ('w, string list) io" where
  "node_ips read [] = ret []"
| "node_ips read (name # names) =
     bind_io (catch_io (bind_io (read name) (\<lambda>n. ret (internal_ip n))) (\<lambda>_. ret []))
       (\<lambda>here. bind_io (node_ips read names) (\<lambda>rest. ret (here @ rest)))"

definition peer_range :: "string list \<Rightarrow> exc + string" where
  "peer_range addresses =
     (case addresses of
        [] \<Rightarrow> Inr ''<NODE_SUBNET>''
      | [a] \<Rightarrow> Inr (a @ ''/32'')
      | a # _ \<Rightarrow>
          (let nets = map (\<lambda>x. strict_network (x @ ''/32'')) addresses
           in if None \<in> set nets then Inr (a @ ''/32'') else map_sum id net_str (supernet_of (map the nets))))"

definition node_peer_range :: "env_vars \<Rightarrow> 'w b3_api \<Rightarrow> ('w, string) io" where
  "node_peer_range env api =
     bind_io (pick_announce_nodes env api (announce_replicas env)) (\<lambda>nodes.
     bind_io (node_ips (read_node api) nodes) (\<lambda>addresses.
     case peer_range addresses of Inl e \<Rightarrow> raise e | Inr r \<Rightarrow> ret r))"

subsection \<open>Which prefixes are announced\<close>

text \<open>The router leg of a VPC on the external network, with its address.\<close>

definition is_leg :: "string \<Rightarrow> string \<Rightarrow> string \<Rightarrow> ovn_eip \<Rightarrow> bool" where
  "is_leg external vpc hop e \<longleftrightarrow>
     eip_type e = Some ''lrp'' \<and> eip_externalSubnet e = Some external \<and> eip_name e = vpc @ CHR ''-'' # external
   \<and> eip_v4Ip e = Some hop \<and> hop \<noteq> [] \<and> vpc \<noteq> []"

lemma leg_vpc_iff: "vpc \<noteq> [] \<Longrightarrow> leg_vpc external name = vpc \<longleftrightarrow> name = vpc @ CHR ''-'' # external"
  by (auto simp: leg_vpc_def ends_with_iff)

lemma leg_step_get:
  "dict_get (leg_step external routed legs e) vpc =
     (if \<exists>hop. is_leg external vpc hop e \<and> vpc \<in> set routed then eip_v4Ip e else dict_get legs vpc)"
proof (cases "vpc = []")
  case False
  have "is_leg external vpc hop e \<longleftrightarrow> eip_type e = Some ''lrp'' \<and> eip_externalSubnet e = Some external
     \<and> leg_vpc external (eip_name e) = vpc \<and> eip_v4Ip e = Some hop \<and> hop \<noteq> []" for hop
    using False leg_vpc_iff [OF False] by (auto simp: is_leg_def)
  then show ?thesis using False by (auto simp: leg_step_def Let_def update_conv' split: option.splits)
qed (auto simp: is_leg_def leg_step_def Let_def update_conv' split: option.splits)

lemma legs_lookup:
  assumes "distinct (map eip_name eips)"
  shows "dict_get (foldl (leg_step external routed) [] eips) vpc = Some hop
     \<longleftrightarrow> vpc \<in> set routed \<and> (\<exists>e \<in> set eips. is_leg external vpc hop e)"
  using assms
proof (induction eips rule: rev_induct)
  case (snoc e es)
  have other: "\<not> is_leg external vpc h e'" if "is_leg external vpc hop e" "e' \<in> set es" for e' h hop
    using that snoc.prems by (auto simp: is_leg_def image_iff)
  show ?case
  proof (cases "\<exists>h. is_leg external vpc h e")
    case True
    then obtain h where h: "is_leg external vpc h e" by blast
    then have "is_leg external vpc hop e \<longleftrightarrow> eip_v4Ip e = Some hop" by (auto simp: is_leg_def)
    with h snoc other [OF h] show ?thesis by (simp add: leg_step_get) blast
  qed (use snoc in \<open>simp add: leg_step_get\<close>)
qed simp

text \<open>The answers of the three listings, in the order of the calls.\<close>

definition listing :: "'w b3_api \<Rightarrow> 'w \<Rightarrow> ovn_eip list \<Rightarrow> subnet_spec cr list \<Rightarrow> vpc_spec cr list \<Rightarrow> 'w \<Rightarrow> bool" where
  "listing api w eips sns vpcs w3 \<longleftrightarrow>
     (\<exists>w1 w2. list_ovn_eips api w = (Inr eips, w1) \<and> list_subnets api w1 = (Inr sns, w2)
        \<and> list_vpcs api w2 = (Inr vpcs, w3))"

lemma api_default_ok: "m w = (Inr x, w') \<Longrightarrow> api_default m d w = (Inr x, w')"
  by (simp add: api_default_def catch_io_def)

lemma collect_run:
  assumes "listing api w eips sns vpcs w3" "ip_network (cidr_of (external_subnet env) sns) = Some net"
  shows "collect_announcements env api w =
    (Inr (concat (map (announce_subnet (foldl (leg_step (external_subnet env)
       (map cr_name (filter (default_via net) vpcs))) [] eips)) sns)), w3)"
proof -
  from assms(1) obtain w1 w2 where run: "list_ovn_eips api w = (Inr eips, w1)" "list_subnets api w1 = (Inr sns, w2)"
    "list_vpcs api w2 = (Inr vpcs, w3)" by (auto simp: listing_def)
  have ne: "cidr_of (external_subnet env) sns \<noteq> []"
    using assms(2) by (auto simp: net_eval parse_ipv6_def split_scope_id_def)
  show ?thesis
    unfolding collect_announcements_def vpcs_routed_via_def
    by (simp add: bind_io_ok [OF api_default_ok] bind_io_ok run assms(2) ne Let_def api_default_ok)
qed

lemma announce_subnet_iff:
  "a \<in> set (announce_subnet legs s) \<longleftrightarrow>
     subnet_vpc (cr_spec s) = Some (an_vpc a) \<and> cidrBlock (cr_spec s) = Some (an_cidr a) \<and> an_cidr a \<noteq> []
   \<and> dict_get legs (an_vpc a) = Some (an_next_hop a)"
  by (cases a) (auto simp: announce_subnet_def split: option.splits)

lemma announce_all_iff:
  "a \<in> set (concat (map (announce_subnet legs) sns)) \<longleftrightarrow>
     (\<exists>s \<in> set sns. subnet_vpc (cr_spec s) = Some (an_vpc a) \<and> cidrBlock (cr_spec s) = Some (an_cidr a) \<and> an_cidr a \<noteq> [])
   \<and> dict_get legs (an_vpc a) = Some (an_next_hop a)"
  by (simp add: announce_subnet_iff) blast

lemma routed_iff: "n \<in> set (map cr_name (filter P vs)) \<longleftrightarrow> (\<exists>v \<in> set vs. cr_name v = n \<and> P v)"
  by auto

text \<open>C18. When the cluster can be listed and the external subnet has a CIDR, exactly these prefixes are
  announced: the CIDR of a subnet of a VPC that has a router leg on the external network and whose
  default route leaves through an address of that network, with the address of the leg as next
  hop.\<close>

theorem announced_exact:
  assumes "listing api w eips sns vpcs w'" "ip_network (cidr_of (external_subnet env) sns) = Some net"
    and "distinct (map eip_name eips)"
  shows "\<exists>as. collect_announcements env api w = (Inr as, w') \<and>
     (\<forall>a. a \<in> set as \<longleftrightarrow>
        (\<exists>s \<in> set sns. subnet_vpc (cr_spec s) = Some (an_vpc a) \<and> cidrBlock (cr_spec s) = Some (an_cidr a) \<and> an_cidr a \<noteq> [])
      \<and> (\<exists>e \<in> set eips. is_leg (external_subnet env) (an_vpc a) (an_next_hop a) e)
      \<and> (\<exists>v \<in> set vpcs. cr_name v = an_vpc a \<and> default_via net v))"
  by (rule exI, rule conjI [OF collect_run [OF assms(1,2)]])
    (unfold announce_all_iff legs_lookup [OF assms(3)] routed_iff, blast)


subsection \<open>The order of the listings does not matter\<close>

lemma option_eqI: "(\<And>h. x = Some h \<longleftrightarrow> y = Some h) \<Longrightarrow> x = y"
  by (cases x; cases y) auto

lemma cidr_of_append: "cidr_of name (xs @ [x]) = (if cr_name x = name then or_nil (cidrBlock (cr_spec x)) else cidr_of name xs)"
  by (simp add: cidr_of_def)

lemma cidr_of_distinct:
  assumes "distinct (map cr_name sns)"
  shows "cidr_of name sns = c \<longleftrightarrow>
    (if name \<in> cr_name ` set sns then \<exists>s \<in> set sns. cr_name s = name \<and> or_nil (cidrBlock (cr_spec s)) = c else c = [])"
  using assms
proof (induction sns rule: rev_induct)
  case (snoc x xs)
  then show ?case by (auto simp: cidr_of_append image_iff)
qed (auto simp: cidr_of_def)

lemma cidr_of_perm:
  assumes "distinct (map cr_name sns)" "mset sns = mset sns'"
  shows "cidr_of name sns = cidr_of name sns'"
proof -
  have "distinct (map cr_name sns')" using assms by (metis mset_eq_imp_distinct_iff mset_map)
  then show ?thesis
    using cidr_of_distinct [OF assms(1), of name] cidr_of_distinct [of sns' name] mset_eq_setD [OF assms(2)] by metis
qed

lemma announce_perm:
  assumes "mset sns = mset sns'" "\<And>v. dict_get legs v = dict_get legs' v"
  shows "mset (concat (map (announce_subnet legs) sns)) = mset (concat (map (announce_subnet legs') sns'))"
proof -
  have "announce_subnet legs = announce_subnet legs'"
    using assms(2) by (intro ext) (simp add: announce_subnet_def split: option.split)
  moreover have "mset (concat (map f xs)) = \<Sum>\<^sub># (image_mset (mset \<circ> f) (mset xs))" for f :: "subnet_spec cr \<Rightarrow> announcement list" and xs
    by (induction xs) auto
  ultimately show ?thesis using assms(1) by simp
qed

lemma announce_inj: "inj_on an_key (set (concat (map (announce_subnet legs) sns)))"
proof (rule inj_onI)
  fix a b assume ab: "a \<in> set (concat (map (announce_subnet legs) sns))" "b \<in> set (concat (map (announce_subnet legs) sns))"
    and k: "an_key a = an_key b"
  have "an_next_hop a = an_next_hop b" using ab [unfolded announce_all_iff] k by simp
  with k show "a = b" by simp
qed

lemma render_perm:
  assumes "mset as = mset bs" "inj_on an_key (set as)"
  shows "render_raw_config as peer asn remote = render_raw_config bs peer asn remote"
proof -
  have "sort_key an_key as = sort_key an_key bs"
    by (rule sort_key_inj_key_eq) (use assms in simp_all)
  then show ?thesis by (simp add: render_raw_config_def)
qed

text \<open>C19. The FRR text does not depend on the order in which the API server lists the objects: two
  listings with the same objects give the same text, so an unchanged cluster never reloads FRR.\<close>

theorem frr_text_order_independent:
  assumes "listing api w eips sns vpcs w'" "listing api' u eips' sns' vpcs' u'"
    and "mset eips = mset eips'" "mset sns = mset sns'" "mset vpcs = mset vpcs'"
    and "distinct (map eip_name eips)" "distinct (map cr_name sns)"
    and "ip_network (cidr_of (external_subnet env) sns) = Some net"
  shows "\<exists>as bs. collect_announcements env api w = (Inr as, w') \<and> collect_announcements env api' u = (Inr bs, u')
     \<and> render_raw_config as peer asn remote = render_raw_config bs peer asn remote"
proof -
  let ?legs = "\<lambda>vs es. foldl (leg_step (external_subnet env) (map cr_name (filter (default_via net) vs))) [] es"
  have net': "ip_network (cidr_of (external_subnet env) sns') = Some net"
    using assms(8) cidr_of_perm [OF assms(7,4)] by simp
  have d': "distinct (map eip_name eips')" using assms(3,6) by (metis mset_eq_imp_distinct_iff mset_map)
  have legs: "dict_get (?legs vpcs eips) v = dict_get (?legs vpcs' eips') v" for v
  proof (rule option_eqI)
    fix h
    show "dict_get (?legs vpcs eips) v = Some h \<longleftrightarrow> dict_get (?legs vpcs' eips') v = Some h"
      unfolding legs_lookup [OF assms(6)] legs_lookup [OF d'] routed_iff
      using mset_eq_setD [OF assms(3)] mset_eq_setD [OF assms(5)] by simp
  qed
  show ?thesis
    by (intro exI conjI, rule collect_run [OF assms(1,8)], rule collect_run [OF assms(2) net'])
      (rule render_perm [OF announce_perm [OF assms(4) legs] announce_inj])
qed


subsection \<open>A pass settles\<close>

text \<open>A cluster nobody else changes: fixed VPCs, subnets, legs and nodes, and one FRRConfiguration
  \<open>cur\<close>, which only the create and patch calls change.\<close>

definition quiet_cluster ::
  "('w \<Rightarrow> frr_object option) \<Rightarrow> 'w b3_api \<Rightarrow> ovn_eip list \<Rightarrow> subnet_spec cr list \<Rightarrow> vpc_spec cr list \<Rightarrow> k8s_node list \<Rightarrow> bool" where
  "quiet_cluster cur api eips sns vpcs ns \<longleftrightarrow>
     list_ovn_eips api = ret eips \<and> list_subnets api = ret sns \<and> list_vpcs api = ret vpcs \<and> list_nodes api = ret ns
   \<and> (\<forall>n w r w'. get_node_state api n w = (r, w') \<longrightarrow> cur w' = cur w)
   \<and> (\<forall>k w. get_frr api k CONFIG_NAME w = (case cur w of None \<Rightarrow> Inl (ApiException 404) | Some c \<Rightarrow> Inr c, w))
   \<and> (\<forall>b w w'. create_frr api b w = (Inr (), w') \<longrightarrow> cur w' = Some b)
   \<and> (\<forall>k s w w'. patch_frr api k CONFIG_NAME s w = (Inr (), w') \<longrightarrow>
        (\<exists>c. cur w = Some c \<and> cur w' = Some (c\<lparr>fo_spec := s\<rparr>)))"

lemma reload_loop_keeps:
  assumes "\<forall>n w r w'. get n w = (r, w') \<longrightarrow> cur w' = cur w" "reload_loop get fs names w = (r, w')"
  shows "cur w' = cur w"
  using assms(2)
proof (induction names arbitrary: fs w)
  case (Cons n ns)
  obtain x w1 where g: "get n w = (x, w1)" by (cases "get n w")
  then have "cur w1 = cur w" using assms(1) by blast
  with Cons g show ?case
    by (cases x) (auto simp: bind_io_def api_default_def catch_io_def split: if_splits option.splits)
qed simp

lemma write_frr_spec:
  assumes "quiet_cluster cur api eips sns vpcs ns" "write_frr api k (cur w) d w = (Inr (), w')"
  shows "\<exists>c. cur w' = Some c \<and> fo_spec c = fo_spec d"
proof (cases "cur w")
  case None
  with assms show ?thesis unfolding quiet_cluster_def write_frr_def by auto
next
  case (Some c)
  with assms show ?thesis unfolding quiet_cluster_def write_frr_def by (fastforce split: if_splits)
qed

lemma read_frr_quiet: "quiet_cluster cur api eips sns vpcs ns \<Longrightarrow> read_frr api k w = (Inr (Inr (cur w)), w)"
  unfolding quiet_cluster_def read_frr_def by (auto simp: catch_io_def bind_io_def split: option.split)

lemma write_frr_same: "fo_spec c = fo_spec d \<Longrightarrow> write_frr api k (Some c) d = ret ()"
  by (simp add: write_frr_def)

lemma api_default_ret [simp]: "api_default (ret x) d = ret x"
  by (simp add: api_default_def)

lemma quiet_reads:
  assumes "quiet_cluster cur api eips sns vpcs ns"
  shows "\<exists>as. collect_announcements env api = ret as" "\<exists>nodes. pick_announce_nodes env api k = ret nodes"
proof -
  have "list_ovn_eips api = ret eips" "list_subnets api = ret sns" "list_vpcs api = ret vpcs" "list_nodes api = ret ns"
    using assms by (auto simp: quiet_cluster_def)
  then show "\<exists>as. collect_announcements env api = ret as" "\<exists>nodes. pick_announce_nodes env api k = ret nodes"
    by (auto simp: collect_announcements_def pick_announce_nodes_def vpcs_routed_via_def Let_def simp del: ret_app split: option.split)
qed

lemma read_fields:
  "list_ovn_eips (api\<lparr>create_frr := c, patch_frr := p\<rparr>) = list_ovn_eips api"
  "list_subnets (api\<lparr>create_frr := c, patch_frr := p\<rparr>) = list_subnets api"
  "list_vpcs (api\<lparr>create_frr := c, patch_frr := p\<rparr>) = list_vpcs api"
  "list_nodes (api\<lparr>create_frr := c, patch_frr := p\<rparr>) = list_nodes api"
  "get_frr (api\<lparr>create_frr := c, patch_frr := p\<rparr>) = get_frr api"
  "get_node_state (api\<lparr>create_frr := c, patch_frr := p\<rparr>) = get_node_state api"
  by simp_all

lemma reads_ignore_writes:
  "collect_announcements env (api\<lparr>create_frr := c, patch_frr := p\<rparr>) = collect_announcements env api"
  "pick_announce_nodes env (api\<lparr>create_frr := c, patch_frr := p\<rparr>) = pick_announce_nodes env api"
  "read_frr (api\<lparr>create_frr := c, patch_frr := p\<rparr>) = read_frr api"
  "reload_failures (api\<lparr>create_frr := c, patch_frr := p\<rparr>) = reload_failures api"
  unfolding fun_eq_iff collect_announcements_def pick_announce_nodes_def read_frr_def reload_failures_def read_fields
  by (intro allI refl)+

text \<open>On a cluster nobody else changes, a pass that reports leaves the FRRConfiguration with the spec
  rendered from the reported prefixes and nodes, and the next pass writes nothing: its outcome is the
  same whatever the create and patch calls do.\<close>

theorem ensure_announcements_settles:
  assumes quiet: "quiet_cluster cur api eips sns vpcs ns"
    and run: "ensure_announcements env api w = (Inr (Report as nodes fs), w')"
  shows "(\<exists>peer asn remote c. border_peer env = Some peer \<and> local_asn env = Some asn \<and> peer_asn env = Some remote
       \<and> cur w' = Some c \<and> fo_spec c = fo_spec (build_frr_configuration as nodes peer asn remote (frr_namespace env)))
    \<and> (\<forall>create patch. ensure_announcements env (api\<lparr>create_frr := create, patch_frr := patch\<rparr>) w' = ensure_announcements env api w')"
proof -
  let ?k = "frr_namespace env"
  from quiet_reads [OF quiet] obtain as' ns' where reads: "collect_announcements env api = ret as'"
    "pick_announce_nodes env api (announce_replicas env) = ret ns'"
    by blast
  note steps = reads read_frr_quiet [OF quiet] ensure_announcements_def bind_io_def Let_def py_asn_def
  from run obtain peer asn remote w1 where env: "border_peer env = Some peer" "local_asn env = Some asn"
      "peer_asn env = Some remote" and as: "as = as'" "nodes = ns'" "ns' \<noteq> []"
    and wr: "write_frr api ?k (cur w) (build_frr_configuration as nodes peer asn remote ?k) w = (Inr (), w1)"
    and rl: "reload_failures api nodes w1 = (Inr fs, w')"
    by (auto simp: steps split: option.splits if_splits prod.splits sum.splits)
  have "cur w' = cur w1"
    using reload_loop_keeps rl quiet unfolding reload_failures_def quiet_cluster_def by metis
  then obtain c where c: "cur w' = Some c" "fo_spec c = fo_spec (build_frr_configuration as nodes peer asn remote ?k)"
    using write_frr_spec [OF quiet wr] by metis
  have "ensure_announcements env (api\<lparr>create_frr := create, patch_frr := patch\<rparr>) w' = ensure_announcements env api w'" for create patch
    using c by (simp add: steps env reads_ignore_writes as write_frr_same)
  with env c show ?thesis by blast
qed

subsection \<open>The range of the announcing nodes\<close>

lemma all_inside_ok:
  "net_ver c = v \<Longrightarrow> \<forall>n \<in> set nets. net_ver n = v \<Longrightarrow> all_inside nets c = Inr (\<forall>n \<in> set nets. addrs n \<subseteq> addrs c)"
  by (induction nets) (auto simp: subnet_of_iff)

lemma widen_correct:
  assumes "\<forall>n \<in> set nets. wf_net n \<and> net_ver n = v" "wf_net c" "net_ver c = v"
  shows "\<exists>r. widen nets c = Inr r \<and> wf_net r \<and> net_ver r = v \<and> (\<forall>n \<in> set nets. addrs n \<subseteq> addrs r)
    \<and> (\<forall>d. wf_net d \<and> net_ver d = v \<and> addrs c \<subseteq> addrs d \<and> (\<forall>n \<in> set nets. addrs n \<subseteq> addrs d) \<longrightarrow> addrs r \<subseteq> addrs d)"
  using assms
proof (induction nets c rule: widen.induct)
  case (1 nets c)
  let ?ok = "\<lambda>d. \<forall>n \<in> set nets. addrs n \<subseteq> addrs d"
  let ?s = "supernet c"
  have test: "all_inside nets c = Inr (?ok c)" using 1 by (intro all_inside_ok [where v = v]) auto
  have s: "wf_net ?s" "net_ver ?s = v" "addrs c \<subseteq> addrs ?s" using supernet_wf [OF 1(3)] 1(4) by auto
  have up: "addrs ?s \<subseteq> addrs d" if "wf_net d" "net_ver d = v" "addrs c \<subseteq> addrs d" "?ok d" "\<not> ?ok c" for d
  proof (rule supernet_smallest [OF 1(3) that(1)])
    show "addrs c \<subset> addrs d" using that(3-5) by blast
  qed (use that(2) 1(4) in simp)
  consider "?ok c" | "\<not> ?ok c" "net_len ?s = 0" | "\<not> ?ok c" "net_len ?s \<noteq> 0" by blast
  then show ?case
  proof cases
    case 1
    then show ?thesis using "1.prems" test by (auto simp: widen.simps [of nets c])
  next
    case 2
    have "?ok ?s"
    proof
      fix n assume "n \<in> set nets"
      then show "addrs n \<subseteq> addrs ?s"
        using wf_addrs_bound [of n] "1.prems"(1) net_len_0_all [OF s(1) 2(2)] s(2) by simp
    qed
    moreover have "all_inside nets c = Inr False" using test 2(1) by simp
    ultimately show ?thesis using 2 s up by (intro exI [of _ ?s]) (simp add: widen.simps [of nets c] Let_def)
  next
    case 3
    have no: "all_inside nets c = Inr False" using test 3(1) by simp
    from "1.IH" [OF no refl refl 3(2) "1.prems"(1) s(1,2)] obtain r
      where r: "widen nets ?s = Inr r" "wf_net r" "net_ver r = v" "?ok r"
        and min: "\<And>d. wf_net d \<Longrightarrow> net_ver d = v \<Longrightarrow> addrs ?s \<subseteq> addrs d \<Longrightarrow> ?ok d \<Longrightarrow> addrs r \<subseteq> addrs d"
      by auto
    then show ?thesis
      using 3 no up by (intro exI [of _ r]) (simp add: widen.simps [of nets c] Let_def)
  qed
qed

text \<open>C20. The range computed from the announcing nodes covers all of them and is the smallest such
  network: every network that covers them contains it. The search always ends.\<close>

theorem supernet_of_smallest:
  assumes "nets \<noteq> []" "\<forall>n \<in> set nets. wf_net n \<and> net_ver n = v"
  shows "\<exists>r. supernet_of nets = Inr r \<and> wf_net r \<and> (\<forall>n \<in> set nets. addrs n \<subseteq> addrs r)
    \<and> (\<forall>d. wf_net d \<and> net_ver d = v \<and> (\<forall>n \<in> set nets. addrs n \<subseteq> addrs d) \<longrightarrow> addrs r \<subseteq> addrs d)"
  using widen_correct [OF assms(2), of "hd nets"] assms unfolding supernet_of_def by (metis hd_in_set)

subsection \<open>Witnesses\<close>

definition demo_b3_env :: env_vars where
  "demo_b3_env = (\<lambda>k. if k = ''B3_BGP_PEER'' then Some ''10.0.0.1'' else None)"

definition demo_eips :: "ovn_eip list" where
  "demo_eips = [\<lparr>eip_name = ''t1-external'', eip_type = Some ''lrp'', eip_externalSubnet = Some ''external'',
     eip_v4Ip = Some ''10.9.0.1''\<rparr>]"

definition demo_sn :: "string \<Rightarrow> string option \<Rightarrow> string \<Rightarrow> subnet_spec cr" where
  "demo_sn name vpc cidr = \<lparr>cr_name = name, cr_labels = [], cr_rv = ''1'',
     cr_spec = \<lparr>cidrBlock = Some cidr, subnet_vpc = vpc, excludeIps = None, acls = None\<rparr>\<rparr>"

definition demo_sns :: "subnet_spec cr list" where
  "demo_sns = [demo_sn ''external'' None ''10.9.0.0/24'', demo_sn ''a'' (Some ''t1'') ''10.200.0.0/24'',
     demo_sn ''b'' (Some ''t1'') ''10.200.1.0/24'']"

definition demo_vpcs :: "vpc_spec cr list" where
  "demo_vpcs = [\<lparr>cr_name = ''t1'', cr_labels = [], cr_rv = ''1'',
     cr_spec = \<lparr>vpcPeerings = None, extraExternalSubnets = None, policyRoutes = None,
       staticRoutes = Some [\<lparr>sr_cidr = Some ''0.0.0.0/0'', sr_nextHopIP = Some ''10.9.0.254''\<rparr>],
       enableExternal = None, vpc_namespaces = None\<rparr>\<rparr>]"

definition demo_nodes :: "k8s_node list" where
  "demo_nodes = [\<lparr>node_name = ''w1'', node_labels = None, node_conditions = Some [(''Ready'', ''True'')],
     node_addresses = Some [(''InternalIP'', ''10.1.0.5'')]\<rparr>]"

definition mem_b3 :: "subnet_spec cr list \<Rightarrow> frr_object option b3_api" where
  "mem_b3 sns = \<lparr>list_ovn_eips = ret demo_eips, list_subnets = ret sns, list_vpcs = ret demo_vpcs,
     list_nodes = ret demo_nodes, read_node = (\<lambda>_. ret (hd demo_nodes)),
     get_node_state = (\<lambda>_. ret \<lparr>lastConversionResult = None, lastReloadResult = Some ''success''\<rparr>),
     get_frr = (\<lambda>_ _ w. (case w of None \<Rightarrow> Inl (ApiException 404) | Some c \<Rightarrow> Inr c, w)),
     create_frr = (\<lambda>b w. (Inr (), Some b)),
     patch_frr = (\<lambda>_ _ s w. case w of None \<Rightarrow> (Inl (ApiException 404), None) | Some c \<Rightarrow> (Inr (), Some (c\<lparr>fo_spec := s\<rparr>)))\<rparr>"

lemma demo_quiet: "quiet_cluster id (mem_b3 sns) demo_eips sns demo_vpcs demo_nodes"
  by (auto simp: quiet_cluster_def mem_b3_def split: option.splits)

lemma demo_listing: "listing (mem_b3 sns) w demo_eips sns demo_vpcs w"
  by (simp add: listing_def mem_b3_def)

lemma demo_external [simp]: "external_subnet demo_b3_env = ''external''"
  by (simp add: external_subnet_def getenv_def demo_b3_env_def)

lemma demo_cidr: "cidr_of ''external'' demo_sns = ''10.9.0.0/24''"
  by (simp add: cidr_of_def demo_sns_def demo_sn_def)

lemma demo_net: "ip_network ''10.9.0.0/24'' = Some (mk_net V4 168361984 24)"
  by (simp add: net_eval)

lemma demo_via: "filter (default_via (mk_net V4 168361984 24)) demo_vpcs = demo_vpcs"
  by (simp add: demo_vpcs_def default_via_def route_hop_def ip_address_def net_eval in_net_def)

definition demo_an :: "string \<Rightarrow> announcement" where
  "demo_an cidr = \<lparr>an_vpc = ''t1'', an_cidr = cidr, an_next_hop = ''10.9.0.1''\<rparr>"

lemma demo_collect:
  "collect_announcements demo_b3_env (mem_b3 demo_sns) w = (Inr [demo_an ''10.200.0.0/24'', demo_an ''10.200.1.0/24''], w)"
proof -
  have "foldl (leg_step ''external'' (map cr_name demo_vpcs)) [] demo_eips = [(''t1'', ''10.9.0.1'')]"
    by (simp add: demo_vpcs_def demo_eips_def leg_step_def leg_vpc_def ends_with_def starts_with_def Let_def)
  moreover have "concat (map (announce_subnet [(''t1'', ''10.9.0.1'')]) demo_sns)
      = [demo_an ''10.200.0.0/24'', demo_an ''10.200.1.0/24'']"
    by (simp add: demo_sns_def announce_subnet_def demo_sn_def demo_an_def)
  ultimately show ?thesis
    using collect_run [OF demo_listing [of demo_sns w], of demo_b3_env "mk_net V4 168361984 24"]
    by (simp only: demo_external demo_cidr demo_net demo_via)
qed

text \<open>A VPC with two subnets: both prefix-list lines carry the same list name and the same sequence
  number, so FRR, which keeps one entry per list and sequence number, is left with one prefix.\<close>

lemma two_subnets_one_entry:
  "\<exists>as. collect_announcements demo_b3_env (mem_b3 demo_sns) w = (Inr as, w)
     \<and> ''ip prefix-list PL-T1 seq 5 permit 10.200.0.0/24'' \<in> set (config_lines as peer asn remote)
     \<and> ''ip prefix-list PL-T1 seq 5 permit 10.200.1.0/24'' \<in> set (config_lines as peer asn remote)"
proof -
  have "slug ''t1'' = ''T1''" by code_simp
  then show ?thesis unfolding demo_collect by (simp add: config_lines_def prefix_list_line_def demo_an_def)
qed

theorem announced_exact_witness:
  "\<exists>as. collect_announcements demo_b3_env (mem_b3 demo_sns) None = (Inr as, None) \<and> demo_an ''10.200.0.0/24'' \<in> set as"
proof -
  obtain as where run: "collect_announcements demo_b3_env (mem_b3 demo_sns) None = (Inr as, None)"
    and iff: "\<And>a. a \<in> set as \<longleftrightarrow>
        (\<exists>s \<in> set demo_sns. subnet_vpc (cr_spec s) = Some (an_vpc a) \<and> cidrBlock (cr_spec s) = Some (an_cidr a) \<and> an_cidr a \<noteq> [])
      \<and> (\<exists>e \<in> set demo_eips. is_leg ''external'' (an_vpc a) (an_next_hop a) e)
      \<and> (\<exists>v \<in> set demo_vpcs. cr_name v = an_vpc a \<and> default_via (mk_net V4 168361984 24) v)"
    using announced_exact [OF demo_listing [of demo_sns None], of demo_b3_env "mk_net V4 168361984 24"]
    by (auto simp: demo_cidr demo_net demo_eips_def)
  have "demo_an ''10.200.0.0/24'' \<in> set as"
    using demo_via unfolding iff
    by (simp add: demo_an_def demo_sns_def demo_sn_def demo_eips_def is_leg_def demo_vpcs_def split: if_splits)
  with run show ?thesis by blast
qed

theorem frr_text_order_independent_witness:
  "\<exists>as bs. collect_announcements demo_b3_env (mem_b3 demo_sns) None = (Inr as, None)
     \<and> collect_announcements demo_b3_env (mem_b3 (rev demo_sns)) None = (Inr bs, None)
     \<and> render_raw_config as ''10.0.0.1'' 65030 65000 = render_raw_config bs ''10.0.0.1'' 65030 65000"
  by (rule frr_text_order_independent [OF demo_listing demo_listing])
    (simp_all add: demo_cidr demo_net, simp_all add: demo_eips_def demo_sns_def demo_sn_def)

theorem ensure_announcements_settles_witness:
  "\<exists>as w. ensure_announcements demo_b3_env (mem_b3 demo_sns) None = (Inr (Report as [''w1''] []), w)
     \<and> (\<forall>create patch. ensure_announcements demo_b3_env ((mem_b3 demo_sns)\<lparr>create_frr := create, patch_frr := patch\<rparr>) w
          = ensure_announcements demo_b3_env (mem_b3 demo_sns) w)"
proof -
  let ?as = "[demo_an ''10.200.0.0/24'', demo_an ''10.200.1.0/24'']"
  let ?d = "build_frr_configuration ?as [''w1''] ''10.0.0.1'' 65030 65000 ''o0-metallb''"
  have env: "border_peer demo_b3_env = Some ''10.0.0.1''" "local_asn demo_b3_env = Some 65030"
    "peer_asn demo_b3_env = Some 65000" "frr_namespace demo_b3_env = ''o0-metallb''" "announce_replicas demo_b3_env = 2"
    by (simp_all add: border_peer_def some_or_none_def local_asn_def peer_asn_def frr_namespace_def announce_replicas_def
        getenv_def demo_b3_env_def py_int_def strip_def lstrip_def rstrip_def int_of_body_def net_eval char_class_defs)
  have nodes: "pick_announce_nodes demo_b3_env (mem_b3 demo_sns) 2 = ret [''w1'']"
    by (simp add: pick_announce_nodes_def explicit_nodes_def demo_b3_env_def mem_b3_def demo_nodes_def ready_worker_def
        strip_def lstrip_def rstrip_def del: ret_app)
  have run: "ensure_announcements demo_b3_env (mem_b3 demo_sns) None = (Inr (Report ?as [''w1''] []), Some ?d)"
    by (simp add: ensure_announcements_def env nodes demo_collect bind_io_def py_asn_def Let_def
        read_frr_quiet [OF demo_quiet] write_frr_def reload_failures_def)
      (simp add: mem_b3_def bind_io_def node_refusal_def refusal_def api_default_def catch_io_def strip_def lstrip_def rstrip_def char_class_defs)
  from ensure_announcements_settles [OF demo_quiet run] run show ?thesis by blast
qed

theorem supernet_of_smallest_witness:
  "\<exists>r. supernet_of [mk_net V4 167837701 32, mk_net V4 167837702 32] = Inr r \<and> wf_net r
     \<and> 167837701 \<in> addrs r \<and> 167837702 \<in> addrs r"
proof -
  let ?nets = "[mk_net V4 167837701 32, mk_net V4 167837702 32]"
  have "\<forall>n \<in> set ?nets. wf_net n \<and> net_ver n = V4" by (simp add: wf_mk_net)
  from supernet_of_smallest [OF _ this] obtain r where "supernet_of ?nets = Inr r" "wf_net r"
    "\<forall>n \<in> set ?nets. addrs n \<subseteq> addrs r" by blast
  then show ?thesis using mk_net_addr_in [of 167837701 V4 32] mk_net_addr_in [of 167837702 V4 32] by auto
qed

subsection \<open>What the pass leaves alone\<close>

text \<open>A part of the cluster the calls of the pass do not write is not changed by the pass.\<close>

definition b3_keeps :: "('w \<Rightarrow> 'x) \<Rightarrow> 'w b3_api \<Rightarrow> bool" where
  "b3_keeps obs api \<longleftrightarrow> keeps obs (list_ovn_eips api) \<and> keeps obs (list_subnets api) \<and> keeps obs (list_vpcs api)
     \<and> keeps obs (list_nodes api) \<and> (\<forall>n. keeps obs (get_node_state api n)) \<and> (\<forall>ns n. keeps obs (get_frr api ns n))
     \<and> (\<forall>o'. keeps obs (create_frr api o')) \<and> (\<forall>ns n s. keeps obs (patch_frr api ns n s))"

lemma keeps_api_default [frame]: "keeps obs m \<Longrightarrow> keeps obs (api_default m d)"
  unfolding api_default_def by (intro frame) (auto intro: frame)

lemma keeps_reload: "(\<And>n. keeps obs (get n)) \<Longrightarrow> keeps obs (reload_loop get fs names)"
  by (induction names arbitrary: fs) (simp_all add: frame)

lemma ensure_announcements_frame:
  assumes "b3_keeps obs api"
  shows "keeps obs (ensure_announcements env api)"
proof -
  note laws = assms [unfolded b3_keeps_def]
  have "keeps obs (collect_announcements env api)"
    unfolding collect_announcements_def vpcs_routed_via_def Let_def using laws by (auto intro!: frame split: option.split)
  moreover have "keeps obs (pick_announce_nodes env api n)" for n
    unfolding pick_announce_nodes_def using laws by (auto intro!: frame)
  moreover have "keeps obs (read_frr api ns)" for ns
    unfolding read_frr_def using laws by (auto intro!: frame split: exc.split)
  moreover have "keeps obs (write_frr api ns c d)" for ns c d
    unfolding write_frr_def using laws by (auto intro!: frame split: option.split)
  moreover have "keeps obs (reload_failures api nodes)" for nodes
    unfolding reload_failures_def using laws by (auto intro!: keeps_reload)
  ultimately show ?thesis
    unfolding ensure_announcements_def Let_def py_asn_def by (auto intro!: frame split: option.split sum.split)
qed

end
