(* ===== verification/Operator.thy ===== *)
theory Operator
  imports Kube
begin

section \<open>Ownership switches and managed disks (\<open>core/operator.py\<close>)\<close>

text \<open>
  The switches that say which of the two writers owns a write path, the owner of an object, and the
  change of the disk list of a managed machine. A switch is read from the environment at every call.
\<close>

subsection \<open>Switches\<close>

definition TRUTHY :: "string set" where
  "TRUTHY = {''1'', ''true'', ''yes'', ''on''}"

definition enabled :: "env_vars \<Rightarrow> string \<Rightarrow> bool" where
  "enabled env name \<longleftrightarrow> lower (strip (or_nil (env name))) \<in> TRUTHY"

definition image_path_enabled :: "env_vars \<Rightarrow> bool" where
  "image_path_enabled env = enabled env ''OPERATOR_IMAGE_ENABLED''"

definition vm_path_enabled :: "env_vars \<Rightarrow> bool" where
  "vm_path_enabled env = enabled env ''OPERATOR_VM_ENABLED''"

definition template_path_enabled :: "env_vars \<Rightarrow> bool" where
  "template_path_enabled env = enabled env ''OPERATOR_TEMPLATE_ENABLED''"

definition announce_path_enabled :: "env_vars \<Rightarrow> bool" where
  "announce_path_enabled env = enabled env ''OPERATOR_ANNOUNCE_ENABLED''"

definition network_path_enabled :: "env_vars \<Rightarrow> bool" where
  "network_path_enabled env = enabled env ''OPERATOR_NETWORK_ENABLED''"

definition tenant_path_enabled :: "env_vars \<Rightarrow> bool" where
  "tenant_path_enabled env = enabled env ''OPERATOR_TENANT_ENABLED''"

definition tenant_bootstrap_path_enabled :: "env_vars \<Rightarrow> bool" where
  "tenant_bootstrap_path_enabled env = enabled env ''OPERATOR_TENANT_BOOTSTRAP_ENABLED''"

definition tenant_time_path_enabled :: "env_vars \<Rightarrow> bool" where
  "tenant_time_path_enabled env = enabled env ''OPERATOR_TENANT_TIME_ENABLED''"

definition tenant_addons_path_enabled :: "env_vars \<Rightarrow> bool" where
  "tenant_addons_path_enabled env = enabled env ''OPERATOR_TENANT_ADDONS_ENABLED''"

definition underlay_path_enabled :: "env_vars \<Rightarrow> bool" where
  "underlay_path_enabled env = enabled env ''OPERATOR_UNDERLAY_ENABLED''"

definition peering_path_enabled :: "env_vars \<Rightarrow> bool" where
  "peering_path_enabled env = enabled env ''OPERATOR_PEERING_ENABLED''"

definition harbor_image_path_enabled :: "env_vars \<Rightarrow> bool" where
  "harbor_image_path_enabled env = enabled env ''HARBOR_IMAGE_ENABLED''"

lemma switch_default_off: "env name = None \<Longrightarrow> \<not> enabled env name"
  by (simp add: enabled_def TRUTHY_def strip_def lstrip_def rstrip_def lower_def)

subsection \<open>Owners\<close>

definition OWNER_KIND_LABEL :: string where
  "OWNER_KIND_LABEL = ''platform.kubevirt-ui.io/owner-kind''"

definition OWNER_NAME_LABEL :: string where
  "OWNER_NAME_LABEL = ''platform.kubevirt-ui.io/owner-name''"

definition managed_owner :: "string dict option \<Rightarrow> string \<Rightarrow> string option" where
  "managed_owner labels kind =
     (let ls = or_nil labels
      in if dict_get ls OWNER_KIND_LABEL \<noteq> Some kind then None
         else if truthy (dict_get ls OWNER_NAME_LABEL) then dict_get ls OWNER_NAME_LABEL else None)"

text \<open>The clock is an argument (\<open>int(time.time())\<close>).\<close>

definition operation_name :: "int \<Rightarrow> string \<Rightarrow> string \<Rightarrow> string" where
  "operation_name now action vm_name = vm_name @ ''-'' @ lower action @ ''-'' @ int_str now"

subsection \<open>Disks of a managed machine\<close>

record managed_disk =
  md_claim :: "string option"
  md_name :: "string option"
  md_bus :: "string option"

definition disk_entry :: "string \<Rightarrow> string option \<Rightarrow> string option \<Rightarrow> managed_disk" where
  "disk_entry claim volume_name bus =
     \<lparr>md_claim = Some claim,
      md_name = (if truthy volume_name \<and> volume_name \<noteq> Some claim then volume_name else None),
      md_bus = (if truthy bus then bus else None)\<rparr>"

definition change_disks ::
  "string \<Rightarrow> bool \<Rightarrow> string option \<Rightarrow> string option \<Rightarrow> managed_disk list \<Rightarrow> managed_disk list" where
  "change_disks claim attach volume_name bus disks =
     filter (\<lambda>d. md_claim d \<noteq> Some claim) disks @ (if attach then [disk_entry claim volume_name bus] else [])"

definition patch_managed_disks ::
  "('w, managed_disk list option) io \<Rightarrow> (managed_disk list \<Rightarrow> ('w, unit) io) \<Rightarrow> string \<Rightarrow> bool \<Rightarrow> string option \<Rightarrow> string option \<Rightarrow> ('w, unit) io" where
  "patch_managed_disks get_disks patch_disks claim attach volume_name bus =
     bind_io (get_disks) (\<lambda>disks. patch_disks (change_disks claim attach volume_name bus (or_nil disks)))"

lemma change_disks_attached:
  "filter (\<lambda>d. md_claim d = Some claim) (change_disks claim True volume_name bus disks) = [disk_entry claim volume_name bus]"
  by (simp add: change_disks_def disk_entry_def)

lemma change_disks_detached: "d \<in> set (change_disks claim False volume_name bus disks) \<Longrightarrow> md_claim d \<noteq> Some claim"
  by (simp add: change_disks_def)

lemma change_disks_others:
  "filter (\<lambda>d. md_claim d \<noteq> Some claim) (change_disks claim attach volume_name bus disks) = filter (\<lambda>d. md_claim d \<noteq> Some claim) disks"
  by (simp add: change_disks_def disk_entry_def)

text \<open>On a list nobody else writes, attaching leaves exactly one entry for the claim, detaching none, and
  the entries of other claims are kept in their order.\<close>

lemma patch_managed_disks_correct:
  assumes "get_disks w = (Inr ds, w)" "\<forall>xs. patch_disks xs w = (Inr (), upd xs w)"
  shows "\<exists>new. patch_managed_disks get_disks patch_disks claim attach volume_name bus w = (Inr (), upd new w)
     \<and> filter (\<lambda>d. md_claim d = Some claim) new = (if attach then [disk_entry claim volume_name bus] else [])
     \<and> filter (\<lambda>d. md_claim d \<noteq> Some claim) new = filter (\<lambda>d. md_claim d \<noteq> Some claim) (or_nil ds)"
  by (rule exI [of _ "change_disks claim attach volume_name bus (or_nil ds)"])
    (use assms in \<open>simp add: patch_managed_disks_def bind_io_def change_disks_attached change_disks_others,
      simp add: change_disks_def disk_entry_def\<close>)

text \<open>The write carries no version, so a second attachment that reads before the first one writes makes
  the first one disappear, although both report success.\<close>

definition late_reader :: "managed_disk list \<Rightarrow> (managed_disk list, managed_disk list option) io" where
  "late_reader seen = (\<lambda>w. (Inr (Some seen), w))"

lemma racing_attach_lost:
  assumes "c1 \<noteq> c2"
  shows "\<exists>w1 w2. patch_managed_disks (late_reader []) (\<lambda>xs w. (Inr (), xs)) c1 True None None [] = (Inr (), w1)
     \<and> patch_managed_disks (late_reader []) (\<lambda>xs w. (Inr (), xs)) c2 True None None w1 = (Inr (), w2)
     \<and> w2 = [disk_entry c2 None None] \<and> (\<forall>d \<in> set w2. md_claim d \<noteq> Some c1)"
  using assms by (simp add: patch_managed_disks_def late_reader_def bind_io_def change_disks_def disk_entry_def)

end
