(* ===== verification/Reconciler.thy ===== *)
theory Reconciler
  imports Announce Operator
begin

section \<open>The addon reconciler (\<open>core/tenant_reconciler.py\<close>)\<close>

text \<open>
  The pass that announces prefixes, repairs worker templates and installs the required addons of every
  ready tenant, and the back-off of the loop around it. The catalog text is YAML: its parser is an
  argument. The two calls into \<open>api/v1/tenants_talos.py\<close> (the bootstrap token and the repair of
  worker templates) are arguments too. Of a HelmRelease the model keeps the fields that depend on the
  addon; the intervals, timeouts and remediation settings are fixed.
\<close>

subsection \<open>Data\<close>

record 'v addon_component =
  ac_id :: string
  ac_category :: string
  ac_required :: bool
  ac_chartPath :: string
  ac_namespace :: string
  ac_defaultValues :: "'v dict"

record 'v addon_catalog =
  git_repository_ref :: "string dict"
  base_path :: string
  catalog_components :: "'v addon_component list"

datatype 'v helm_values = HelmDefaults "'v dict" | HelmNamespaces "string list"

record 'v helm_release =
  hr_name :: string
  hr_namespace :: string
  hr_labels :: "string dict"
  hr_releaseName :: string
  hr_kubeConfig :: string
  hr_chart :: string
  hr_sourceRef :: "string dict"
  hr_targetNamespace :: "string option"
  hr_values :: "'v helm_values option"
  hr_dependsOn :: "(string \<times> string) list"

record capi_cluster =
  cl_name :: string
  cl_namespace :: string
  cl_conditions :: "(string \<times> string) list"

record ('w, 'v) addon_api =
  read_catalog :: "('w, config_map) io"
  read_secret :: "string \<Rightarrow> string \<Rightarrow> ('w, unit) io"
  list_releases :: "string \<Rightarrow> string \<Rightarrow> ('w, string dict option list) io"
  create_release :: "'v helm_release \<Rightarrow> ('w, unit) io"
  list_clusters :: "('w, capi_cluster list) io"
  ensure_kubelet_bootstrap_token :: "string \<Rightarrow> string \<Rightarrow> ('w, unit) io"
  ensure_worker_bootstrap_ca :: "('w, unit) io"

subsection \<open>One tenant\<close>

definition RECONCILE_INTERVAL :: nat where
  "RECONCILE_INTERVAL = 30"

definition empty_catalog :: "'v addon_catalog" where
  "empty_catalog = \<lparr>git_repository_ref = [], base_path = ''tenant-charts'', catalog_components = []\<rparr>"

text \<open>\<open>parse\<close> stands for \<open>yaml.safe_load\<close> and the validation of the result.\<close>

definition get_addon_catalog :: "('w, 'v) addon_api \<Rightarrow> (string \<Rightarrow> exc + 'v addon_catalog) \<Rightarrow> ('w, 'v addon_catalog) io" where
  "get_addon_catalog api parse = (\<lambda>w.
     case read_catalog api w of
       (Inl e, w1) \<Rightarrow> if e = ApiException 404 then (Inr empty_catalog, w1) else (Inl e, w1)
     | (Inr cm, w1) \<Rightarrow>
         (parse (if or_nil (cm_data cm) = [] then ''{}''
                 else (case dict_get (or_nil (cm_data cm)) ''catalog.yaml'' of None \<Rightarrow> ''{}'' | Some t \<Rightarrow> t)), w1))"

definition is_tenant_ready :: "capi_cluster \<Rightarrow> bool" where
  "is_tenant_ready c \<longleftrightarrow> (''Ready'', ''True'') \<in> set (cl_conditions c)"

fun any_secret :: "('w, 'v) addon_api \<Rightarrow> string \<Rightarrow> string list \<Rightarrow> ('w, bool) io" where
  "any_secret api ns [] = ret False"
| "any_secret api ns (s # ss) = (\<lambda>w.
     case read_secret api ns s w of
       (Inr _, w1) \<Rightarrow> (Inr True, w1)
     | (Inl e, w1) \<Rightarrow> if is_api e then any_secret api ns ss w1 else (Inl e, w1))"

definition kubeconfig_secret_exists :: "('w, 'v) addon_api \<Rightarrow> string \<Rightarrow> string \<Rightarrow> ('w, bool) io" where
  "kubeconfig_secret_exists api tenant ns = any_secret api ns [tenant @ ''-kubeconfig'', tenant @ ''-admin-kubeconfig'']"

definition ADDON_LABEL :: string where
  "ADDON_LABEL = ''kubevirt-ui.io/addon''"

definition get_existing_addon_ids :: "('w, 'v) addon_api \<Rightarrow> string \<Rightarrow> string \<Rightarrow> ('w, string list) io" where
  "get_existing_addon_ids api tenant ns =
     catch_io (bind_io (list_releases api ns tenant) (\<lambda>items.
        ret (map (\<lambda>ls. or_nil (dict_get (or_nil ls) ADDON_LABEL)) items)))
       (\<lambda>e. if is_api e then ret [] else raise e)"

definition is_cni :: "'v addon_component \<Rightarrow> bool" where
  "is_cni c \<longleftrightarrow> ac_required c \<and> ac_category c = ''networking''"

definition first_id :: "('v addon_component \<Rightarrow> bool) \<Rightarrow> 'v addon_component list \<Rightarrow> string option" where
  "first_id P cs = map_option ac_id (find P cs)"

definition depends_on :: "'v addon_component list \<Rightarrow> string list \<Rightarrow> 'v addon_component \<Rightarrow> string option" where
  "depends_on all_required existing c =
     (let need = (if ac_id c = ''namespaces'' then None
                  else if is_cni c then first_id (\<lambda>x. ac_id x = ''namespaces'') all_required
                  else first_id is_cni all_required)
      in if truthy need \<and> or_nil need \<in> set existing then need else None)"

text \<open>The namespaces of the catalog, each once, in the order of their first component.\<close>

definition catalog_namespaces :: "'v addon_component list \<Rightarrow> string list" where
  "catalog_namespaces cs =
     foldl (\<lambda>seen c. if ac_namespace c \<noteq> [] \<and> ac_namespace c \<notin> set seen then seen @ [ac_namespace c] else seen) [] cs"

definition values_of :: "'v addon_catalog \<Rightarrow> 'v addon_component \<Rightarrow> 'v helm_values option" where
  "values_of catalog c =
     (if ac_id c = ''namespaces'' then Some (HelmNamespaces (catalog_namespaces (catalog_components catalog)))
      else if ac_defaultValues c = [] then None else Some (HelmDefaults (ac_defaultValues c)))"

definition addon_release ::
  "string \<Rightarrow> string \<Rightarrow> 'v addon_catalog \<Rightarrow> 'v addon_component list \<Rightarrow> string list \<Rightarrow> 'v addon_component \<Rightarrow> 'v helm_release" where
  "addon_release tenant ns catalog all_required existing c =
     \<lparr>hr_name = tenant @ ''-'' @ ac_id c, hr_namespace = ns,
      hr_labels = [(''kubevirt-ui.io/tenant'', tenant), (ADDON_LABEL, ac_id c), (''kubevirt-ui.io/reconciler-managed'', ''true'')],
      hr_releaseName = ac_id c, hr_kubeConfig = tenant @ ''-kubeconfig'',
      hr_chart = ''./'' @ base_path catalog @ ''/'' @ ac_chartPath c,
      hr_sourceRef = foldl (\<lambda>d (k, v). dict_set d k v) [(''kind'', ''GitRepository'')] (git_repository_ref catalog),
      hr_targetNamespace = (if ac_namespace c = [] then None else Some (ac_namespace c)),
      hr_values = values_of catalog c,
      hr_dependsOn = (case depends_on all_required existing c of None \<Rightarrow> [] | Some d \<Rightarrow> [(tenant @ ''-'' @ d, ns)])\<rparr>"

definition create_required_addon ::
  "('w, 'v) addon_api \<Rightarrow> string \<Rightarrow> string \<Rightarrow> 'v addon_catalog \<Rightarrow> 'v addon_component list \<Rightarrow> string list \<Rightarrow> 'v addon_component \<Rightarrow> ('w, unit) io" where
  "create_required_addon api tenant ns catalog all_required existing c =
     create_release api (addon_release tenant ns catalog all_required existing c)"

definition addon_rank :: "'v addon_component \<Rightarrow> nat" where
  "addon_rank c = (if ac_id c = ''namespaces'' then 0 else if is_cni c then 1 else 2)"

fun install_missing ::
  "env_vars \<Rightarrow> ('w, 'v) addon_api \<Rightarrow> string \<Rightarrow> string \<Rightarrow> 'v addon_catalog \<Rightarrow> 'v addon_component list \<Rightarrow> string list \<Rightarrow>
   'v addon_component list \<Rightarrow> ('w, unit) io" where
  "install_missing env api tenant ns catalog all_required existing [] = ret ()"
| "install_missing env api tenant ns catalog all_required existing (c # cs) = (\<lambda>w.
     if tenant_addons_path_enabled env then (Inr (), w)
     else (case create_required_addon api tenant ns catalog all_required existing c w of
             (Inr _, w1) \<Rightarrow> install_missing env api tenant ns catalog all_required (ac_id c # existing) cs w1
           | (Inl e, w1) \<Rightarrow>
               if e = ApiException 409 then install_missing env api tenant ns catalog all_required (ac_id c # existing) cs w1
               else if is_api e then install_missing env api tenant ns catalog all_required existing cs w1
               else (Inl e, w1)))"

definition reconcile_tenant ::
  "env_vars \<Rightarrow> ('w, 'v) addon_api \<Rightarrow> 'v addon_catalog \<Rightarrow> 'v addon_component list \<Rightarrow> capi_cluster \<Rightarrow> ('w, unit) io" where
  "reconcile_tenant env api catalog required cluster =
     (let name = cl_name cluster; ns = cl_namespace cluster
      in if \<not> is_tenant_ready cluster then ret ()
         else bind_io (kubeconfig_secret_exists api name ns) (\<lambda>ok.
           if \<not> ok then ret ()
           else bind_io (catch_io (ensure_kubelet_bootstrap_token api name ns) (\<lambda>_. ret ())) (\<lambda>_.
             bind_io (get_existing_addon_ids api name ns) (\<lambda>existing.
             let missing = filter (\<lambda>c. ac_id c \<notin> set existing) required
             in install_missing env api name ns catalog required existing (sort_key addon_rank missing)))))"

subsection \<open>One pass and the loop\<close>

text \<open>\<open>try: m except Exception: log\<close>.\<close>

definition guarded :: "('w, 'a) io \<Rightarrow> ('w, unit) io" where
  "guarded m = catch_io (bind_io m (\<lambda>_. ret ())) (\<lambda>_. ret ())"

definition repair_worker_bootstrap :: "env_vars \<Rightarrow> ('w, 'v) addon_api \<Rightarrow> ('w, bool) io" where
  "repair_worker_bootstrap env api =
     (if tenant_bootstrap_path_enabled env then ret False
      else bind_io (ensure_worker_bootstrap_ca api) (\<lambda>_. ret True))"

definition reconcile_once ::
  "env_vars \<Rightarrow> 'w b3_api \<Rightarrow> ('w, 'v) addon_api \<Rightarrow> (string \<Rightarrow> exc + 'v addon_catalog) \<Rightarrow> ('w, unit) io" where
  "reconcile_once env b3 api parse =
     bind_io (if announce_path_enabled env then ret () else guarded (ensure_announcements env b3)) (\<lambda>_.
     bind_io (guarded (repair_worker_bootstrap env api)) (\<lambda>_.
     bind_io (get_addon_catalog api parse) (\<lambda>catalog.
     if catalog_components catalog = [] \<or> git_repository_ref catalog = [] then ret ()
     else let required = filter ac_required (catalog_components catalog)
       in if required = [] then ret ()
          else bind_io (catch_io (list_clusters api) (\<lambda>e. if e = ApiException 404 then ret [] else raise e)) (\<lambda>clusters.
               for_each clusters (\<lambda>c. guarded (reconcile_tenant env api catalog required c))))))"

definition next_backoff :: "nat \<Rightarrow> bool \<Rightarrow> nat" where
  "next_backoff backoff ok = (if ok then RECONCILE_INTERVAL else min (backoff * 2) 300)"

text \<open>The delays of the loop for the outcomes of its passes.\<close>

fun reconcile_delays :: "nat \<Rightarrow> bool list \<Rightarrow> nat list" where
  "reconcile_delays backoff [] = []"
| "reconcile_delays backoff (ok # oks) = (let b = next_backoff backoff ok in b # reconcile_delays b oks)"

subsection \<open>The required addons get installed, in order\<close>

text \<open>A cluster with one writer that stores the HelmReleases \<open>rels\<close> and is strict about dependencies: it
  refuses a release whose dependencies are not stored yet.\<close>

definition stored :: "'v helm_release list \<Rightarrow> string \<Rightarrow> string \<Rightarrow> bool" where
  "stored rs ns name \<longleftrightarrow> (\<exists>r \<in> set rs. hr_namespace r = ns \<and> hr_name r = name)"


text \<open>A release that is labelled as an addon of a tenant is named after the two.\<close>

definition well_named :: "'v helm_release list \<Rightarrow> bool" where
  "well_named rs \<longleftrightarrow>
     (\<forall>r \<in> set rs. \<forall>t a. dict_get (hr_labels r) ''kubevirt-ui.io/tenant'' = Some t
        \<and> dict_get (hr_labels r) ADDON_LABEL = Some a \<longrightarrow> hr_name r = t @ ''-'' @ a)"


text \<open>What one step over a tenant does to the releases: it only adds well-named ones.\<close>

definition grown :: "'v helm_release list \<Rightarrow> 'v helm_release list \<Rightarrow> bool" where
  "grown rs rs' \<longleftrightarrow> (\<exists>new. rs' = rs @ new) \<and> (well_named rs \<longrightarrow> well_named rs')"

lemma grown_refl [simp]: "grown rs rs"
  by (simp add: grown_def)


lemma stored_append [simp]: "stored (xs @ ys) ns n \<longleftrightarrow> stored xs ns n \<or> stored ys ns n"
  by (auto simp: stored_def)











lemma keeps_any_secret [frame]: "(\<And>s. keeps obs (read_secret api ns s)) \<Longrightarrow> keeps obs (any_secret api ns ss)"
proof (induction ss)
  case (Cons s ss)
  then show ?case unfolding keeps_def
    by (auto split: prod.splits sum.splits if_splits; metis)
qed (simp add: frame)



subsection \<open>Isolation and back-off\<close>

lemma bind_io_assoc: "bind_io (bind_io m f) g = bind_io m (\<lambda>x. bind_io (f x) g)"
  by (rule ext) (auto simp: bind_io_def split: prod.splits sum.splits)

lemma guarded_ok: "\<exists>w'. guarded m w = (Inr (), w')"
  by (cases "m w") (auto simp: guarded_def catch_io_def bind_io_def ret_def split: sum.splits)

lemma for_each_ok:
  assumes "\<And>x w. \<exists>w'. f x w = (Inr (), w')"
  shows "\<exists>w'. for_each xs f w = (Inr (), w')"
proof (induction xs arbitrary: w)
  case (Cons x xs)
  obtain w1 where "f x w = (Inr (), w1)" using assms by blast
  then show ?case using Cons.IH [of w1] by (simp add: bind_io_def)
qed simp

text \<open>The clusters of a pass, and the whole pass as the loop over them.\<close>

definition each_tenant ::
  "env_vars \<Rightarrow> ('w, 'v) addon_api \<Rightarrow> 'v addon_catalog \<Rightarrow> capi_cluster list \<Rightarrow> ('w, unit) io" where
  "each_tenant env api catalog clusters =
     for_each clusters (\<lambda>c. guarded (reconcile_tenant env api catalog (filter ac_required (catalog_components catalog)) c))"

lemma each_tenant_ok: "\<exists>w'. each_tenant env api catalog clusters w = (Inr (), w')"
  unfolding each_tenant_def by (rule for_each_ok) (rule guarded_ok)


text \<open>The steps of a pass before the catalog is read.\<close>

definition preparation :: "env_vars \<Rightarrow> 'w b3_api \<Rightarrow> ('w, 'v) addon_api \<Rightarrow> ('w, unit) io" where
  "preparation env b3 api =
     bind_io (if announce_path_enabled env then ret () else guarded (ensure_announcements env b3))
       (\<lambda>_. guarded (repair_worker_bootstrap env api))"

lemma preparation_ok: "\<exists>w'. preparation env b3 api w = (Inr (), w')"
proof -
  let ?announce = "if announce_path_enabled env then ret () else guarded (ensure_announcements env b3)"
  have "\<exists>w1. ?announce w = (Inr (), w1)" using guarded_ok [of "ensure_announcements env b3" w] by auto
  then obtain w1 where w1: "?announce w = (Inr (), w1)" by blast
  show ?thesis unfolding preparation_def bind_io_ok [of ?announce, OF w1] by (rule guarded_ok)
qed

lemma keeps_guarded [frame]: "keeps obs m \<Longrightarrow> keeps obs (guarded m)"
  unfolding guarded_def by (intro frame)


lemma reconcile_once_run:
  assumes prep: "preparation env b3 api w = (Inr (), w1)" and cat: "get_addon_catalog api parse w1 = (Inr catalog, w2)"
    and ls: "catch_io (list_clusters api) (\<lambda>e. if e = ApiException 404 then ret [] else raise e) w2 = (Inr cs, w3)"
  shows "reconcile_once env b3 api parse w =
    (if catalog_components catalog = [] \<or> git_repository_ref catalog = [] \<or> filter ac_required (catalog_components catalog) = []
     then (Inr (), w2) else each_tenant env api catalog cs w3)"
proof -
  have "reconcile_once env b3 api parse w =
    bind_io (preparation env b3 api) (\<lambda>_. bind_io (get_addon_catalog api parse) (\<lambda>catalog.
     if catalog_components catalog = [] \<or> git_repository_ref catalog = [] then ret ()
     else let required = filter ac_required (catalog_components catalog)
       in if required = [] then ret ()
          else bind_io (catch_io (list_clusters api) (\<lambda>e. if e = ApiException 404 then ret [] else raise e)) (\<lambda>clusters.
               for_each clusters (\<lambda>c. guarded (reconcile_tenant env api catalog required c))))) w"
    unfolding reconcile_once_def preparation_def bind_io_assoc ..
  then show ?thesis unfolding bind_io_ok [of "preparation env b3 api", OF prep] bind_io_ok [of "get_addon_catalog api parse", OF cat] Let_def each_tenant_def
    by (simp add: bind_io_ok [of "catch_io (list_clusters api) (\<lambda>e. if e = ApiException 404 then ret [] else raise e)", OF ls])
qed

text \<open>A pass whose catalog and cluster list can be read returns normally whatever the announcements, the
  repair of worker templates and the single tenants do: one subsystem does not stop another.\<close>

theorem pass_completes:
  assumes cat: "\<And>w. \<exists>w'. get_addon_catalog api parse w = (Inr catalog, w')"
    and ls: "\<And>w. \<exists>cs w'. list_clusters api w = (Inr cs, w') \<or> list_clusters api w = (Inl (ApiException 404), w')"
  shows "\<exists>w'. reconcile_once env b3 api parse w = (Inr (), w')"
proof -
  obtain w1 where w1: "preparation env b3 api w = (Inr (), w1)" using preparation_ok [of env b3 api w] by blast
  obtain w2 where w2: "get_addon_catalog api parse w1 = (Inr catalog, w2)" using cat by blast
  obtain cs w3 where "catch_io (list_clusters api) (\<lambda>e. if e = ApiException 404 then ret [] else raise e) w2 = (Inr cs, w3)"
    using ls [of w2] by (auto simp: catch_io_def)
  from reconcile_once_run [OF w1 w2 this] show ?thesis using each_tenant_ok [of env api catalog cs w3] by simp
qed


text \<open>The delay between two passes stays between the interval and five minutes, whatever passes fail.\<close>

theorem reconcile_delays_bounded:
  assumes "RECONCILE_INTERVAL \<le> b" "b \<le> 300" "d \<in> set (reconcile_delays b oks)"
  shows "RECONCILE_INTERVAL \<le> d \<and> d \<le> 300"
  using assms
proof (induction oks arbitrary: b)
  case (Cons ok oks)
  have "RECONCILE_INTERVAL \<le> next_backoff b ok" "next_backoff b ok \<le> 300"
    using Cons.prems by (auto simp: next_backoff_def RECONCILE_INTERVAL_def)
  then show ?case using Cons by (auto simp: Let_def)
qed simp



subsection \<open>Examples\<close>

definition demo_cluster :: capi_cluster where
  "demo_cluster = \<lparr>cl_name = ''t'', cl_namespace = ''tenant-t'', cl_conditions = [(''Ready'', ''True'')]\<rparr>"

definition mem_helm :: "(unit helm_release list, unit) addon_api" where
  "mem_helm =
     \<lparr>read_catalog = ret \<lparr>cm_name = ''tenant-addon-catalog'', cm_labels = [], cm_rv = None, cm_data = None\<rparr>,
      read_secret = (\<lambda>_ _. ret ()),
      list_releases = (\<lambda>ns t w. (Inr (map (\<lambda>r. Some (hr_labels r))
        (filter (\<lambda>r. hr_namespace r = ns \<and> dict_get (hr_labels r) ''kubevirt-ui.io/tenant'' = Some t) w)), w)),
      create_release = (\<lambda>b w. if \<exists>r \<in> set w. hr_namespace r = hr_namespace b \<and> hr_name r = hr_name b then (Inl (ApiException 409), w)
        else if \<forall>(d, n) \<in> set (hr_dependsOn b). \<exists>r \<in> set w. hr_namespace r = n \<and> hr_name r = d then (Inr (), w @ [b])
        else (Inl (ApiException 422), w)),
      list_clusters = ret [demo_cluster],
      ensure_kubelet_bootstrap_token = (\<lambda>_ _. raise OtherError),
      ensure_worker_bootstrap_ca = raise OtherError\<rparr>"

definition demo_addon :: "string \<Rightarrow> string \<Rightarrow> unit addon_component" where
  "demo_addon i cat = \<lparr>ac_id = i, ac_category = cat, ac_required = True, ac_chartPath = i, ac_namespace = [], ac_defaultValues = []\<rparr>"

definition demo_addons :: "unit addon_component list" where
  "demo_addons = [demo_addon ''csi'' ''storage'', demo_addon ''cilium'' ''networking'', demo_addon ''namespaces'' ''core'']"

definition demo_catalog :: "unit addon_catalog" where
  "demo_catalog = \<lparr>git_repository_ref = [(''name'', ''charts'')], base_path = ''base'', catalog_components = demo_addons\<rparr>"


definition idle_b3 :: "'w b3_api" where
  "idle_b3 = \<lparr>list_ovn_eips = raise OtherError, list_subnets = raise OtherError, list_vpcs = raise OtherError,
     list_nodes = raise OtherError, read_node = (\<lambda>_. raise OtherError), get_node_state = (\<lambda>_. raise OtherError),
     get_frr = (\<lambda>_ _. raise OtherError), create_frr = (\<lambda>_. raise OtherError), patch_frr = (\<lambda>_ _ _. raise OtherError)\<rparr>"



text \<open>A cluster that refuses the first creation of the network addon.\<close>

definition flaky_helm :: "(bool \<times> unit helm_release list, unit) addon_api" where
  "flaky_helm =
     \<lparr>read_catalog = ret \<lparr>cm_name = ''tenant-addon-catalog'', cm_labels = [], cm_rv = None, cm_data = None\<rparr>,
      read_secret = (\<lambda>_ _. ret ()),
      list_releases = (\<lambda>ns t w. (Inr (map (\<lambda>r. Some (hr_labels r)) (snd w)), w)),
      create_release = (\<lambda>b w. if fst w \<and> hr_releaseName b = ''cilium'' then (Inl (ApiException 500), (False, snd w))
        else (Inr (), (fst w, snd w @ [b]))),
      list_clusters = ret [demo_cluster],
      ensure_kubelet_bootstrap_token = (\<lambda>_ _. ret ()),
      ensure_worker_bootstrap_ca = ret ()\<rparr>"

text \<open>When the creation of the network addon fails in one pass, the addons after it are created without
  their dependency, and the next passes do not add it: they only create what is missing.\<close>

lemma failed_cni_drops_dependency:
  defines "pass \<equiv> reconcile_tenant (\<lambda>_. None) flaky_helm demo_catalog demo_addons demo_cluster"
  shows "map (\<lambda>r. (hr_releaseName r, hr_dependsOn r)) (snd (snd (pass (snd (pass (True, [])))))) =
    [(''namespaces'', []), (''csi'', []), (''cilium'', [(''t-namespaces'', ''tenant-t'')])]"
    and "map (\<lambda>r. (hr_releaseName r, hr_dependsOn r)) (snd (snd (pass (False, [])))) =
    [(''namespaces'', []), (''cilium'', [(''t-namespaces'', ''tenant-t'')]), (''csi'', [(''t-cilium'', ''tenant-t'')])]"
  unfolding pass_def
  by (simp_all add: reconcile_tenant_def flaky_helm_def demo_cluster_def demo_catalog_def demo_addons_def demo_addon_def
      is_tenant_ready_def bind_io_def catch_io_def kubeconfig_secret_exists_def get_existing_addon_ids_def
      create_required_addon_def addon_release_def depends_on_def is_cni_def first_id_def addon_rank_def values_of_def
      tenant_addons_path_enabled_def switch_default_off sort_key_def ADDON_LABEL_def or_nil_def Let_def)

theorem pass_completes_witness:
  "\<exists>w'. reconcile_once (\<lambda>v. if v = ''B3_BGP_PEER'' then Some ''10.0.0.1'' else None) idle_b3 mem_helm (\<lambda>_. Inr demo_catalog) [] = (Inr (), w')"
  by (rule pass_completes [where catalog = demo_catalog]) (simp_all add: get_addon_catalog_def mem_helm_def)

theorem reconcile_delays_bounded_witness:
  "RECONCILE_INTERVAL \<le> 300 \<and> reconcile_delays 30 [False, False, False, False, False, True] = [60, 120, 240, 300, 300, 30]"
  using reconcile_delays_bounded [of 30 300 "[False, False, False, False, False, True]"]
  by (simp add: next_backoff_def RECONCILE_INTERVAL_def)

end
