(* ===== verification/TenantCommon.thy ===== *)
theory TenantCommon
  imports Access Announce
begin

section \<open>What the tenant handlers share (\<open>api/v1/tenants_common.py\<close>)\<close>

text \<open>
  The discovery of the host cluster's addresses and its cache, the check of a tenant's address plan
  against them, the access check on one tenant, the tenant namespace and the restart of control planes.
  The module variable \<open>_cluster_config\<close> is the first part of the state; the clock is an argument in
  whole seconds. \<open>_find_kubeovn_namespace\<close> is from \<open>api/v1/network.py\<close>. The reading of
  \<open>networking.serviceSubnet\<close> in a YAML text is an argument: \<^const>\<open>None\<close> when the text does not
  parse, has another shape or does not have the field.
\<close>

subsection \<open>Objects and calls\<close>

record cluster_config =
  cc_ingress_ip :: string
  cc_ingress_domain :: string
  cc_ingress_class :: string
  cc_ingress_controller :: string
  cc_mgmt_cidr :: "string option"
  cc_vpcdns_forward_dns :: string
  cc_vpcdns_vip :: string
  cc_host_service_cidr :: "string option"
  cc_fetched_at :: int

record ingress_class =
  ic_name :: string
  ic_annotations :: "string dict option"
  ic_controller :: "string option"

record lb_service =
  sv_name :: string
  sv_namespace :: "string option"
  sv_type :: "string option"
  sv_ingress :: "(string option \<times> string option) list"

record container =
  c_command :: "string list option"
  c_args :: "string list option"

record deployment =
  dep_name :: string
  dep_namespace :: string

record 'w host_api =
  list_ingress_class :: "('w, ingress_class list) io"
  read_ingress_class :: "string \<Rightarrow> ('w, ingress_class) io"
  list_services :: "('w, lb_service list) io"
  list_host_nodes :: "('w, k8s_node list) io"
  read_dns_service :: "string \<Rightarrow> ('w, string option) io"
  read_cm_in :: "string \<Rightarrow> string \<Rightarrow> ('w, config_map) io"
  list_apiserver_pods :: "string \<Rightarrow> ('w, container list option list) io"
  read_controller :: "string \<Rightarrow> ('w, unit) io"
  list_deployments :: "string option \<Rightarrow> ('w, deployment list) io"

definition TENANT_NS_PREFIX :: string where
  "TENANT_NS_PREFIX = ''tenant-''"

definition CLUSTER_CONFIG_TTL_SEC :: int where
  "CLUSTER_CONFIG_TTL_SEC = 300"

definition VPCDNS_FORWARD_DNS_FALLBACK :: string where
  "VPCDNS_FORWARD_DNS_FALLBACK = ''10.96.0.10''"

definition tenant_ns :: "string \<Rightarrow> string" where
  "tenant_ns name = TENANT_NS_PREFIX @ name"

subsection \<open>Discovery of the service network\<close>

fun discover_dns :: "'w host_api \<Rightarrow> string list \<Rightarrow> ('w, string option) io" where
  "discover_dns api [] = ret None"
| "discover_dns api (svc # svcs) = (\<lambda>w.
     case read_dns_service api svc w of
       (Inr ip, w1) \<Rightarrow> if truthy ip \<and> ip \<noteq> Some ''None'' then (Inr ip, w1) else discover_dns api svcs w1
     | (Inl e, w1) \<Rightarrow> if is_api e then discover_dns api svcs w1 else (Inl e, w1))"

definition discover_kube_dns_clusterip :: "'w host_api \<Rightarrow> ('w, string option) io" where
  "discover_kube_dns_clusterip api = discover_dns api [''kube-dns'', ''coredns'']"

definition range_flag :: string where
  "range_flag = ''--service-cluster-ip-range=''"

text \<open>\<open>tok.split("=", 1)[1]\<close> of the first token with the flag, over all containers of all pods.\<close>

definition range_of_pods :: "container list option list \<Rightarrow> string option" where
  "range_of_pods pods =
     (let tokens = concat (map (\<lambda>c. or_nil (c_command c) @ or_nil (c_args c)) (concat (map or_nil pods)))
      in map_option (\<lambda>tok. snd (partition_on (CHR ''='') tok)) (find (starts_with range_flag) tokens))"

definition apiserver_selectors :: "string list" where
  "apiserver_selectors = [''component=kube-apiserver'', ''k8s-app=kube-apiserver'', ''tier=control-plane,k8s-app=kube-apiserver'']"

fun range_from_pods :: "'w host_api \<Rightarrow> string list \<Rightarrow> ('w, string option) io" where
  "range_from_pods api [] = ret None"
| "range_from_pods api (s # ss) = (\<lambda>w.
     case list_apiserver_pods api s w of
       (Inr pods, w1) \<Rightarrow> (case range_of_pods pods of Some r \<Rightarrow> (Inr (Some r), w1) | None \<Rightarrow> range_from_pods api ss w1)
     | (Inl e, w1) \<Rightarrow> if is_api e then range_from_pods api ss w1 else (Inl e, w1))"

definition discover_service_cidr :: "'w host_api \<Rightarrow> (string \<Rightarrow> string option) \<Rightarrow> ('w, string option) io" where
  "discover_service_cidr api service_subnet =
     bind_io (api_default (bind_io (read_cm_in api ''kube-system'' ''kubeadm-config'') (\<lambda>cm.
        let raw = or_nil (dict_get (or_nil (cm_data cm)) ''ClusterConfiguration'')
        in ret (if raw = [] then None else service_subnet raw))) None)
       (\<lambda>found. if truthy found then ret found else range_from_pods api apiserver_selectors)"

subsection \<open>The resolver of the VPCs\<close>

definition find_kubeovn_namespace :: "env_vars \<Rightarrow> 'w host_api \<Rightarrow> ('w, string) io" where
  "find_kubeovn_namespace env api =
     (let configured = getenv env ''KUBE_OVN_NAMESPACE'' ''kube-ovn''
      in bind_io (api_default (bind_io (read_controller api configured) (\<lambda>_. ret True)) False) (\<lambda>here.
         if here then ret configured
         else bind_io (api_default (list_deployments api (Some ''app=kube-ovn-controller'')) []) (\<lambda>labelled.
           if labelled \<noteq> [] then ret (dep_namespace (hd labelled))
           else bind_io (api_default (list_deployments api None) []) (\<lambda>all_deps.
             case find (\<lambda>d. dep_name d = ''kube-ovn-controller'') all_deps of
               Some d \<Rightarrow> ret (dep_namespace d)
             | None \<Rightarrow> raise (HTTPException 500)))))"

definition vpcdns_vip_from_kubeovn :: "env_vars \<Rightarrow> 'w host_api \<Rightarrow> ('w, string) io" where
  "vpcdns_vip_from_kubeovn env api =
     catch_io (bind_io (find_kubeovn_namespace env api) (\<lambda>ns.
        if ns = [] then ret [] else bind_io (read_cm_in api ns ''vpc-dns-config'')
          (\<lambda>cm. ret (strip (or_nil (dict_get (or_nil (cm_data cm)) ''coredns-vip''))))))
       (\<lambda>_. ret [])"

text \<open>The resolver address derived from the service network: 200 in the last octet.\<close>

definition derived_vip :: "string option \<Rightarrow> string" where
  "derived_vip service_cidr =
     (if \<not> truthy service_cidr then []
      else case ip_network (the service_cidr) of
             None \<Rightarrow> []
           | Some net \<Rightarrow>
               (case split_on (CHR ''.'') (ip_str (net_ver net) (net_addr net)) of
                  [a, b, c, _] \<Rightarrow> a @ ''.'' @ b @ ''.'' @ c @ ''.200''
                | _ \<Rightarrow> []))"

subsection \<open>The cluster configuration\<close>

definition discover_ingress_class :: "env_vars \<Rightarrow> 'w host_api \<Rightarrow> ('w, string \<times> string) io" where
  "discover_ingress_class env api =
     (let or_unknown = (\<lambda>c. if truthy c then the c else ''unknown'')
      in if truthy (env ''TENANTS_INGRESS_CLASS'')
         then bind_io (api_default (bind_io (read_ingress_class api (the (env ''TENANTS_INGRESS_CLASS''))) (\<lambda>ic. ret (or_unknown (ic_controller ic)))) ''unknown'')
           (\<lambda>controller. ret (the (env ''TENANTS_INGRESS_CLASS''), controller))
         else bind_io (list_ingress_class api) (\<lambda>classes.
           case find (\<lambda>c. dict_get (or_nil (ic_annotations c)) ''ingressclass.kubernetes.io/is-default-class'' = Some ''true'') classes of
             None \<Rightarrow> raise RuntimeError
           | Some c \<Rightarrow> ret (ic_name c, or_unknown (ic_controller c))))"

definition is_ingress_service :: "string \<Rightarrow> lb_service \<Rightarrow> bool" where
  "is_ingress_service cls s \<longleftrightarrow>
     contains_str cls (sv_name s) \<or> contains_str cls (or_nil (sv_namespace s)) \<or> contains_str ''ingress'' (sv_name s)"

definition discover_ingress_ip :: "env_vars \<Rightarrow> 'w host_api \<Rightarrow> string \<Rightarrow> ('w, string) io" where
  "discover_ingress_ip env api cls =
     (if truthy (env ''TENANTS_INGRESS_IP'') then ret (the (env ''TENANTS_INGRESS_IP''))
      else bind_io (list_services api) (\<lambda>svcs.
        let candidates = filter (\<lambda>s. sv_type s = Some ''LoadBalancer'' \<and> sv_ingress s \<noteq> []) svcs
        in case find (is_ingress_service cls) candidates of
             None \<Rightarrow> raise RuntimeError
           | Some s \<Rightarrow>
               (let (ip, hostname) = hd (sv_ingress s)
                in if truthy ip then ret (the ip)
                   else if truthy hostname then ret (the hostname)
                   else raise RuntimeError)))"

definition mgmt_cidr_of :: "k8s_node list \<Rightarrow> string option" where
  "mgmt_cidr_of nodes =
     (let ips = concat (map (\<lambda>n. map snd (filter (\<lambda>a. fst a = ''InternalIP'' \<and> snd a \<noteq> []) (or_nil (node_addresses n)))) nodes)
      in case ips of
           [] \<Rightarrow> None
         | ip # _ \<Rightarrow>
             (case split_on (CHR ''.'') ip of
                [a, b, c, _] \<Rightarrow> Some (a @ ''.'' @ b @ ''.'' @ c @ ''.0/24'')
              | _ \<Rightarrow> None))"

text \<open>An override that is the empty string stays what it was when nothing is discovered.\<close>

definition discover_mgmt_cidr :: "env_vars \<Rightarrow> 'w host_api \<Rightarrow> ('w, string option) io" where
  "discover_mgmt_cidr env api =
     (let override = env ''TENANTS_MGMT_CIDR''
      in if truthy override then ret override
         else api_default (bind_io (list_host_nodes api) (\<lambda>nodes. ret (or_else (mgmt_cidr_of nodes) override))) None)"

definition discover_forward_dns :: "env_vars \<Rightarrow> 'w host_api \<Rightarrow> ('w, string) io" where
  "discover_forward_dns env api =
     (let override = env ''TENANTS_VPCDNS_FORWARD_DNS''
      in if truthy override then ret (the override)
         else bind_io (discover_kube_dns_clusterip api) (\<lambda>ip. ret (if truthy ip then the ip else VPCDNS_FORWARD_DNS_FALLBACK)))"

definition discover_vpcdns_vip :: "env_vars \<Rightarrow> 'w host_api \<Rightarrow> string option \<Rightarrow> ('w, string) io" where
  "discover_vpcdns_vip env api host_service_cidr =
     (let override = env ''TENANTS_VPCDNS_VIP''
      in if truthy override then ret (the override)
         else bind_io (vpcdns_vip_from_kubeovn env api) (\<lambda>vip. ret (if vip \<noteq> [] then vip else derived_vip host_service_cidr)))"

definition discover_config :: "env_vars \<Rightarrow> 'w host_api \<Rightarrow> (string \<Rightarrow> string option) \<Rightarrow> int \<Rightarrow> ('w, cluster_config) io" where
  "discover_config env api service_subnet now =
     bind_io (discover_ingress_class env api) (\<lambda>(cls, controller).
     bind_io (discover_ingress_ip env api cls) (\<lambda>ip.
     bind_io (discover_mgmt_cidr env api) (\<lambda>mgmt.
     bind_io (discover_forward_dns env api) (\<lambda>dns.
     bind_io (discover_service_cidr api service_subnet) (\<lambda>service_cidr.
     bind_io (discover_vpcdns_vip env api service_cidr) (\<lambda>vip.
     let domain = strip (or_nil (env ''TENANTS_INGRESS_DOMAIN''))
     in ret \<lparr>cc_ingress_ip = ip, cc_ingress_domain = (if domain \<noteq> [] then domain else ip @ ''.nip.io''),
          cc_ingress_class = cls, cc_ingress_controller = controller, cc_mgmt_cidr = mgmt,
          cc_vpcdns_forward_dns = dns, cc_vpcdns_vip = vip, cc_host_service_cidr = service_cidr,
          cc_fetched_at = now\<rparr>))))))"

text \<open>The state is the module variable and the world.\<close>

definition ensure_cluster_config ::
  "env_vars \<Rightarrow> 'w host_api \<Rightarrow> (string \<Rightarrow> string option) \<Rightarrow> int \<Rightarrow> (cluster_config option \<times> 'w, cluster_config) io" where
  "ensure_cluster_config env api service_subnet now = (\<lambda>(cache, w).
     case cache of
       Some cfg \<Rightarrow>
         if now - cc_fetched_at cfg < CLUSTER_CONFIG_TTL_SEC then (Inr cfg, (cache, w))
         else (case discover_config env api service_subnet now w of
                 (Inr cfg', w1) \<Rightarrow> (Inr cfg', (Some cfg', w1)) | (Inl e, w1) \<Rightarrow> (Inl e, (cache, w1)))
     | None \<Rightarrow>
         (case discover_config env api service_subnet now w of
            (Inr cfg', w1) \<Rightarrow> (Inr cfg', (Some cfg', w1)) | (Inl e, w1) \<Rightarrow> (Inl e, (cache, w1))))"

definition require_cluster_config :: "cluster_config option \<Rightarrow> exc + cluster_config" where
  "require_cluster_config cache = (case cache of None \<Rightarrow> Inl RuntimeError | Some cfg \<Rightarrow> Inr cfg)"

definition endpoint_host :: "cluster_config option \<Rightarrow> string \<Rightarrow> exc + string" where
  "endpoint_host cache name = map_sum id (\<lambda>cfg. name @ ''.'' @ cc_ingress_domain cfg) (require_cluster_config cache)"

definition external_dns_target :: "env_vars \<Rightarrow> cluster_config option \<Rightarrow> exc + string" where
  "external_dns_target env cache =
     (let override = strip (or_nil (env ''TENANTS_EXTERNAL_DNS_TARGET''))
      in if override \<noteq> [] then Inr override else map_sum id cc_ingress_ip (require_cluster_config cache))"

subsection \<open>The address plan of a tenant\<close>









subsection \<open>Namespaces and control planes\<close>

definition namespace_exists :: "(string \<Rightarrow> ('w, namespace) io) \<Rightarrow> string \<Rightarrow> ('w, bool) io" where
  "namespace_exists read_ns ns =
     catch_io (bind_io (read_ns ns) (\<lambda>_. ret True)) (\<lambda>e. if e = ApiException 404 then ret False else raise e)"

record new_namespace =
  nn_name :: string
  nn_labels :: "string dict"
  nn_annotations :: "string dict option"

definition tenant_namespace ::
  "string \<Rightarrow> string \<Rightarrow> string \<Rightarrow> string option \<Rightarrow> string option \<Rightarrow> string option \<Rightarrow> new_namespace" where
  "tenant_namespace ns tenant worker_type folder environment logical_switch =
     \<lparr>nn_name = ns,
      nn_labels = [(''kubevirt-ui.io/tenant'', tenant), (''kubevirt-ui.io/managed'', ''true''),
          (''kubevirt-ui.io/enabled'', ''true''), (''kubevirt-ui.io/worker-type'', worker_type),
          (''pod-security.kubernetes.io/enforce'', ''privileged''), (''pod-security.kubernetes.io/enforce-version'', ''latest''),
          (''pod-security.kubernetes.io/warn'', ''privileged''), (''pod-security.kubernetes.io/audit'', ''privileged'')]
        @ (if truthy folder then [(ENV_FOLDER_LABEL, the folder)] else [])
        @ (if truthy environment then [(ENV_ENVIRONMENT_LABEL, the environment)] else []),
      nn_annotations = (if truthy logical_switch then Some [(''ovn.kubernetes.io/logical_switch'', the logical_switch)] else None)\<rparr>"

definition create_namespace ::
  "(new_namespace \<Rightarrow> ('w, unit) io) \<Rightarrow> string \<Rightarrow> string \<Rightarrow> string \<Rightarrow> string option \<Rightarrow> string option \<Rightarrow> string option \<Rightarrow> ('w, unit) io" where
  "create_namespace post ns tenant worker_type folder environment logical_switch =
     post (tenant_namespace ns tenant worker_type folder environment logical_switch)"

fun delete_pods :: "(string \<Rightarrow> ('w, unit) io) \<Rightarrow> nat \<Rightarrow> string list \<Rightarrow> ('w, nat) io" where
  "delete_pods delete deleted [] = ret deleted"
| "delete_pods delete deleted (p # ps) = (\<lambda>w.
     case delete p w of
       (Inr _, w1) \<Rightarrow> delete_pods delete (deleted + 1) ps w1
     | (Inl e, w1) \<Rightarrow> if e = ApiException 404 then delete_pods delete deleted ps w1 else (Inl e, w1))"

definition restart_control_plane_pods ::
  "(string \<Rightarrow> string \<Rightarrow> ('w, string list) io) \<Rightarrow> (string \<Rightarrow> string \<Rightarrow> ('w, unit) io) \<Rightarrow> string \<Rightarrow> ('w, nat) io" where
  "restart_control_plane_pods list_pods delete tenant =
     bind_io (list_pods (tenant_ns tenant) (''kamaji.clastix.io/name='' @ tenant)) (delete_pods (delete (tenant_ns tenant)) 0)"

subsection \<open>Access to one tenant\<close>

definition tenant_level :: "auth_cfg \<Rightarrow> user \<Rightarrow> folder_meta \<Rightarrow> string \<Rightarrow> string \<Rightarrow> bool option" where
  "tenant_level cfg u meta environment level =
     (if level = ''viewer'' then Some (is_folder_viewer cfg u meta)
      else if level = ''member'' then Some (is_folder_member cfg u meta)
      else if level = ''admin'' then Some (is_folder_admin cfg u meta \<or> environment \<noteq> [] \<and> is_env_admin cfg u meta environment)
      else None)"

text \<open>The empty dictionary returned to platform admins is \<^const>\<open>None\<close>. An unknown level is a
  \<open>KeyError\<close> (\<open>OtherError\<close>).\<close>

definition require_tenant_access ::
  "auth_cfg \<Rightarrow> 'w folders_read \<Rightarrow> (string \<Rightarrow> ('w, namespace) io) \<Rightarrow> user \<Rightarrow> string \<Rightarrow> string \<Rightarrow> ('w, folder_meta option) io" where
  "require_tenant_access cfg read_cm read_ns u tenant level =
     (if is_admin cfg (user_groups u) (Some u) then ret None
      else bind_io (catch_io (read_ns (tenant_ns tenant)) (\<lambda>e. raise (if e = ApiException 404 then HTTPException 404 else e))) (\<lambda>ns.
        let labels = or_nil (ns_labels ns);
            folder = or_nil (dict_get labels ENV_FOLDER_LABEL);
            environment = or_nil (dict_get labels ENV_ENVIRONMENT_LABEL)
        in if folder = [] then raise (HTTPException 403)
           else bind_io (load_folder read_cm folder) (\<lambda>meta.
             case tenant_level cfg u meta environment level of
               None \<Rightarrow> raise OtherError
             | Some allowed \<Rightarrow> if allowed then ret (Some meta) else raise (HTTPException 403))))"

subsection \<open>The address plan check is exact\<close>







subsection \<open>The cache of the configuration\<close>

lemma discover_config_fetched: "discover_config env api f now w = (Inr cfg, w') \<Longrightarrow> cc_fetched_at cfg = now"
  by (auto simp: discover_config_def bind_io_Inr Let_def)

lemma overrides:
  assumes "discover_config env api f now w = (Inr cfg, w')"
  shows "truthy (env ''TENANTS_INGRESS_CLASS'') \<Longrightarrow> cc_ingress_class cfg = the (env ''TENANTS_INGRESS_CLASS'')"
    and "truthy (env ''TENANTS_INGRESS_IP'') \<Longrightarrow> cc_ingress_ip cfg = the (env ''TENANTS_INGRESS_IP'')"
    and "truthy (env ''TENANTS_MGMT_CIDR'') \<Longrightarrow> cc_mgmt_cidr cfg = env ''TENANTS_MGMT_CIDR''"
    and "truthy (env ''TENANTS_VPCDNS_FORWARD_DNS'') \<Longrightarrow> cc_vpcdns_forward_dns cfg = the (env ''TENANTS_VPCDNS_FORWARD_DNS'')"
    and "truthy (env ''TENANTS_VPCDNS_VIP'') \<Longrightarrow> cc_vpcdns_vip cfg = the (env ''TENANTS_VPCDNS_VIP'')"
  using assms
  by (auto simp: discover_config_def bind_io_Inr Let_def discover_ingress_class_def discover_ingress_ip_def
      discover_mgmt_cidr_def discover_forward_dns_def discover_vpcdns_vip_def)

text \<open>A configuration that is returned is younger than the time to live, is the one the getters read from
  then on, and is returned again without any call until it expires.\<close>

theorem ensure_cluster_config_fresh:
  assumes run: "ensure_cluster_config env api f now (cache, w) = (Inr cfg, (cache', w'))"
  shows "cache' = Some cfg \<and> now - cc_fetched_at cfg < CLUSTER_CONFIG_TTL_SEC
     \<and> (\<forall>later. later - cc_fetched_at cfg < CLUSTER_CONFIG_TTL_SEC \<longrightarrow>
          (\<forall>v. ensure_cluster_config env api f later (cache', v) = (Inr cfg, (cache', v))))"
proof -
  have "cache' = Some cfg \<and> now - cc_fetched_at cfg < CLUSTER_CONFIG_TTL_SEC"
    using run discover_config_fetched [of env api f now w cfg w']
    by (auto simp: ensure_cluster_config_def CLUSTER_CONFIG_TTL_SEC_def split: option.splits if_splits prod.splits sum.splits)
  then show ?thesis by (simp add: ensure_cluster_config_def)
qed

lemma ensure_failure_keeps_cache:
  "ensure_cluster_config env api f now (cache, w) = (Inl e, (cache', w')) \<Longrightarrow> cache' = cache"
  by (auto simp: ensure_cluster_config_def split: option.splits if_splits prod.splits sum.splits)

subsection \<open>The derived resolver address\<close>

lemma split_ipv4_str: "split_on (CHR ''.'') (ipv4_str a) = map nat_str [a div 2 ^ 24 mod 256, a div 2 ^ 16 mod 256, a div 2 ^ 8 mod 256, a mod 256]"
  unfolding ipv4_str_def by (rule split_on_join) auto

lemma last_octet:
  assumes "a < 2 ^ 32" "k < 256"
  shows "nat_str (a div 2 ^ 24 mod 256) @ ''.'' @ nat_str (a div 2 ^ 16 mod 256) @ ''.'' @ nat_str (a div 2 ^ 8 mod 256) @ ''.'' @ nat_str k
    = ipv4_str (a div 256 * 256 + k)"
proof -
  let ?b = "a div 256 * 256 + k"
  have b: "?b div 2 ^ 8 = a div 2 ^ 8" "?b mod 256 = k" using assms by auto
  have "?b div 2 ^ 16 = ?b div 2 ^ 8 div 2 ^ 8" "?b div 2 ^ 24 = ?b div 2 ^ 8 div 2 ^ 16" by (simp_all flip: div_mult2_eq)
  moreover have "a div 2 ^ 16 = a div 2 ^ 8 div 2 ^ 8" "a div 2 ^ 24 = a div 2 ^ 8 div 2 ^ 16" by (simp_all flip: div_mult2_eq)
  ultimately have "?b div 2 ^ 16 = a div 2 ^ 16" "?b div 2 ^ 24 = a div 2 ^ 24" using b(1) by simp_all
  then show ?thesis unfolding ipv4_str_def b by (simp del: power_numeral)
qed

lemma nat_str_200: "''.200'' = ''.'' @ nat_str 200"
  by (simp add: nat_str.simps [of 200] nat_str.simps [of 20] nat_str.simps [of 2])

text \<open>The resolver address derived from an IPv4 service network of prefix length 24 or less is an address of
  that network.\<close>

theorem derived_vip_inside:
  assumes net: "ip_network cidr = Some net" "net_ver net = V4" "net_len net \<le> 24"
  shows "\<exists>a \<in> addrs net. ip_address (derived_vip (Some cidr)) = Some (V4, a)"
proof -
  let ?n = "net_addr net"
  have wf: "wf_net net" using net(1) by (rule ip_network_wf)
  then have lt: "?n < 2 ^ 32" and dvd: "block_size net dvd ?n" using net(2) by (auto simp: wf_net_def)
  have "(2::nat) ^ 8 dvd 2 ^ (32 - net_len net)" using net(3) by (intro le_imp_power_dvd) simp
  then have "(256::nat) dvd block_size net" using net(2) by (simp add: block_size_def)
  then have d: "256 dvd ?n" and size: "256 \<le> block_size net" using dvd by (auto intro: dvd_imp_le)
  then have vip: "derived_vip (Some cidr) = ipv4_str (?n + 200)"
    using net ip_empty last_octet [OF lt, of 200]
    by (cases "cidr = []") (auto simp: derived_vip_def split_ipv4_str nat_str_200 simp del: power_numeral)
  have mem: "?n + 200 \<in> addrs net" using size by (simp add: addrs_def)
  then have "?n + 200 < 2 ^ 32" using wf_addrs_bound [OF wf] net(2) by auto
  then show ?thesis using mem by (auto simp: vip ip_address_def parse_ipv4_str)
qed

subsection \<open>Access to a tenant\<close>

definition level_role :: "auth_cfg \<Rightarrow> user \<Rightarrow> folder_meta \<Rightarrow> string option \<Rightarrow> string \<Rightarrow> bool" where
  "level_role cfg u meta environment level \<longleftrightarrow>
     level = ''viewer'' \<and> is_folder_viewer cfg u meta
   \<or> level = ''member'' \<and> is_folder_member cfg u meta
   \<or> level = ''admin'' \<and> (is_folder_admin cfg u meta \<or> truthy environment \<and> is_env_admin cfg u meta (the environment))"

lemma created_labels:
  "or_nil (dict_get (nn_labels (tenant_namespace ns t wt folder environment ls)) ENV_FOLDER_LABEL) = or_nil folder"
  "or_nil (dict_get (nn_labels (tenant_namespace ns t wt folder environment ls)) ENV_ENVIRONMENT_LABEL) = or_nil environment"
  by (cases folder; cases environment; simp add: tenant_namespace_def ENV_FOLDER_LABEL_def ENV_ENVIRONMENT_LABEL_def)+

text \<open>C27. For a tenant whose namespace is the one the create path writes, a user who is not a platform admin
  is let through exactly by the role of the level on the tenant's folder, or for the admin level by the
  admin role on its environment; a tenant without a folder is refused to everybody else.\<close>

theorem created_tenant_access:
  assumes na: "\<not> is_admin cfg (user_groups u) (Some u)"
    and ns: "read_ns (tenant_ns tenant) w =
      (Inr \<lparr>ns_name = tenant_ns tenant, ns_labels = Some (nn_labels (tenant_namespace (tenant_ns tenant) tenant wt folder environment ls))\<rparr>, w1)"
    and level: "level \<in> {''viewer'', ''member'', ''admin''}"
  shows "require_tenant_access cfg read_cm read_ns u tenant level w =
     (if \<not> truthy folder then (Inl (HTTPException 403), w1)
      else (case load_folder read_cm (the folder) w1 of
              (Inl e, w2) \<Rightarrow> (Inl e, w2)
            | (Inr meta, w2) \<Rightarrow> if level_role cfg u meta environment level then (Inr (Some meta), w2) else (Inl (HTTPException 403), w2)))"
proof -
  let ?L = "nn_labels (tenant_namespace (tenant_ns tenant) tenant wt folder environment ls)"
  let ?read = "catch_io (read_ns (tenant_ns tenant)) (\<lambda>e. raise (if e = ApiException 404 then HTTPException 404 else e))"
  have read: "?read w = (Inr \<lparr>ns_name = tenant_ns tenant, ns_labels = Some ?L\<rparr>, w1)" using ns by (simp add: catch_io_def)
  have lv: "tenant_level cfg u meta (or_nil environment) level = Some (level_role cfg u meta environment level)" for meta
    using level by (cases environment) (auto simp: tenant_level_def level_role_def)
  have "require_tenant_access cfg read_cm read_ns u tenant level w =
     (if or_nil folder = [] then raise (HTTPException 403)
      else bind_io (load_folder read_cm (or_nil folder)) (\<lambda>meta.
        if level_role cfg u meta environment level then ret (Some meta) else raise (HTTPException 403))) w1"
    unfolding require_tenant_access_def using na read by (simp add: bind_io_ok [of ?read, OF read] created_labels lv Let_def)
  then show ?thesis by (cases folder) (auto simp: bind_io_def split: prod.splits sum.splits)
qed

text \<open>The levels are not ordered for the admin of an environment: the admin level (deleting the tenant,
  its admin kubeconfig) is granted and reading or changing the tenant is refused.\<close>

definition env_admin_user :: user where
  "env_admin_user = \<lparr>user_id = ''1'', user_email = ''e'', user_username = ''e'', user_groups = [''ops''], user_raw_token = None\<rparr>"

definition env_admin_meta :: folder_meta where
  "env_admin_meta = empty_folder_meta\<lparr>access := Some (empty_access\<lparr>ac_env_access :=
     Some [(''prod'', empty_env_access\<lparr>ea_admins := Some [''ops'']\<rparr>)]\<rparr>)\<rparr>"

definition oidc_cfg :: auth_cfg where
  "oidc_cfg = \<lparr>AUTH_TYPE = ''oidc'', admin_groups = [], admin_users = []\<rparr>"

lemma not_admin_ops: "\<not> is_admin oidc_cfg (user_groups env_admin_user) (Some env_admin_user)"
  by (simp add: is_admin_def oidc_cfg_def env_admin_user_def admin_users_list_def admin_groups_list_def csv_list_def
      strip_def lstrip_def rstrip_def)

lemma ops_levels:
  "level_role oidc_cfg env_admin_user env_admin_meta (Some ''prod'') ''admin''"
  "\<not> level_role oidc_cfg env_admin_user env_admin_meta (Some ''prod'') ''viewer''"
  "\<not> level_role oidc_cfg env_admin_user env_admin_meta (Some ''prod'') ''member''"
  using not_admin_ops
  by (simp_all add: level_role_def role_defs env_access_block_def access_block_of_def env_admin_meta_def empty_folder_meta_def
      empty_access_def has_group_def) (simp_all add: env_admin_user_def empty_env_access_def)

definition prod_ns :: "string \<Rightarrow> (unit, namespace) io" where
  "prod_ns n = ret \<lparr>ns_name = n, ns_labels = Some (nn_labels (tenant_namespace n ''t'' ''vm'' (Some ''f'') (Some ''prod'') None))\<rparr>"

definition prod_cm :: "unit folders_read" where
  "prod_cm = ret (Some [(''f'', Doc env_admin_meta)])"

lemma prod_load: "load_folder prod_cm ''f'' () = (Inr env_admin_meta, ())"
  by (simp add: load_folder_def load_folders_def prod_cm_def parse_all_folders_def parse_folder_def bind_io_def)

theorem created_tenant_access_witness:
  "require_tenant_access oidc_cfg prod_cm prod_ns env_admin_user ''t'' ''admin'' () = (Inr (Some env_admin_meta), ())
   \<and> require_tenant_access oidc_cfg prod_cm prod_ns env_admin_user ''t'' ''viewer'' () = (Inl (HTTPException 403), ())"
proof -
  have ns: "prod_ns (tenant_ns ''t'') () = (Inr \<lparr>ns_name = tenant_ns ''t'',
      ns_labels = Some (nn_labels (tenant_namespace (tenant_ns ''t'') ''t'' ''vm'' (Some ''f'') (Some ''prod'') None))\<rparr>, ())"
    by (simp add: prod_ns_def tenant_namespace_def)
  show ?thesis
    using created_tenant_access [where read_ns = prod_ns, OF not_admin_ops ns, of "''admin''" prod_cm]
      created_tenant_access [where read_ns = prod_ns, OF not_admin_ops ns, of "''viewer''" prod_cm]
    by (simp add: prod_load ops_levels)
qed

lemma env_admin_levels_inverted:
  "fst (require_tenant_access oidc_cfg prod_cm prod_ns env_admin_user ''t'' ''admin'' ()) = Inr (Some env_admin_meta)"
  "fst (require_tenant_access oidc_cfg prod_cm prod_ns env_admin_user ''t'' ''viewer'' ()) = Inl (HTTPException 403)"
  "is_env_viewer oidc_cfg env_admin_user env_admin_meta ''prod''"
proof -
  have labels: "or_nil (dict_get (nn_labels (tenant_namespace n ''t'' ''vm'' (Some ''f'') (Some ''prod'') None)) ENV_FOLDER_LABEL) = ''f''"
    "or_nil (dict_get (nn_labels (tenant_namespace n ''t'' ''vm'' (Some ''f'') (Some ''prod'') None)) ENV_ENVIRONMENT_LABEL) = ''prod''" for n
    by (simp_all add: created_labels)
  have lv: "tenant_level oidc_cfg env_admin_user env_admin_meta ''prod'' ''admin'' = Some True"
    "tenant_level oidc_cfg env_admin_user env_admin_meta ''prod'' ''viewer'' = Some False"
    using ops_levels by (auto simp: tenant_level_def level_role_def)
  show "fst (require_tenant_access oidc_cfg prod_cm prod_ns env_admin_user ''t'' ''admin'' ()) = Inr (Some env_admin_meta)"
    "fst (require_tenant_access oidc_cfg prod_cm prod_ns env_admin_user ''t'' ''viewer'' ()) = Inl (HTTPException 403)"
    using not_admin_ops by (simp_all add: require_tenant_access_def prod_ns_def labels bind_io_ok [of "load_folder prod_cm ''f''", OF prod_load] lv)
  show "is_env_viewer oidc_cfg env_admin_user env_admin_meta ''prod''"
    using ops_levels(1) by (auto simp: level_role_def is_env_viewer_def is_env_member_def is_env_admin_def)
qed

subsection \<open>Restarting a control plane\<close>

definition pod_store :: "('w \<Rightarrow> string set) \<Rightarrow> (string \<Rightarrow> ('w, unit) io) \<Rightarrow> bool" where
  "pod_store pods delete \<longleftrightarrow>
     (\<forall>p w. \<exists>w'. pods w' = pods w - {p} \<and> delete p w = (if p \<in> pods w then Inr () else Inl (ApiException 404), w'))"

lemma delete_pods_result:
  assumes "pod_store pods delete"
  shows "distinct ps \<Longrightarrow> \<exists>w'. delete_pods delete k ps w = (Inr (k + card (set ps \<inter> pods w)), w') \<and> pods w' = pods w - set ps"
proof (induction ps arbitrary: k w)
  case (Cons p ps)
  obtain w1 where w1: "pods w1 = pods w - {p}" "delete p w = (if p \<in> pods w then Inr () else Inl (ApiException 404), w1)"
    using assms unfolding pod_store_def by metis
  have same: "set ps \<inter> pods w1 = set ps \<inter> pods w" using Cons.prems w1(1) by auto
  show ?case
  proof (cases "p \<in> pods w")
    case True
    obtain w' where "delete_pods delete (k + 1) ps w1 = (Inr (k + 1 + card (set ps \<inter> pods w)), w')" "pods w' = pods w1 - set ps"
      using Cons.IH [of "k + 1" w1] Cons.prems same by auto
    moreover have "set (p # ps) \<inter> pods w = insert p (set ps \<inter> pods w)" "p \<notin> set ps \<inter> pods w" using True Cons.prems by auto
    ultimately show ?thesis using True w1 by (auto simp: Suc_eq_plus1 [symmetric])
  next
    case False
    obtain w' where "delete_pods delete k ps w1 = (Inr (k + card (set ps \<inter> pods w)), w')" "pods w' = pods w1 - set ps"
      using Cons.IH [of k w1] Cons.prems same by auto
    then show ?thesis using False w1 by auto
  qed
qed simp

text \<open>A restart deletes every control-plane pod that was listed and returns how many it deleted itself; a pod
  that somebody else deleted first is not counted and does not stop it.\<close>

theorem restart_control_plane_pods_complete:
  assumes "list_pods (tenant_ns tenant) (''kamaji.clastix.io/name='' @ tenant) w = (Inr ps, w1)" "distinct ps"
    and "pod_store pods (delete (tenant_ns tenant))"
  shows "\<exists>w'. restart_control_plane_pods list_pods delete tenant w = (Inr (card (set ps \<inter> pods w1)), w') \<and> pods w' = pods w1 - set ps"
  using delete_pods_result [OF assms(3,2), of 0 w1] assms(1) by (simp add: restart_control_plane_pods_def bind_io_def)

theorem restart_control_plane_pods_complete_witness:
  "\<exists>w'. restart_control_plane_pods (\<lambda>_ _ w. (Inr [''a'', ''b''], w - {''b''}))
      (\<lambda>_ p w. (if p \<in> w then Inr () else Inl (ApiException 404), w - {p})) ''t'' {''a'', ''b'', ''x''} = (Inr 1, w') \<and> w' = {''x''}"
proof -
  have eq: "{''a'', ''b'', ''x''} - {''b''} = {''a'', ''x''}" "{''a'', ''b''} \<inter> {''a'', ''x''} = {''a''}" "{''a'', ''x''} - {''a'', ''b''} = {''x''}"
    by auto
  show ?thesis
    using restart_control_plane_pods_complete [of "\<lambda>_ _ w. (Inr [''a'', ''b''], w - {''b''})" "''t''" "{''a'', ''b'', ''x''}" "[''a'', ''b'']" "{''a'', ''x''}" id
        "\<lambda>_ p w. (if p \<in> w then Inr () else Inl (ApiException 404), w - {p})"]
    unfolding eq by (simp add: pod_store_def eq)
qed

theorem derived_vip_inside_witness:
  "\<exists>a \<in> addrs (mk_net V4 (10 * 2 ^ 24 + 96 * 2 ^ 16) 12). ip_address (derived_vip (Some ''10.96.0.0/12'')) = Some (V4, a)"
proof -
  have "ipv4_str (10 * 2 ^ 24 + 96 * 2 ^ 16) @ ''/'' @ nat_str 12 = ''10.96.0.0/12''"
    by (simp add: ipv4_str_def str_simps)
  then have "ip_network ''10.96.0.0/12'' = Some (mk_net V4 (10 * 2 ^ 24 + 96 * 2 ^ 16) 12)"
    using parse_net4_str [of "10 * 2 ^ 24 + 96 * 2 ^ 16" 12] by simp
  then show ?thesis by (rule derived_vip_inside) simp_all
qed

text \<open>A service network longer than a /24 does not contain the derived address.\<close>

lemma derived_vip_outside: "derived_vip (Some ''10.96.0.0/28'') = ''10.96.0.200'' \<and> 10 * 2 ^ 24 + 96 * 2 ^ 16 + 200 \<notin> addrs (mk_net V4 (10 * 2 ^ 24 + 96 * 2 ^ 16) 28)"
proof -
  have "ipv4_str (10 * 2 ^ 24 + 96 * 2 ^ 16) @ ''/'' @ nat_str 28 = ''10.96.0.0/28''"
    by (simp add: ipv4_str_def str_simps)
  then have "ip_network ''10.96.0.0/28'' = Some (mk_net V4 (10 * 2 ^ 24 + 96 * 2 ^ 16) 28)"
    using parse_net4_str [of "10 * 2 ^ 24 + 96 * 2 ^ 16" 28] by simp
  then show ?thesis by (simp add: derived_vip_def mk_net_def mask_down_def split_ipv4_str str_simps addrs_def block_size_def)
qed

definition idle_host :: "unit host_api" where
  "idle_host = \<lparr>list_ingress_class = ret [\<lparr>ic_name = ''nginx'', ic_annotations = Some [(''ingressclass.kubernetes.io/is-default-class'', ''true'')], ic_controller = None\<rparr>],
     read_ingress_class = (\<lambda>_. raise (ApiException 404)),
     list_services = ret [\<lparr>sv_name = ''ingress-nginx-controller'', sv_namespace = None, sv_type = Some ''LoadBalancer'', sv_ingress = [(Some ''1.2.3.4'', None)]\<rparr>],
     list_host_nodes = raise (ApiException 403), read_dns_service = (\<lambda>_. raise (ApiException 404)),
     read_cm_in = (\<lambda>_ _. raise (ApiException 404)), list_apiserver_pods = (\<lambda>_. ret []),
     read_controller = (\<lambda>_. raise (ApiException 404)), list_deployments = (\<lambda>_. ret [])\<rparr>"

definition idle_config :: cluster_config where
  "idle_config = \<lparr>cc_ingress_ip = ''1.2.3.4'', cc_ingress_domain = ''1.2.3.4.nip.io'', cc_ingress_class = ''nginx'', cc_ingress_controller = ''unknown'',
     cc_mgmt_cidr = None, cc_vpcdns_forward_dns = ''10.96.0.10'', cc_vpcdns_vip = [], cc_host_service_cidr = None, cc_fetched_at = 5\<rparr>"

lemma idle_run: "ensure_cluster_config (\<lambda>_. None) idle_host (\<lambda>_. None) 5 (None, ()) = (Inr idle_config, (Some idle_config, ()))"
  by (simp add: ensure_cluster_config_def discover_config_def discover_ingress_class_def discover_ingress_ip_def discover_mgmt_cidr_def
      discover_forward_dns_def discover_vpcdns_vip_def discover_service_cidr_def discover_kube_dns_clusterip_def vpcdns_vip_from_kubeovn_def
      find_kubeovn_namespace_def idle_host_def idle_config_def bind_io_def api_default_def catch_io_def apiserver_selectors_def range_of_pods_def
      derived_vip_def is_ingress_service_def starts_with_def strip_def lstrip_def rstrip_def VPCDNS_FORWARD_DNS_FALLBACK_def Let_def)

theorem ensure_cluster_config_fresh_witness:
  "ensure_cluster_config (\<lambda>_. None) idle_host (\<lambda>_. None) 304 (Some idle_config, ()) = (Inr idle_config, (Some idle_config, ()))"
  using ensure_cluster_config_fresh [OF idle_run] by (simp add: idle_config_def CLUSTER_CONFIG_TTL_SEC_def)

end
