(* ===== verification/Isolation.thy ===== *)
theory Isolation
  imports Transit Announce Naming
begin

section \<open>Access rules and tenant isolation (\<open>api/v1/subnet_acls.py\<close>, \<open>api/v1/vpcs.py\<close>)\<close>

text \<open>
  The endpoints on the rule list of a subnet, the rules that keep tenants apart, and the pass that
  re-scopes the rules of every tenant subnet to the current tenants. Rules are evaluated by OVN: the
  rule with the highest priority that matches a packet decides. How OVN reads a match expression is a
  parameter of the theorems.
\<close>

subsection \<open>Rules\<close>

record SubnetAcl =
  sa_action :: string
  sa_direction :: string
  sa_match :: string
  sa_priority :: int

definition ISOLATION_PRIORITY_OWN :: int where
  "ISOLATION_PRIORITY_OWN = 3200"

definition ISOLATION_PRIORITY_SHARED :: int where
  "ISOLATION_PRIORITY_SHARED = 3100"

definition ISOLATION_PRIORITY_DROP :: int where
  "ISOLATION_PRIORITY_DROP = 3000"

definition MGMT_DENY_PRIORITY :: int where
  "MGMT_DENY_PRIORITY = 3300"

text \<open>The constructor of the model checks the range of the priority.\<close>

definition subnet_acl :: "string \<Rightarrow> string \<Rightarrow> string \<Rightarrow> int \<Rightarrow> exc + SubnetAcl" where
  "subnet_acl action direction m priority =
     (if 0 \<le> priority \<and> priority \<le> 32767
      then Inr \<lparr>sa_action = action, sa_direction = direction, sa_match = m, sa_priority = priority\<rparr> else Inl ValueError)"

definition parse_acls :: "acl list \<Rightarrow> exc + SubnetAcl list" where
  "parse_acls raw = collect (map (\<lambda>a. subnet_acl (or_nil (acl_action a)) (or_nil (acl_direction a)) (or_nil (acl_match a))
     (case acl_priority a of None \<Rightarrow> 0 | Some p \<Rightarrow> p)) raw)"

definition acl_to_spec :: "SubnetAcl \<Rightarrow> acl" where
  "acl_to_spec a = \<lparr>acl_action = Some (sa_action a), acl_direction = Some (sa_direction a), acl_priority = Some (sa_priority a),
     acl_match = Some (sa_match a)\<rparr>"

definition acls_to_spec :: "SubnetAcl list \<Rightarrow> acl list" where
  "acls_to_spec = map acl_to_spec"

text \<open>An allow or a drop of one prefix, in both directions.\<close>

definition both_ways :: "string \<Rightarrow> int \<Rightarrow> string \<Rightarrow> SubnetAcl list" where
  "both_ways action priority cidr =
     [\<lparr>sa_action = action, sa_direction = ''from-lport'', sa_match = ''ip4.dst == '' @ cidr, sa_priority = priority\<rparr>,
      \<lparr>sa_action = action, sa_direction = ''to-lport'', sa_match = ''ip4.src == '' @ cidr, sa_priority = priority\<rparr>]"

fun shared_acls :: "int \<Rightarrow> string list \<Rightarrow> exc + SubnetAcl list" where
  "shared_acls priority [] = Inr []"
| "shared_acls priority (c # cs) =
     (if c = [] then shared_acls priority cs
      else if priority > 32767 then Inl ValueError
      else map_sum id ((@) (both_ways ''allow-related'' priority c)) (shared_acls (priority + 1) cs))"

definition drop_targets :: "string \<Rightarrow> string \<Rightarrow> string list \<Rightarrow> string list" where
  "drop_targets subnet_cidr tenant_supernet peers =
     (let ts = filter (\<lambda>c. c \<noteq> [] \<and> c \<noteq> subnet_cidr) peers
      in if ts = [] \<and> tenant_supernet \<noteq> [] then [tenant_supernet] else ts)"

definition build_isolation_acls :: "string \<Rightarrow> string \<Rightarrow> string list \<Rightarrow> string list \<Rightarrow> exc + SubnetAcl list" where
  "build_isolation_acls subnet_cidr tenant_supernet shared peers =
     (let targets = drop_targets subnet_cidr tenant_supernet peers
      in if subnet_cidr = [] \<or> targets = [] then Inr []
         else map_sum id (\<lambda>sh. both_ways ''allow-related'' ISOLATION_PRIORITY_OWN subnet_cidr @ sh
                @ concat (map (both_ways ''drop'' ISOLATION_PRIORITY_DROP) targets))
              (shared_acls ISOLATION_PRIORITY_SHARED shared))"

text \<open>\<open>dict.fromkeys(p for p in prefixes if p)\<close> keeps the first of equal prefixes.\<close>

definition first_of_each :: "string list \<Rightarrow> string list" where
  "first_of_each xs = foldl (\<lambda>seen x. if x \<in> set seen then seen else seen @ [x]) [] xs"

definition build_mgmt_deny_acls :: "string list \<Rightarrow> SubnetAcl list" where
  "build_mgmt_deny_acls mgmt_cidrs =
     map (\<lambda>c. \<lparr>sa_action = ''drop'', sa_direction = ''to-lport'', sa_match = ''ip4.src == '' @ c, sa_priority = MGMT_DENY_PRIORITY\<rparr>)
       (first_of_each (filter (\<lambda>c. c \<noteq> []) mgmt_cidrs))"

subsection \<open>Endpoints\<close>

type_synonym 'w subnet_api = "('w, subnet_spec, acl list) custom_api"

record acl_list_response =
  lr_subnet :: string
  lr_cidr_block :: string
  lr_acls :: "SubnetAcl list"

definition http_of :: "exc \<Rightarrow> exc" where
  "http_of e = (case e of ApiException st \<Rightarrow> k8s_error_to_http st | _ \<Rightarrow> e)"

definition lift_exc :: "exc + 'a \<Rightarrow> ('w, 'a) io" where
  "lift_exc x = (case x of Inl e \<Rightarrow> raise e | Inr a \<Rightarrow> ret a)"

definition get_subnet :: "'w subnet_api \<Rightarrow> string \<Rightarrow> ('w, subnet_spec cr) io" where
  "get_subnet api name =
     catch_io (get_cluster_custom_object api (subnet_coords name))
       (\<lambda>e. raise (if e = ApiException 404 then HTTPException 404 else http_of e))"

definition get_subnet_acls :: "'w subnet_api \<Rightarrow> string \<Rightarrow> ('w, acl_list_response) io" where
  "get_subnet_acls api name =
     bind_io (get_subnet api name) (\<lambda>subnet.
     bind_io (lift_exc (parse_acls (or_nil (acls (cr_spec subnet))))) (\<lambda>rules.
     ret \<lparr>lr_subnet = name, lr_cidr_block = or_nil (cidrBlock (cr_spec subnet)), lr_acls = rules\<rparr>))"

text \<open>\<open>put\<close> is the merge patch without a resourceVersion.\<close>

definition replace_subnet_acls ::
  "'w subnet_api \<Rightarrow> (string \<Rightarrow> acl list \<Rightarrow> ('w, unit) io) \<Rightarrow> string \<Rightarrow> SubnetAcl list \<Rightarrow> ('w, acl_list_response) io" where
  "replace_subnet_acls api put name rules =
     bind_io (get_subnet api name) (\<lambda>subnet.
     bind_io (catch_io (put name (acls_to_spec rules)) (\<lambda>e. raise (http_of e))) (\<lambda>_.
     ret \<lparr>lr_subnet = name, lr_cidr_block = or_nil (cidrBlock (cr_spec subnet)), lr_acls = rules\<rparr>))"

definition add_acl_mutate :: "SubnetAcl \<Rightarrow> subnet_spec \<Rightarrow> exc + acl list option" where
  "add_acl_mutate rule spec = Inr (Some (or_nil (acls spec) @ [acl_to_spec rule]))"

definition add_subnet_acl :: "'w subnet_api \<Rightarrow> string \<Rightarrow> SubnetAcl \<Rightarrow> ('w, acl_list_response) io" where
  "add_subnet_acl api name rule =
     bind_io (get_subnet api name) (\<lambda>subnet.
     bind_io (catch_io (patch_spec_with_retry api None (subnet_coords name) (add_acl_mutate rule) DEFAULT_RETRIES) (\<lambda>e. raise (http_of e))) (\<lambda>_.
     bind_io (get_subnet api name) (\<lambda>again.
     bind_io (lift_exc (parse_acls (or_nil (acls (cr_spec again))))) (\<lambda>rules.
     ret \<lparr>lr_subnet = name, lr_cidr_block = or_nil (cidrBlock (cr_spec subnet)), lr_acls = rules\<rparr>))))"

definition remove_acl_mutate :: "acl \<Rightarrow> subnet_spec \<Rightarrow> exc + acl list option" where
  "remove_acl_mutate removed spec =
     (let current = or_nil (acls spec) in Inr (if removed \<notin> set current then None else Some (remove1 removed current)))"

definition delete_subnet_acl :: "'w subnet_api \<Rightarrow> string \<Rightarrow> int \<Rightarrow> ('w, acl) io" where
  "delete_subnet_acl api name index =
     bind_io (get_subnet api name) (\<lambda>subnet.
     let raw = or_nil (acls (cr_spec subnet))
     in if index < 0 \<or> index \<ge> int (length raw) then raise (HTTPException 404)
        else let removed = raw ! nat index
          in bind_io (catch_io (patch_spec_with_retry api None (subnet_coords name) (remove_acl_mutate removed) DEFAULT_RETRIES)
                 (\<lambda>e. raise (http_of e)))
               (\<lambda>_. ret removed))"

subsection \<open>The census of tenants\<close>

record subnet_item =
  si_name :: string
  si_labels :: "string dict option"
  si_annotations :: "string dict option"
  si_deletionTimestamp :: "string option"
  si_vpc :: "string option"
  si_vlan :: "string option"
  si_cidrBlock :: "string option"
  si_acls :: "acl list option"

definition SYSTEM_VPC_NAME :: string where
  "SYSTEM_VPC_NAME = ''ovn-cluster''"

definition VPC_ROLE_LABEL :: string where
  "VPC_ROLE_LABEL = ''kubevirt-ui.io/role''"

definition EGRESS_GATEWAY_LABEL :: string where
  "EGRESS_GATEWAY_LABEL = ''kubevirt-ui.io/egress-gateway''"

definition vpc_role :: "subnet_item \<Rightarrow> string option" where
  "vpc_role item =
     (let labels = or_nil (si_labels item)
      in if truthy (dict_get labels VPC_ROLE_LABEL) then dict_get labels VPC_ROLE_LABEL
         else if truthy (dict_get labels EGRESS_GATEWAY_LABEL) then Some ''egress-gateway'' else None)"

text \<open>\<open>subnet_of\<close> raises \<open>TypeError\<close> (\<open>OtherError\<close>) on two IP versions, which \<open>except ValueError\<close>
  does not catch.\<close>

definition within_supernet :: "string \<Rightarrow> string \<Rightarrow> exc + bool" where
  "within_supernet cidr pool =
     (if cidr = [] \<or> pool = [] then Inr False
      else case (ip_network cidr, ip_network pool) of
             (Some a, Some b) \<Rightarrow> if net_ver a \<noteq> net_ver b then Inl OtherError else Inr (subnet_of a b)
           | _ \<Rightarrow> Inr False)"

definition isolation_opted_out :: "subnet_item \<Rightarrow> bool" where
  "isolation_opted_out item \<longleftrightarrow> dict_get (or_nil (si_annotations item)) ''kubevirt-ui.io/isolation'' = Some ''disabled''"

definition has_isolation_acls :: "acl list option \<Rightarrow> bool" where
  "has_isolation_acls as \<longleftrightarrow>
     list_ex (\<lambda>a. acl_action a = Some ''drop'' \<and> acl_priority a = Some ISOLATION_PRIORITY_DROP) (or_nil as)"

definition is_tenant_subnet :: "subnet_item \<Rightarrow> bool" where
  "is_tenant_subnet i \<longleftrightarrow> truthy (si_vpc i) \<and> si_vpc i \<noteq> Some SYSTEM_VPC_NAME \<and> \<not> truthy (si_vlan i) \<and> \<not> truthy (si_deletionTimestamp i)"

definition operator_owned :: "subnet_item \<Rightarrow> bool" where
  "operator_owned i \<longleftrightarrow> dict_get (or_nil (si_annotations i)) ''platform.kubevirt-ui.io/acl-owner'' = Some ''operator''"

text \<open>\<open>_tenant_vpc_cidrs\<close>, the census the create path uses.\<close>

definition tenant_vpc_cidrs :: "('w, subnet_item list) io \<Rightarrow> string option \<Rightarrow> ('w, string list) io" where
  "tenant_vpc_cidrs list_subs exclude =
     bind_io (catch_io list_subs (\<lambda>_. ret [])) (\<lambda>items.
       ret (map (\<lambda>i. the (si_cidrBlock i))
         (filter (\<lambda>i. truthy (si_cidrBlock i) \<and> is_tenant_subnet i \<and> si_vpc i \<noteq> exclude \<and> vpc_role i = None) items)))"

text \<open>\<open>_mgmt_deny_sources\<close>.\<close>

definition mgmt_deny_sources :: "env_vars \<Rightarrow> ('w, k8s_node list) io \<Rightarrow> ('w, string list) io" where
  "mgmt_deny_sources env nodes =
     (let explicit = filter (\<lambda>c. c \<noteq> []) (map strip (split_on (CHR '','') (or_nil (env ''TENANTS_MGMT_CIDR''))))
      in if explicit \<noteq> [] then ret explicit
         else bind_io (catch_io nodes (\<lambda>_. ret [])) (\<lambda>ns.
           let addresses = concat (map (\<lambda>n. map snd (filter (\<lambda>a. fst a = ''InternalIP'' \<and> snd a \<noteq> []) (or_nil (node_addresses n)))) ns)
           in ret (map (\<lambda>ip. ip @ ''/32'') (sort (first_of_each addresses)))))"

subsection \<open>The isolation pass\<close>

text \<open>\<open>s.split("== ")[-1]\<close>: what follows the last separator.\<close>

fun after_last_eq :: "string \<Rightarrow> string" where
  "after_last_eq [] = []"
| "after_last_eq (x # xs) =
     (if contains_str ''== '' xs then after_last_eq xs
      else if starts_with ''== '' (x # xs) then drop 3 (x # xs) else x # xs)"

text \<open>The prefixes of the allow rules a subnet has now, without those inside the tenant range.\<close>

fun outside_supernet :: "string \<Rightarrow> string list \<Rightarrow> exc + string list" where
  "outside_supernet pool [] = Inr []"
| "outside_supernet pool (m # ms) =
     (case within_supernet m pool of
        Inl e \<Rightarrow> Inl e
      | Inr inside \<Rightarrow> map_sum id (\<lambda>r. if inside then r else m # r) (outside_supernet pool ms))"

definition allowed_prefixes :: "acl list \<Rightarrow> string list" where
  "allowed_prefixes existing =
     map (\<lambda>a. after_last_eq (or_nil (acl_match a)))
       (filter (\<lambda>a. acl_action a = Some ''allow-related'' \<and> (case acl_priority a of None \<Rightarrow> 0 | Some p \<Rightarrow> p) < ISOLATION_PRIORITY_OWN
          \<and> contains_str ''== '' (or_nil (acl_match a))) existing)"

definition cidrs_of_vpc :: "subnet_item list \<Rightarrow> string \<Rightarrow> string list" where
  "cidrs_of_vpc tenants vpc = map (\<lambda>i. the (si_cidrBlock i)) (filter (\<lambda>i. si_vpc i = Some vpc \<and> truthy (si_cidrBlock i)) tenants)"

text \<open>\<open>peered.get(vpc, set())\<close>: the prefixes of the VPCs a VPC names in its peerings; a later VPC of the
  same name would replace an earlier one.\<close>

definition peered_cidrs :: "subnet_item list \<Rightarrow> vpc_spec cr list \<Rightarrow> string \<Rightarrow> string list" where
  "peered_cidrs tenants vpcs vpc =
     (case find (\<lambda>v. cr_name v = vpc) (rev vpcs) of
        None \<Rightarrow> []
      | Some v \<Rightarrow> concat (map (\<lambda>p. case remoteVpc p of None \<Rightarrow> [] | Some r \<Rightarrow> cidrs_of_vpc tenants r) (or_nil (vpcPeerings (cr_spec v)))))"

text \<open>\<open>sorted(set(shared) | peered)\<close>.\<close>

definition shared_of :: "string \<Rightarrow> subnet_item list \<Rightarrow> vpc_spec cr list \<Rightarrow> subnet_item \<Rightarrow> exc + string list" where
  "shared_of pool tenants vpcs item =
     map_sum id (\<lambda>sh. sort (remdups (sh @ peered_cidrs tenants vpcs (or_nil (si_vpc item)))))
       (outside_supernet pool (allowed_prefixes (or_nil (si_acls item))))"

definition peers_of :: "subnet_item list \<Rightarrow> subnet_item \<Rightarrow> string list" where
  "peers_of tenants item =
     map (\<lambda>s. the (si_cidrBlock s)) (filter (\<lambda>s. si_name s \<noteq> si_name item \<and> vpc_role s = None \<and> truthy (si_cidrBlock s)) tenants)"

definition dir_match :: "acl \<Rightarrow> string option \<times> string option" where
  "dir_match a = (acl_direction a, acl_match a)"

text \<open>Nothing to be isolated from: the drops go, the management deny stays or is added.\<close>

definition baseline_only :: "SubnetAcl list \<Rightarrow> acl list \<Rightarrow> acl list" where
  "baseline_only baseline existing =
     (let base = acls_to_spec baseline;
          keep = dir_match ` set base;
          body = filter (\<lambda>a. acl_action a \<noteq> Some ''drop'' \<or> dir_match a \<in> keep) existing
      in body @ filter (\<lambda>a. dir_match a \<notin> dir_match ` set body) base)"

definition drop_blocking :: "acl list \<Rightarrow> acl list" where
  "drop_blocking existing = filter (\<lambda>a. acl_priority a \<notin> {Some ISOLATION_PRIORITY_DROP, Some MGMT_DENY_PRIORITY}) existing"

text \<open>The new rule list of one tenant subnet: \<^const>\<open>None\<close> when nothing is written.\<close>

definition plan_acls ::
  "string \<Rightarrow> string list \<Rightarrow> subnet_item list \<Rightarrow> vpc_spec cr list \<Rightarrow> subnet_item \<Rightarrow> exc + acl list option" where
  "plan_acls pool mgmt tenants vpcs item =
     (let existing = or_nil (si_acls item)
      in if operator_owned item then Inr None
         else if vpc_role item \<noteq> None then Inr (if drop_blocking existing \<noteq> existing then Some (drop_blocking existing) else None)
         else if isolation_opted_out item then Inr None
         else case shared_of pool tenants vpcs item of
                Inl e \<Rightarrow> Inl e
              | Inr shared \<Rightarrow>
                  (case build_isolation_acls (or_nil (si_cidrBlock item)) pool shared (peers_of tenants item) of
                     Inl e \<Rightarrow> Inl e
                   | Inr rules \<Rightarrow>
                       if rules = []
                       then (let body = baseline_only (build_mgmt_deny_acls mgmt) existing in Inr (if body = existing then None else Some body))
                       else Inr (Some (acls_to_spec (rules @ build_mgmt_deny_acls mgmt)))))"

fun isolate_each ::
  "(string \<Rightarrow> acl list \<Rightarrow> ('w, unit) io) \<Rightarrow> (subnet_item \<Rightarrow> exc + acl list option) \<Rightarrow> nat \<Rightarrow> subnet_item list \<Rightarrow> ('w, nat) io" where
  "isolate_each put plan updated [] = ret updated"
| "isolate_each put plan updated (i # is) =
     (case plan i of
        Inl e \<Rightarrow> raise e
      | Inr None \<Rightarrow> isolate_each put plan updated is
      | Inr (Some rules) \<Rightarrow> bind_io (put (si_name i) rules) (\<lambda>_. isolate_each put plan (updated + 1) is))"

record 'w isolation_api =
  ia_nodes :: "('w, k8s_node list) io"
  ia_subnets :: "('w, subnet_item list) io"
  ia_vpcs :: "('w, vpc_spec cr list) io"
  ia_put :: "string \<Rightarrow> acl list \<Rightarrow> ('w, unit) io"

definition reconcile_isolation_acls :: "env_vars \<Rightarrow> string \<Rightarrow> 'w isolation_api \<Rightarrow> ('w, nat) io" where
  "reconcile_isolation_acls env pool api =
     bind_io (if b3_enabled env then mgmt_deny_sources env (ia_nodes api) else ret []) (\<lambda>mgmt.
     bind_io (catch_io (bind_io (ia_subnets api) (\<lambda>items. ret (Some items))) (\<lambda>_. ret None)) (\<lambda>listed.
     case listed of
       None \<Rightarrow> ret 0
     | Some items \<Rightarrow>
         let tenants = filter is_tenant_subnet items
         in bind_io (catch_io (ia_vpcs api) (\<lambda>_. ret [])) (\<lambda>vpcs.
            isolate_each (ia_put api) (plan_acls pool mgmt tenants vpcs) 0 tenants)))"

subsection \<open>What OVN does with the rules\<close>

type_synonym packet = "nat \<times> nat"

text \<open>The documented reading of the two forms of match expressions, on a packet given by its source
  and destination.\<close>

definition ovn_reads :: "(string \<Rightarrow> packet \<Rightarrow> bool) \<Rightarrow> bool" where
  "ovn_reads matches \<longleftrightarrow>
     (\<forall>cidr n s d. ip_network cidr = Some n \<and> net_ver n = V4 \<longrightarrow>
        matches (''ip4.dst == '' @ cidr) (s, d) = (d \<in> addrs n) \<and> matches (''ip4.src == '' @ cidr) (s, d) = (s \<in> addrs n))"

definition hits :: "(string \<Rightarrow> packet \<Rightarrow> bool) \<Rightarrow> string \<Rightarrow> packet \<Rightarrow> acl list \<Rightarrow> acl list" where
  "hits matches dir pkt as = filter (\<lambda>a. acl_direction a = Some dir \<and> matches (or_nil (acl_match a)) pkt) as"

definition prio :: "acl \<Rightarrow> int" where
  "prio a = (case acl_priority a of None \<Rightarrow> 0 | Some p \<Rightarrow> p)"

text \<open>The rules that decide: those of the highest priority among the ones that match. A packet is
  dropped when there are any and all of them drop; it passes when none of them drops.\<close>

definition deciding :: "(string \<Rightarrow> packet \<Rightarrow> bool) \<Rightarrow> string \<Rightarrow> packet \<Rightarrow> acl list \<Rightarrow> acl set" where
  "deciding matches dir pkt as = {a \<in> set (hits matches dir pkt as). \<forall>b \<in> set (hits matches dir pkt as). prio b \<le> prio a}"

definition dropped :: "(string \<Rightarrow> packet \<Rightarrow> bool) \<Rightarrow> string \<Rightarrow> packet \<Rightarrow> acl list \<Rightarrow> bool" where
  "dropped matches dir pkt as \<longleftrightarrow>
     deciding matches dir pkt as \<noteq> {} \<and> (\<forall>a \<in> deciding matches dir pkt as. acl_action a = Some ''drop'')"

definition passes :: "(string \<Rightarrow> packet \<Rightarrow> bool) \<Rightarrow> string \<Rightarrow> packet \<Rightarrow> acl list \<Rightarrow> bool" where
  "passes matches dir pkt as \<longleftrightarrow> (\<forall>a \<in> deciding matches dir pkt as. acl_action a \<noteq> Some ''drop'')"

lemma deciding_nonempty: "x \<in> set (hits matches dir pkt as) \<Longrightarrow> deciding matches dir pkt as \<noteq> {}"
proof -
  assume x: "x \<in> set (hits matches dir pkt as)"
  let ?P = "prio ` set (hits matches dir pkt as)"
  have "Max ?P \<in> ?P" using x by (intro Max_in) auto
  then obtain a where a: "a \<in> set (hits matches dir pkt as)" "prio a = Max ?P" by auto
  then have "a \<in> deciding matches dir pkt as" by (auto simp: deciding_def)
  then show ?thesis by blast
qed

lemma droppedI:
  assumes "x \<in> set (hits matches dir pkt as)" "\<And>a. a \<in> set (hits matches dir pkt as) \<Longrightarrow> prio x \<le> prio a \<Longrightarrow> acl_action a = Some ''drop''"
  shows "dropped matches dir pkt as"
  using assms deciding_nonempty [OF assms(1)] by (auto simp: dropped_def deciding_def)

subsection \<open>The rules of a tenant\<close>

lemma shared_acls_rules:
  assumes "shared_acls p cs = Inr rs" "a \<in> set rs"
  shows "\<exists>c k. c \<in> set cs \<and> c \<noteq> [] \<and> p \<le> k \<and> k < p + int (length cs) \<and> a \<in> set (both_ways ''allow-related'' k c)"
  using assms
proof (induction p cs arbitrary: rs rule: shared_acls.induct)
  case (2 p c cs)
  show ?case
  proof (cases "c = []")
    case True
    then obtain c' k where "c' \<in> set cs" "c' \<noteq> []" "p \<le> k" "k < p + int (length cs)" "a \<in> set (both_ways ''allow-related'' k c')"
      using 2 by auto
    then show ?thesis by (intro exI [of _ c'] exI [of _ k]) auto
  next
    case False
    with 2 obtain rs' where rs': "shared_acls (p + 1) cs = Inr rs'" "rs = both_ways ''allow-related'' p c @ rs'" "\<not> p > 32767"
      by (auto split: if_splits simp: map_sum_def split: sum.splits)
    show ?thesis
    proof (cases "a \<in> set (both_ways ''allow-related'' p c)")
      case True
      then show ?thesis using False by (intro exI [of _ c] exI [of _ p]) auto
    next
      case no: False
      then have "a \<in> set rs'" using 2(4) rs'(2) by auto
      then obtain c' k where "c' \<in> set cs" "c' \<noteq> []" "p + 1 \<le> k" "k < p + 1 + int (length cs)" "a \<in> set (both_ways ''allow-related'' k c')"
        using 2(2) [OF False] rs' by blast
      then show ?thesis by (intro exI [of _ c'] exI [of _ k]) auto
    qed
  qed
qed simp

lemma shared_acls_ok: "p + int (length cs) \<le> 32768 \<Longrightarrow> \<exists>rs. shared_acls p cs = Inr rs"
proof (induction p cs rule: shared_acls.induct)
  case (2 p c cs)
  show ?case
  proof (cases "c = []")
    case False
    then obtain rs where "shared_acls (p + 1) cs = Inr rs" using 2 by auto
    then show ?thesis using 2(3) False by auto
  qed (use 2 in auto)
qed simp

text \<open>The rules of a tenant that has something to be isolated from, by kind.\<close>

definition tenant_rules :: "string \<Rightarrow> SubnetAcl list \<Rightarrow> string list \<Rightarrow> string list \<Rightarrow> SubnetAcl list" where
  "tenant_rules cidr shared targets mgmt =
     both_ways ''allow-related'' ISOLATION_PRIORITY_OWN cidr @ shared
       @ concat (map (both_ways ''drop'' ISOLATION_PRIORITY_DROP) targets) @ build_mgmt_deny_acls mgmt"

lemma both_ways_mem:
  "a \<in> set (both_ways act p c) \<longleftrightarrow>
     a = \<lparr>sa_action = act, sa_direction = ''from-lport'', sa_match = ''ip4.dst == '' @ c, sa_priority = p\<rparr>
   \<or> a = \<lparr>sa_action = act, sa_direction = ''to-lport'', sa_match = ''ip4.src == '' @ c, sa_priority = p\<rparr>"
  by (auto simp: both_ways_def)

text \<open>The match of a prefix in a direction: on the destination going out, on the source coming in.\<close>

definition towards :: "string \<Rightarrow> string \<Rightarrow> string" where
  "towards dir c = (if dir = ''from-lport'' then ''ip4.dst == '' @ c else ''ip4.src == '' @ c)"

abbreviation directions :: "string set" where
  "directions \<equiv> {''from-lport'', ''to-lport''}"

lemma both_ways_dir:
  "a \<in> set (both_ways act p c) \<Longrightarrow> sa_direction a \<in> directions \<and> sa_match a = towards (sa_direction a) c \<and> sa_action a = act \<and> sa_priority a = p"
  by (auto simp: both_ways_mem towards_def)

lemma both_ways_has:
  "dir \<in> directions \<Longrightarrow> \<lparr>sa_action = act, sa_direction = dir, sa_match = towards dir c, sa_priority = p\<rparr> \<in> set (both_ways act p c)"
  by (auto simp: both_ways_mem towards_def)

lemma hits_mem:
  "x \<in> set (hits matches dir pkt (acls_to_spec rs)) \<longleftrightarrow> (\<exists>a \<in> set rs. x = acl_to_spec a \<and> sa_direction a = dir \<and> matches (sa_match a) pkt)"
  by (auto simp: hits_def acls_to_spec_def acl_to_spec_def)

lemma prio_spec [simp]: "prio (acl_to_spec a) = sa_priority a" "acl_action (acl_to_spec a) = Some (sa_action a)"
  by (simp_all add: prio_def acl_to_spec_def)

lemma both_ways_in_hits:
  assumes "dir \<in> directions" "matches (towards dir c) pkt" "set (both_ways act p c) \<subseteq> set rs"
  shows "\<exists>x. x \<in> set (hits matches dir pkt (acls_to_spec rs)) \<and> acl_action x = Some act \<and> prio x = p"
  using both_ways_has [OF assms(1), of act c p] assms
  by (intro exI [of _ "acl_to_spec \<lparr>sa_action = act, sa_direction = dir, sa_match = towards dir c, sa_priority = p\<rparr>"]) (auto simp: hits_mem)

lemma first_of_each_set [simp]: "set (first_of_each xs) = set xs"
proof -
  have "set (foldl (\<lambda>seen x. if x \<in> set seen then seen else seen @ [x]) ys xs) = set ys \<union> set xs" for ys
    by (induction xs arbitrary: ys) auto
  then show ?thesis by (simp add: first_of_each_def)
qed

lemma mgmt_mem:
  "a \<in> set (build_mgmt_deny_acls mgmt) \<Longrightarrow> sa_action a = ''drop'' \<and> sa_direction a = ''to-lport'' \<and> sa_priority a = MGMT_DENY_PRIORITY
     \<and> (\<exists>c \<in> set mgmt. sa_match a = ''ip4.src == '' @ c)"
  by (auto simp: build_mgmt_deny_acls_def)

lemma tenant_rules_hits:
  assumes sh: "shared_acls ISOLATION_PRIORITY_SHARED cs = Inr shared" and dir: "dir \<in> directions"
    and x: "x \<in> set (hits matches dir pkt (acls_to_spec (tenant_rules cidr shared targets mgmt)))"
  shows "acl_action x = Some ''drop'' \<and> (\<exists>t \<in> set targets. matches (towards dir t) pkt) \<and> prio x = ISOLATION_PRIORITY_DROP
   \<or> acl_action x = Some ''drop'' \<and> (\<exists>c \<in> set mgmt. matches (''ip4.src == '' @ c) pkt) \<and> prio x = MGMT_DENY_PRIORITY
   \<or> acl_action x = Some ''allow-related'' \<and> matches (towards dir cidr) pkt \<and> prio x = ISOLATION_PRIORITY_OWN
   \<or> acl_action x = Some ''allow-related'' \<and> (\<exists>c \<in> set cs. matches (towards dir c) pkt) \<and> prio x < ISOLATION_PRIORITY_SHARED + int (length cs)"
proof -
  obtain a where a: "a \<in> set (tenant_rules cidr shared targets mgmt)" "x = acl_to_spec a" "sa_direction a = dir" "matches (sa_match a) pkt"
    using x by (auto simp: hits_mem)
  consider (own) "a \<in> set (both_ways ''allow-related'' ISOLATION_PRIORITY_OWN cidr)" | (shared) "a \<in> set shared"
    | (drops) t where "t \<in> set targets" "a \<in> set (both_ways ''drop'' ISOLATION_PRIORITY_DROP t)" | (deny) "a \<in> set (build_mgmt_deny_acls mgmt)"
    using a(1) by (auto simp: tenant_rules_def)
  then show ?thesis
  proof cases
    case own
    then show ?thesis using both_ways_dir [OF own] a by simp
  next
    case shared
    then obtain c k where c: "c \<in> set cs" "k < ISOLATION_PRIORITY_SHARED + int (length cs)" "a \<in> set (both_ways ''allow-related'' k c)"
      using shared_acls_rules [OF sh] by blast
    then show ?thesis using both_ways_dir [OF c(3)] a by auto
  next
    case drops
    then show ?thesis using both_ways_dir [OF drops(2)] a by auto
  next
    case deny
    then show ?thesis using a mgmt_mem [OF deny] by auto
  qed
qed

lemma build_isolation_is:
  assumes "build_isolation_acls cidr pool cs peers = Inr rules" "rules \<noteq> []"
  shows "\<exists>shared. shared_acls ISOLATION_PRIORITY_SHARED cs = Inr shared
     \<and> rules @ build_mgmt_deny_acls mgmt = tenant_rules cidr shared (drop_targets cidr pool peers) mgmt"
  using assms by (cases "shared_acls ISOLATION_PRIORITY_SHARED cs")
    (auto simp: build_isolation_acls_def Let_def tenant_rules_def split: if_splits)

lemma rules_drop_target:
  assumes sh: "shared_acls ISOLATION_PRIORITY_SHARED cs = Inr shared" and dir: "dir \<in> directions"
    and t: "t \<in> set targets" "matches (towards dir t) pkt"
    and own: "\<not> matches (towards dir cidr) pkt" and none: "\<forall>c \<in> set cs. \<not> matches (towards dir c) pkt"
  shows "dropped matches dir pkt (acls_to_spec (tenant_rules cidr shared targets mgmt))"
proof -
  obtain x where "x \<in> set (hits matches dir pkt (acls_to_spec (tenant_rules cidr shared targets mgmt)))"
    using both_ways_in_hits [where matches = matches, OF dir t(2), of "''drop''" ISOLATION_PRIORITY_DROP "tenant_rules cidr shared targets mgmt"] t(1)
    by (auto simp: tenant_rules_def)
  then show ?thesis using tenant_rules_hits [OF sh dir] own none by (intro droppedI [of x]) blast+
qed

lemma rules_mgmt_deny:
  assumes sh: "shared_acls ISOLATION_PRIORITY_SHARED cs = Inr shared" and len: "length cs \<le> 200"
    and m: "c \<in> set mgmt" "c \<noteq> []" "matches (''ip4.src == '' @ c) pkt"
  shows "dropped matches ''to-lport'' pkt (acls_to_spec (tenant_rules cidr shared targets mgmt))"
proof -
  let ?a = "\<lparr>sa_action = ''drop'', sa_direction = ''to-lport'', sa_match = ''ip4.src == '' @ c, sa_priority = MGMT_DENY_PRIORITY\<rparr>"
  have a: "?a \<in> set (tenant_rules cidr shared targets mgmt)" using m by (auto simp: build_mgmt_deny_acls_def tenant_rules_def)
  have x: "acl_to_spec ?a \<in> set (hits matches ''to-lport'' pkt (acls_to_spec (tenant_rules cidr shared targets mgmt)))"
    unfolding hits_mem using m(3) by (intro bexI [OF _ a]) simp
  have "acl_action y = Some ''drop''" if y: "y \<in> set (hits matches ''to-lport'' pkt (acls_to_spec (tenant_rules cidr shared targets mgmt)))"
    and p: "prio (acl_to_spec ?a) \<le> prio y" for y
    using tenant_rules_hits [OF sh _ y] p len by (auto simp: ISOLATION_PRIORITY_OWN_def ISOLATION_PRIORITY_SHARED_def MGMT_DENY_PRIORITY_def)
  with x show ?thesis by (rule droppedI)
qed

lemma rules_own_passes:
  assumes sh: "shared_acls ISOLATION_PRIORITY_SHARED cs = Inr shared" and dir: "dir \<in> directions"
    and own: "matches (towards dir cidr) pkt" and nm: "\<forall>c \<in> set mgmt. \<not> matches (''ip4.src == '' @ c) pkt"
  shows "passes matches dir pkt (acls_to_spec (tenant_rules cidr shared targets mgmt))"
proof -
  let ?rs = "tenant_rules cidr shared targets mgmt"
  obtain x where x: "x \<in> set (hits matches dir pkt (acls_to_spec ?rs))" "prio x = ISOLATION_PRIORITY_OWN"
    using both_ways_in_hits [where matches = matches, OF dir own, of "''allow-related''" ISOLATION_PRIORITY_OWN ?rs] by (auto simp: tenant_rules_def)
  have drops: "prio a = ISOLATION_PRIORITY_DROP" if "a \<in> set (hits matches dir pkt (acls_to_spec ?rs))" "acl_action a = Some ''drop''" for a
    using tenant_rules_hits [OF sh dir that(1)] that(2) nm by auto
  show ?thesis
    using x drops by (fastforce simp: passes_def deciding_def ISOLATION_PRIORITY_OWN_def ISOLATION_PRIORITY_DROP_def)
qed

subsection \<open>One pass over all tenants\<close>

text \<open>A cluster nobody else writes: \<open>base\<close> are the subnets without their rules, \<open>rules\<close> the rule list
  of each by name.\<close>

definition subnet_store ::
  "subnet_item list \<Rightarrow> ('w \<Rightarrow> string \<Rightarrow> acl list option) \<Rightarrow> 'w isolation_api \<Rightarrow> vpc_spec cr list \<Rightarrow> k8s_node list \<Rightarrow> bool" where
  "subnet_store base rules api vpcs nodes \<longleftrightarrow>
     distinct (map si_name base)
   \<and> (\<forall>w. ia_nodes api w = (Inr nodes, w)) \<and> (\<forall>w. ia_vpcs api w = (Inr vpcs, w))
   \<and> (\<forall>w. ia_subnets api w = (Inr (map (\<lambda>i. i\<lparr>si_acls := rules w (si_name i)\<rparr>) base), w))
   \<and> (\<forall>name as w. \<exists>w'. ia_put api name as w = (Inr (), w') \<and> rules w' = (rules w)(name := Some as))"

lemma isolate_each_result:
  assumes "subnet_store base rules api vpcs nodes" "distinct (map si_name is)" "\<forall>i \<in> set is. \<exists>p. plan i = Inr p"
  shows "\<exists>w' n. isolate_each (ia_put api) plan k is w = (Inr n, w')
     \<and> (\<forall>i \<in> set is. rules w' (si_name i) = (case plan i of Inr (Some as) \<Rightarrow> Some as | _ \<Rightarrow> rules w (si_name i)))
     \<and> (\<forall>x. x \<notin> si_name ` set is \<longrightarrow> rules w' x = rules w x)"
  using assms(2,3)
proof (induction "is" arbitrary: k w)
  case (Cons i "is")
  obtain p where p: "plan i = Inr p" using Cons.prems by auto
  have IH: "\<exists>w' n. isolate_each (ia_put api) plan k' is w1 = (Inr n, w')
     \<and> (\<forall>i \<in> set is. rules w' (si_name i) = (case plan i of Inr (Some as) \<Rightarrow> Some as | _ \<Rightarrow> rules w1 (si_name i)))
     \<and> (\<forall>x. x \<notin> si_name ` set is \<longrightarrow> rules w' x = rules w1 x)" for k' w1
    using Cons by auto
  show ?case
  proof (cases p)
    case None
    then show ?thesis using p IH [of k w] Cons.prems(1) by force
  next
    case (Some as)
    obtain w1 where w1: "ia_put api (si_name i) as w = (Inr (), w1)" "rules w1 = (rules w)(si_name i := Some as)"
      using assms(1) unfolding subnet_store_def by metis
    obtain w' n where w': "isolate_each (ia_put api) plan (k + 1) is w1 = (Inr n, w')"
      "\<forall>j \<in> set is. rules w' (si_name j) = (case plan j of Inr (Some as) \<Rightarrow> Some as | _ \<Rightarrow> rules w1 (si_name j))"
      "\<forall>x. x \<notin> si_name ` set is \<longrightarrow> rules w' x = rules w1 x"
      using IH [of "k + 1" w1] by blast
    have "isolate_each (ia_put api) plan k (i # is) w = (Inr n, w')"
      using p Some w1(1) w'(1) by (simp add: bind_io_def)
    moreover have "rules w' (si_name i) = Some as" using w'(3) w1(2) Cons.prems(1) by (metis distinct.simps(2) fun_upd_same list.simps(9) list.set_map)
    moreover have "rules w1 (si_name j) = rules w (si_name j)" if "j \<in> set is" for j
      using that Cons.prems(1) w1(2) by (auto simp: image_iff)
    ultimately show ?thesis using p Some w'(2,3) w1(2)
      by (intro exI [of _ w'] exI [of _ n]) (auto split: sum.splits option.splits)
  qed
qed simp

text \<open>The subnets, tenants and management prefixes a pass in world \<open>w\<close> works with.\<close>

definition listed :: "subnet_item list \<Rightarrow> ('w \<Rightarrow> string \<Rightarrow> acl list option) \<Rightarrow> 'w \<Rightarrow> subnet_item list" where
  "listed base rules w = filter is_tenant_subnet (map (\<lambda>i. i\<lparr>si_acls := rules w (si_name i)\<rparr>) base)"

definition mgmt_of :: "env_vars \<Rightarrow> k8s_node list \<Rightarrow> string list" where
  "mgmt_of env nodes = (case mgmt_deny_sources env (ret nodes) () of (Inr m, _) \<Rightarrow> m | _ \<Rightarrow> [])"

lemma mgmt_deny_sources_run: "nodes w = (Inr ns, w) \<Longrightarrow> mgmt_deny_sources env nodes w = (Inr (mgmt_of env ns), w)"
  by (simp add: mgmt_deny_sources_def mgmt_of_def bind_io_def catch_io_def Let_def)

lemma isolation_run:
  assumes law: "subnet_store base rules api vpcs nodes"
    and ok: "\<forall>i \<in> set (listed base rules w). \<exists>p. plan_acls pool (if b3_enabled env then mgmt_of env nodes else []) (listed base rules w) vpcs i = Inr p"
  shows "\<exists>w' n. reconcile_isolation_acls env pool api w = (Inr n, w')
     \<and> (\<forall>i \<in> set (listed base rules w). rules w' (si_name i) =
          (case plan_acls pool (if b3_enabled env then mgmt_of env nodes else []) (listed base rules w) vpcs i of
             Inr (Some as) \<Rightarrow> Some as | _ \<Rightarrow> rules w (si_name i)))
     \<and> (\<forall>x. x \<notin> si_name ` set (listed base rules w) \<longrightarrow> rules w' x = rules w x)"
proof -
  let ?m = "if b3_enabled env then mgmt_of env nodes else []" and ?ts = "listed base rules w"
  let ?items = "map (\<lambda>i. i\<lparr>si_acls := rules w (si_name i)\<rparr>) base"
  have m: "(if b3_enabled env then mgmt_deny_sources env (ia_nodes api) else ret []) w = (Inr ?m, w)"
    using law mgmt_deny_sources_run [of "ia_nodes api" w nodes env] by (simp add: subnet_store_def)
  have s: "catch_io (bind_io (ia_subnets api) (\<lambda>items. ret (Some items))) (\<lambda>_. ret None) w = (Inr (Some ?items), w)"
    using law by (simp add: subnet_store_def catch_io_def bind_io_def)
  have v: "catch_io (ia_vpcs api) (\<lambda>_. ret []) w = (Inr vpcs, w)"
    using law by (simp add: subnet_store_def catch_io_def)
  have "reconcile_isolation_acls env pool api w = isolate_each (ia_put api) (plan_acls pool ?m ?ts vpcs) 0 ?ts w"
    unfolding reconcile_isolation_acls_def
      bind_io_ok [of "if b3_enabled env then mgmt_deny_sources env (ia_nodes api) else ret []", OF m]
      bind_io_ok [of "catch_io (bind_io (ia_subnets api) (\<lambda>items. ret (Some items))) (\<lambda>_. ret None)", OF s]
    by (simp add: Let_def bind_io_ok [of "catch_io (ia_vpcs api) (\<lambda>_. ret [])", OF v] listed_def)
  moreover have "distinct (map si_name ?ts)"
    using law by (simp add: subnet_store_def listed_def comp_def distinct_map_filter)
  ultimately show ?thesis using isolate_each_result [OF law _ ok, of 0 w] by auto
qed


text \<open>A subnet whose rule list the pass writes.\<close>

definition isolated_by_pass :: "subnet_item \<Rightarrow> bool" where
  "isolated_by_pass i \<longleftrightarrow> \<not> operator_owned i \<and> vpc_role i = None \<and> \<not> isolation_opted_out i"

lemma plan_of_tenant:
  assumes w: "isolated_by_pass a" and sh: "shared_of pool ts vpcs a = Inr cs" and len: "length cs \<le> 29000"
    and c: "or_nil (si_cidrBlock a) \<noteq> []" and t: "drop_targets (or_nil (si_cidrBlock a)) pool (peers_of ts a) \<noteq> []"
  shows "\<exists>shared. shared_acls ISOLATION_PRIORITY_SHARED cs = Inr shared
     \<and> plan_acls pool mgmt ts vpcs a = Inr (Some (acls_to_spec (tenant_rules (or_nil (si_cidrBlock a)) shared
          (drop_targets (or_nil (si_cidrBlock a)) pool (peers_of ts a)) mgmt)))"
proof -
  obtain shared where s: "shared_acls ISOLATION_PRIORITY_SHARED cs = Inr shared"
    using shared_acls_ok [of ISOLATION_PRIORITY_SHARED cs] len by (auto simp: ISOLATION_PRIORITY_SHARED_def)
  then show ?thesis using w sh c t
    by (auto simp: plan_acls_def isolated_by_pass_def build_isolation_acls_def tenant_rules_def both_ways_def Let_def)
qed

lemma ovn_towards:
  "ovn_reads matches \<Longrightarrow> ip_network c = Some n \<Longrightarrow> net_ver n = V4 \<Longrightarrow>
     matches (towards dir c) (s, d) \<longleftrightarrow> (if dir = ''from-lport'' then d else s) \<in> addrs n"
  by (auto simp: ovn_reads_def towards_def)

lemma peer_is_target:
  assumes "b \<in> set ts" "si_name b \<noteq> si_name a" "vpc_role b = None" "si_cidrBlock b = Some cb" "cb \<noteq> []" "cb \<noteq> ca"
  shows "cb \<in> set (drop_targets ca pool (peers_of ts a))"
proof -
  have "cb \<in> set (filter (\<lambda>c. c \<noteq> [] \<and> c \<noteq> ca) (peers_of ts a))"
    using assms by (force simp: peers_of_def)
  then have "filter (\<lambda>c. c \<noteq> [] \<and> c \<noteq> ca) (peers_of ts a) \<noteq> [] \<and> cb \<in> set (filter (\<lambda>c. c \<noteq> [] \<and> c \<noteq> ca) (peers_of ts a))"
    by (metis empty_iff empty_set)
  then show ?thesis by (simp add: drop_targets_def Let_def)
qed

text \<open>The VPC plays no part in the choice of the peers: two subnets of one VPC are peers to be dropped.\<close>

lemma sibling_subnet_is_target:
  assumes "b \<in> set ts" "si_name b \<noteq> si_name a" "si_vpc b = si_vpc a" "vpc_role b = None" "si_cidrBlock b = Some cb" "cb \<noteq> []" "cb \<noteq> ca"
  shows "cb \<in> set (drop_targets ca pool (peers_of ts a))"
  using assms(1,2,4-7) by (rule peer_is_target)

text \<open>C28. Tenants are isolated: after a pass, a packet between an address of tenant subnet \<open>a\<close> and an address of
  another tenant subnet \<open>b\<close> is dropped by the rules of \<open>a\<close> in both directions, unless \<open>b\<close>'s addresses are in a prefix
  that \<open>a\<close> shares (an allow outside the tenant range that is already there, or a live peering). The pass
  returns when every rule list can be planned.\<close>

theorem isolation_pass_isolates:
  assumes ovn: "ovn_reads matches" and law: "subnet_store base rules api vpcs nodes"
    and plans: "\<forall>i \<in> set (listed base rules w). \<exists>p. plan_acls pool (if b3_enabled env then mgmt_of env nodes else []) (listed base rules w) vpcs i = Inr p"
    and a: "a \<in> set (listed base rules w)" "isolated_by_pass a" "si_cidrBlock a = Some ca" "ip_network ca = Some na" "net_ver na = V4"
    and b: "b \<in> set (listed base rules w)" "vpc_role b = None" "si_cidrBlock b = Some cb" "ip_network cb = Some nb" "net_ver nb = V4"
    and apart: "addrs na \<inter> addrs nb = {}"
    and shared: "shared_of pool (listed base rules w) vpcs a = Inr cs" "length cs \<le> 29000"
    and unshared: "\<forall>c \<in> set cs. \<forall>x y. x \<in> addrs nb \<longrightarrow> \<not> matches (''ip4.dst == '' @ c) (y, x) \<and> \<not> matches (''ip4.src == '' @ c) (x, y)"
    and x: "x \<in> addrs na" "y \<in> addrs nb"
  shows "\<exists>n w' as. reconcile_isolation_acls env pool api w = (Inr n, w') \<and> rules w' (si_name a) = Some as
     \<and> dropped matches ''to-lport'' (y, x) as \<and> dropped matches ''from-lport'' (x, y) as"
proof -
  let ?ts = "listed base rules w" and ?m = "if b3_enabled env then mgmt_of env nodes else []"
  have ne: "ca \<noteq> []" "cb \<noteq> []" using a(4) b(4) by auto
  have diff: "cb \<noteq> ca" using a(4) b(4) apart x by auto
  have "distinct (map si_name ?ts)" using law by (simp add: subnet_store_def listed_def comp_def distinct_map_filter)
  moreover have "a \<noteq> b" using diff a(3) b(3) by auto
  ultimately have names: "si_name b \<noteq> si_name a" using a(1) b(1) by (auto simp: distinct_map inj_on_def)
  have t: "cb \<in> set (drop_targets ca pool (peers_of ?ts a))"
    using peer_is_target [OF b(1) names b(2,3) ne(2) diff] .
  then obtain sh where sh: "shared_acls ISOLATION_PRIORITY_SHARED cs = Inr sh"
    and plan: "plan_acls pool ?m ?ts vpcs a = Inr (Some (acls_to_spec (tenant_rules ca sh (drop_targets ca pool (peers_of ?ts a)) ?m)))"
    using plan_of_tenant [OF a(2) shared] a(3) ne by force
  let ?as = "acls_to_spec (tenant_rules ca sh (drop_targets ca pool (peers_of ?ts a)) ?m)"
  obtain w' n where run: "reconcile_isolation_acls env pool api w = (Inr n, w')" "rules w' (si_name a) = Some ?as"
    using isolation_run [OF law plans] a(1) plan by auto
  have nm: "y \<notin> addrs na" using apart x by auto
  have "dropped matches ''to-lport'' (y, x) ?as"
  proof (rule rules_drop_target [OF sh _ t])
    show "matches (towards ''to-lport'' cb) (y, x)" using ovn_towards [OF ovn b(4,5)] x by simp
    show "\<not> matches (towards ''to-lport'' ca) (y, x)" using ovn_towards [OF ovn a(4,5)] nm by simp
    show "\<forall>c \<in> set cs. \<not> matches (towards ''to-lport'' c) (y, x)" using unshared x by (simp add: towards_def)
  qed simp
  moreover have "dropped matches ''from-lport'' (x, y) ?as"
  proof (rule rules_drop_target [OF sh _ t])
    show "matches (towards ''from-lport'' cb) (x, y)" using ovn_towards [OF ovn b(4,5)] x by simp
    show "\<not> matches (towards ''from-lport'' ca) (x, y)" using ovn_towards [OF ovn a(4,5)] nm by simp
    show "\<forall>c \<in> set cs. \<not> matches (towards ''from-lport'' c) (x, y)" using unshared x by (simp add: towards_def)
  qed simp
  ultimately show ?thesis using run by blast
qed

text \<open>The other half: traffic inside the tenant, and traffic with addresses that no rule names, is not
  affected; the management network is kept out.\<close>

lemma tenant_rules_verdicts:
  assumes ovn: "ovn_reads matches" and sh: "shared_acls ISOLATION_PRIORITY_SHARED cs = Inr shared" "length cs \<le> 200"
    and own: "ip_network cidr = Some n" "net_ver n = V4"
  shows "\<And>x y. x \<in> addrs n \<Longrightarrow> \<forall>c \<in> set mgmt. \<not> matches (''ip4.src == '' @ c) (x, y) \<Longrightarrow>
      passes matches ''to-lport'' (x, y) (acls_to_spec (tenant_rules cidr shared targets mgmt))"
    and "\<And>x y c. c \<in> set mgmt \<Longrightarrow> c \<noteq> [] \<Longrightarrow> matches (''ip4.src == '' @ c) (x, y) \<Longrightarrow>
      dropped matches ''to-lport'' (x, y) (acls_to_spec (tenant_rules cidr shared targets mgmt))"
    and "\<And>x y dir. dir \<in> directions \<Longrightarrow> \<forall>c \<in> set mgmt. \<not> matches (''ip4.src == '' @ c) (x, y) \<Longrightarrow>
      \<forall>t \<in> set targets. \<not> matches (towards dir t) (x, y) \<Longrightarrow>
      passes matches dir (x, y) (acls_to_spec (tenant_rules cidr shared targets mgmt))"
proof -
  fix x y
  show "passes matches ''to-lport'' (x, y) (acls_to_spec (tenant_rules cidr shared targets mgmt))"
    if "x \<in> addrs n" "\<forall>c \<in> set mgmt. \<not> matches (''ip4.src == '' @ c) (x, y)"
    by (rule rules_own_passes [OF sh(1)]) (use that ovn_towards [OF ovn own] in auto)
  show "dropped matches ''to-lport'' (x, y) (acls_to_spec (tenant_rules cidr shared targets mgmt))"
    if "c \<in> set mgmt" "c \<noteq> []" "matches (''ip4.src == '' @ c) (x, y)" for c
    by (rule rules_mgmt_deny [where matches = matches, OF sh that])
  show "passes matches dir (x, y) (acls_to_spec (tenant_rules cidr shared targets mgmt))"
    if dir: "dir \<in> directions" and "\<forall>c \<in> set mgmt. \<not> matches (''ip4.src == '' @ c) (x, y)"
      "\<forall>t \<in> set targets. \<not> matches (towards dir t) (x, y)" for dir
    using tenant_rules_hits [OF sh(1) dir] that(2,3) unfolding passes_def deciding_def by fastforce
qed

subsection \<open>The pass settles\<close>

definition clean :: "string \<Rightarrow> bool" where
  "clean c \<longleftrightarrow> c \<noteq> [] \<and> \<not> contains_str ''== '' c"

lemma after_last_eq_match:
  assumes "clean c"
  shows "after_last_eq (''ip4.dst == '' @ c) = c" "after_last_eq (''ip4.src == '' @ c) = c"
    "contains_str ''== '' (''ip4.dst == '' @ c)" "contains_str ''== '' (''ip4.src == '' @ c)"
  using assms by (simp_all add: clean_def starts_with_def)

lemma allowed_prefixes_append [simp]: "allowed_prefixes (xs @ ys) = allowed_prefixes xs @ allowed_prefixes ys"
  by (simp add: allowed_prefixes_def)

lemma acls_to_spec_append [simp]: "acls_to_spec (xs @ ys) = acls_to_spec xs @ acls_to_spec ys"
  by (simp add: acls_to_spec_def)

lemma allowed_both_ways:
  "clean c \<Longrightarrow> allowed_prefixes (acls_to_spec (both_ways act p c)) = (if act = ''allow-related'' \<and> p < ISOLATION_PRIORITY_OWN then [c, c] else [])"
  using after_last_eq_match [of c] by (auto simp: allowed_prefixes_def acls_to_spec_def both_ways_def acl_to_spec_def)

lemma allowed_not_allow: "\<forall>a \<in> set rs. sa_action a \<noteq> ''allow-related'' \<Longrightarrow> allowed_prefixes (acls_to_spec rs) = []"
  by (auto simp: allowed_prefixes_def acls_to_spec_def acl_to_spec_def filter_empty_conv)

text \<open>Of the shared prefixes only those whose priority is below the own range are read back.\<close>

lemma allowed_shared:
  assumes "shared_acls p cs = Inr sh" "\<forall>c \<in> set cs. clean c"
  shows "allowed_prefixes (acls_to_spec sh) = concat (map (\<lambda>c. [c, c]) (take (nat (ISOLATION_PRIORITY_OWN - p)) cs))"
  using assms
proof (induction p cs arbitrary: sh rule: shared_acls.induct)
  case (1 p)
  then show ?case by (simp add: acls_to_spec_def allowed_prefixes_def)
next
  case (2 p c cs)
  have c: "clean c" "c \<noteq> []" using 2(4) by (auto simp: clean_def)
  obtain sh' where sh': "shared_acls (p + 1) cs = Inr sh'" "sh = both_ways ''allow-related'' p c @ sh'" "\<not> p > 32767"
    using 2(3) c by (cases "shared_acls (p + 1) cs") (auto split: if_splits)
  have IH: "allowed_prefixes (acls_to_spec sh') = concat (map (\<lambda>c. [c, c]) (take (nat (ISOLATION_PRIORITY_OWN - (p + 1))) cs))"
    using 2(2) c sh' 2(4) by auto
  show ?case
  proof (cases "p < ISOLATION_PRIORITY_OWN")
    case True
    then have "nat (ISOLATION_PRIORITY_OWN - p) = Suc (nat (ISOLATION_PRIORITY_OWN - (p + 1)))" by simp
    then show ?thesis using True IH sh'(2) allowed_both_ways [OF c(1)] by simp
  next
    case False
    then show ?thesis using IH sh'(2) allowed_both_ways [OF c(1)] by simp
  qed
qed

lemma outside_Inr: "outside_supernet pool ms = Inr r \<Longrightarrow> r = filter (\<lambda>m. within_supernet m pool = Inr False) ms"
proof (induction ms arbitrary: r)
  case (Cons m ms)
  then show ?case
    by (cases "outside_supernet pool ms") (auto split: sum.splits if_splits)
qed simp

lemma outside_ok: "\<forall>m \<in> set ms. \<exists>b. within_supernet m pool = Inr b \<Longrightarrow> \<exists>r. outside_supernet pool ms = Inr r"
  by (induction ms) (auto split: sum.splits)

lemma sort_remdups_cong: "set xs = set ys \<Longrightarrow> sort (remdups xs) = sort (remdups (ys :: string list))"
  by (metis sorted_list_of_set_sort_remdups)

lemma acls_update_irrelevant [simp]:
  "operator_owned (a\<lparr>si_acls := as\<rparr>) = operator_owned a" "vpc_role (a\<lparr>si_acls := as\<rparr>) = vpc_role a"
  "isolation_opted_out (a\<lparr>si_acls := as\<rparr>) = isolation_opted_out a" "peers_of ts (a\<lparr>si_acls := as\<rparr>) = peers_of ts a"
  "isolated_by_pass (a\<lparr>si_acls := as\<rparr>) = isolated_by_pass a"
  by (simp_all add: operator_owned_def vpc_role_def isolation_opted_out_def peers_of_def isolated_by_pass_def)

lemma census_ignores_acls:
  "peers_of (map (\<lambda>i. i\<lparr>si_acls := f i\<rparr>) ts) a = peers_of ts a"
  "cidrs_of_vpc (map (\<lambda>i. i\<lparr>si_acls := f i\<rparr>) ts) v = cidrs_of_vpc ts v"
  by (simp_all add: peers_of_def cidrs_of_vpc_def filter_map comp_def)

lemma peered_ignores_acls: "peered_cidrs (map (\<lambda>i. i\<lparr>si_acls := f i\<rparr>) ts) vpcs v = peered_cidrs ts vpcs v"
  by (simp add: peered_cidrs_def census_ignores_acls cong: option.case_cong)

lemma shared_of_settles:
  assumes sh: "shared_of pool ts vpcs a = Inr cs" and len: "length cs \<le> 100" and cl: "\<forall>c \<in> set cs. clean c"
    and v: "\<forall>c \<in> set cs. \<exists>b. within_supernet c pool = Inr b"
    and rules: "shared_acls ISOLATION_PRIORITY_SHARED cs = Inr shared" and own: "clean ca"
    and as: "as = acls_to_spec (tenant_rules ca shared targets mgmt)"
  shows "shared_of pool ts vpcs (a\<lparr>si_acls := Some as\<rparr>) = Inr cs"
proof -
  let ?peered = "peered_cidrs ts vpcs (or_nil (si_vpc a))"
  obtain out where out: "outside_supernet pool (allowed_prefixes (or_nil (si_acls a))) = Inr out" "cs = sort (remdups (out @ ?peered))"
    using sh by (cases "outside_supernet pool (allowed_prefixes (or_nil (si_acls a)))") (auto simp: shared_of_def)
  have no: "allowed_prefixes (acls_to_spec (concat (map (both_ways ''drop'' ISOLATION_PRIORITY_DROP) targets))) = []"
    "allowed_prefixes (acls_to_spec (build_mgmt_deny_acls mgmt)) = []"
    using both_ways_dir mgmt_mem by (intro allowed_not_allow; fastforce)+
  have "take (nat (ISOLATION_PRIORITY_OWN - ISOLATION_PRIORITY_SHARED)) cs = cs"
    using len by (simp add: ISOLATION_PRIORITY_OWN_def ISOLATION_PRIORITY_SHARED_def)
  then have allowed: "allowed_prefixes as = concat (map (\<lambda>c. [c, c]) cs)"
    using allowed_shared [OF rules cl] allowed_both_ways [OF own] no by (simp add: as tenant_rules_def)
  obtain out2 where out2: "outside_supernet pool (allowed_prefixes as) = Inr out2"
    using outside_ok [of "allowed_prefixes as" pool] v unfolding allowed by auto
  have "set (out2 @ ?peered) = set (out @ ?peered)"
    using outside_Inr [OF out(1)] outside_Inr [OF out2] out(2) unfolding allowed by auto
  then show ?thesis using out2 out(2) sort_remdups_cong by (simp add: shared_of_def)
qed

text \<open>C29. The pass settles: planned again over the rules it wrote, with whatever rules the other subnets got, a
  tenant subnet with at most 100 shared prefixes keeps exactly the same rules.\<close>

theorem isolation_plan_settles:
  assumes a: "isolated_by_pass a" "si_cidrBlock a = Some ca" "clean ca"
    and sh: "shared_of pool ts vpcs a = Inr cs" "length cs \<le> 100" "\<forall>c \<in> set cs. clean c"
    and v: "\<forall>c \<in> set cs. \<exists>b. within_supernet c pool = Inr b"
    and t: "drop_targets ca pool (peers_of ts a) \<noteq> []"
    and plan: "plan_acls pool mgmt ts vpcs a = Inr (Some as)"
  shows "plan_acls pool mgmt (map (\<lambda>i. i\<lparr>si_acls := f i\<rparr>) ts) vpcs (a\<lparr>si_acls := Some as\<rparr>) = Inr (Some as)"
proof -
  let ?a = "a\<lparr>si_acls := Some as\<rparr>" and ?ts = "map (\<lambda>i. i\<lparr>si_acls := f i\<rparr>) ts"
  have ne: "ca \<noteq> []" using a(3) by (simp add: clean_def)
  obtain shared where shared: "shared_acls ISOLATION_PRIORITY_SHARED cs = Inr shared"
    and as: "as = acls_to_spec (tenant_rules ca shared (drop_targets ca pool (peers_of ts a)) mgmt)"
    using plan_of_tenant [OF a(1) sh(1), of mgmt] sh(2) a(2) ne t plan by auto
  have "shared_of pool ts vpcs ?a = Inr cs" by (rule shared_of_settles [OF sh v shared a(3) as])
  then have "shared_of pool ?ts vpcs ?a = Inr cs" by (simp add: shared_of_def peered_ignores_acls)
  then show ?thesis
    using plan_of_tenant [of ?a pool ?ts vpcs cs mgmt] a sh(2) ne t shared as by (auto simp: census_ignores_acls)
qed

text \<open>The hundred-and-first shared prefix gets the priority of the own range and is not read back, so the
  next pass drops it.\<close>

lemma share_beyond_hundred_lost:
  assumes "shared_acls ISOLATION_PRIORITY_SHARED cs = Inr sh" "\<forall>c \<in> set cs. clean c" "distinct cs" "100 < length cs"
  shows "cs ! 100 \<notin> set (allowed_prefixes (acls_to_spec sh))"
proof -
  have "set (allowed_prefixes (acls_to_spec sh)) = set (take 100 cs)"
    using allowed_shared [OF assms(1,2)] by (auto simp: ISOLATION_PRIORITY_OWN_def ISOLATION_PRIORITY_SHARED_def)
  moreover have "cs ! 100 \<notin> set (take 100 cs)"
    using assms(3,4) by (auto simp: in_set_conv_nth nth_eq_iff_index_eq)
  ultimately show ?thesis by simp
qed

subsection \<open>When the pass goes wrong\<close>

text \<open>A list of VPCs that cannot be read is taken for one without peerings: the pass then writes rules
  that drop the traffic of every peering.\<close>

lemma unreadable_peerings_dropped:
  assumes "\<forall>w. \<exists>e. ia_vpcs api w = (Inl e, w)"
  shows "reconcile_isolation_acls env pool api = reconcile_isolation_acls env pool (api\<lparr>ia_vpcs := ret []\<rparr>)"
proof -
  have "catch_io (ia_vpcs api) (\<lambda>_. ret []) = catch_io (ret []) (\<lambda>_. ret ([] :: vpc_spec cr list))"
    using assms by (intro ext) (simp add: catch_io_def split: prod.splits sum.splits; metis Inl_Inr_False prod.inject sum.inject(1))
  moreover have "ia_nodes (api\<lparr>ia_vpcs := ret []\<rparr>) = ia_nodes api" "ia_subnets (api\<lparr>ia_vpcs := ret []\<rparr>) = ia_subnets api"
    "ia_vpcs (api\<lparr>ia_vpcs := ret []\<rparr>) = ret []" "ia_put (api\<lparr>ia_vpcs := ret []\<rparr>) = ia_put api" by simp_all
  ultimately show ?thesis by (simp only: reconcile_isolation_acls_def)
qed

text \<open>An allow rule for a port is read back as an allow for an address.\<close>

definition port_rule :: acl where
  "port_rule = \<lparr>acl_action = Some ''allow-related'', acl_direction = Some ''from-lport'', acl_priority = Some 2500, acl_match = Some ''tcp.dst == 443''\<rparr>"

lemma port_rule_read_as_prefix: "allowed_prefixes [port_rule] = [''443'']"
  by (simp add: allowed_prefixes_def port_rule_def starts_with_def ISOLATION_PRIORITY_OWN_def)

definition v6_rule :: "string \<Rightarrow> acl" where
  "v6_rule c = \<lparr>acl_action = Some ''allow-related'', acl_direction = Some ''from-lport'', acl_priority = Some 2500, acl_match = Some (''ip6.dst == '' @ c)\<rparr>"

text \<open>One allow rule for an IPv6 prefix on a tenant subnet ends the pass with an exception before it
  reaches the subnets after it.\<close>

lemma v6_rule_stops_pass:
  assumes a: "isolated_by_pass a" "v6_rule c \<in> set (or_nil (si_acls a))" "clean c"
    and c: "ip_network c = Some n" "net_ver n = V6" and pool: "ip_network pool = Some m" "net_ver m = V4"
  shows "plan_acls pool mgmt ts vpcs a = Inl OtherError"
proof -
  have bad: "outside_supernet pool ms = Inl OtherError" if "c \<in> set ms" "\<forall>x \<in> set ms. \<forall>e. within_supernet x pool = Inl e \<longrightarrow> e = OtherError" for ms
    using that
  proof (induction ms)
    case (Cons x ms)
    have "within_supernet c pool = Inl OtherError"
      using c pool a(3) by (cases "pool = []") (auto simp: within_supernet_def clean_def)
    then show ?case using Cons by (cases "within_supernet x pool") auto
  qed simp
  have "after_last_eq (''ip6.dst == '' @ c) = c" "contains_str ''== '' (''ip6.dst == '' @ c)"
    using a(3) by (simp_all add: clean_def starts_with_def)
  then have "c \<in> set (allowed_prefixes (or_nil (si_acls a)))"
    using a(2) by (force simp: allowed_prefixes_def v6_rule_def ISOLATION_PRIORITY_OWN_def)
  moreover have "e = OtherError" if "within_supernet x pool = Inl e" for x e
    using that by (auto simp: within_supernet_def split: if_splits option.splits)
  ultimately have "shared_of pool ts vpcs a = Inl OtherError" using bad by (simp add: shared_of_def)
  then show ?thesis using a(1) by (simp add: plan_acls_def isolated_by_pass_def)
qed

lemma v6_example: "\<exists>n. ip_network ''::/0'' = Some n \<and> net_ver n = V6"
  by (simp add: net_eval parse_ipv6_def split_scope_id_def ipv6_parts_def ipv6_gap_def ipv6_value_def empty_inner_def parse_prefix_def
      isdigit_def digits_val_def digit_val_def is_digit_def)


subsection \<open>The endpoints on one rule list\<close>

lemma collect_Inr: "collect (map Inr xs) = Inr xs"
  by (induction xs) auto

lemma parse_acls_to_spec: "\<forall>a \<in> set rules. 0 \<le> sa_priority a \<and> sa_priority a \<le> 32767 \<Longrightarrow> parse_acls (acls_to_spec rules) = Inr rules"
proof -
  assume "\<forall>a \<in> set rules. 0 \<le> sa_priority a \<and> sa_priority a \<le> 32767"
  then have "map (\<lambda>a. subnet_acl (or_nil (acl_action a)) (or_nil (acl_direction a)) (or_nil (acl_match a))
     (case acl_priority a of None \<Rightarrow> 0 | Some p \<Rightarrow> p)) (acls_to_spec rules) = map Inr rules"
    by (auto simp: acls_to_spec_def acl_to_spec_def subnet_acl_def)
  then show ?thesis unfolding parse_acls_def by (simp only: collect_Inr)
qed

lemma get_subnet_Inr: "get_subnet api name w = (Inr x, w') \<longleftrightarrow> cas_get api None (subnet_coords name) w = (Inr x, w')"
  by (auto simp: get_subnet_def cas_get_def catch_io_def split: prod.splits sum.splits)

lemma catch_http_Inr: "catch_io m (\<lambda>e. raise (http_of e)) w = (Inr x, w') \<longleftrightarrow> m w = (Inr x, w')"
  by (auto simp: catch_io_def split: prod.splits sum.splits)

lemma lift_exc_Inr: "lift_exc x w = (Inr a, w') \<longleftrightarrow> x = Inr a \<and> w' = w"
  by (cases x) (auto simp: lift_exc_def)

text \<open>C30. Deleting the rule at an index removes one occurrence of the rule that was at that index when it was read,
  from the content that is stored at the write, and never another rule, whatever other writers do.\<close>

theorem delete_subnet_acl_exact:
  assumes law: "cas_object rely cur (cas_get api None (subnet_coords name)) (cas_patch api None (subnet_coords name)) merge_acls"
    and run: "delete_subnet_acl api name index w = (Inr removed, w')"
  shows "\<exists>w1 d v. rely w w1 \<and> cur w1 = Some (d, v) \<and> 0 \<le> index \<and> index < int (length (or_nil (acls d)))
     \<and> removed = or_nil (acls d) ! nat index
     \<and> (cur w' = None \<or> (\<exists>w2 d2 v2 d3 v3. rely w w2 \<and> cur w2 = Some (d2, v2) \<and> cur w' = Some (d3, v3)
          \<and> or_nil (acls d3) = remove1 removed (or_nil (acls d2)) \<and> cidrBlock d3 = cidrBlock d2))"
proof -
  note rely = cas_objectD [OF law]
  from run obtain s w1 ok where s: "get_subnet api name w = (Inr s, w1)"
    and i: "0 \<le> index" "index < int (length (or_nil (acls (cr_spec s))))" and r: "removed = or_nil (acls (cr_spec s)) ! nat index"
    and p: "patch_spec_with_retry api None (subnet_coords name) (remove_acl_mutate removed) DEFAULT_RETRIES w1 = (Inr ok, w')"
    by (auto simp: delete_subnet_acl_def bind_io_Inr Let_def catch_http_Inr split: if_splits)
  have c1: "rely w w1" "cur w1 = Some (cr_spec s, cr_rv s)" using s rely(4,5) by (auto simp: get_subnet_Inr)
  from patch_spec_with_retry_leaves [OF law _ p] have "cur w' = None \<or> (\<exists>w2 d2 v2 q v3. rely w1 w2 \<and> cur w2 = Some (d2, v2)
      \<and> remove_acl_mutate removed d2 = Inr q \<and> cur w' = Some (case q of None \<Rightarrow> d2 | Some as \<Rightarrow> merge_acls d2 as, v3))"
    by (simp add: DEFAULT_RETRIES_def)
  then have "cur w' = None \<or> (\<exists>w2 d2 v2 d3 v3. rely w w2 \<and> cur w2 = Some (d2, v2) \<and> cur w' = Some (d3, v3)
          \<and> or_nil (acls d3) = remove1 removed (or_nil (acls d2)) \<and> cidrBlock d3 = cidrBlock d2)"
  proof (elim disjE exE conjE)
    fix w2 d2 v2 q v3
    assume "rely w1 w2" "cur w2 = Some (d2, v2)" "remove_acl_mutate removed d2 = Inr q"
      "cur w' = Some (case q of None \<Rightarrow> d2 | Some as \<Rightarrow> merge_acls d2 as, v3)"
    then show ?thesis using rely(2) [OF c1(1)]
      by (intro disjI2 exI [of _ w2] exI [of _ d2] exI [of _ v2] exI [of _ "case q of None \<Rightarrow> d2 | Some as \<Rightarrow> merge_acls d2 as"] exI [of _ v3])
        (auto simp: remove_acl_mutate_def Let_def merge_acls_def remove1_idem split: if_splits)
  qed simp
  then show ?thesis using c1 i r by blast
qed

text \<open>Adding a rule appends it to the content it replaces, or the subnet was gone at some moment.\<close>

lemma add_subnet_acl_appends:
  assumes law: "cas_object rely cur (cas_get api None (subnet_coords name)) (cas_patch api None (subnet_coords name)) merge_acls"
    and run: "add_subnet_acl api name rule w = (Inr resp, w')"
  shows "(\<exists>w1 w2 d v v'. rely w w1 \<and> cur w1 = Some (d, v) \<and> cur w2 = Some (merge_acls d (or_nil (acls d) @ [acl_to_spec rule]), v') \<and> rely w2 w')
     \<or> (\<exists>w1. rely w w1 \<and> cur w1 = None \<and> rely w1 w')"
proof -
  note rely = cas_objectD [OF law]
  from run obtain s w1 ok w2 t where s: "get_subnet api name w = (Inr s, w1)"
    and p: "patch_spec_with_retry api None (subnet_coords name) (add_acl_mutate rule) DEFAULT_RETRIES w1 = (Inr ok, w2)"
    and t: "get_subnet api name w2 = (Inr t, w')"
    by (auto simp: add_subnet_acl_def bind_io_Inr Let_def catch_http_Inr lift_exc_Inr)
  have r: "rely w w1" "rely w2 w'" using s t rely(4) by (auto simp: get_subnet_Inr)
  have loop: "cas_attempts (cas_get api None (subnet_coords name)) (cas_patch api None (subnet_coords name)) (add_acl_mutate rule) DEFAULT_RETRIES w1 = (Inr ok, w2)"
    using p by (simp add: patch_spec_with_retry_def)
  show ?thesis
  proof (cases ok)
    case True
    from cas_attempts_True [OF law loop [unfolded eqTrueI [OF True]]] show ?thesis
      using r rely(2) by (fastforce simp: add_acl_mutate_def)
  next
    case False
    then have "ok = False" by simp
    from cas_attempts_False [OF law _ loop [unfolded this]] have "rely w1 w2 \<and> cur w2 = None"
      by (auto simp: DEFAULT_RETRIES_def add_acl_mutate_def)
    then show ?thesis using r rely(2) by blast
  qed
qed

subsection \<open>Examples\<close>

definition cidr_reader :: "string \<Rightarrow> packet \<Rightarrow> bool" where
  "cidr_reader m p = (case ip_network (drop 11 m) of None \<Rightarrow> False
     | Some n \<Rightarrow> net_ver n = V4 \<and> (if take 11 m = ''ip4.dst == '' then snd p else fst p) \<in> addrs n)"

lemma cidr_reader_reads: "ovn_reads cidr_reader"
  by (simp add: ovn_reads_def cidr_reader_def)

definition demo_subnet :: "string \<Rightarrow> string \<Rightarrow> subnet_item" where
  "demo_subnet n c = \<lparr>si_name = n, si_labels = None, si_annotations = None, si_deletionTimestamp = None, si_vpc = Some n,
     si_vlan = None, si_cidrBlock = Some c, si_acls = None\<rparr>"

definition two_tenants :: "subnet_item list" where
  "two_tenants = [demo_subnet ''a'' ''10.200.0.0/24'', demo_subnet ''b'' ''10.200.1.0/24'']"

definition mem_subnets :: "subnet_item list \<Rightarrow> (string \<Rightarrow> acl list option) isolation_api" where
  "mem_subnets base = \<lparr>ia_nodes = ret [], ia_subnets = (\<lambda>w. (Inr (map (\<lambda>i. i\<lparr>si_acls := w (si_name i)\<rparr>) base), w)), ia_vpcs = ret [],
     ia_put = (\<lambda>n as w. (Inr (), w(n := Some as)))\<rparr>"

lemma mem_subnets_store: "subnet_store two_tenants (\<lambda>w. w) (mem_subnets two_tenants) [] []"
  by (simp add: subnet_store_def mem_subnets_def two_tenants_def demo_subnet_def)

lemma two_tenants_listed: "listed two_tenants (\<lambda>w. w) (\<lambda>_. None) = two_tenants"
  by (simp add: listed_def two_tenants_def demo_subnet_def is_tenant_subnet_def SYSTEM_VPC_NAME_def)

lemma two_tenants_plan: "i \<in> set two_tenants \<Longrightarrow> isolated_by_pass i \<and> shared_of [] two_tenants [] i = Inr []
    \<and> (\<exists>p. plan_acls [] mgmt two_tenants [] i = Inr p)"
  by (auto simp: two_tenants_def demo_subnet_def isolated_by_pass_def operator_owned_def vpc_role_def isolation_opted_out_def
      shared_of_def allowed_prefixes_def peered_cidrs_def plan_acls_def build_isolation_acls_def drop_targets_def peers_of_def Let_def)

lemma two_tenants_nets:
  "ip_network ''10.200.0.0/24'' = Some (mk_net V4 (10 * 2 ^ 24 + 200 * 2 ^ 16) 24)"
  "ip_network ''10.200.1.0/24'' = Some (mk_net V4 (10 * 2 ^ 24 + 200 * 2 ^ 16 + 256) 24)"
proof -
  have "ipv4_str (10 * 2 ^ 24 + 200 * 2 ^ 16) @ ''/'' @ nat_str 24 = ''10.200.0.0/24''"
    "ipv4_str (10 * 2 ^ 24 + 200 * 2 ^ 16 + 256) @ ''/'' @ nat_str 24 = ''10.200.1.0/24''"
    by (simp_all add: ipv4_str_def str_simps)
  then show "ip_network ''10.200.0.0/24'' = Some (mk_net V4 (10 * 2 ^ 24 + 200 * 2 ^ 16) 24)"
    "ip_network ''10.200.1.0/24'' = Some (mk_net V4 (10 * 2 ^ 24 + 200 * 2 ^ 16 + 256) 24)"
    using parse_net4_str [of "10 * 2 ^ 24 + 200 * 2 ^ 16" 24] parse_net4_str [of "10 * 2 ^ 24 + 200 * 2 ^ 16 + 256" 24] by simp_all
qed

theorem isolation_pass_isolates_witness:
  "\<exists>n w' as. reconcile_isolation_acls (\<lambda>_. None) [] (mem_subnets two_tenants) (\<lambda>_. None) = (Inr n, w') \<and> w' ''a'' = Some as
     \<and> dropped cidr_reader ''to-lport'' (180879617, 180879361) as \<and> dropped cidr_reader ''from-lport'' (180879361, 180879617) as"
proof -
  let ?na = "mk_net V4 (10 * 2 ^ 24 + 200 * 2 ^ 16) 24" and ?nb = "mk_net V4 (10 * 2 ^ 24 + 200 * 2 ^ 16 + 256) 24"
  have mem: "demo_subnet ''a'' ''10.200.0.0/24'' \<in> set two_tenants" "demo_subnet ''b'' ''10.200.1.0/24'' \<in> set two_tenants"
    by (simp_all add: two_tenants_def)
  have r: "vpc_role (demo_subnet ''b'' ''10.200.1.0/24'') = None"
    "si_cidrBlock (demo_subnet ''a'' ''10.200.0.0/24'') = Some ''10.200.0.0/24''" "si_name (demo_subnet ''a'' ''10.200.0.0/24'') = ''a''"
    "si_cidrBlock (demo_subnet ''b'' ''10.200.1.0/24'') = Some ''10.200.1.0/24''"
    by (simp_all add: demo_subnet_def vpc_role_def)
  have "addrs ?na = {180879360..<180879616}" "addrs ?nb = {180879616..<180879872}"
    by (simp_all add: addrs_def mk_net_def mask_down_def block_size_def)
  then show ?thesis
    using isolation_pass_isolates [OF cidr_reader_reads mem_subnets_store, of "\<lambda>_. None" "[]" "\<lambda>_. None"
        "demo_subnet ''a'' ''10.200.0.0/24''" "''10.200.0.0/24''" ?na "demo_subnet ''b'' ''10.200.1.0/24''" "''10.200.1.0/24''" ?nb "[]" 180879361 180879617,
        unfolded two_tenants_listed] two_tenants_plan mem two_tenants_nets r by simp
qed


definition empty_subnet :: "acl list \<Rightarrow> subnet_spec" where
  "empty_subnet as = \<lparr>cidrBlock = Some ''10.200.0.0/24'', subnet_vpc = None, excludeIps = None, acls = Some as\<rparr>"

lemma mem_patch_retry:
  "patch_spec_with_retry (mem_custom_api merge) None co m DEFAULT_RETRIES (Some (d, v)) =
     (case m d of Inl e \<Rightarrow> (Inl e, Some (d, v)) | Inr None \<Rightarrow> (Inr False, Some (d, v)) | Inr (Some p) \<Rightarrow> (Inr True, Some (merge d p, v + 1)))"
proof -
  have five: "DEFAULT_RETRIES = Suc (Suc (Suc (Suc (Suc 0))))" by (simp add: DEFAULT_RETRIES_def)
  show ?thesis unfolding patch_spec_with_retry_def five
    by (auto simp: mem_custom_api_def mem_get_def mem_patch_def cas_get_def cas_patch_def split: sum.split option.split)
qed

lemma demo_delete:
  "delete_subnet_acl (mem_custom_api merge_acls) ''s'' 1 (Some (empty_subnet [port_rule, v6_rule ''::/0'', port_rule], 3)) =
     (Inr (v6_rule ''::/0''), Some (empty_subnet [port_rule, port_rule], 4))"
proof -
  have "get_subnet (mem_custom_api merge_acls) ''s'' (Some (empty_subnet as, 3)) =
      (Inr \<lparr>cr_name = ''s'', cr_labels = [], cr_rv = nat_str 3, cr_spec = empty_subnet as\<rparr>, Some (empty_subnet as, 3))" for as
    by (simp add: get_subnet_def catch_io_def mem_custom_api_def mem_get_def subnet_coords_def)
  moreover have "port_rule \<noteq> v6_rule ''::/0''" by (simp add: port_rule_def v6_rule_def)
  ultimately show ?thesis
    by (simp add: delete_subnet_acl_def bind_io_def catch_io_def mem_patch_retry remove_acl_mutate_def empty_subnet_def merge_acls_def Let_def)
qed

theorem delete_subnet_acl_exact_witness:
  "\<exists>w1 d v. Some (empty_subnet [port_rule, v6_rule ''::/0'', port_rule], 3) = w1 \<and> mem_cur w1 = Some (d, v) \<and> 0 \<le> (1::int) \<and> (1::int) < int (length (or_nil (acls d)))
     \<and> v6_rule ''::/0'' = or_nil (acls d) ! nat 1
     \<and> (mem_cur (Some (empty_subnet [port_rule, port_rule], 4)) = None
       \<or> (\<exists>w2 d2 v2 d3 v3. Some (empty_subnet [port_rule, v6_rule ''::/0'', port_rule], 3) = w2 \<and> mem_cur w2 = Some (d2, v2)
          \<and> mem_cur (Some (empty_subnet [port_rule, port_rule], 4)) = Some (d3, v3)
          \<and> or_nil (acls d3) = remove1 (v6_rule ''::/0'') (or_nil (acls d2)) \<and> cidrBlock d3 = cidrBlock d2))"
  by (rule delete_subnet_acl_exact [OF mem_custom_cas demo_delete])

theorem isolation_plan_settles_witness:
  "\<exists>as. plan_acls [] [] two_tenants [] (demo_subnet ''a'' ''10.200.0.0/24'') = Inr (Some as)
     \<and> plan_acls [] [] (map (\<lambda>i. i\<lparr>si_acls := Some as\<rparr>) two_tenants) [] ((demo_subnet ''a'' ''10.200.0.0/24'')\<lparr>si_acls := Some as\<rparr>) = Inr (Some as)"
proof -
  have mem: "demo_subnet ''a'' ''10.200.0.0/24'' \<in> set two_tenants" by (simp add: two_tenants_def)
  have t: "drop_targets ''10.200.0.0/24'' [] (peers_of two_tenants (demo_subnet ''a'' ''10.200.0.0/24'')) \<noteq> []"
    by (simp add: drop_targets_def peers_of_def two_tenants_def demo_subnet_def vpc_role_def)
  have c: "clean ''10.200.0.0/24''" "si_cidrBlock (demo_subnet ''a'' ''10.200.0.0/24'') = Some ''10.200.0.0/24''"
    by (simp_all add: clean_def starts_with_def demo_subnet_def)
  obtain as where as: "plan_acls [] [] two_tenants [] (demo_subnet ''a'' ''10.200.0.0/24'') = Inr (Some as)"
    using plan_of_tenant [of "demo_subnet ''a'' ''10.200.0.0/24''" "[]" two_tenants "[]" "[]" "[]"] two_tenants_plan [OF mem] c t by auto
  show ?thesis
    using isolation_plan_settles [OF _ c(2,1) _ _ _ _ t as, of "[]"] two_tenants_plan [OF mem] as by auto
qed

end
