(* ===== verification/PeeringPair.thy ===== *)
theory PeeringPair
  imports Isolation Operator Allocators
begin

section \<open>Peering two VPCs (\<open>api/v1/vpcs.py\<close>)\<close>

text \<open>
  The endpoints that build and tear down a peering on both routers: the link, the routes to the peer's
  subnets and the policy routes above the egress gateway, the roll-back of a half-written pair, the
  release of all peerings of a VPC, and the pass that peers every tenant with every infrastructure VPC.
  Of a static route the model keeps destination and next hop; the policy is the same on every route
  written here. A subnet of a VPC is kept with its name and its CIDR.
\<close>

subsection \<open>Calls\<close>

record pair_patch =
  pp_vpcPeerings :: "vpc_peering list"
  pp_staticRoutes :: "static_route list"
  pp_policyRoutes :: "policy_route list"

definition merge_pair :: "vpc_spec \<Rightarrow> pair_patch \<Rightarrow> vpc_spec" where
  "merge_pair s p = s\<lparr>vpcPeerings := Some (pp_vpcPeerings p), policyRoutes := Some (pp_policyRoutes p),
     staticRoutes := Some (pp_staticRoutes p)\<rparr>"

record peering_object =
  po_name :: string
  po_networks :: "string list"
  po_linkCIDR :: "string option"

record 'w pair_api =
  pa_get_vpc :: "string \<Rightarrow> ('w, vpc_spec cr) io"
  pa_patch_cas :: "string \<Rightarrow> pair_patch patch_body \<Rightarrow> ('w, unit) io"
  pa_patch :: "string \<Rightarrow> pair_patch \<Rightarrow> ('w, unit) io"
  pa_subnets :: "('w, subnet_item list) io"
  pa_link_cm :: "'w cm_api"
  pa_list_vpcs :: "('w, vpc_spec cr list) io"
  pa_get_object :: "string \<Rightarrow> ('w, unit) io"
  pa_list_objects :: "('w, string list list) io"
  pa_create_object :: "peering_object \<Rightarrow> ('w, unit) io"
  pa_delete_object :: "string \<Rightarrow> ('w, unit) io"
  pa_isolation :: "'w isolation_api"

record VpcPeeringInfo =
  pi_name :: string
  pi_local_vpc :: string
  pi_remote_vpc :: string
  pi_link_cidr :: string
  pi_local_connect_ip :: string
  pi_remote_connect_ip :: string

subsection \<open>Reading\<close>

text \<open>\<open>network.hosts()\<close> with its special cases for one and two addresses; an IPv6 network has no
  broadcast address.\<close>

definition usable_hosts :: "ip_net \<Rightarrow> nat list" where
  "usable_hosts n =
     (if net_len n = width (net_ver n) then [net_addr n]
      else if Suc (net_len n) = width (net_ver n) then [net_addr n, net_addr n + 1]
      else if net_ver n = V4 then hosts n else [net_addr n + 1 ..< broadcast n + 1])"

definition before_slash :: "string \<Rightarrow> string" where
  "before_slash s = hd (split_on (CHR ''/'') s)"

definition peering_info :: "string \<Rightarrow> vpc_peering \<Rightarrow> VpcPeeringInfo" where
  "peering_info vpc_name entry =
     (let remote = or_nil (remoteVpc entry);
          connect_ip = or_nil (localConnectIP entry);
          local_ip = before_slash connect_ip;
          (link, remote_ip) =
            (case ip_network connect_ip of
               None \<Rightarrow> ([], [])
             | Some n \<Rightarrow> (net_str n, or_nil (find (\<lambda>h. h \<noteq> local_ip) (map (ip_str (net_ver n)) (usable_hosts n)))))
      in \<lparr>pi_name = vpc_name @ ''-to-'' @ remote, pi_local_vpc = vpc_name, pi_remote_vpc = remote,
          pi_link_cidr = link, pi_local_connect_ip = local_ip, pi_remote_connect_ip = remote_ip\<rparr>)"

definition peerings_from_item :: "vpc_spec cr \<Rightarrow> string \<Rightarrow> VpcPeeringInfo list" where
  "peerings_from_item item vpc_name = map (peering_info vpc_name) (or_nil (vpcPeerings (cr_spec item)))"

definition get_vpc_peerings :: "'w pair_api \<Rightarrow> string \<Rightarrow> ('w, VpcPeeringInfo list) io" where
  "get_vpc_peerings api vpc_name =
     api_default (bind_io (pa_get_vpc api vpc_name) (\<lambda>item. ret (peerings_from_item item vpc_name))) []"

definition get_vpc_subnets :: "('w, subnet_item list) io \<Rightarrow> string \<Rightarrow> ('w, (string \<times> string) list \<times> bool) io" where
  "get_vpc_subnets list_subs vpc_name =
     api_default (bind_io list_subs (\<lambda>items.
       let mine = filter (\<lambda>i. si_vpc i = Some vpc_name) items
       in ret (map (\<lambda>i. (si_name i, or_nil (si_cidrBlock i))) mine, list_ex (\<lambda>i. has_isolation_acls (si_acls i)) mine)))
     ([], False)"

definition vpc_subnet_cidrs :: "('w, subnet_item list) io \<Rightarrow> string \<Rightarrow> ('w, string list) io" where
  "vpc_subnet_cidrs list_subs vpc_name =
     bind_io (get_vpc_subnets list_subs vpc_name) (\<lambda>(sns, _). ret (filter (\<lambda>c. c \<noteq> []) (map snd sns)))"

text \<open>The first VPC with a subnet inside \<open>wanted\<close> or around it; \<open>subnet_of\<close> raises on two versions.\<close>

fun owner_of :: "ip_net \<Rightarrow> subnet_item list \<Rightarrow> exc + string option" where
  "owner_of wanted [] = Inr None"
| "owner_of wanted (s # ss) =
     (if \<not> truthy (si_vpc s) \<or> \<not> truthy (si_cidrBlock s) \<or> si_vpc s = Some SYSTEM_VPC_NAME then owner_of wanted ss
      else case ip_network (the (si_cidrBlock s)) of
             None \<Rightarrow> owner_of wanted ss
           | Some other \<Rightarrow>
               if net_ver other \<noteq> net_ver wanted then Inl OtherError
               else if subnet_of wanted other \<or> subnet_of other wanted then Inr (si_vpc s)
               else owner_of wanted ss)"

definition vpc_owning_cidr :: "('w, subnet_item list) io \<Rightarrow> string \<Rightarrow> ('w, string option) io" where
  "vpc_owning_cidr list_subs cidr =
     (case ip_network cidr of
        None \<Rightarrow> ret None
      | Some wanted \<Rightarrow>
          bind_io (api_default (bind_io list_subs (\<lambda>items. ret (Some items))) None) (\<lambda>listed.
            case listed of None \<Rightarrow> ret None | Some items \<Rightarrow> lift_exc (owner_of wanted items)))"

subsection \<open>One side\<close>

definition PEERING_POLICY_PRIORITY :: int where
  "PEERING_POLICY_PRIORITY = 31001"

definition PEERING_PATCH_RETRIES :: nat where
  "PEERING_PATCH_RETRIES = 5"

definition dst_match :: "string \<Rightarrow> string" where
  "dst_match c = ''ip4.dst == '' @ c"

definition peering_side_patch ::
  "vpc_spec \<Rightarrow> string \<Rightarrow> string \<Rightarrow> string \<Rightarrow> string list \<Rightarrow> string \<Rightarrow> pair_patch" where
  "peering_side_patch spec remote_vpc local_connect_ip link_cidr remote_cidrs remote_connect_ip =
     (let prefix = last (split_on (CHR ''/'') link_cidr)
      in \<lparr>pp_vpcPeerings = filter (\<lambda>p. remoteVpc p \<noteq> Some remote_vpc) (or_nil (vpcPeerings spec))
            @ [\<lparr>remoteVpc = Some remote_vpc, localConnectIP = Some (local_connect_ip @ ''/'' @ prefix)\<rparr>],
          pp_staticRoutes = filter (\<lambda>r. sr_cidr r \<notin> Some ` set remote_cidrs) (or_nil (staticRoutes spec))
            @ map (\<lambda>c. \<lparr>sr_cidr = Some c, sr_nextHopIP = Some remote_connect_ip\<rparr>) remote_cidrs,
          pp_policyRoutes = filter (\<lambda>p. pr_match p \<notin> (Some \<circ> dst_match) ` set remote_cidrs) (or_nil (policyRoutes spec))
            @ map (\<lambda>c. \<lparr>pr_priority = Some PEERING_POLICY_PRIORITY, pr_action = Some ''allow'', pr_match = Some (dst_match c)\<rparr>) remote_cidrs\<rparr>)"

fun apply_attempts :: "'w pair_api \<Rightarrow> string \<Rightarrow> (vpc_spec \<Rightarrow> pair_patch) \<Rightarrow> nat \<Rightarrow> ('w, unit) io" where
  "apply_attempts api vpc f 0 = ret ()"
| "apply_attempts api vpc f (Suc n) = (\<lambda>w.
     case pa_get_vpc api vpc w of
       (Inl e, w1) \<Rightarrow> (Inl e, w1)
     | (Inr item, w1) \<Rightarrow>
         (case pa_patch_cas api vpc \<lparr>pb_rv = cr_rv item, pb_spec = f (cr_spec item)\<rparr> w1 of
            (Inr _, w2) \<Rightarrow> (Inr (), w2)
          | (Inl e, w2) \<Rightarrow> if e = ApiException 409 \<and> n \<noteq> 0 then apply_attempts api vpc f n w2 else (Inl e, w2)))"

definition apply_peering_side ::
  "'w pair_api \<Rightarrow> string \<Rightarrow> string \<Rightarrow> string \<Rightarrow> string \<Rightarrow> string list \<Rightarrow> string \<Rightarrow> ('w, unit) io" where
  "apply_peering_side api vpc peer connect_ip link_cidr peer_cidrs next_hop =
     apply_attempts api vpc (\<lambda>spec. peering_side_patch spec peer connect_ip link_cidr peer_cidrs next_hop) PEERING_PATCH_RETRIES"

definition other_of :: "string \<Rightarrow> string \<Rightarrow> string \<Rightarrow> string" where
  "other_of this a b = (if this = a then b else a)"

definition remove_side_patch :: "vpc_spec \<Rightarrow> string \<Rightarrow> string list \<Rightarrow> pair_patch" where
  "remove_side_patch spec remote_vpc remote_cidrs =
     (let next_hops = (\<lambda>p. before_slash (or_nil (localConnectIP p))) ` {p \<in> set (or_nil (vpcPeerings spec)). remoteVpc p = Some remote_vpc}
      in \<lparr>pp_vpcPeerings = filter (\<lambda>p. remoteVpc p \<noteq> Some remote_vpc) (or_nil (vpcPeerings spec)),
          pp_staticRoutes = filter (\<lambda>r. sr_cidr r \<notin> Some ` set remote_cidrs \<and> sr_nextHopIP r \<notin> Some ` next_hops) (or_nil (staticRoutes spec)),
          pp_policyRoutes = filter (\<lambda>p. pr_match p \<notin> (Some \<circ> dst_match) ` set remote_cidrs) (or_nil (policyRoutes spec))\<rparr>)"

definition remove_peering_side :: "'w pair_api \<Rightarrow> string \<Rightarrow> string \<Rightarrow> ('w, unit) io" where
  "remove_peering_side api vpc_name remote_vpc = (\<lambda>w.
     case pa_get_vpc api vpc_name w of
       (Inl e, w1) \<Rightarrow> if e = ApiException 404 then (Inr (), w1) else (Inl e, w1)
     | (Inr item, w1) \<Rightarrow>
         bind_io (vpc_subnet_cidrs (pa_subnets api) remote_vpc) (\<lambda>remote_cidrs.
           pa_patch api vpc_name (remove_side_patch (cr_spec item) remote_vpc remote_cidrs)) w1)"

subsection \<open>The pair\<close>

definition get_vpc_or_404 :: "'w pair_api \<Rightarrow> string \<Rightarrow> ('w, vpc_spec) io" where
  "get_vpc_or_404 api name =
     catch_io (bind_io (pa_get_vpc api name) (\<lambda>item. ret (cr_spec item)))
       (\<lambda>e. raise (if e = ApiException 404 then HTTPException 404 else http_of e))"

definition link_of :: "'w pair_api \<Rightarrow> string option \<Rightarrow> ('w, string \<times> string \<times> string) io" where
  "link_of api override =
     (if truthy override
      then (case ip_network (the override) of
              None \<Rightarrow> raise ValueError
            | Some n \<Rightarrow>
                (case usable_hosts n of
                   a # b # _ \<Rightarrow> ret (ip_str (net_ver n) a, ip_str (net_ver n) b, net_str n)
                 | _ \<Rightarrow> raise (HTTPException 400)))
      else allocate_peering_link (pa_link_cm api) (pa_list_vpcs api))"

text \<open>The loop over the two sides. When a side is refused, the sides written before are taken off again;
  a failure of that is only logged.\<close>

fun write_sides ::
  "'w pair_api \<Rightarrow> (string \<Rightarrow> ('w, unit) io) \<Rightarrow> (string \<Rightarrow> string) \<Rightarrow> string list \<Rightarrow> string list \<Rightarrow> ('w, unit) io" where
  "write_sides api side other applied [] = ret ()"
| "write_sides api side other applied (v # vs) = (\<lambda>w.
     case side v w of
       (Inr _, w1) \<Rightarrow> write_sides api side other (applied @ [v]) vs w1
     | (Inl e, w1) \<Rightarrow>
         if is_api e
         then bind_io (for_each applied (\<lambda>d. catch_io (remove_peering_side api d (other d)) (\<lambda>_. ret ()))) (\<lambda>_. raise (http_of e)) w1
         else (Inl e, w1))"

definition create_peering_pair :: "'w pair_api \<Rightarrow> string \<Rightarrow> string \<Rightarrow> string option \<Rightarrow> ('w, VpcPeeringInfo) io" where
  "create_peering_pair api name remote_vpc override =
     (if name = remote_vpc then raise (HTTPException 400)
      else bind_io (get_vpc_or_404 api name) (\<lambda>_.
        bind_io (get_vpc_or_404 api remote_vpc) (\<lambda>_.
        bind_io (vpc_subnet_cidrs (pa_subnets api) name) (\<lambda>local_cidrs.
        bind_io (vpc_subnet_cidrs (pa_subnets api) remote_vpc) (\<lambda>remote_cidrs.
        if local_cidrs = [] \<or> remote_cidrs = [] then raise (HTTPException 400)
        else bind_io (link_of api override) (\<lambda>(local_ip, remote_ip, link_cidr).
          bind_io (write_sides api
             (\<lambda>v. if v = name then apply_peering_side api v remote_vpc local_ip link_cidr remote_cidrs remote_ip
                  else apply_peering_side api v name remote_ip link_cidr local_cidrs local_ip)
             (\<lambda>d. other_of d name remote_vpc) [] [name, remote_vpc]) (\<lambda>_.
          ret \<lparr>pi_name = name @ ''-to-'' @ remote_vpc, pi_local_vpc = name, pi_remote_vpc = remote_vpc, pi_link_cidr = link_cidr,
               pi_local_connect_ip = local_ip, pi_remote_connect_ip = remote_ip\<rparr>)))))))"

definition peering_cr_name :: "string \<Rightarrow> string \<Rightarrow> string" where
  "peering_cr_name a b = join ''-'' (sort [a, b])"

text \<open>\<open>_peering_cr\<close>: whether an object claims the pair.\<close>

definition peering_cr :: "'w pair_api \<Rightarrow> string \<Rightarrow> string \<Rightarrow> ('w, bool) io" where
  "peering_cr api a b =
     catch_io (bind_io (pa_get_object api (peering_cr_name a b)) (\<lambda>_. ret True))
       (\<lambda>e. if e \<in> {ApiException 403, ApiException 404} then ret False else raise e)"

definition describe_peering :: "'w pair_api \<Rightarrow> string \<Rightarrow> string \<Rightarrow> string option \<Rightarrow> ('w, VpcPeeringInfo) io" where
  "describe_peering api local remote link_cidr =
     bind_io (catch_io (pa_create_object api \<lparr>po_name = peering_cr_name local remote, po_networks = sort [local, remote],
          po_linkCIDR = (if truthy link_cidr then link_cidr else None)\<rparr>)
        (\<lambda>e. raise (if e = ApiException 404 then HTTPException 503 else if e = ApiException 409 then HTTPException 409 else http_of e)))
      (\<lambda>_. ret \<lparr>pi_name = peering_cr_name local remote, pi_local_vpc = local, pi_remote_vpc = remote, pi_link_cidr = [],
             pi_local_connect_ip = [], pi_remote_connect_ip = []\<rparr>)"

definition isolation_best_effort :: "env_vars \<Rightarrow> string \<Rightarrow> 'w pair_api \<Rightarrow> ('w, unit) io" where
  "isolation_best_effort env pool api =
     catch_io (bind_io (reconcile_isolation_acls env pool (pa_isolation api)) (\<lambda>_. ret ())) (\<lambda>_. ret ())"

definition create_vpc_peering ::
  "env_vars \<Rightarrow> string \<Rightarrow> 'w pair_api \<Rightarrow> string \<Rightarrow> string \<Rightarrow> string option \<Rightarrow> ('w, VpcPeeringInfo) io" where
  "create_vpc_peering env pool api name remote_vpc link_cidr =
     (if peering_path_enabled env then describe_peering api name remote_vpc link_cidr
      else bind_io (create_peering_pair api name remote_vpc link_cidr) (\<lambda>result.
        bind_io (isolation_best_effort env pool api) (\<lambda>_. ret result)))"

text \<open>The reply: the name of the peering and the VPCs that were updated.\<close>

definition delete_vpc_peering :: "env_vars \<Rightarrow> string \<Rightarrow> 'w pair_api \<Rightarrow> string \<Rightarrow> string \<Rightarrow> ('w, string \<times> string list) io" where
  "delete_vpc_peering env pool api name remote_vpc =
     bind_io (peering_cr api name remote_vpc) (\<lambda>described.
       if described
       then bind_io (pa_delete_object api (peering_cr_name name remote_vpc)) (\<lambda>_. ret (peering_cr_name name remote_vpc, sort [name, remote_vpc]))
       else bind_io (catch_io (remove_peering_side api name remote_vpc) (\<lambda>e. raise (http_of e))) (\<lambda>_.
         bind_io (catch_io (remove_peering_side api remote_vpc name) (\<lambda>e. raise (http_of e))) (\<lambda>_.
         bind_io (isolation_best_effort env pool api) (\<lambda>_. ret (name @ ''-to-'' @ remote_vpc, [name, remote_vpc])))))"

subsection \<open>All peerings of a VPC\<close>

definition claimed_remotes :: "'w pair_api \<Rightarrow> string \<Rightarrow> ('w, string set) io" where
  "claimed_remotes api vpc_name =
     bind_io (catch_io (pa_list_objects api) (\<lambda>e. if e \<in> {ApiException 403, ApiException 404} then ret [] else raise e)) (\<lambda>items.
       ret ((\<lambda>ns. if ns ! 1 = vpc_name then ns ! 0 else ns ! 1) ` set (filter (\<lambda>ns. length ns = 2 \<and> vpc_name \<in> set ns) items)))"

definition release_one :: "'w pair_api \<Rightarrow> string \<Rightarrow> string set \<Rightarrow> string \<Rightarrow> ('w, unit) io" where
  "release_one api name claimed remote =
     (if remote = [] then ret ()
      else if remote \<in> claimed
      then catch_io (pa_delete_object api (peering_cr_name name remote)) (\<lambda>e. if is_api e then ret () else raise e)
      else catch_io (remove_peering_side api remote name) (\<lambda>_. ret ()))"

definition release_peerings :: "'w pair_api \<Rightarrow> string \<Rightarrow> ('w, nat) io" where
  "release_peerings api name =
     bind_io (get_vpc_peerings api name) (\<lambda>peerings.
     bind_io (claimed_remotes api name) (\<lambda>claimed.
     bind_io (for_each (map pi_remote_vpc peerings) (release_one api name claimed)) (\<lambda>_. ret (length peerings))))"

fun peer_shared_cidrs :: "'w pair_api \<Rightarrow> string \<Rightarrow> string list \<Rightarrow> ('w, unit) io" where
  "peer_shared_cidrs api vpc_name [] = ret ()"
| "peer_shared_cidrs api vpc_name (c # cs) =
     bind_io (vpc_owning_cidr (pa_subnets api) c) (\<lambda>peer.
     bind_io (if \<not> truthy peer \<or> peer = Some vpc_name then ret ()
              else catch_io (bind_io (create_peering_pair api vpc_name (the peer) None) (\<lambda>_. ret ())) (\<lambda>_. ret ()))
       (\<lambda>_. peer_shared_cidrs api vpc_name cs))"

subsection \<open>Infrastructure\<close>

definition routable :: "subnet_item \<Rightarrow> bool" where
  "routable i \<longleftrightarrow> is_tenant_subnet i \<and> truthy (si_cidrBlock i)"

definition hub_peers :: "'w pair_api \<Rightarrow> string \<Rightarrow> ('w, string option set option) io" where
  "hub_peers api hub =
     api_default (bind_io (pa_get_vpc api hub) (\<lambda>item. ret (Some (remoteVpc ` set (or_nil (vpcPeerings (cr_spec item))))))) None"

fun peer_legs :: "'w pair_api \<Rightarrow> string \<Rightarrow> nat \<Rightarrow> string list \<Rightarrow> ('w, nat) io" where
  "peer_legs api hub created [] = ret created"
| "peer_legs api hub created (t # ts) =
     bind_io (hub_peers api hub) (\<lambda>fresh.
       case fresh of
         None \<Rightarrow> peer_legs api hub created ts
       | Some have_now \<Rightarrow>
           if Some t \<in> have_now then peer_legs api hub created ts
           else bind_io (catch_io (bind_io (create_peering_pair api hub t None) (\<lambda>_. ret 1)) (\<lambda>_. ret 0))
                  (\<lambda>k. peer_legs api hub (created + k) ts))"

fun peer_hubs :: "'w pair_api \<Rightarrow> string list \<Rightarrow> nat \<Rightarrow> string list \<Rightarrow> ('w, nat) io" where
  "peer_hubs api tenants created [] = ret created"
| "peer_hubs api tenants created (h # hs) =
     bind_io (hub_peers api h) (\<lambda>have_now.
     bind_io (case have_now of None \<Rightarrow> ret created | Some ps \<Rightarrow> peer_legs api h created (filter (\<lambda>t. Some t \<notin> ps) tenants))
       (\<lambda>k. peer_hubs api tenants k hs))"

definition reconcile_infra_peerings :: "'w pair_api \<Rightarrow> ('w, nat) io" where
  "reconcile_infra_peerings api =
     bind_io (catch_io (pa_subnets api) (\<lambda>_. ret [])) (\<lambda>items.
       let mine = filter routable items;
           infra = sort (remdups (map (\<lambda>i. the (si_vpc i)) (filter (\<lambda>i. vpc_role i = Some ''infrastructure'') mine)));
           tenants = sort (remdups (map (\<lambda>i. the (si_vpc i)) (filter (\<lambda>i. vpc_role i = None) mine)))
       in peer_hubs api tenants 0 infra)"

subsection \<open>What one side of a peering is\<close>

text \<open>The router \<open>s\<close> has one link to \<open>remote\<close>, and every destination of \<open>cidrs\<close> goes over it: routed
  via \<open>hop\<close> and lifted above the egress gateway.\<close>

definition linked :: "vpc_spec \<Rightarrow> string \<Rightarrow> string \<Rightarrow> string list \<Rightarrow> string \<Rightarrow> bool" where
  "linked s remote connect_ip cidrs hop \<longleftrightarrow>
     filter (\<lambda>p. remoteVpc p = Some remote) (or_nil (vpcPeerings s)) = [\<lparr>remoteVpc = Some remote, localConnectIP = Some connect_ip\<rparr>]
     \<and> (\<forall>c \<in> set cidrs.
          {r \<in> set (or_nil (staticRoutes s)). sr_cidr r = Some c} = {\<lparr>sr_cidr = Some c, sr_nextHopIP = Some hop\<rparr>}
          \<and> {p \<in> set (or_nil (policyRoutes s)). pr_match p = Some (dst_match c)}
              = {\<lparr>pr_priority = Some PEERING_POLICY_PRIORITY, pr_action = Some ''allow'', pr_match = Some (dst_match c)\<rparr>})"

text \<open>What \<open>s\<close> has that does not belong to the peering with \<open>remote\<close>.\<close>

definition unrelated :: "vpc_spec \<Rightarrow> string \<Rightarrow> string list \<Rightarrow> vpc_peering list \<times> static_route list \<times> policy_route list" where
  "unrelated s remote cidrs =
     (filter (\<lambda>p. remoteVpc p \<noteq> Some remote) (or_nil (vpcPeerings s)),
      filter (\<lambda>r. sr_cidr r \<notin> Some ` set cidrs) (or_nil (staticRoutes s)),
      filter (\<lambda>p. pr_match p \<notin> (Some \<circ> dst_match) ` set cidrs) (or_nil (policyRoutes s)))"

definition router_lists :: "vpc_spec \<Rightarrow> vpc_peering list \<times> static_route list \<times> policy_route list" where
  "router_lists s = (or_nil (vpcPeerings s), or_nil (staticRoutes s), or_nil (policyRoutes s))"

lemma dst_match_inj [simp]: "dst_match c = dst_match d \<longleftrightarrow> c = d"
  by (simp add: dst_match_def)

lemma filter_none: "(\<And>x. x \<in> set xs \<Longrightarrow> \<not> P x) \<Longrightarrow> filter P xs = []"
  by (simp add: filter_empty_conv)

lemma side_linked:
  "linked (merge_pair s (peering_side_patch s remote ip link cidrs hop)) remote
     (ip @ ''/'' @ last (split_on (CHR ''/'') link)) cidrs hop"
  by (auto simp: linked_def merge_pair_def peering_side_patch_def Let_def filter_none)


lemma hd_split_on: "hd (split_on c (x # xs)) = (if x = c then [] else x # hd (split_on c xs))"
  by (cases "split_on c xs") auto

lemma before_slash_app: "before_slash (l @ ''/'' @ p) = before_slash l"
  unfolding before_slash_def by (induction l) (simp_all add: hd_split_on del: split_on.simps(2))

text \<open>Nothing of the peering with \<open>remote\<close> is on the router, and no route goes via the address.\<close>

definition fresh_for :: "vpc_spec \<Rightarrow> string \<Rightarrow> string list \<Rightarrow> string \<Rightarrow> bool" where
  "fresh_for s remote cidrs ip \<longleftrightarrow>
     unrelated s remote cidrs = router_lists s \<and> (\<forall>r \<in> set (or_nil (staticRoutes s)). sr_nextHopIP r \<noteq> Some (before_slash ip))"



subsection \<open>All or nothing\<close>

text \<open>The API server with no other writer: a read shows the router, a write with a resourceVersion may be
  refused for any reason and then changes nothing, and the reads and the plain writes do not fail.\<close>

definition written :: "(string \<rightharpoonup> vpc_spec) \<Rightarrow> string \<Rightarrow> pair_patch \<Rightarrow> string \<rightharpoonup> vpc_spec" where
  "written m v p = (case m v of None \<Rightarrow> m | Some s \<Rightarrow> m(v \<mapsto> merge_pair s p))"




















subsection \<open>Where a peering is left behind\<close>

text \<open>Taking a side off collects the addresses of this side as next hops, which no route of the peering has: with
  the subnets of the peer gone, its routes stay.\<close>

lemma removed_side_keeps_routes:
  assumes "fresh_for s remote cidrs ip" "hop \<noteq> before_slash ip" "c \<in> set cidrs"
  shows "\<lparr>sr_cidr = Some c, sr_nextHopIP = Some hop\<rparr>
    \<in> set (pp_staticRoutes (remove_side_patch (merge_pair s (peering_side_patch s remote ip link cidrs hop)) remote []))"
proof -
  have "filter (\<lambda>p. remoteVpc p \<noteq> Some remote) (or_nil (vpcPeerings s)) = or_nil (vpcPeerings s)"
    using assms(1) by (simp add: fresh_for_def unrelated_def router_lists_def)
  then have "\<And>p. p \<in> set (or_nil (vpcPeerings s)) \<Longrightarrow> remoteVpc p \<noteq> Some remote" by (metis (mono_tags, lifting) filter_id_conv)
  then show ?thesis
    using assms(2,3) before_slash_app [of ip] by (auto simp: remove_side_patch_def merge_pair_def peering_side_patch_def Let_def)
qed

subsection \<open>An in-memory server\<close>

definition mem_pair_api :: "string set \<Rightarrow> (string \<rightharpoonup> vpc_spec) pair_api" where
  "mem_pair_api refusing =
     \<lparr>pa_get_vpc = (\<lambda>v w. (case w v of None \<Rightarrow> Inl (ApiException 404) | Some s \<Rightarrow> Inr \<lparr>cr_name = v, cr_labels = [], cr_rv = ''1'', cr_spec = s\<rparr>, w)),
      pa_patch_cas = (\<lambda>v b w. if v \<in> refusing then (Inl (ApiException 422), w) else (Inr (), written w v (pb_spec b))),
      pa_patch = (\<lambda>v p w. (Inr (), written w v p)),
      pa_subnets = ret two_tenants,
      pa_link_cm = \<lparr>read_config_map = raise OtherError, create_config_map = (\<lambda>_. raise OtherError), replace_config_map = (\<lambda>_. raise OtherError)\<rparr>,
      pa_list_vpcs = ret [], pa_get_object = (\<lambda>_. raise (ApiException 404)), pa_list_objects = ret [],
      pa_create_object = (\<lambda>_. ret ()), pa_delete_object = (\<lambda>_. ret ()),
      pa_isolation = \<lparr>ia_nodes = ret [], ia_subnets = ret [], ia_vpcs = ret [], ia_put = (\<lambda>_ _. ret ())\<rparr>\<rparr>"

definition bare_router :: vpc_spec where
  "bare_router = \<lparr>vpcPeerings = None, extraExternalSubnets = None, policyRoutes = None, staticRoutes = None, enableExternal = None, vpc_namespaces = None\<rparr>"

definition two_routers :: "string \<rightharpoonup> vpc_spec" where
  "two_routers = [''a'' \<mapsto> bare_router, ''b'' \<mapsto> bare_router]"



lemma demo_link: "link_of api (Some ''169.254.101.0/30'') = ret (''169.254.101.1'', ''169.254.101.2'', ''169.254.101.0/30'')"
proof -
  let ?a = "169 * 2 ^ 24 + 254 * 2 ^ 16 + 101 * 2 ^ 8 :: nat"
  have "ipv4_str ?a @ ''/'' @ nat_str 30 = ''169.254.101.0/30''" "ipv4_str (?a + 1) = ''169.254.101.1''" "ipv4_str (?a + 2) = ''169.254.101.2''"
    by (simp_all add: ipv4_str_def str_simps)
  moreover have "hosts (mk_net V4 ?a 30) = [?a + 1, ?a + 2]"
    by (simp add: hosts_def mk_net_def mask_down_def block_size_def broadcast_def upt_rec)
  ultimately show ?thesis
    using parse_net4_str [of ?a 30]
    by (simp add: link_of_def usable_hosts_def mk_net_def mask_down_def block_size_def net_str_def)
qed


lemma mem_cidrs: "vpc_subnet_cidrs (pa_subnets (mem_pair_api refusing)) ''a'' = ret [''10.200.0.0/24'']"
  "vpc_subnet_cidrs (pa_subnets (mem_pair_api refusing)) ''b'' = ret [''10.200.1.0/24'']"
  by (rule ext, simp add: mem_pair_api_def vpc_subnet_cidrs_def get_vpc_subnets_def api_default_def two_tenants_def demo_subnet_def Let_def
      has_isolation_acls_def bind_io_def catch_io_def)+

lemma mem_get: "pa_get_vpc (mem_pair_api refusing) v w = (case w v of None \<Rightarrow> Inl (ApiException 404) | Some s \<Rightarrow> Inr \<lparr>cr_name = v, cr_labels = [], cr_rv = ''1'', cr_spec = s\<rparr>, w)"
  "pa_patch_cas (mem_pair_api refusing) v b w = (if v \<in> refusing then (Inl (ApiException 422), w) else (Inr (), written w v (pb_spec b)))"
  "pa_patch (mem_pair_api refusing) v p w = (Inr (), written w v p)"
  by (simp_all add: mem_pair_api_def)

lemma mem_apply: "w v = Some s \<Longrightarrow> apply_attempts (mem_pair_api refusing) v f PEERING_PATCH_RETRIES w =
    (if v \<in> refusing then (Inl (ApiException 422), w) else (Inr (), w(v \<mapsto> merge_pair s (f s))))"
proof -
  assume "w v = Some s"
  moreover have five: "PEERING_PATCH_RETRIES = Suc (Suc (Suc (Suc (Suc 0))))" by (simp add: PEERING_PATCH_RETRIES_def)
  ultimately show ?thesis unfolding five by (simp add: mem_get written_def)
qed

lemma mem_remove: "w ''a'' = Some s \<Longrightarrow> remove_peering_side (mem_pair_api refusing) ''a'' ''b'' w =
    (Inr (), w(''a'' \<mapsto> merge_pair s (remove_side_patch s ''b'' [''10.200.1.0/24''])))"
  by (simp add: remove_peering_side_def mem_get mem_cidrs written_def)

text \<open>Both sides written, and the second side refused.\<close>

lemma mem_pair_run:
  assumes "w ''a'' = Some a" "w ''b'' = Some b"
  defines "a' \<equiv> merge_pair a (peering_side_patch a ''b'' ''169.254.101.1'' ''169.254.101.0/30'' [''10.200.1.0/24''] ''169.254.101.2'')"
  shows "\<exists>info. create_peering_pair (mem_pair_api {}) ''a'' ''b'' (Some ''169.254.101.0/30'') w =
      (Inr info, w(''a'' \<mapsto> a', ''b'' \<mapsto> merge_pair b (peering_side_patch b ''a'' ''169.254.101.2'' ''169.254.101.0/30'' [''10.200.0.0/24''] ''169.254.101.1'')))"
    and "\<exists>e. create_peering_pair (mem_pair_api {''b''}) ''a'' ''b'' (Some ''169.254.101.0/30'') w =
      (Inl e, w(''a'' \<mapsto> merge_pair a' (remove_side_patch a' ''b'' [''10.200.1.0/24''])))"
  using assms by (simp_all add: create_peering_pair_def get_vpc_or_404_def bind_io_def catch_io_def mem_get mem_cidrs demo_link
      apply_peering_side_def mem_apply mem_remove other_of_def)




text \<open>Peering a pair that is peered already: when the second side is refused, the roll-back takes the first
  side off a working peering and leaves the second.\<close>

lemma repeering_rollback_breaks_pair:
  "\<exists>info w1 e w2. create_peering_pair (mem_pair_api {}) ''a'' ''b'' (Some ''169.254.101.0/30'') two_routers = (Inr info, w1)
     \<and> create_peering_pair (mem_pair_api {''b''}) ''a'' ''b'' (Some ''169.254.101.0/30'') w1 = (Inl e, w2)
     \<and> (\<exists>s. w2 ''a'' = Some s \<and> vpcPeerings s = Some [] \<and> staticRoutes s = Some [])
     \<and> (\<exists>s. w2 ''b'' = Some s \<and> linked s ''a'' ''169.254.101.2/30'' [''10.200.0.0/24''] ''169.254.101.1'')"
proof -
  have ab: "two_routers ''a'' = Some bare_router" "two_routers ''b'' = Some bare_router" by (simp_all add: two_routers_def)
  let ?a = "merge_pair bare_router (peering_side_patch bare_router ''b'' ''169.254.101.1'' ''169.254.101.0/30'' [''10.200.1.0/24''] ''169.254.101.2'')"
  let ?b = "merge_pair bare_router (peering_side_patch bare_router ''a'' ''169.254.101.2'' ''169.254.101.0/30'' [''10.200.0.0/24''] ''169.254.101.1'')"
  let ?w1 = "two_routers(''a'' \<mapsto> ?a, ''b'' \<mapsto> ?b)"
  have w1: "?w1 ''a'' = Some ?a" "?w1 ''b'' = Some ?b" by simp_all
  let ?a2 = "merge_pair ?a (peering_side_patch ?a ''b'' ''169.254.101.1'' ''169.254.101.0/30'' [''10.200.1.0/24''] ''169.254.101.2'')"
  let ?a3 = "merge_pair ?a2 (remove_side_patch ?a2 ''b'' [''10.200.1.0/24''])"
  have "vpcPeerings ?a3 = Some [] \<and> staticRoutes ?a3 = Some []"
    by (simp add: merge_pair_def remove_side_patch_def peering_side_patch_def Let_def bare_router_def)
  moreover have "linked ?b ''a'' ''169.254.101.2/30'' [''10.200.0.0/24''] ''169.254.101.1''"
    using side_linked [of bare_router "''a''" "''169.254.101.2''" "''169.254.101.0/30''"] by simp
  ultimately show ?thesis using mem_pair_run(1) [OF ab] mem_pair_run(2) [OF w1] by fastforce
qed

text \<open>One subnet of the other IP version ends the search for the owner of a range with a \<open>TypeError\<close>.\<close>

lemma owner_of_other_version:
  assumes "truthy (si_vpc s)" "si_vpc s \<noteq> Some SYSTEM_VPC_NAME" "truthy (si_cidrBlock s)"
    and "ip_network (the (si_cidrBlock s)) = Some n" "net_ver n \<noteq> net_ver wanted"
  shows "owner_of wanted (s # ss) = Inl OtherError"
  using assms by simp

end
