(* ===== verification/TalosCatalog.thy ===== *)
theory TalosCatalog
  imports Kube
begin

section \<open>The catalogue of Talos versions (\<open>core/talos_catalog.py\<close>)\<close>

text \<open>
  Which Talos versions a deployment offers for a Kubernetes version, the list the wizard shows
  (\<open>api/v1/tenants_crud.py\<close>), the check of a create request and the shared image of a version
  (\<open>api/v1/tenants_talos.py\<close>). The catalogue is read from a JSON text in the environment; the parser
  is an argument, and so is the text Python prints for a list or an object.
\<close>

subsection \<open>JSON values\<close>

text \<open>Of a number the code sees whether it is zero and its text.\<close>

datatype json =
    JNull
  | JBool bool
  | JNum bool string
  | JStr string
  | JList "json list"
  | JObj "(string \<times> json) list"

fun json_true :: "json \<Rightarrow> bool" where
  "json_true JNull = False"
| "json_true (JBool b) = b"
| "json_true (JNum nonzero _) = nonzero"
| "json_true (JStr s) = (s \<noteq> [])"
| "json_true (JList xs) = (xs \<noteq> [])"
| "json_true (JObj kvs) = (kvs \<noteq> [])"

fun json_str :: "(json \<Rightarrow> string) \<Rightarrow> json \<Rightarrow> string" where
  "json_str repr JNull = ''None''"
| "json_str repr (JBool b) = (if b then ''True'' else ''False'')"
| "json_str repr (JNum _ t) = t"
| "json_str repr (JStr s) = s"
| "json_str repr j = repr j"

text \<open>\<open>for x in j\<close>: an object yields its keys, a text its characters, a number raises \<open>TypeError\<close>.\<close>

fun json_iter :: "json \<Rightarrow> exc + json list" where
  "json_iter (JList xs) = Inr xs"
| "json_iter (JObj kvs) = Inr (map (JStr \<circ> fst) kvs)"
| "json_iter (JStr s) = Inr (map (\<lambda>c. JStr [c]) s)"
| "json_iter _ = Inl OtherError"

subsection \<open>Releases\<close>

definition CATALOG_ENV :: string where
  "CATALOG_ENV = ''TENANTS_TALOS_CATALOG''"

definition EMPTY_SCHEMATIC :: string where
  "EMPTY_SCHEMATIC = ''376567988ad370138ad8b2698212367b8edcb69b5fd68c80be1f2ec7d603b4ba''"

definition lstrip_v :: "string \<Rightarrow> string" where
  "lstrip_v = lstrip (\<lambda>c. c = CHR ''v'')"

definition factory_image_url :: "string \<Rightarrow> string \<Rightarrow> string" where
  "factory_image_url talos_version schematic =
     ''https://factory.talos.dev/image/'' @ schematic @ ''/v'' @ lstrip_v talos_version @ ''/openstack-amd64.raw.xz''"

record TalosRelease =
  tr_talos :: string
  tr_image_url :: string
  tr_k8s_min :: string
  tr_k8s_max :: string
  tr_sha :: string
  tr_default :: bool

definition BUILT_IN_CATALOG :: "TalosRelease list" where
  "BUILT_IN_CATALOG = [\<lparr>tr_talos = ''1.13.8'', tr_image_url = factory_image_url ''1.13.8'' EMPTY_SCHEMATIC, tr_k8s_min = ''1.31'',
     tr_k8s_max = ''1.36'', tr_sha = [], tr_default = True\<rparr>]"

text \<open>\<open>re.match(r"^v?(\d+)\.(\d+)", version.strip())\<close>.\<close>

definition minor :: "string \<Rightarrow> (nat \<times> nat) option" where
  "minor version =
     (let s = strip version;
          t = (case s of c # r \<Rightarrow> if c = CHR ''v'' then r else s | [] \<Rightarrow> s);
          major = takeWhile is_digit t
      in if major = [] then None
         else case dropWhile is_digit t of
                c # r \<Rightarrow> if c = CHR ''.'' \<and> takeWhile is_digit r \<noteq> [] then Some (digits_val major, digits_val (takeWhile is_digit r)) else None
              | [] \<Rightarrow> None)"

fun pair_le :: "nat \<times> nat \<Rightarrow> nat \<times> nat \<Rightarrow> bool" where
  "pair_le (a, b) (c, d) \<longleftrightarrow> a < c \<or> a = c \<and> b \<le> d"

definition is_compatible :: "TalosRelease \<Rightarrow> string \<Rightarrow> bool" where
  "is_compatible release k8s_version =
     (case (minor k8s_version, minor (tr_k8s_min release), minor (tr_k8s_max release)) of
        (Some want, Some lo, Some hi) \<Rightarrow> pair_le lo want \<and> pair_le want hi
      | _ \<Rightarrow> False)"

subsection \<open>The catalogue\<close>

text \<open>\<open>str(item.get("image_url") or factory_image_url(item["talos"]))\<close>: a version that is no text has no
  \<open>lstrip\<close> (\<open>AttributeError\<close>).\<close>

definition release_url :: "(json \<Rightarrow> string) \<Rightarrow> json option \<Rightarrow> json \<Rightarrow> exc + string" where
  "release_url repr given talos =
     (case given of
        Some u \<Rightarrow> if json_true u then Inr (json_str repr u)
                  else (case talos of JStr s \<Rightarrow> Inr (factory_image_url s EMPTY_SCHEMATIC) | _ \<Rightarrow> Inl OtherError)
      | None \<Rightarrow> (case talos of JStr s \<Rightarrow> Inr (factory_image_url s EMPTY_SCHEMATIC) | _ \<Rightarrow> Inl OtherError))"

text \<open>A missing key, or an entry that is no object, is a \<open>ValueError\<close>. The keys of an object are distinct.\<close>

definition parse_release :: "(json \<Rightarrow> string) \<Rightarrow> json \<Rightarrow> exc + TalosRelease" where
  "parse_release repr item =
     (case item of
        JObj kvs \<Rightarrow>
          (case map_of kvs ''talos'' of
             None \<Rightarrow> Inl ValueError
           | Some talos \<Rightarrow>
               (case release_url repr (map_of kvs ''image_url'') talos of
                  Inl e \<Rightarrow> Inl e
                | Inr url \<Rightarrow>
                    (case (map_of kvs ''k8s_min'', map_of kvs ''k8s_max'') of
                       (Some lo, Some hi) \<Rightarrow>
                         Inr \<lparr>tr_talos = json_str repr talos, tr_image_url = url, tr_k8s_min = json_str repr lo, tr_k8s_max = json_str repr hi,
                              tr_sha = (case map_of kvs ''sha'' of Some x \<Rightarrow> json_str repr x | None \<Rightarrow> []),
                              tr_default = (case map_of kvs ''default'' of Some d \<Rightarrow> json_true d | None \<Rightarrow> False)\<rparr>
                     | _ \<Rightarrow> Inl ValueError)))
      | _ \<Rightarrow> Inl ValueError)"

record json_reader =
  loads :: "string \<Rightarrow> json option"
  repr :: "json \<Rightarrow> string"

definition parse_catalog :: "json_reader \<Rightarrow> string \<Rightarrow> exc + TalosRelease list" where
  "parse_catalog js raw =
     (case loads js raw of
        None \<Rightarrow> Inl ValueError
      | Some j \<Rightarrow>
          (case json_iter j of
             Inl e \<Rightarrow> Inl e
           | Inr items \<Rightarrow>
               (case collect (map (parse_release (repr js)) items) of
                  Inl e \<Rightarrow> Inl e
                | Inr entries \<Rightarrow> if entries = [] then Inl ValueError else Inr entries)))"

definition catalog :: "env_vars \<Rightarrow> json_reader \<Rightarrow> exc + TalosRelease list" where
  "catalog env js =
     (if \<not> truthy (env CATALOG_ENV) then Inr BUILT_IN_CATALOG
      else case parse_catalog js (the (env CATALOG_ENV)) of
             Inl e \<Rightarrow> if e = ValueError then Inr BUILT_IN_CATALOG else Inl e
           | Inr entries \<Rightarrow> Inr entries)"

definition default_of :: "TalosRelease list \<Rightarrow> TalosRelease" where
  "default_of entries = (case find tr_default entries of Some e \<Rightarrow> e | None \<Rightarrow> hd entries)"

definition default_release :: "env_vars \<Rightarrow> json_reader \<Rightarrow> exc + TalosRelease" where
  "default_release env js = map_sum id default_of (catalog env js)"

definition releases_for :: "env_vars \<Rightarrow> json_reader \<Rightarrow> string \<Rightarrow> exc + TalosRelease list" where
  "releases_for env js k8s_version = map_sum id (filter (\<lambda>e. is_compatible e k8s_version)) (catalog env js)"

definition find_in :: "TalosRelease list \<Rightarrow> string \<Rightarrow> TalosRelease option" where
  "find_in entries talos_version = find (\<lambda>e. tr_talos e = lstrip_v talos_version) entries"

definition find_release :: "env_vars \<Rightarrow> json_reader \<Rightarrow> string \<Rightarrow> exc + TalosRelease option" where
  "find_release env js talos_version = map_sum id (\<lambda>entries. find_in entries talos_version) (catalog env js)"

definition pairs_of :: "TalosRelease \<Rightarrow> (string \<times> string) list" where
  "pairs_of e =
     (case (minor (tr_k8s_min e), minor (tr_k8s_max e)) of
        (Some lo, Some hi) \<Rightarrow> map (\<lambda>m. (tr_talos e, nat_str (fst lo) @ ''.'' @ nat_str m)) [snd lo ..< snd hi + 1]
      | _ \<Rightarrow> [])"

definition compatible_pairs :: "env_vars \<Rightarrow> json_reader \<Rightarrow> exc + (string \<times> string) set" where
  "compatible_pairs env js = map_sum id (\<lambda>entries. set (concat (map pairs_of entries))) (catalog env js)"

subsection \<open>The two readers\<close>

record offered =
  of_talos :: string
  of_image_url :: string
  of_sha :: string
  of_k8s_min :: string
  of_k8s_max :: string
  of_default :: bool

record talos_versions =
  tv_hidden :: nat
  tv_items :: "offered list"
  tv_default :: string

definition list_talos_versions :: "env_vars \<Rightarrow> json_reader \<Rightarrow> string option \<Rightarrow> exc + talos_versions" where
  "list_talos_versions env js kubernetes_version =
     (case catalog env js of
        Inl e \<Rightarrow> Inl e
      | Inr all_entries \<Rightarrow>
          let entries = (if truthy kubernetes_version then filter (\<lambda>e. is_compatible e (the kubernetes_version)) all_entries else all_entries)
          in map_sum id (\<lambda>dflt.
               \<lparr>tv_hidden = length all_entries - length entries,
                tv_items = map (\<lambda>e. \<lparr>of_talos = tr_talos e, of_image_url = tr_image_url e, of_sha = tr_sha e, of_k8s_min = tr_k8s_min e,
                    of_k8s_max = tr_k8s_max e, of_default = (tr_talos e = tr_talos dflt)\<rparr>) entries,
                tv_default = (case find (\<lambda>e. tr_talos e = tr_talos dflt) entries of
                    Some e \<Rightarrow> tr_talos e | None \<Rightarrow> if entries \<noteq> [] then tr_talos (hd entries) else [])\<rparr>)
             (default_release env js))"

definition resolve_talos_release :: "env_vars \<Rightarrow> json_reader \<Rightarrow> string \<Rightarrow> string option \<Rightarrow> exc + TalosRelease" where
  "resolve_talos_release env js k8s_version talos_version =
     (case (if truthy talos_version then find_release env js (the talos_version) else map_sum id Some (default_release env js)) of
        Inl e \<Rightarrow> Inl e
      | Inr None \<Rightarrow> Inl (HTTPException 422)
      | Inr (Some release) \<Rightarrow> if is_compatible release k8s_version then Inr release else Inl (HTTPException 422))"

subsection \<open>The shared image of a version\<close>

definition golden_namespace :: "env_vars \<Rightarrow> string" where
  "golden_namespace env = (if truthy (env ''TENANTS_GOLDEN_NAMESPACE'') then the (env ''TENANTS_GOLDEN_NAMESPACE'') else ''kubevirt-ui-system'')"

definition golden_storage_class :: "env_vars \<Rightarrow> string option" where
  "golden_storage_class env = (if truthy (env ''TENANTS_GOLDEN_STORAGE_CLASS'') then env ''TENANTS_GOLDEN_STORAGE_CLASS'' else None)"

definition golden_name :: "string \<Rightarrow> string" where
  "golden_name talos_version = ''talos-golden-'' @ map (\<lambda>c. if c = CHR ''.'' then CHR ''-'' else c) (lstrip_v talos_version)"

text \<open>What the handlers set and read of a DataVolume.\<close>

record data_volume =
  dv_name :: string
  dv_namespace :: string
  dv_labels :: "string dict"
  dv_url :: string
  dv_size :: string
  dv_storage_class :: "string option"
  dv_deletionTimestamp :: "string option"
  dv_phase :: "string option"

record 'w dv_api =
  dv_create :: "data_volume \<Rightarrow> ('w, unit) io"
  dv_get :: "string \<Rightarrow> string \<Rightarrow> ('w, data_volume) io"

definition build_shared_golden_dv :: "env_vars \<Rightarrow> string \<Rightarrow> string \<Rightarrow> string \<Rightarrow> string option \<Rightarrow> data_volume" where
  "build_shared_golden_dv env talos_version image_url vol_size storage_class =
     \<lparr>dv_name = golden_name talos_version, dv_namespace = golden_namespace env,
      dv_labels = [(''kubevirt-ui.io/managed'', ''true''), (''kubevirt-ui.io/talos-golden'', ''true''),
        (''kubevirt-ui.io/talos-version'', talos_version)],
      dv_url = image_url, dv_size = vol_size, dv_storage_class = (if truthy storage_class then storage_class else None),
      dv_deletionTimestamp = None, dv_phase = None\<rparr>"

text \<open>The wait, by the seconds left; it takes two seconds a turn.\<close>

function wait_for_golden :: "('w, data_volume) io \<Rightarrow> int \<Rightarrow> ('w, unit) io" where
  "wait_for_golden get deadline =
     (if deadline \<le> 0 then ret ()
      else (\<lambda>w. case get w of
                 (Inl e, w1) \<Rightarrow> if is_api e then (Inr (), w1) else (Inl e, w1)
               | (Inr dv, w1) \<Rightarrow> if dv_phase dv = Some ''Succeeded'' then (Inr (), w1) else wait_for_golden get (deadline - 2) w1))"
  by pat_completeness auto
termination
  by (relation "measure (\<lambda>(_, d). nat d)") auto

declare wait_for_golden.simps [simp del]

definition ensure_shared_golden_image ::
  "env_vars \<Rightarrow> 'w dv_api \<Rightarrow> string \<Rightarrow> string \<Rightarrow> string \<Rightarrow> int \<Rightarrow> ('w, string) io" where
  "ensure_shared_golden_image env api talos_version image_url vol_size wait_seconds = (\<lambda>w.
     let name = golden_name talos_version; ns = golden_namespace env
     in case dv_create api (build_shared_golden_dv env talos_version image_url vol_size (golden_storage_class env)) w of
          (Inr _, w1) \<Rightarrow> (Inr name, w1)
        | (Inl e, w1) \<Rightarrow>
            if e \<noteq> ApiException 409 then (Inl e, w1)
            else bind_io (catch_io (bind_io (dv_get api ns name) (\<lambda>dv. ret (Some dv))) (\<lambda>e. if is_api e then ret None else raise e)) (\<lambda>existing.
                 case existing of
                   Some dv \<Rightarrow>
                     if truthy (dv_deletionTimestamp dv) then raise (HTTPException 409)
                     else if dv_phase dv = Some ''Succeeded'' then ret name
                     else bind_io (wait_for_golden (dv_get api ns name) wait_seconds) (\<lambda>_. ret name)
                 | None \<Rightarrow> bind_io (wait_for_golden (dv_get api ns name) wait_seconds) (\<lambda>_. ret name)) w1)"


subsection \<open>Versions\<close>

lemma takeWhile_digits: "\<not> is_digit c \<Longrightarrow> takeWhile is_digit (nat_str n @ c # r) = nat_str n"
  "\<not> is_digit c \<Longrightarrow> dropWhile is_digit (nat_str n @ c # r) = c # r"
  "takeWhile is_digit (nat_str n) = nat_str n"
  using nat_str_set [of _ n] by (simp_all add: takeWhile_append2 dropWhile_append2 takeWhile_eq_all_conv)

lemma version_chars: "c \<in> set (nat_str a @ ''.'' @ nat_str b) \<Longrightarrow> is_digit c \<or> c = CHR ''.''"
  using nat_str_set by auto

lemma minor_of_pair: "minor (nat_str a @ ''.'' @ nat_str b) = Some (a, b)"
proof -
  let ?s = "nat_str a @ ''.'' @ nat_str b"
  have st: "strip ?s = ?s"
    by (rule strip_no_space) (use version_chars is_digit_not_space in \<open>fastforce simp: is_space_def\<close>)
  have ne: "nat_str a \<noteq> []" "nat_str b \<noteq> []" by simp_all
  obtain x xs where x: "nat_str a = x # xs" by (cases "nat_str a") auto
  have "x \<noteq> CHR ''v''" using nat_str_set [of x a] x by (auto simp: is_digit_def)
  then have t: "(case ?s of c # r \<Rightarrow> if c = CHR ''v'' then r else ?s | [] \<Rightarrow> ?s) = ?s" using x by simp
  have dot: "\<not> is_digit CHR ''.''" by (simp add: is_digit_def)
  have d: "takeWhile is_digit ?s = nat_str a" "dropWhile is_digit ?s = CHR ''.'' # nat_str b"
    using takeWhile_digits(1,2) [OF dot, of a "nat_str b"] by simp_all
  show ?thesis unfolding minor_def Let_def st t d by (simp add: takeWhile_digits(3))
qed


lemmas minor_pair [simp] = minor_of_pair [simplified]

subsection \<open>Pairs\<close>

lemma pairs_of_iff:
  assumes "minor (tr_k8s_min e) = Some (a, lo)" "minor (tr_k8s_max e) = Some (a, hi)"
  shows "(t, nat_str M @ ''.'' @ nat_str m) \<in> set (pairs_of e) \<longleftrightarrow> tr_talos e = t \<and> is_compatible e (nat_str M @ ''.'' @ nat_str m)"
proof -
  have eq: "nat_str M @ ''.'' @ nat_str m = nat_str a @ ''.'' @ nat_str k \<longleftrightarrow> M = a \<and> m = k" for k
  proof
    assume "nat_str M @ ''.'' @ nat_str m = nat_str a @ ''.'' @ nat_str k"
    then have "minor (nat_str M @ ''.'' @ nat_str m) = minor (nat_str a @ ''.'' @ nat_str k)" by (rule arg_cong)
    then show "M = a \<and> m = k" unfolding minor_of_pair by simp
  qed simp
  have "pairs_of e = map (\<lambda>k. (tr_talos e, nat_str a @ ''.'' @ nat_str k)) [lo ..< hi + 1]"
    using assms by (simp add: pairs_of_def)
  then have "(t, nat_str M @ ''.'' @ nat_str m) \<in> set (pairs_of e) \<longleftrightarrow>
      (\<exists>k \<in> {lo ..< hi + 1}. t = tr_talos e \<and> nat_str M @ ''.'' @ nat_str m = nat_str a @ ''.'' @ nat_str k)"
    by (simp only: set_map set_upt image_iff prod.inject)
  then have "(t, nat_str M @ ''.'' @ nat_str m) \<in> set (pairs_of e) \<longleftrightarrow> tr_talos e = t \<and> M = a \<and> lo \<le> m \<and> m \<le> hi"
    unfolding eq by auto
  moreover have "is_compatible e (nat_str M @ ''.'' @ nat_str m) \<longleftrightarrow> M = a \<and> lo \<le> m \<and> m \<le> hi"
    unfolding is_compatible_def minor_of_pair assms by auto
  ultimately show ?thesis by blast
qed

text \<open>The published pairs are what the check accepts, for windows inside one major version.\<close>

lemma compatible_pairs_exact:
  assumes "catalog env js = Inr es"
    and "\<And>e. e \<in> set es \<Longrightarrow> \<exists>a lo hi. minor (tr_k8s_min e) = Some (a, lo) \<and> minor (tr_k8s_max e) = Some (a, hi)"
  shows "\<exists>P. compatible_pairs env js = Inr P
    \<and> (\<forall>t M m. (t, nat_str M @ ''.'' @ nat_str m) \<in> P \<longleftrightarrow> (\<exists>e \<in> set es. tr_talos e = t \<and> is_compatible e (nat_str M @ ''.'' @ nat_str m)))"
proof -
  have "(t, nat_str M @ ''.'' @ nat_str m) \<in> set (pairs_of e) \<longleftrightarrow> tr_talos e = t \<and> is_compatible e (nat_str M @ ''.'' @ nat_str m)"
    if "e \<in> set es" for t M m e
    using assms(2) [OF that] pairs_of_iff by blast
  then show ?thesis unfolding compatible_pairs_def assms(1) by (intro exI conjI) (simp, fastforce)
qed

text \<open>A window across two major versions is accepted by the check and has no pair of the second.\<close>

lemma pairs_miss_next_major:
  assumes "minor (tr_k8s_min e) = Some (1, 34)" "minor (tr_k8s_max e) = Some (2, 1)"
  shows "is_compatible e ''2.0''" "pairs_of e = []"
proof -
  have "minor ''2.0'' = Some (2, 0)" using minor_of_pair [of 2 0] by (simp add: str_simps)
  then show "is_compatible e ''2.0''" using assms by (simp add: is_compatible_def)
qed (use assms in \<open>simp add: pairs_of_def\<close>)

subsection \<open>What is offered is accepted\<close>

text \<open>Versions are written without the leading \<open>v\<close> and each has one entry.\<close>

definition tidy :: "TalosRelease list \<Rightarrow> bool" where
  "tidy es \<longleftrightarrow> distinct (map tr_talos es) \<and> list_all (\<lambda>e. tr_talos e \<noteq> [] \<and> lstrip_v (tr_talos e) = tr_talos e) es"

lemma pick_mem:
  "xs \<noteq> [] \<Longrightarrow> (case find P xs of Some e \<Rightarrow> f e | None \<Rightarrow> if xs \<noteq> [] then f (hd xs) else z) \<in> f ` set xs"
  by (auto simp: find_Some_iff split: option.split)

lemma find_in_mem: "find_in es t = Some r \<Longrightarrow> r \<in> set es"
  by (auto simp: find_in_def find_Some_iff)

lemma find_in_tidy:
  assumes "tidy es" "e \<in> set es"
  shows "find_in es (tr_talos e) = Some e"
proof -
  have v: "lstrip_v (tr_talos e) = tr_talos e" using assms by (auto simp: tidy_def list_all_iff)
  obtain e' where e': "find_in es (tr_talos e) = Some e'"
    using assms(2) v unfolding find_in_def by (metis (mono_tags, lifting) find_None_iff not_None_eq)
  then have "e' \<in> set es" "tr_talos e' = tr_talos e" using v by (auto simp: find_in_def find_Some_iff)
  then have "e' = e" using assms by (auto simp: tidy_def distinct_map inj_on_def)
  then show ?thesis using e' by simp
qed

lemma catalog_ne: "catalog env js = Inr es \<Longrightarrow> es \<noteq> []"
  by (auto simp: catalog_def BUILT_IN_CATALOG_def parse_catalog_def split: if_splits option.splits sum.splits)

lemma built_in_tidy: "tidy BUILT_IN_CATALOG"
  by (simp add: tidy_def BUILT_IN_CATALOG_def lstrip_v_def lstrip_def)

lemma resolve_iff:
  assumes "catalog env js = Inr es" "tidy es" "t \<noteq> []"
  shows "resolve_talos_release env js k (Some t) = Inr r \<longleftrightarrow> find_in es t = Some r \<and> is_compatible r k"
  using assms by (auto simp: resolve_talos_release_def find_release_def split: option.splits)

text \<open>C32. The wizard and the create request agree: for a tidy catalogue (every version once, written
  without a leading \<open>v\<close>) the versions offered for a Kubernetes version are exactly those a request with
  that pair is accepted for, and the preselected one, when there is one, is among them.\<close>

theorem offered_is_accepted:
  assumes cat: "catalog env js = Inr es" and tidy: "tidy es" and k: "k \<noteq> []"
  shows "\<exists>tv. list_talos_versions env js (Some k) = Inr tv
    \<and> (\<forall>t. t \<in> of_talos ` set (tv_items tv) \<longleftrightarrow> (\<exists>r. resolve_talos_release env js k (Some t) = Inr r \<and> tr_talos r = t))
    \<and> (tv_items tv = [] \<longrightarrow> tv_default tv = []) \<and> (tv_items tv \<noteq> [] \<longrightarrow> tv_default tv \<in> of_talos ` set (tv_items tv))"
proof -
  let ?es = "filter (\<lambda>e. is_compatible e k) es"
  obtain tv where tv: "list_talos_versions env js (Some k) = Inr tv" "of_talos ` set (tv_items tv) = tr_talos ` set ?es"
    "tv_items tv = [] \<longleftrightarrow> ?es = []"
    "tv_default tv = (case find (\<lambda>e. tr_talos e = tr_talos (default_of es)) ?es of Some e \<Rightarrow> tr_talos e | None \<Rightarrow> if ?es \<noteq> [] then tr_talos (hd ?es) else [])"
    using cat k by (simp add: list_talos_versions_def default_release_def Let_def image_image)
  have "t \<in> tr_talos ` set ?es \<longleftrightarrow> (\<exists>r. resolve_talos_release env js k (Some t) = Inr r \<and> tr_talos r = t)" for t
  proof (cases "t = []")
    case True
    have "[] \<notin> tr_talos ` set es" using tidy by (auto simp: tidy_def list_all_iff)
    moreover have "r \<in> set es" if "resolve_talos_release env js k (Some []) = Inr r" for r
      using that cat catalog_ne [OF cat]
      by (auto simp: resolve_talos_release_def default_release_def default_of_def find_Some_iff split: if_splits option.splits)
    ultimately show ?thesis unfolding True by (metis filter_is_subset image_iff image_mono subsetD)
  next
    case False
    then show ?thesis
      unfolding resolve_iff [OF cat tidy False]
      using find_in_tidy [OF tidy] find_in_mem [of es t] by (auto simp: image_iff)
  qed
  moreover have "tv_default tv \<in> tr_talos ` set ?es" if "?es \<noteq> []"
    unfolding tv(4) using that by (rule pick_mem)
  moreover have "tv_default tv = []" if "?es = []"
    using that unfolding tv(4) by simp
  ultimately show ?thesis using tv(1,2,3) by auto
qed


theorem offered_is_accepted_witness:
  "\<exists>tv. list_talos_versions (\<lambda>_. None) \<lparr>loads = (\<lambda>_. None), repr = (\<lambda>_. [])\<rparr> (Some ''1.32'') = Inr tv \<and> of_talos ` set (tv_items tv) = {''1.13.8''}
     \<and> tv_default tv = ''1.13.8''"
proof -
  let ?js = "\<lparr>loads = (\<lambda>_. None), repr = (\<lambda>_. [])\<rparr>"
  have cat: "catalog (\<lambda>_. None) ?js = Inr BUILT_IN_CATALOG" by (simp add: catalog_def)
  have m: "minor ''1.32'' = Some (1, 32)" "minor ''1.31'' = Some (1, 31)" "minor ''1.36'' = Some (1, 36)"
    using minor_of_pair [of 1 32] minor_of_pair [of 1 31] minor_of_pair [of 1 36] by (simp_all add: str_simps)
  obtain b where b: "BUILT_IN_CATALOG = [b]" "tr_talos b = ''1.13.8''" "tr_k8s_min b = ''1.31''" "tr_k8s_max b = ''1.36''"
    by (simp add: BUILT_IN_CATALOG_def)
  have res: "(\<exists>r. resolve_talos_release (\<lambda>_. None) ?js ''1.32'' (Some t) = Inr r \<and> tr_talos r = t) \<longleftrightarrow> t = ''1.13.8''" for t
  proof (cases "t = []")
    case False
    have "lstrip_v ''1.13.8'' = ''1.13.8''" by (simp add: lstrip_v_def lstrip_def)
    then show ?thesis
      unfolding resolve_iff [OF cat built_in_tidy False] b(1) using b(2-) m by (auto simp: find_in_def is_compatible_def split: if_splits)
  qed (use cat b(2) in \<open>auto simp: b(1) resolve_talos_release_def default_release_def default_of_def\<close>)
  have k: "''1.32'' \<noteq> []" by simp
  obtain tv where tv: "list_talos_versions (\<lambda>_. None) ?js (Some ''1.32'') = Inr tv"
    "\<forall>t. t \<in> of_talos ` set (tv_items tv) \<longleftrightarrow> (\<exists>r. resolve_talos_release (\<lambda>_. None) ?js ''1.32'' (Some t) = Inr r \<and> tr_talos r = t)"
    "tv_items tv \<noteq> [] \<longrightarrow> tv_default tv \<in> of_talos ` set (tv_items tv)"
    using offered_is_accepted [OF cat built_in_tidy k] by blast
  have its: "of_talos ` set (tv_items tv) = {''1.13.8''}" using tv(2) unfolding res by blast
  then have "tv_items tv \<noteq> []" by (metis empty_set image_empty insert_not_empty)
  then have "tv_default tv = ''1.13.8''" using tv(3) unfolding its by blast
  then show ?thesis using tv(1) its by blast
qed

text \<open>An entry written with a leading \<open>v\<close> is offered and never found.\<close>

lemma offered_but_refused:
  assumes "\<And>e. e \<in> set es \<Longrightarrow> tr_talos e = CHR ''v'' # t" "catalog env js = Inr es"
  shows "resolve_talos_release env js k (Some (CHR ''v'' # t)) = Inl (HTTPException 422)"
proof -
  have "lstrip_v (CHR ''v'' # t) \<noteq> CHR ''v'' # t"
    using length_dropWhile_le [of "\<lambda>c. c = CHR ''v''" t] by (auto simp: lstrip_v_def lstrip_def)
  then have "find_in es (CHR ''v'' # t) = None"
    using assms(1) by (auto simp: find_in_def find_None_iff)
  then show ?thesis using assms(2) by (simp add: resolve_talos_release_def find_release_def)
qed

text \<open>A catalogue that is JSON but neither a list, an object nor a text is not replaced by the built-in one.\<close>

lemma null_catalog_raises:
  assumes "env CATALOG_ENV = Some raw" "raw \<noteq> []" "loads js raw = Some JNull"
  shows "catalog env js = Inl OtherError"
  using assms by (simp add: catalog_def parse_catalog_def)

subsection \<open>One image per version\<close>

text \<open>The name decides the version, for versions without a hyphen.\<close>

lemma golden_name_inj:
  assumes "CHR ''-'' \<notin> set s" "CHR ''-'' \<notin> set t" "golden_name s = golden_name t"
  shows "lstrip_v s = lstrip_v t"
proof -
  let ?f = "\<lambda>c. if c = CHR ''.'' then CHR ''-'' else c"
  have sub: "set (lstrip_v u) \<subseteq> set u" for u by (auto simp: lstrip_v_def lstrip_def dest: set_dropWhileD)
  have "map ?f (lstrip_v s) = map ?f (lstrip_v t)" using assms(3) by (simp add: golden_name_def)
  moreover have "inj_on ?f (set (lstrip_v s) \<union> set (lstrip_v t))"
    using assms(1,2) sub [of s] sub [of t] by (auto simp: inj_on_def split: if_splits)
  ultimately show ?thesis by (rule map_inj_on)
qed

lemma wait_keeps [frame]: "keeps obs get \<Longrightarrow> keeps obs (wait_for_golden get d)"
proof (induction "nat d" arbitrary: d rule: less_induct)
  case less
  show ?case
  proof (cases "d \<le> 0")
    case True
    then show ?thesis by (simp add: wait_for_golden.simps frame)
  next
    case False
    then have IH: "keeps obs (wait_for_golden get (d - 2))" using less by simp
    have "obs w' = obs w" if run: "wait_for_golden get d w = (r, w')" for w r w'
    proof -
      obtain g w1 where g: "get w = (g, w1)" by fastforce
      have "obs w1 = obs w" using keepsD [OF less.prems g] .
      moreover have "obs w' = obs w1"
        using run False g keepsD [OF IH, of w1 r w'] by (subst (asm) wait_for_golden.simps) (auto split: sum.splits if_splits)
      ultimately show ?thesis by simp
    qed
    then show ?thesis by (simp add: keeps_def)
  qed
qed

text \<open>A server with volumes by name, where a name that exists is refused.\<close>

definition dv_store :: "'w dv_api \<Rightarrow> ('w \<Rightarrow> string \<times> string \<rightharpoonup> data_volume) \<Rightarrow> bool" where
  "dv_store api dvs \<longleftrightarrow>
     (\<forall>b w r w'. dv_create api b w = (r, w') \<longrightarrow>
        (case r of
           Inr _ \<Rightarrow> dvs w (dv_namespace b, dv_name b) = None \<and> dvs w' = (dvs w)((dv_namespace b, dv_name b) \<mapsto> b)
         | Inl e \<Rightarrow> dvs w' = dvs w \<and> (e = ApiException 409 \<longrightarrow> dvs w (dv_namespace b, dv_name b) \<noteq> None)))
     \<and> (\<forall>ns n. keeps dvs (dv_get api ns n))"

text \<open>A request imports the image of its version when there is none, and otherwise changes no volume: it
  joins the one that exists, whatever its state.\<close>

lemma ensure_golden_once:
  assumes "dv_store api dvs" "ensure_shared_golden_image env api v url vol_size secs w = (r, w')"
  shows "dvs w' = dvs w \<or> dvs w (golden_namespace env, golden_name v) = None
    \<and> r = Inr (golden_name v)
    \<and> dvs w' = (dvs w)((golden_namespace env, golden_name v) \<mapsto> build_shared_golden_dv env v url vol_size (golden_storage_class env))"
proof -
  let ?b = "build_shared_golden_dv env v url vol_size (golden_storage_class env)"
  have nm: "dv_namespace ?b = golden_namespace env" "dv_name ?b = golden_name v" by (simp_all add: build_shared_golden_dv_def)
  obtain c w1 where c: "dv_create api ?b w = (c, w1)" by fastforce
  have law: "case c of
           Inr _ \<Rightarrow> dvs w (golden_namespace env, golden_name v) = None \<and> dvs w1 = (dvs w)((golden_namespace env, golden_name v) \<mapsto> ?b)
         | Inl e \<Rightarrow> dvs w1 = dvs w \<and> (e = ApiException 409 \<longrightarrow> dvs w (golden_namespace env, golden_name v) \<noteq> None)"
    using assms(1) c unfolding dv_store_def nm [symmetric] by blast
  have get: "keeps dvs (dv_get api ns n)" for ns n using assms(1) by (simp add: dv_store_def)
  show ?thesis
  proof (cases c)
    case (Inr u)
    then show ?thesis using law c assms(2) by (simp add: ensure_shared_golden_image_def)
  next
    case (Inl e)
    let ?rest = "bind_io (catch_io (bind_io (dv_get api (golden_namespace env) (golden_name v)) (\<lambda>dv. ret (Some dv))) (\<lambda>e. if is_api e then ret None else raise e)) (\<lambda>existing.
                 case existing of
                   Some dv \<Rightarrow>
                     if truthy (dv_deletionTimestamp dv) then raise (HTTPException 409)
                     else if dv_phase dv = Some ''Succeeded'' then ret (golden_name v)
                     else bind_io (wait_for_golden (dv_get api (golden_namespace env) (golden_name v)) secs) (\<lambda>_. ret (golden_name v))
                 | None \<Rightarrow> bind_io (wait_for_golden (dv_get api (golden_namespace env) (golden_name v)) secs) (\<lambda>_. ret (golden_name v)))"
    have "keeps dvs ?rest"
      by (auto intro!: frame get split: option.splits)
    then have "dvs w' = dvs w1"
      using assms(2) c Inl keepsD [of dvs ?rest w1 r w'] by (auto simp: ensure_shared_golden_image_def Let_def split: if_splits)
    then show ?thesis using law Inl by simp
  qed
qed

end
