(* ===== verification/TenantVpc.thy ===== *)
theory TenantVpc
  imports TenantCommon Transit
begin

section \<open>A tenant and its VPC (\<open>api/v1/tenants_vpc.py\<close>, \<open>api/v1/tenants_capi.py\<close>)\<close>

text \<open>
  The namespace of a tenant in the list of a VPC or of a subnet, written with JSON patches, the VPC a
  tenant runs in, and the path of its workers to the control plane, which composes the operations of
  the transit network. A JSON patch (RFC 6902) is applied by the API server as a whole or not at all.
\<close>

subsection \<open>JSON patches of \<open>/spec/namespaces\<close>\<close>

datatype ns_op =
    AddArray
  | AddLast string
  | TestAt nat string
  | RemoveAt nat

fun apply_op :: "ns_op \<Rightarrow> string list option \<Rightarrow> string list option option" where
  "apply_op AddArray _ = Some (Some [])"
| "apply_op (AddLast v) (Some xs) = Some (Some (xs @ [v]))"
| "apply_op (TestAt i v) (Some xs) = (if i < length xs \<and> xs ! i = v then Some (Some xs) else None)"
| "apply_op (RemoveAt i) (Some xs) = (if i < length xs then Some (Some (take i xs @ drop (Suc i) xs)) else None)"
| "apply_op _ None = None"

fun apply_ops :: "ns_op list \<Rightarrow> string list option \<Rightarrow> string list option option" where
  "apply_ops [] c = Some c"
| "apply_ops (x # xs) c = (case apply_op x c of None \<Rightarrow> None | Some c' \<Rightarrow> apply_ops xs c')"

text \<open>The calls on the objects of one kind; a read shows \<open>spec.namespaces\<close>.\<close>

record 'w ns_api =
  ns_get :: "string \<Rightarrow> ('w, string list option) io"
  ns_patch :: "string \<Rightarrow> ns_op list \<Rightarrow> ('w, unit) io"
  ns_list :: "('w, (string \<times> string list option) list) io"

subsection \<open>Attaching and detaching\<close>

definition attach_ops :: "string list option \<Rightarrow> string \<Rightarrow> ns_op list" where
  "attach_ops current ns = (if current = None then [AddArray] else []) @ [AddLast ns]"

definition attach_tenant_to_vpc :: "'w ns_api \<Rightarrow> string \<Rightarrow> string \<Rightarrow> ('w, unit) io" where
  "attach_tenant_to_vpc api vpc_name tenant_name =
     bind_io (catch_io (ns_get api vpc_name) (\<lambda>e. raise (if e = ApiException 404 then HTTPException 400 else e))) (\<lambda>current.
       if tenant_ns tenant_name \<in> set (or_nil current) then ret ()
       else ns_patch api vpc_name (attach_ops current (tenant_ns tenant_name)))"

definition index_of :: "string \<Rightarrow> string list \<Rightarrow> nat" where
  "index_of x xs = length (takeWhile (\<lambda>y. y \<noteq> x) xs)"

fun detach_attempts :: "'w ns_api \<Rightarrow> string \<Rightarrow> string \<Rightarrow> string list \<Rightarrow> nat \<Rightarrow> ('w, unit) io" where
  "detach_attempts api name ns spec_ns 0 = ret ()"
| "detach_attempts api name ns spec_ns (Suc n) =
     (if ns \<notin> set spec_ns then ret ()
      else (\<lambda>w. case ns_patch api name [TestAt (index_of ns spec_ns) ns, RemoveAt (index_of ns spec_ns)] w of
              (Inr _, w1) \<Rightarrow> (Inr (), w1)
            | (Inl e, w1) \<Rightarrow>
                if e \<in> {ApiException 409, ApiException 422}
                then (case ns_get api name w1 of
                        (Inr c, w2) \<Rightarrow> detach_attempts api name ns (or_nil c) n w2
                      | (Inl e2, w2) \<Rightarrow> if is_api e2 then (Inr (), w2) else (Inl e2, w2))
                else if is_api e then (Inr (), w1) else (Inl e, w1)))"

definition MAX_ATTEMPTS :: nat where
  "MAX_ATTEMPTS = 5"

definition detach_with_retry :: "'w ns_api \<Rightarrow> string \<Rightarrow> string \<Rightarrow> string list \<Rightarrow> ('w, unit) io" where
  "detach_with_retry api name ns initial_spec_ns = detach_attempts api name ns initial_spec_ns MAX_ATTEMPTS"

text \<open>The listed objects that name the namespace, one after the other.\<close>

fun detach_listed :: "'w ns_api \<Rightarrow> string \<Rightarrow> (string \<times> string list option) list \<Rightarrow> ('w, unit) io" where
  "detach_listed api ns [] = ret ()"
| "detach_listed api ns ((name, c) # items) =
     (if ns \<notin> set (or_nil c) then detach_listed api ns items
      else bind_io (detach_with_retry api name ns (or_nil c)) (\<lambda>_. detach_listed api ns items))"

definition detach_tenant_from_folder_vpc :: "'w ns_api \<Rightarrow> string \<Rightarrow> ('w, unit) io" where
  "detach_tenant_from_folder_vpc api tenant_name =
     bind_io (catch_io (ns_list api) (\<lambda>e. if is_api e then ret [] else raise e)) (detach_listed api (tenant_ns tenant_name))"

text \<open>The same on subnets, where an object without a name is skipped.\<close>

definition detach_tenant_ns_from_vpc_subnet :: "'w ns_api \<Rightarrow> string \<Rightarrow> ('w, unit) io" where
  "detach_tenant_ns_from_vpc_subnet api tenant_name =
     bind_io (catch_io (ns_list api) (\<lambda>e. if is_api e then ret [] else raise e)) (\<lambda>items.
       detach_listed api (tenant_ns tenant_name) (filter (\<lambda>(name, _). name \<noteq> []) items))"

subsection \<open>The VPC of a tenant and its path to the control plane\<close>

text \<open>A machine template is its annotation dict, \<^const>\<open>None\<close> when a level above it is missing.\<close>

fun vpc_of_templates :: "string dict option list \<Rightarrow> string" where
  "vpc_of_templates [] = []"
| "vpc_of_templates (t # ts) =
     (let switch = (case t of None \<Rightarrow> [] | Some a \<Rightarrow> or_nil (dict_get a ''ovn.kubernetes.io/logical_switch''))
      in if ends_with ''-default'' switch then take (length switch - length ''-default'') switch else vpc_of_templates ts)"

definition tenant_vpc_name :: "(string \<Rightarrow> ('w, string dict option list) io) \<Rightarrow> string \<Rightarrow> ('w, string) io" where
  "tenant_vpc_name list_templates tenant_name =
     bind_io (catch_io (list_templates (tenant_ns tenant_name)) (\<lambda>e. if is_api e then ret [] else raise e)) (\<lambda>items.
       ret (vpc_of_templates items))"

text \<open>\<open>note\<close> writes the annotation that the tenant list shows.\<close>

definition wire_tenant_to_transit ::
  "env_vars \<Rightarrow> 'w transit_api \<Rightarrow> (string \<Rightarrow> exc \<Rightarrow> ('w, unit) io) \<Rightarrow> string \<Rightarrow> string \<Rightarrow> string \<Rightarrow> int list \<Rightarrow> int list \<Rightarrow> ('w, unit) io" where
  "wire_tenant_to_transit env api note tenant_name vpc_name vip ports udp_ports =
     (case transit_subnet_name env of
        None \<Rightarrow> ret ()
      | Some transit \<Rightarrow>
          catch_io
            (bind_io (attach_vpc_to_transit api vpc_name transit) (\<lambda>_.
             bind_io (ensure_tenant_snat api tenant_name vpc_name (vpc_name @ ''-default'') transit) (\<lambda>eip.
             if truthy eip then ensure_transit_acls api transit (the eip) vip ports udp_ports else ret ())))
            (\<lambda>e. case e of
                   TransitSnatSlotTaken _ _ _ \<Rightarrow> catch_io (note tenant_name e) (\<lambda>e2. if is_api e2 then ret () else raise e2)
                 | _ \<Rightarrow> if is_api e \<or> e = LookupError then ret () else raise e))"

subsection \<open>A detach removes entries of its tenant only\<close>

text \<open>The server: \<open>held\<close> is what the objects hold, and other writers move the world by \<open>rely\<close> before any
  call takes effect. A patch is applied to what the object holds at that moment.\<close>

definition patch_store :: "'w ns_api \<Rightarrow> ('w \<Rightarrow> string \<Rightarrow> string list option) \<Rightarrow> ('w \<Rightarrow> 'w \<Rightarrow> bool) \<Rightarrow> bool" where
  "patch_store api held rely \<longleftrightarrow>
     (\<forall>v w r w'. ns_get api v w = (r, w') \<longrightarrow> rely\<^sup>*\<^sup>* w w')
     \<and> (\<forall>w r w'. ns_list api w = (r, w') \<longrightarrow> rely\<^sup>*\<^sup>* w w')
     \<and> (\<forall>v ops w r w'. ns_patch api v ops w = (r, w') \<longrightarrow>
          (case r of
             Inl e \<Rightarrow> rely\<^sup>*\<^sup>* w w'
           | Inr _ \<Rightarrow> \<exists>w1 c. rely\<^sup>*\<^sup>* w w1 \<and> apply_ops ops (held w1 v) = Some c \<and> held w' = (held w1)(v := c)))"

lemma patch_storeD:
  assumes "patch_store api held rely"
  shows "ns_get api v w = (g, w') \<Longrightarrow> rely\<^sup>*\<^sup>* w w'" "ns_list api w = (l, w') \<Longrightarrow> rely\<^sup>*\<^sup>* w w'"
    "ns_patch api v ops w = (Inl e, w') \<Longrightarrow> rely\<^sup>*\<^sup>* w w'"
    "ns_patch api v ops w = (Inr u, w') \<Longrightarrow> \<exists>w1 c. rely\<^sup>*\<^sup>* w w1 \<and> apply_ops ops (held w1 v) = Some c \<and> held w' = (held w1)(v := c)"
proof -
  have p: "ns_patch api v ops w = (r, w') \<Longrightarrow>
          (case r of
             Inl e \<Rightarrow> rely\<^sup>*\<^sup>* w w'
           | Inr _ \<Rightarrow> \<exists>w1 c. rely\<^sup>*\<^sup>* w w1 \<and> apply_ops ops (held w1 v) = Some c \<and> held w' = (held w1)(v := c))" for r
    using assms unfolding patch_store_def by blast
  show "ns_patch api v ops w = (Inl e, w') \<Longrightarrow> rely\<^sup>*\<^sup>* w w'" using p [of "Inl e"] by simp
  show "ns_patch api v ops w = (Inr u, w') \<Longrightarrow> \<exists>w1 c. rely\<^sup>*\<^sup>* w w1 \<and> apply_ops ops (held w1 v) = Some c \<and> held w' = (held w1)(v := c)"
    using p [of "Inr u"] by simp
qed (use assms in \<open>unfold patch_store_def, blast+\<close>)

text \<open>One entry \<open>ns\<close> is taken out of one list; the others keep their places.\<close>

definition drops_one :: "('w \<Rightarrow> string \<Rightarrow> string list option) \<Rightarrow> string \<Rightarrow> 'w \<Rightarrow> 'w \<Rightarrow> bool" where
  "drops_one held ns w w' \<longleftrightarrow>
     (\<exists>v a b. held w v = Some (a @ ns # b) \<and> held w' = (held w)(v := Some (a @ b)))"

lemma guarded_remove:
  assumes "apply_ops [TestAt i ns, RemoveAt i] c = Some c'"
  obtains a b where "c = Some (a @ ns # b)" "c' = Some (a @ b)"
proof -
  obtain xs where xs: "c = Some xs" "i < length xs" "xs ! i = ns" "c' = Some (take i xs @ drop (Suc i) xs)"
    using assms by (cases c) (auto split: if_splits)
  then have "xs = take i xs @ ns # drop (Suc i) xs" using id_take_nth_drop by metis
  then show thesis using that xs by metis
qed

abbreviation detach_moves :: "('w \<Rightarrow> string \<Rightarrow> string list option) \<Rightarrow> ('w \<Rightarrow> 'w \<Rightarrow> bool) \<Rightarrow> string \<Rightarrow> 'w \<Rightarrow> 'w \<Rightarrow> bool" where
  "detach_moves held rely ns \<equiv> (\<lambda>w w'. rely w w' \<or> drops_one held ns w w')\<^sup>*\<^sup>*"

lemma rely_moves: "rely\<^sup>*\<^sup>* w w' \<Longrightarrow> detach_moves held rely ns w w'"
  by (erule rtranclp_mono [THEN predicate2D, rotated]) auto

lemma patch_moves:
  assumes "patch_store api held rely" "ns_patch api v [TestAt i ns, RemoveAt i] w = (r, w')"
  shows "detach_moves held rely ns w w'"
proof (cases r)
  case (Inl e)
  then show ?thesis using patch_storeD(3) [OF assms(1)] assms(2) by (auto intro: rely_moves)
next
  case (Inr u)
  then obtain w1 c where w1: "rely\<^sup>*\<^sup>* w w1" "apply_ops [TestAt i ns, RemoveAt i] (held w1 v) = Some c" "held w' = (held w1)(v := c)"
    using patch_storeD(4) [OF assms(1)] assms(2) by blast
  obtain a b where "held w1 v = Some (a @ ns # b)" "c = Some (a @ b)" using guarded_remove [OF w1(2)] by blast
  then have "drops_one held ns w1 w'" using w1(3) unfolding drops_one_def by blast
  then show ?thesis using rely_moves [OF w1(1), of held ns] by (auto intro: rtranclp.rtrancl_into_rtrancl)
qed

lemma detach_attempts_moves:
  "patch_store api held rely \<Longrightarrow> detach_attempts api v ns xs n w = (r, w') \<Longrightarrow> detach_moves held rely ns w w'"
proof (induction n arbitrary: xs w)
  case (Suc n)
  show ?case
  proof (cases "ns \<in> set xs")
    case True
    obtain p w1 where p: "ns_patch api v [TestAt (index_of ns xs) ns, RemoveAt (index_of ns xs)] w = (p, w1)" by fastforce
    have m1: "detach_moves held rely ns w w1" by (rule patch_moves [OF Suc.prems(1) p])
    obtain g w2 where g: "ns_get api v w1 = (g, w2)" by fastforce
    have m2: "detach_moves held rely ns w w2"
      using rtranclp_trans [OF m1 rely_moves [OF patch_storeD(1) [OF Suc.prems(1) g]]] .
    have "w' = w1 \<or> w' = w2 \<or> (\<exists>ys. detach_attempts api v ns ys n w2 = (r, w'))"
      using Suc.prems(2) True p g by (auto split: sum.splits if_splits)
    then show ?thesis using m1 m2 Suc.IH [OF Suc.prems(1)] rtranclp_trans [OF m2] by blast
  qed (use Suc.prems in auto)
qed auto

lemma detach_listed_moves:
  "patch_store api held rely \<Longrightarrow> detach_listed api ns items w = (r, w') \<Longrightarrow> detach_moves held rely ns w w'"
proof (induction items arbitrary: w)
  case (Cons x items)
  obtain v c where x: "x = (v, c)" by (cases x)
  show ?case
  proof (cases "ns \<in> set (or_nil c)")
    case True
    obtain p w1 where p: "detach_with_retry api v ns (or_nil c) w = (p, w1)" by fastforce
    have m1: "detach_moves held rely ns w w1"
      using detach_attempts_moves [OF Cons.prems(1)] p by (simp add: detach_with_retry_def)
    have "w' = w1 \<or> detach_listed api ns items w1 = (r, w')"
      using Cons.prems(2) True p x by (auto simp: bind_io_def split: sum.splits)
    then show ?thesis using m1 Cons.IH [OF Cons.prems(1)] rtranclp_trans [OF m1] by blast
  qed (use Cons x in simp)
qed auto

text \<open>C33. Detaching a tenant never takes a namespace of another tenant off a list, whatever other writers do
  in between: every change it makes removes one entry of this tenant from the list as it is at that
  moment, and leaves the other entries in their order.\<close>

theorem detach_removes_own_entries:
  assumes "patch_store api held rely"
    and "detach_tenant_from_folder_vpc api tenant w = (r, w') \<or> detach_tenant_ns_from_vpc_subnet api tenant w = (r, w')"
  shows "(\<lambda>w w'. rely w w' \<or> drops_one held (tenant_ns tenant) w w')\<^sup>*\<^sup>* w w'"
proof -
  obtain l w1 where l: "ns_list api w = (l, w1)" by fastforce
  have m1: "detach_moves held rely (tenant_ns tenant) w w1"
    by (rule rely_moves [OF patch_storeD(2) [OF assms(1) l]])
  have "w' = w1 \<or> (\<exists>items. detach_listed api (tenant_ns tenant) items w1 = (r, w'))"
  proof (cases l)
    case (Inl e)
    then show ?thesis using assms(2) l
      by (cases "is_api e") (auto simp: detach_tenant_from_folder_vpc_def detach_tenant_ns_from_vpc_subnet_def bind_io_def catch_io_def)
  next
    case (Inr items)
    then show ?thesis using assms(2) l
      by (auto simp: detach_tenant_from_folder_vpc_def detach_tenant_ns_from_vpc_subnet_def bind_io_def catch_io_def)
  qed
  then show ?thesis using m1 detach_listed_moves [OF assms(1)] rtranclp_trans [OF m1] by blast
qed


subsection \<open>With no other writer\<close>

definition quiet_ns :: "'w ns_api \<Rightarrow> ('w \<Rightarrow> string \<Rightarrow> string list option) \<Rightarrow> ('w \<Rightarrow> string \<Rightarrow> string list option \<Rightarrow> 'w) \<Rightarrow> bool" where
  "quiet_ns api held upd \<longleftrightarrow>
     (\<forall>v w. ns_get api v w = (Inr (held w v), w))
     \<and> (\<forall>v ops w. ns_patch api v ops w =
          (case apply_ops ops (held w v) of None \<Rightarrow> (Inl (ApiException 422), w) | Some c \<Rightarrow> (Inr (), upd w v c)))
     \<and> (\<forall>w v c. held (upd w v c) = (held w)(v := c))"

lemma index_of_remove: "x \<in> set xs \<Longrightarrow> index_of x xs < length xs \<and> xs ! index_of x xs = x
    \<and> take (index_of x xs) xs @ drop (Suc (index_of x xs)) xs = remove1 x xs"
  by (induction xs) (auto simp: index_of_def)

lemma detach_once:
  assumes "quiet_ns api held upd" "held w v = Some xs" "ns \<in> set xs"
  shows "detach_with_retry api v ns xs w = (Inr (), upd w v (Some (remove1 ns xs)))"
proof -
  have five: "MAX_ATTEMPTS = Suc (Suc (Suc (Suc (Suc 0))))" by (simp add: MAX_ATTEMPTS_def)
  have "ns_patch api v ops w = (case apply_ops ops (held w v) of None \<Rightarrow> (Inl (ApiException 422), w) | Some c \<Rightarrow> (Inr (), upd w v c))" for ops
    using assms(1) unfolding quiet_ns_def by blast
  then show ?thesis unfolding detach_with_retry_def five using assms(2,3) index_of_remove [OF assms(3)] by simp
qed

lemma detach_listed_quiet:
  assumes "quiet_ns api held upd"
  shows "distinct (map fst items) \<Longrightarrow> (\<And>v c. (v, c) \<in> set items \<Longrightarrow> c = held w v) \<Longrightarrow>
    \<exists>w'. detach_listed api ns items w = (Inr (), w')
      \<and> held w' = (\<lambda>v. if v \<in> fst ` set items then map_option (remove1 ns) (held w v) else held w v)"
proof (induction items arbitrary: w)
  case (Cons x items)
  obtain v c where x: "x = (v, c)" by (cases x)
  have c: "c = held w v" using Cons.prems(2) x by auto
  have v: "v \<notin> fst ` set items" using Cons.prems(1) x by auto
  show ?case
  proof (cases "ns \<in> set (or_nil c)")
    case True
    then obtain xs where xs: "held w v = Some xs" "ns \<in> set xs" using c by (cases "held w v") auto
    let ?w1 = "upd w v (Some (remove1 ns xs))"
    have h: "held ?w1 = (held w)(v := Some (remove1 ns xs))" using assms unfolding quiet_ns_def by blast
    obtain w' where w': "detach_listed api ns items ?w1 = (Inr (), w')"
      "held w' = (\<lambda>u. if u \<in> fst ` set items then map_option (remove1 ns) (held ?w1 u) else held ?w1 u)"
      using Cons.IH [of ?w1] Cons.prems v x h by (fastforce simp: image_iff)
    have "detach_listed api ns (x # items) w = (Inr (), w')"
      using True xs c x w'(1) detach_once [OF assms xs] by (simp add: bind_io_def)
    moreover have "held w' = (\<lambda>u. if u \<in> fst ` set (x # items) then map_option (remove1 ns) (held w u) else held w u)"
      using w'(2) h xs(1) v x by auto
    ultimately show ?thesis by blast
  next
    case False
    obtain w' where w': "detach_listed api ns items w = (Inr (), w')"
      "held w' = (\<lambda>u. if u \<in> fst ` set items then map_option (remove1 ns) (held w u) else held w u)"
      using Cons.IH [of w] Cons.prems x by fastforce
    have "map_option (remove1 ns) (held w v) = held w v" using False c by (cases "held w v") (auto simp: remove1_idem)
    then show ?thesis using w' False x by (intro exI [of _ w']) auto
  qed
qed auto

text \<open>With no other writer every listed object loses the tenant, when none names it twice.\<close>

lemma detach_clears:
  assumes "quiet_ns api held upd" and l: "ns_list api w = (Inr items, w)"
    and items: "distinct (map fst items)" "\<And>v c. (v, c) \<in> set items \<Longrightarrow> c = held w v"
    and once: "\<And>v xs. held w v = Some xs \<Longrightarrow> distinct xs"
  shows "\<exists>w'. detach_tenant_from_folder_vpc api tenant w = (Inr (), w')
    \<and> (\<forall>v \<in> fst ` set items. tenant_ns tenant \<notin> set (or_nil (held w' v)))"
proof -
  obtain w' where w': "detach_listed api (tenant_ns tenant) items w = (Inr (), w')"
    "held w' = (\<lambda>v. if v \<in> fst ` set items then map_option (remove1 (tenant_ns tenant)) (held w v) else held w v)"
    using detach_listed_quiet [OF assms(1) items] by blast
  have "detach_tenant_from_folder_vpc api tenant w = (Inr (), w')"
    using l w'(1) by (simp add: detach_tenant_from_folder_vpc_def bind_io_def catch_io_def)
  moreover have "tenant_ns tenant \<notin> set (or_nil (held w' v))" if "v \<in> fst ` set items" for v
    using that w'(2) once [of v] by (cases "held w v") auto
  ultimately show ?thesis by blast
qed

subsection \<open>Two attaches at the same time\<close>

text \<open>An append leaves what is there.\<close>

lemma attach_appends: "apply_ops (attach_ops (Some cur) ns) (Some xs) = Some (Some (xs @ [ns]))"
  by (simp add: attach_ops_def)

text \<open>Two tenants attached to a VPC without a list, both after reading it: the second patch starts with an empty
  array and the first tenant is gone.\<close>

lemma attach_race_loses_first:
  "\<exists>c. apply_ops (attach_ops None (tenant_ns a)) None = Some c \<and> apply_ops (attach_ops None (tenant_ns b)) c = Some (Some [tenant_ns b])"
  by (simp add: attach_ops_def)

text \<open>One tenant attached twice, both after reading the list: it is listed twice, and a detach takes one entry.\<close>

lemma attach_race_lists_twice:
  "\<exists>c. apply_ops (attach_ops (Some []) (tenant_ns a)) (Some []) = Some c
     \<and> apply_ops (attach_ops (Some []) (tenant_ns a)) c = Some (Some [tenant_ns a, tenant_ns a])"
  by (simp add: attach_ops_def)

subsection \<open>The path to the control plane\<close>

text \<open>The VPC is read back from the switch the workers are placed on.\<close>

lemma tenant_vpc_name_roundtrip:
  "map_of a ''ovn.kubernetes.io/logical_switch'' = Some (vpc @ ''-default'') \<Longrightarrow> vpc_of_templates (Some a # ts) = vpc"
  by (simp add: ends_with_iff Let_def)

text \<open>The wiring is best effort for failed calls and a taken slot, and no more: an error of the rule text, as for
  a dual-stack transit subnet, leaves it.\<close>

lemma wire_best_effort:
  assumes "wire_tenant_to_transit env api note tenant vpc vip ports udp w = (Inl e, w')"
  shows "\<not> is_api e"
  using assms by (auto simp: wire_tenant_to_transit_def catch_io_def split: option.splits prod.splits sum.splits exc.splits if_splits)

lemma dual_stack_rules_raise:
  assumes "ip_network cidr = None" "cidrBlock spec = Some cidr" "cidr \<noteq> []" "\<not> has_deny (keep_live live (or_nil (acls spec)))"
  shows "ensure_acls_mutate live wanted spec = Inl ValueError"
  using assms by (simp add: ensure_acls_mutate_def add_deny_def build_transit_deny_def allocatable_ranges_def)

subsection \<open>An in-memory server\<close>

definition mem_ns :: "string list \<Rightarrow> (string \<Rightarrow> string list option) ns_api" where
  "mem_ns names = \<lparr>ns_get = (\<lambda>v w. (Inr (w v), w)),
     ns_patch = (\<lambda>v ops w. case apply_ops ops (w v) of None \<Rightarrow> (Inl (ApiException 422), w) | Some c \<Rightarrow> (Inr (), w(v := c))),
     ns_list = (\<lambda>w. (Inr (map (\<lambda>v. (v, w v)) names), w))\<rparr>"

lemma mem_ns_store: "patch_store (mem_ns names) (\<lambda>w. w) (\<lambda>_ _. False)"
  by (auto simp: patch_store_def mem_ns_def split: option.splits sum.splits)

theorem detach_removes_own_entries_witness:
  "\<exists>w'. detach_tenant_from_folder_vpc (mem_ns [''v'']) ''a'' [''v'' \<mapsto> [''tenant-b'', ''tenant-a'']] = (Inr (), w') \<and> w' ''v'' = Some [''tenant-b'']
     \<and> (\<lambda>w w'. False \<or> drops_one (\<lambda>w. w) (tenant_ns ''a'') w w')\<^sup>*\<^sup>* [''v'' \<mapsto> [''tenant-b'', ''tenant-a'']] w'"
proof -
  have q: "quiet_ns (mem_ns [''v'']) (\<lambda>w. w) (\<lambda>w v c. w(v := c))" by (simp add: quiet_ns_def mem_ns_def)
  have "detach_with_retry (mem_ns [''v'']) ''v'' ''tenant-a'' [''tenant-b'', ''tenant-a''] [''v'' \<mapsto> [''tenant-b'', ''tenant-a'']]
      = (Inr (), [''v'' \<mapsto> [''tenant-b'', ''tenant-a'']](''v'' := Some [''tenant-b'']))"
    using detach_once [OF q, of "[''v'' \<mapsto> [''tenant-b'', ''tenant-a'']]" "''v''" "[''tenant-b'', ''tenant-a'']" "''tenant-a''"] by simp
  then have run: "detach_tenant_from_folder_vpc (mem_ns [''v'']) ''a'' [''v'' \<mapsto> [''tenant-b'', ''tenant-a'']]
      = (Inr (), [''v'' \<mapsto> [''tenant-b'', ''tenant-a'']](''v'' := Some [''tenant-b'']))"
    by (simp add: detach_tenant_from_folder_vpc_def tenant_ns_def TENANT_NS_PREFIX_def bind_io_def catch_io_def) (simp add: mem_ns_def bind_io_def)
  show ?thesis using detach_removes_own_entries [OF mem_ns_store disjI1 [OF run]] run by auto
qed

end
