(* ===== verification/SecurityGroups.thy ===== *)
theory SecurityGroups
  imports Isolation
begin

section \<open>Security groups (\<open>api/v1/security_groups.py\<close>)\<close>

text \<open>
  The endpoints on kube-ovn security groups and on the groups of a virtual machine, which are a
  comma-separated annotation of its pod template. A raw rule has optional fields; the model of a rule
  (\<open>models/vpc.py\<close>) gives defaults, checks ranges and takes over the fields of the front end.
\<close>

subsection \<open>Rules\<close>

record SecurityGroupRule =
  sg_ip_version :: string
  sg_protocol :: string
  sg_policy :: string
  sg_action :: "string option"
  sg_priority :: int
  sg_remote_address :: string
  sg_remote_type :: string
  sg_port_range_min :: "int option"
  sg_port_range_max :: "int option"
  sg_port_range :: "string option"

record rule_spec =
  rs_ipVersion :: "string option"
  rs_protocol :: "string option"
  rs_policy :: "string option"
  rs_priority :: "int option"
  rs_remoteAddress :: "string option"
  rs_remoteType :: "string option"
  rs_portRangeMin :: "int option"
  rs_portRangeMax :: "int option"

text \<open>\<open>self.port_range.strip().split("-", 1)\<close> and the two calls of \<open>int\<close>: the first bound is set before the
  second is read, so a bad second bound leaves the first.\<close>

definition ports_of :: "string \<Rightarrow> (int option \<times> int option) \<Rightarrow> int option \<times> int option" where
  "ports_of range_text old =
     (let s = strip range_text;
          (a, rest) = partition_on (CHR ''-'') s
      in case py_int a of
           None \<Rightarrow> old
         | Some lo \<Rightarrow>
             if CHR ''-'' \<in> set s
             then (case py_int rest of Some hi \<Rightarrow> (Some lo, Some hi) | None \<Rightarrow> (Some lo, snd old))
             else (Some lo, Some lo))"

definition normalize_frontend_fields :: "SecurityGroupRule \<Rightarrow> SecurityGroupRule" where
  "normalize_frontend_fields r =
     (let r1 = (if truthy (sg_action r) \<and> sg_policy r = ''allow''
                then r\<lparr>sg_policy := (if sg_action r = Some ''allow'' then ''allow'' else ''deny'')\<rparr> else r)
      in if truthy (sg_port_range r1) \<and> sg_port_range_min r1 = None
         then (let (lo, hi) = ports_of (the (sg_port_range r1)) (sg_port_range_min r1, sg_port_range_max r1)
               in r1\<lparr>sg_port_range_min := lo, sg_port_range_max := hi\<rparr>)
         else r1)"

definition port_ok :: "int option \<Rightarrow> bool" where
  "port_ok p = (case p of None \<Rightarrow> True | Some n \<Rightarrow> 1 \<le> n \<and> n \<le> 65535)"

text \<open>The constructor: the ranges of the given fields are checked, then the validator of the model runs.\<close>

definition make_rule :: "SecurityGroupRule \<Rightarrow> exc + SecurityGroupRule" where
  "make_rule r =
     (if 0 \<le> sg_priority r \<and> sg_priority r \<le> 3200 \<and> port_ok (sg_port_range_min r) \<and> port_ok (sg_port_range_max r)
      then Inr (normalize_frontend_fields r) else Inl ValueError)"

definition or_default :: "'a option \<Rightarrow> 'a \<Rightarrow> 'a" where
  "or_default x d = (case x of None \<Rightarrow> d | Some v \<Rightarrow> v)"

definition parse_rule :: "rule_spec \<Rightarrow> exc + SecurityGroupRule" where
  "parse_rule r = make_rule
     \<lparr>sg_ip_version = or_default (rs_ipVersion r) ''ipv4'', sg_protocol = or_default (rs_protocol r) ''all'',
      sg_policy = or_default (rs_policy r) ''allow'', sg_action = None, sg_priority = or_default (rs_priority r) 100,
      sg_remote_address = or_default (rs_remoteAddress r) ''0.0.0.0/0'', sg_remote_type = or_default (rs_remoteType r) ''address'',
      sg_port_range_min = rs_portRangeMin r, sg_port_range_max = rs_portRangeMax r, sg_port_range = None\<rparr>"

definition rules_to_spec :: "SecurityGroupRule list \<Rightarrow> rule_spec list" where
  "rules_to_spec rules = map (\<lambda>r.
     \<lparr>rs_ipVersion = Some (sg_ip_version r), rs_protocol = Some (sg_protocol r), rs_policy = Some (sg_policy r),
      rs_priority = Some (sg_priority r), rs_remoteAddress = Some (sg_remote_address r), rs_remoteType = Some (sg_remote_type r),
      rs_portRangeMin = sg_port_range_min r, rs_portRangeMax = sg_port_range_max r\<rparr>) rules"

subsection \<open>Groups\<close>

record group_spec =
  gs_allowSameGroupTraffic :: "bool option"
  gs_ingressRules :: "rule_spec list option"
  gs_egressRules :: "rule_spec list option"

record SecurityGroupResponse =
  gr_name :: string
  gr_allow_same_group_traffic :: bool
  gr_ingress_rules :: "SecurityGroupRule list"
  gr_egress_rules :: "SecurityGroupRule list"

record group_update =
  gu_allow_same_group_traffic :: "bool option"
  gu_ingress_rules :: "SecurityGroupRule list option"
  gu_egress_rules :: "SecurityGroupRule list option"

definition parse_sg :: "string \<times> group_spec \<Rightarrow> exc + SecurityGroupResponse" where
  "parse_sg item =
     (case collect (map parse_rule (or_nil (gs_ingressRules (snd item)))) of
        Inl e \<Rightarrow> Inl e
      | Inr ingress \<Rightarrow>
          (case collect (map parse_rule (or_nil (gs_egressRules (snd item)))) of
             Inl e \<Rightarrow> Inl e
           | Inr egress \<Rightarrow>
               Inr \<lparr>gr_name = fst item, gr_allow_same_group_traffic = or_default (gs_allowSameGroupTraffic (snd item)) True,
                    gr_ingress_rules = ingress, gr_egress_rules = egress\<rparr>))"

record 'w group_api =
  ga_list :: "('w, (string \<times> group_spec) list) io"
  ga_get :: "string \<Rightarrow> ('w, string \<times> group_spec) io"
  ga_create :: "string \<Rightarrow> group_spec \<Rightarrow> ('w, unit) io"
  ga_patch :: "string \<Rightarrow> group_spec \<Rightarrow> ('w, unit) io"
  ga_delete :: "string \<Rightarrow> ('w, unit) io"

definition or_404 :: "('w, 'a) io \<Rightarrow> ('w, 'a) io" where
  "or_404 m = catch_io m (\<lambda>e. raise (if e = ApiException 404 then HTTPException 404 else http_of e))"

definition list_security_groups :: "'w group_api \<Rightarrow> ('w, SecurityGroupResponse list) io" where
  "list_security_groups api =
     bind_io (catch_io (ga_list api) (\<lambda>e. if e = ApiException 404 then ret [] else raise (http_of e))) (\<lambda>items.
       lift_exc (collect (map parse_sg items)))"

definition create_security_group ::
  "'w group_api \<Rightarrow> string \<Rightarrow> bool \<Rightarrow> SecurityGroupRule list \<Rightarrow> SecurityGroupRule list \<Rightarrow> ('w, SecurityGroupResponse) io" where
  "create_security_group api name same ingress egress =
     bind_io (catch_io (ga_create api name \<lparr>gs_allowSameGroupTraffic = Some same, gs_ingressRules = Some (rules_to_spec ingress),
          gs_egressRules = Some (rules_to_spec egress)\<rparr>)
        (\<lambda>e. raise (if e = ApiException 409 then HTTPException 409 else http_of e)))
      (\<lambda>_. ret \<lparr>gr_name = name, gr_allow_same_group_traffic = same, gr_ingress_rules = ingress, gr_egress_rules = egress\<rparr>)"

definition get_security_group :: "'w group_api \<Rightarrow> string \<Rightarrow> ('w, SecurityGroupResponse) io" where
  "get_security_group api name = bind_io (or_404 (ga_get api name)) (\<lambda>item. lift_exc (parse_sg item))"

definition update_security_group :: "'w group_api \<Rightarrow> string \<Rightarrow> group_update \<Rightarrow> ('w, SecurityGroupResponse) io" where
  "update_security_group api name data =
     bind_io (or_404 (ga_get api name)) (\<lambda>item.
     bind_io (lift_exc (parse_sg item)) (\<lambda>current.
     bind_io (if gu_allow_same_group_traffic data = None \<and> gu_ingress_rules data = None \<and> gu_egress_rules data = None then ret ()
              else catch_io (ga_patch api name
                     \<lparr>gs_allowSameGroupTraffic = gu_allow_same_group_traffic data,
                      gs_ingressRules = map_option rules_to_spec (gu_ingress_rules data),
                      gs_egressRules = map_option rules_to_spec (gu_egress_rules data)\<rparr>) (\<lambda>e. raise (http_of e)))
       (\<lambda>_. ret \<lparr>gr_name = name,
              gr_allow_same_group_traffic = or_default (gu_allow_same_group_traffic data) (gr_allow_same_group_traffic current),
              gr_ingress_rules = or_default (gu_ingress_rules data) (gr_ingress_rules current),
              gr_egress_rules = or_default (gu_egress_rules data) (gr_egress_rules current)\<rparr>)))"

definition delete_security_group :: "'w group_api \<Rightarrow> string \<Rightarrow> ('w, string) io" where
  "delete_security_group api name = bind_io (or_404 (ga_delete api name)) (\<lambda>_. ret name)"

subsection \<open>The groups of a virtual machine\<close>

definition SG_ANNOTATION :: string where
  "SG_ANNOTATION = ''ovn.kubernetes.io/security_groups''"

text \<open>A read shows the annotations of the pod template, a write sets the one annotation.\<close>

record 'w vm_sg_api =
  vs_get :: "string \<Rightarrow> string \<Rightarrow> ('w, string dict) io"
  vs_patch :: "string \<Rightarrow> string \<Rightarrow> string \<Rightarrow> ('w, unit) io"
  vs_group :: "string \<Rightarrow> ('w, unit) io"

definition groups_of :: "string dict \<Rightarrow> string list" where
  "groups_of annotations =
     (let v = or_nil (dict_get annotations SG_ANNOTATION)
      in filter (\<lambda>s. s \<noteq> []) (map strip (split_on (CHR '','') v)))"

definition get_vm_security_groups :: "'w vm_sg_api \<Rightarrow> string \<Rightarrow> string \<Rightarrow> ('w, string list) io" where
  "get_vm_security_groups api namespace vm_name = bind_io (or_404 (vs_get api namespace vm_name)) (\<lambda>a. ret (groups_of a))"

definition assign_security_group_to_vm :: "'w vm_sg_api \<Rightarrow> string \<Rightarrow> string \<Rightarrow> string \<Rightarrow> ('w, string list) io" where
  "assign_security_group_to_vm api namespace vm_name sg =
     bind_io (or_404 (vs_group api sg)) (\<lambda>_.
     bind_io (or_404 (vs_get api namespace vm_name)) (\<lambda>a.
       let current = groups_of a
       in if sg \<in> set current then ret current
          else bind_io (catch_io (vs_patch api namespace vm_name (join '','' (current @ [sg]))) (\<lambda>e. raise (http_of e)))
                 (\<lambda>_. ret (current @ [sg]))))"

definition remove_security_group_from_vm :: "'w vm_sg_api \<Rightarrow> string \<Rightarrow> string \<Rightarrow> string \<Rightarrow> ('w, string list) io" where
  "remove_security_group_from_vm api namespace vm_name sg =
     bind_io (or_404 (vs_get api namespace vm_name)) (\<lambda>a.
       let current = groups_of a
       in if sg \<notin> set current then raise (HTTPException 404)
          else bind_io (catch_io (vs_patch api namespace vm_name (join '','' (remove1 sg current))) (\<lambda>e. raise (http_of e)))
                 (\<lambda>_. ret (remove1 sg current)))"


subsection \<open>What is written is read back\<close>

text \<open>A rule as it is read from the cluster: without the two fields of the front end.\<close>

definition shown :: "SecurityGroupRule \<Rightarrow> SecurityGroupRule" where
  "shown r = r\<lparr>sg_action := None, sg_port_range := None\<rparr>"

definition shown_group :: "SecurityGroupResponse \<Rightarrow> SecurityGroupResponse" where
  "shown_group g = g\<lparr>gr_ingress_rules := map shown (gr_ingress_rules g), gr_egress_rules := map shown (gr_egress_rules g)\<rparr>"

text \<open>A rule of a request whose ports, after the front end's text is taken over, are ports.\<close>

definition request_rule :: "SecurityGroupRule \<Rightarrow> bool" where
  "request_rule r \<longleftrightarrow> (\<exists>raw. make_rule raw = Inr r) \<and> port_ok (sg_port_range_min r) \<and> port_ok (sg_port_range_max r)"

lemma normalize_priority [simp]: "sg_priority (normalize_frontend_fields r) = sg_priority r"
  by (simp add: normalize_frontend_fields_def Let_def split: prod.split)

lemma normalize_backend: "sg_action r = None \<Longrightarrow> sg_port_range r = None \<Longrightarrow> normalize_frontend_fields r = r"
  by (simp add: normalize_frontend_fields_def)

lemma parse_rule_back:
  assumes "request_rule r"
  shows "parse_rule (hd (rules_to_spec [r])) = Inr (shown r)"
proof -
  have "0 \<le> sg_priority r \<and> sg_priority r \<le> 3200" "port_ok (sg_port_range_min r)" "port_ok (sg_port_range_max r)"
    using assms by (auto simp: request_rule_def make_rule_def split: if_splits)
  then show ?thesis
    by (simp add: parse_rule_def rules_to_spec_def make_rule_def or_default_def normalize_backend shown_def)
qed

lemma parse_rules_back: "list_all request_rule rs \<Longrightarrow> collect (map parse_rule (rules_to_spec rs)) = Inr (map shown rs)"
proof (induction rs)
  case (Cons r rs)
  then show ?case using parse_rule_back [of r] by (simp add: rules_to_spec_def)
qed (simp add: rules_to_spec_def)

text \<open>A merge patch replaces the fields it has.\<close>

definition merge_group :: "group_spec \<Rightarrow> group_spec \<Rightarrow> group_spec" where
  "merge_group old p =
     \<lparr>gs_allowSameGroupTraffic = (case gs_allowSameGroupTraffic p of None \<Rightarrow> gs_allowSameGroupTraffic old | x \<Rightarrow> x),
      gs_ingressRules = (case gs_ingressRules p of None \<Rightarrow> gs_ingressRules old | x \<Rightarrow> x),
      gs_egressRules = (case gs_egressRules p of None \<Rightarrow> gs_egressRules old | x \<Rightarrow> x)\<rparr>"

definition group_store :: "'w group_api \<Rightarrow> ('w \<Rightarrow> string \<rightharpoonup> group_spec) \<Rightarrow> bool" where
  "group_store api groups \<longleftrightarrow>
     (\<forall>n w. ga_get api n w = (case groups w n of None \<Rightarrow> Inl (ApiException 404) | Some s \<Rightarrow> Inr (n, s), w))
     \<and> (\<forall>n s w w'. ga_create api n s w = (Inr (), w') \<longrightarrow> groups w' = (groups w)(n \<mapsto> s))
     \<and> (\<forall>n s w w'. ga_patch api n s w = (Inr (), w') \<longrightarrow> (\<exists>old. groups w n = Some old \<and> groups w' = (groups w)(n \<mapsto> merge_group old s)))"

lemma group_storeD:
  assumes "group_store api groups"
  shows "ga_get api n w = (case groups w n of None \<Rightarrow> Inl (ApiException 404) | Some s \<Rightarrow> Inr (n, s), w)"
    "ga_create api n s w = (Inr (), w') \<Longrightarrow> groups w' = (groups w)(n \<mapsto> s)"
    "ga_patch api n s w = (Inr (), w') \<Longrightarrow> \<exists>old. groups w n = Some old \<and> groups w' = (groups w)(n \<mapsto> merge_group old s)"
  using assms unfolding group_store_def by blast+

lemma get_parsed:
  assumes "group_store api groups" "groups w n = Some s" "parse_sg (n, s) = Inr g"
  shows "get_security_group api n w = (Inr g, w)"
  using assms(2,3) group_storeD(1) [OF assms(1), of n w]
  by (simp add: get_security_group_def or_404_def catch_io_def bind_io_def lift_exc_def)

lemma create_then_parse:
  assumes "list_all request_rule ingress" "list_all request_rule egress"
  shows "parse_sg (n, \<lparr>gs_allowSameGroupTraffic = Some same, gs_ingressRules = Some (rules_to_spec ingress),
      gs_egressRules = Some (rules_to_spec egress)\<rparr>)
    = Inr (shown_group \<lparr>gr_name = n, gr_allow_same_group_traffic = same, gr_ingress_rules = ingress, gr_egress_rules = egress\<rparr>)"
  using assms by (simp add: parse_sg_def parse_rules_back or_default_def shown_group_def)

text \<open>A field of a rule that came from the cluster has nothing of the front end.\<close>

lemma parsed_shown: "parse_rule s = Inr r \<Longrightarrow> shown r = r"
  by (auto simp: parse_rule_def make_rule_def normalize_backend shown_def split: if_splits)

lemma collect_parsed_shown: "collect (map parse_rule ss) = Inr rs \<Longrightarrow> map shown rs = rs"
proof (induction ss arbitrary: rs)
  case (Cons s ss)
  then obtain r rs' where "parse_rule s = Inr r" "collect (map parse_rule ss) = Inr rs'" "rs = r # rs'"
    by (cases "parse_rule s"; cases "collect (map parse_rule ss)") auto
  then show ?case using Cons.IH parsed_shown by simp
qed simp

lemma update_then_parse:
  assumes old: "parse_sg (n, s) = Inr current"
    and rules: "list_all request_rule (or_nil (gu_ingress_rules data))" "list_all request_rule (or_nil (gu_egress_rules data))"
  shows "parse_sg (n, merge_group s \<lparr>gs_allowSameGroupTraffic = gu_allow_same_group_traffic data,
        gs_ingressRules = map_option rules_to_spec (gu_ingress_rules data), gs_egressRules = map_option rules_to_spec (gu_egress_rules data)\<rparr>)
    = Inr (shown_group \<lparr>gr_name = n,
              gr_allow_same_group_traffic = or_default (gu_allow_same_group_traffic data) (gr_allow_same_group_traffic current),
              gr_ingress_rules = or_default (gu_ingress_rules data) (gr_ingress_rules current),
              gr_egress_rules = or_default (gu_egress_rules data) (gr_egress_rules current)\<rparr>)"
proof -
  obtain i e where ie: "collect (map parse_rule (or_nil (gs_ingressRules s))) = Inr i" "collect (map parse_rule (or_nil (gs_egressRules s))) = Inr e"
    "current = \<lparr>gr_name = n, gr_allow_same_group_traffic = or_default (gs_allowSameGroupTraffic s) True, gr_ingress_rules = i, gr_egress_rules = e\<rparr>"
    using old by (auto simp: parse_sg_def split: sum.splits)
  have side: "collect (map parse_rule (or_nil (case map_option rules_to_spec new of None \<Rightarrow> raw | Some x \<Rightarrow> Some x))) = Inr (map shown (or_default new x))"
    if "list_all request_rule (or_nil new)" "collect (map parse_rule (or_nil raw)) = Inr x" for new raw x
    using that parse_rules_back collect_parsed_shown by (cases new) (auto simp: or_default_def)
  show ?thesis
    using side [OF rules(1) ie(1)] side [OF rules(2) ie(2)] ie(3)
    by (simp add: parse_sg_def merge_group_def shown_group_def or_default_def split: option.split)
qed

text \<open>C34. What the create and the update of a security group report is what a read of the group shows
  afterwards, up to the two convenience fields of the front end, when every rule of the request has
  valid ports.\<close>

theorem security_group_roundtrip:
  assumes st: "group_store api groups"
    and run: "list_all request_rule ingress \<and> list_all request_rule egress \<and> create_security_group api name same ingress egress w = (Inr g, w')
      \<or> list_all request_rule (or_nil (gu_ingress_rules data)) \<and> list_all request_rule (or_nil (gu_egress_rules data))
        \<and> update_security_group api name data w = (Inr g, w')"
  shows "get_security_group api name w' = (Inr (shown_group g), w')"
proof -
  have upd: "get_security_group api name w' = (Inr (shown_group g), w')"
    if u: "update_security_group api name data w = (Inr g, w')"
      and r: "list_all request_rule (or_nil (gu_ingress_rules data))" "list_all request_rule (or_nil (gu_egress_rules data))"
  proof -
    let ?p = "\<lparr>gs_allowSameGroupTraffic = gu_allow_same_group_traffic data,
        gs_ingressRules = map_option rules_to_spec (gu_ingress_rules data), gs_egressRules = map_option rules_to_spec (gu_egress_rules data)\<rparr>"
    obtain s where s: "groups w name = Some s"
      using u group_storeD(1) [OF st, of name w] by (cases "groups w name") (auto simp: update_security_group_def or_404_def catch_io_def bind_io_def)
    obtain current where c: "parse_sg (name, s) = Inr current"
      using u group_storeD(1) [OF st, of name w] s
      by (cases "parse_sg (name, s)") (auto simp: update_security_group_def or_404_def catch_io_def bind_io_def lift_exc_def)
    have g: "g = \<lparr>gr_name = name,
              gr_allow_same_group_traffic = or_default (gu_allow_same_group_traffic data) (gr_allow_same_group_traffic current),
              gr_ingress_rules = or_default (gu_ingress_rules data) (gr_ingress_rules current),
              gr_egress_rules = or_default (gu_egress_rules data) (gr_egress_rules current)\<rparr>"
      and w': "(w' = w \<and> gu_allow_same_group_traffic data = None \<and> gu_ingress_rules data = None \<and> gu_egress_rules data = None)
         \<or> ga_patch api name ?p w = (Inr (), w')"
      using u group_storeD(1) [OF st, of name w] s c
      by (auto simp: update_security_group_def or_404_def catch_io_def bind_io_def lift_exc_def split: if_splits prod.splits sum.splits)
    have "groups w' name = Some (merge_group s ?p)"
      using w' group_storeD(3) [OF st, of name ?p w w'] s by (auto simp: merge_group_def)
    then show ?thesis using get_parsed [OF st _ update_then_parse [OF c r]] g by simp
  qed
  show ?thesis
    using run
  proof (elim disjE conjE)
    assume rules: "list_all request_rule ingress" "list_all request_rule egress"
      and c: "create_security_group api name same ingress egress w = (Inr g, w')"
    let ?s = "\<lparr>gs_allowSameGroupTraffic = Some same, gs_ingressRules = Some (rules_to_spec ingress), gs_egressRules = Some (rules_to_spec egress)\<rparr>"
    have "ga_create api name ?s w = (Inr (), w')"
      and g: "g = \<lparr>gr_name = name, gr_allow_same_group_traffic = same, gr_ingress_rules = ingress, gr_egress_rules = egress\<rparr>"
      using c by (auto simp: create_security_group_def catch_io_def bind_io_def split: prod.splits sum.splits)
    then have "groups w' name = Some ?s" using group_storeD(2) [OF st] by fastforce
    then show ?thesis using get_parsed [OF st _ create_then_parse [OF rules]] g by simp
  qed (rule upd)
qed


definition mem_groups :: "(string \<rightharpoonup> group_spec) group_api" where
  "mem_groups = \<lparr>ga_list = (\<lambda>w. (Inr [], w)),
     ga_get = (\<lambda>n w. (case w n of None \<Rightarrow> Inl (ApiException 404) | Some s \<Rightarrow> Inr (n, s), w)),
     ga_create = (\<lambda>n s w. if w n = None then (Inr (), w(n \<mapsto> s)) else (Inl (ApiException 409), w)),
     ga_patch = (\<lambda>n p w. case w n of None \<Rightarrow> (Inl (ApiException 404), w) | Some s \<Rightarrow> (Inr (), w(n \<mapsto> merge_group s p))),
     ga_delete = (\<lambda>n w. (Inr (), w(n := None)))\<rparr>"

lemma mem_groups_store: "group_store mem_groups (\<lambda>w. w)"
  by (auto simp: group_store_def mem_groups_def split: if_splits option.splits)

text \<open>A rule as the front end sends it: drop, on a range of ports.\<close>

definition web_request :: "string \<Rightarrow> SecurityGroupRule" where
  "web_request ports = \<lparr>sg_ip_version = ''ipv4'', sg_protocol = ''tcp'', sg_policy = ''allow'', sg_action = Some ''drop'', sg_priority = 10,
     sg_remote_address = ''0.0.0.0/0'', sg_remote_type = ''address'', sg_port_range_min = None, sg_port_range_max = None, sg_port_range = Some ports\<rparr>"

definition web_rule :: "int \<Rightarrow> int \<Rightarrow> string \<Rightarrow> SecurityGroupRule" where
  "web_rule lo hi ports = (web_request ports)\<lparr>sg_policy := ''deny'', sg_port_range_min := Some lo, sg_port_range_max := Some hi\<rparr>"

lemma web_ports: "ports_of (nat_str a @ ''-'' @ nat_str b) old = (Some (int a), Some (int b))"
  "ports_of (nat_str a) old = (Some (int a), Some (int a))"
proof -
  have dash: "\<not> is_digit CHR ''-''" "\<not> is_space CHR ''-''" by (simp_all add: is_digit_def is_space_def)
  have s: "strip (nat_str a @ ''-'' @ nat_str b) = nat_str a @ ''-'' @ nat_str b"
    by (rule strip_no_space) (use nat_str_set is_digit_not_space dash in auto)
  have f: "\<forall>x \<in> set (nat_str n). x \<noteq> CHR ''-''" for n using nat_str_set [of _ n] dash(1) by blast
  have d: "dropWhile (\<lambda>x. x \<noteq> CHR ''-'') (nat_str a) = []" using f [of a] by (simp add: dropWhile_eq_Nil_conv)
  have p: "partition_on (CHR ''-'') (nat_str a @ ''-'' @ nat_str b) = (nat_str a, nat_str b)"
    using f [of a] by (simp add: partition_on_def takeWhile_append2 dropWhile_append2)
  have p2: "partition_on (CHR ''-'') (nat_str a) = (nat_str a, [])"
    unfolding partition_on_def d using f [of a] by (simp add: takeWhile_eq_all_conv)
  show "ports_of (nat_str a @ ''-'' @ nat_str b) old = (Some (int a), Some (int b))"
    unfolding ports_of_def Let_def s p by simp
  have "CHR ''-'' \<notin> set (nat_str a)" using f by blast
  then show "ports_of (nat_str a) old = (Some (int a), Some (int a))"
    unfolding ports_of_def Let_def strip_nat_str p2 by simp
qed

lemma web_rule_made: "make_rule (web_request (nat_str a @ ''-'' @ nat_str b)) = Inr (web_rule (int a) (int b) (nat_str a @ ''-'' @ nat_str b))"
  "make_rule (web_request (nat_str a)) = Inr (web_rule (int a) (int a) (nat_str a))"
  using web_ports(1) [of a b] web_ports(2) [of a] by (simp_all add: make_rule_def web_request_def web_rule_def normalize_frontend_fields_def port_ok_def)

theorem security_group_roundtrip_witness:
  "\<exists>g w'. create_security_group mem_groups ''web'' True [web_rule 80 443 ''80-443''] [] Map.empty = (Inr g, w')
     \<and> gr_ingress_rules g = [web_rule 80 443 ''80-443''] \<and> get_security_group mem_groups ''web'' w' = (Inr (shown_group g), w')"
proof -
  have "make_rule (web_request ''80-443'') = Inr (web_rule 80 443 ''80-443'')"
    using web_rule_made(1) [of 80 443] by (simp add: str_simps)
  then have r: "list_all request_rule [web_rule 80 443 ''80-443'']" by (auto simp: request_rule_def web_rule_def port_ok_def)
  obtain g w' where g: "create_security_group mem_groups ''web'' True [web_rule 80 443 ''80-443''] [] Map.empty = (Inr g, w')"
    "gr_ingress_rules g = [web_rule 80 443 ''80-443'']"
    by (simp add: create_security_group_def mem_groups_def catch_io_def bind_io_def)
  show ?thesis
    using security_group_roundtrip [OF mem_groups_store, of "[web_rule 80 443 ''80-443'']" "[]" "''web''" True Map.empty g w'] r g by auto
qed

subsection \<open>Ports nobody checks\<close>

text \<open>The text of the front end is taken over after the ranges were checked.\<close>

lemma port_text_unchecked:
  "\<exists>r. make_rule (web_request ''70000'') = Inr r \<and> sg_port_range_min r = Some 70000 \<and> \<not> port_ok (sg_port_range_min r)"
  using web_rule_made(2) [of 70000] by (simp add: str_simps web_rule_def port_ok_def)

lemma collect_error: "Inl e \<in> set xs \<Longrightarrow> \<exists>e'. collect xs = Inl e'"
  by (induction xs) (auto split: sum.splits)

text \<open>One stored rule with such a port makes every list of the groups fail.\<close>

lemma unreadable_group_blocks_list:
  assumes "ga_list api w = (Inr items, w1)" "(n, s) \<in> set items" "r \<in> set (or_nil (gs_ingressRules s))" "\<not> port_ok (rs_portRangeMin r)"
  shows "\<exists>e. list_security_groups api w = (Inl e, w1)"
proof -
  have "parse_rule r = Inl ValueError" using assms(4) by (simp add: parse_rule_def make_rule_def)
  then obtain e where "collect (map parse_rule (or_nil (gs_ingressRules s))) = Inl e"
    using collect_error [of ValueError "map parse_rule (or_nil (gs_ingressRules s))"] assms(3) by (metis image_eqI set_map)
  then have "parse_sg (n, s) = Inl e" by (simp add: parse_sg_def)
  then obtain e' where "collect (map parse_sg items) = Inl e'"
    using collect_error [of e "map parse_sg items"] assms(2) by (metis image_eqI set_map)
  then show ?thesis using assms(1) by (simp add: list_security_groups_def catch_io_def bind_io_def lift_exc_def)
qed


subsection \<open>The groups of a machine\<close>

definition clean_name :: "string \<Rightarrow> bool" where
  "clean_name s \<longleftrightarrow> s \<noteq> [] \<and> CHR '','' \<notin> set s \<and> strip s = s"

lemma strip_nil: "strip [] = []"
  by (simp add: strip_def lstrip_def rstrip_def)

lemma strip_ends: "strip s = [] \<or> \<not> is_space (hd (strip s)) \<and> \<not> is_space (last (strip s))"
proof -
  let ?a = "dropWhile is_space s"
  have r: "rev (strip s) = dropWhile is_space (rev ?a)" by (simp add: strip_def lstrip_def rstrip_def)
  show ?thesis
  proof (cases "strip s = []")
    case False
    then have last: "\<not> is_space (last (strip s))"
      using hd_dropWhile [of is_space "rev ?a"] r by (metis hd_rev rev_is_Nil_conv)
    have "\<exists>t. ?a = strip s @ t" using r by (metis rev_append rev_rev_ident takeWhile_dropWhile_id)
    then have "hd ?a = hd (strip s)" "?a \<noteq> []" using False by (metis hd_append2, metis append_is_Nil_conv)
    then show ?thesis using last hd_dropWhile [of is_space s] by simp
  qed simp
qed

lemma strip_strip [simp]: "strip (strip s) = strip s"
proof (cases "strip s = []")
  case False
  then show ?thesis using strip_ends [of s] strip_id by blast
qed (simp add: strip_nil)

lemma set_strip: "set (strip s) \<subseteq> set s"
  by (auto simp: strip_def lstrip_def rstrip_def dest!: set_dropWhileD)

lemma groups_of_clean: "g \<in> set (groups_of a) \<Longrightarrow> clean_name g"
  using split_on_parts_free set_strip by (fastforce simp: groups_of_def Let_def clean_name_def)

lemma groups_of_join:
  assumes "list_all clean_name gs"
  shows "groups_of ((SG_ANNOTATION, join '','' gs) # a) = gs"
proof (cases "gs = []")
  case False
  have "split_on (CHR '','') (join '','' gs) = gs"
    using assms False by (intro split_on_join) (auto simp: list_all_iff clean_name_def)
  moreover have "map strip gs = gs" "filter (\<lambda>s. s \<noteq> []) gs = gs"
    using assms by (auto simp: list_all_iff clean_name_def map_idI filter_id_conv)
  ultimately show ?thesis by (simp add: groups_of_def)
qed (simp add: groups_of_def strip_def lstrip_def rstrip_def)

definition vm_store :: "'w vm_sg_api \<Rightarrow> ('w \<Rightarrow> string \<times> string \<rightharpoonup> string dict) \<Rightarrow> bool" where
  "vm_store api vms \<longleftrightarrow>
     (\<forall>ns v w. vs_get api ns v w = (case vms w (ns, v) of None \<Rightarrow> Inl (ApiException 404) | Some a \<Rightarrow> Inr a, w))
     \<and> (\<forall>ns v x w w'. vs_patch api ns v x w = (Inr (), w') \<longrightarrow>
          (\<exists>a. vms w (ns, v) = Some a \<and> vms w' = (vms w)((ns, v) \<mapsto> (SG_ANNOTATION, x) # a)))
     \<and> (\<forall>g. keeps vms (vs_group api g))"


lemma vm_storeD:
  assumes "vm_store api vms"
  shows "vs_get api ns v w = (case vms w (ns, v) of None \<Rightarrow> Inl (ApiException 404) | Some a \<Rightarrow> Inr a, w)"
    "vs_patch api ns v x w = (Inr (), w') \<Longrightarrow> \<exists>a. vms w (ns, v) = Some a \<and> vms w' = (vms w)((ns, v) \<mapsto> (SG_ANNOTATION, x) # a)"
    "keeps vms (vs_group api g)"
  using assms unfolding vm_store_def by blast+

text \<open>Writing a list of groups: the machine then has that list and its other annotations, and the other machines are
  as they were.\<close>

lemma patch_groups:
  assumes "vm_store api vms" "vs_patch api ns v (join '','' gs) w = (Inr (), w')" "list_all clean_name gs"
  shows "get_vm_security_groups api ns v w' = (Inr gs, w')" "\<And>k. k \<noteq> (ns, v) \<Longrightarrow> vms w' k = vms w k"
proof -
  obtain a where a: "vms w (ns, v) = Some a" "vms w' = (vms w)((ns, v) \<mapsto> (SG_ANNOTATION, join '','' gs) # a)"
    using vm_storeD(2) [OF assms(1,2)] by blast
  then show "get_vm_security_groups api ns v w' = (Inr gs, w')"
    using vm_storeD(1) [OF assms(1), of ns v w'] groups_of_join [OF assms(3)]
    by (simp add: get_vm_security_groups_def or_404_def catch_io_def bind_io_def)
  show "vms w' k = vms w k" if "k \<noteq> (ns, v)" for k using a(2) that by simp
qed

text \<open>With no other writer, an assignment leaves the groups it reports: those of before and the new one.\<close>

lemma assign_correct:
  assumes st: "vm_store api vms" and sg: "clean_name sg"
    and run: "assign_security_group_to_vm api ns v sg w = (Inr gs, w')"
  shows "\<exists>a. vms w (ns, v) = Some a \<and> gs = (if sg \<in> set (groups_of a) then groups_of a else groups_of a @ [sg])
    \<and> get_vm_security_groups api ns v w' = (Inr gs, w') \<and> (\<forall>k. k \<noteq> (ns, v) \<longrightarrow> vms w' k = vms w k)"
proof -
  obtain u w1 where g: "vs_group api sg w = (Inr u, w1)"
    using run by (auto simp: assign_security_group_to_vm_def or_404_def catch_io_def bind_io_def split: prod.splits sum.splits)
  have w1: "vms w1 = vms w" by (rule keepsD [OF vm_storeD(3) [OF st] g])
  have get: "vs_get api ns v w1 = (case vms w (ns, v) of None \<Rightarrow> Inl (ApiException 404) | Some a \<Rightarrow> Inr a, w1)"
    using vm_storeD(1) [OF st, of ns v w1] w1 by simp
  obtain a where a: "vms w (ns, v) = Some a"
    using run g get by (cases "vms w (ns, v)") (auto simp: assign_security_group_to_vm_def or_404_def catch_io_def bind_io_def)
  show ?thesis
  proof (cases "sg \<in> set (groups_of a)")
    case True
    then have "gs = groups_of a \<and> w' = w1"
      using run g get a by (auto simp: assign_security_group_to_vm_def or_404_def catch_io_def bind_io_def Let_def)
    then show ?thesis using True a w1 get by (auto simp: get_vm_security_groups_def or_404_def catch_io_def bind_io_def)
  next
    case False
    then have p: "vs_patch api ns v (join '','' (groups_of a @ [sg])) w1 = (Inr (), w') \<and> gs = groups_of a @ [sg]"
      using run g get a by (auto simp: assign_security_group_to_vm_def or_404_def catch_io_def bind_io_def Let_def split: prod.splits sum.splits)
    have cl: "list_all clean_name (groups_of a @ [sg])" using groups_of_clean sg by (auto simp: list_all_iff)
    show ?thesis using patch_groups [OF st _ cl] p a w1 False by auto
  qed
qed

lemma remove_correct:
  assumes st: "vm_store api vms" and run: "remove_security_group_from_vm api ns v sg w = (Inr gs, w')"
  shows "\<exists>a. vms w (ns, v) = Some a \<and> sg \<in> set (groups_of a) \<and> gs = remove1 sg (groups_of a)
    \<and> get_vm_security_groups api ns v w' = (Inr gs, w') \<and> (\<forall>k. k \<noteq> (ns, v) \<longrightarrow> vms w' k = vms w k)"
proof -
  note get = vm_storeD(1) [OF st, of ns v w]
  obtain a where a: "vms w (ns, v) = Some a"
    using run get by (cases "vms w (ns, v)") (auto simp: remove_security_group_from_vm_def or_404_def catch_io_def bind_io_def)
  have sg: "sg \<in> set (groups_of a)"
    using run get a by (auto simp: remove_security_group_from_vm_def or_404_def catch_io_def bind_io_def Let_def split: if_splits)
  then have p: "vs_patch api ns v (join '','' (remove1 sg (groups_of a))) w = (Inr (), w') \<and> gs = remove1 sg (groups_of a)"
    using run get a by (auto simp: remove_security_group_from_vm_def or_404_def catch_io_def bind_io_def Let_def split: prod.splits sum.splits)
  have cl: "list_all clean_name (remove1 sg (groups_of a))"
    using groups_of_clean by (auto simp: list_all_iff dest: notin_set_remove1 set_remove1_subset [THEN subsetD])
  show ?thesis using patch_groups [OF st _ cl] p a sg by auto
qed

text \<open>The write has no resourceVersion: of two assignments that read the machine at the same time, the first is lost.\<close>

lemma racing_assignments_lose_one:
  assumes "clean_name h"
  shows "groups_of ((SG_ANNOTATION, join '','' (groups_of [] @ [h])) # (SG_ANNOTATION, join '','' (groups_of [] @ [g])) # []) = [h]"
proof -
  have "groups_of [] = []" by (simp add: groups_of_def strip_nil)
  then show ?thesis using groups_of_join [of "[h]"] assms by simp
qed

end
