(* ===== verification/Quantity.thy ===== *)
theory Quantity
  imports Complex_Main TransitRanges
begin

section \<open>Quantities (\<open>api/v1/folders.py\<close>, \<open>core/constants.py\<close>)\<close>

text \<open>
  Texts such as \<open>16\<close>, \<open>500m\<close> or \<open>32Gi\<close> as Python floats. A float is a rational number, and every
  operation rounds its exact result to 53 bits, to even on a tie. The range of the exponent is not
  bounded, and a text that Python reads as an infinity or not a number is no number here; the API
  server takes neither for a quantity.
\<close>

subsection \<open>Rounding\<close>

text \<open>The largest \<open>k\<close> with \<open>2 ^ k \<le> x\<close>, from the bit lengths of numerator and denominator.\<close>

definition log2_floor :: "rat \<Rightarrow> int" where
  "log2_floor x =
     (let (n, d) = quotient_of x;
          k = int (bit_length (nat n)) - int (bit_length (nat d))
      in if 2 powi k \<le> x then k else k - 1)"

definition half_even :: "rat \<Rightarrow> int" where
  "half_even x =
     (let f = \<lfloor>x\<rfloor>; r = x - of_int f
      in if r < 1 / 2 \<or> r = 1 / 2 \<and> even f then f else f + 1)"

definition rnd :: "rat \<Rightarrow> rat" where
  "rnd x = (if x = 0 then 0 else let e = log2_floor \<bar>x\<bar> - 52 in of_int (half_even (x / 2 powi e)) * 2 powi e)"

subsection \<open>\<open>float(s)\<close>\<close>

definition digit_count :: "string \<Rightarrow> nat" where
  "digit_count s = length (filter is_digit s)"

text \<open>Digits before and after the point, one of them at least.\<close>

definition mantissa :: "string \<Rightarrow> rat option" where
  "mantissa s =
     (case split_on (CHR ''.'') s of
        [a] \<Rightarrow> map_option of_nat (int_of_body a)
      | [a, b] \<Rightarrow>
          (case (if a = [] then Some 0 else int_of_body a, if b = [] then Some 0 else int_of_body b) of
             (Some n, Some m) \<Rightarrow> if a = [] \<and> b = [] then None else Some (of_nat n + of_nat m / 10 ^ digit_count b)
           | _ \<Rightarrow> None)
      | _ \<Rightarrow> None)"

definition signed :: "(string \<Rightarrow> 'a option) \<Rightarrow> ('a \<Rightarrow> 'a) \<Rightarrow> string \<Rightarrow> 'a option" where
  "signed p neg s =
     (case s of
        [] \<Rightarrow> None
      | c # b \<Rightarrow> if c = CHR ''-'' then map_option neg (p b) else if c = CHR ''+'' then p b else p s)"

definition unsigned_float :: "string \<Rightarrow> rat option" where
  "unsigned_float s =
     (case split_on (CHR ''e'') (lower s) of
        [m] \<Rightarrow> mantissa m
      | [m, x] \<Rightarrow>
          (case (mantissa m, signed (\<lambda>b. map_option int (int_of_body b)) uminus x) of
             (Some v, Some k) \<Rightarrow> Some (v * 10 powi k)
           | _ \<Rightarrow> None)
      | _ \<Rightarrow> None)"

definition py_float :: "string \<Rightarrow> rat option" where
  "py_float s = map_option rnd (signed unsigned_float uminus (strip s))"

subsection \<open>Quantities\<close>

definition QUANTITY_SUFFIXES :: "(string \<times> rat) list" where
  "QUANTITY_SUFFIXES =
     [(''Ki'', 2 ^ 10), (''Mi'', 2 ^ 20), (''Gi'', 2 ^ 30), (''Ti'', 2 ^ 40),
      (''m'', rnd (1 / 1000)), (''K'', 10 ^ 3), (''M'', 10 ^ 6), (''G'', 10 ^ 9), (''T'', 10 ^ 12)]"

text \<open>The suffixes in the order of the loop, the longer ones first.\<close>

definition parse_quantity :: "string option \<Rightarrow> rat option" where
  "parse_quantity value =
     (case value of
        None \<Rightarrow> None
      | Some v \<Rightarrow>
          (let t = strip v
           in if t = [] then None
              else case find (\<lambda>(s, _). ends_with s t) QUANTITY_SUFFIXES of
                     Some (s, k) \<Rightarrow> map_option (\<lambda>x. rnd (x * k)) (py_float (take (length t - length s) t))
                   | None \<Rightarrow> py_float t))"

definition parse_cpu :: "string \<Rightarrow> exc + rat" where
  "parse_cpu value =
     (if ends_with ''m'' value
      then (case py_float (butlast value) of None \<Rightarrow> Inl ValueError | Some x \<Rightarrow> Inr (rnd (x / 1000)))
      else (case py_float value of None \<Rightarrow> Inl ValueError | Some x \<Rightarrow> Inr x))"

text \<open>\<open>int(x)\<close> cuts towards zero.\<close>

definition trunc :: "rat \<Rightarrow> int" where
  "trunc x = (if x < 0 then - \<lfloor>- x\<rfloor> else \<lfloor>x\<rfloor>)"

definition STORAGE_UNITS :: "(string \<times> rat) list" where
  "STORAGE_UNITS = [(''Ki'', 1024), (''Mi'', 1024 ^ 2), (''Gi'', 1024 ^ 3), (''Ti'', 1024 ^ 4),
     (''K'', 1000), (''M'', 1000 ^ 2), (''G'', 1000 ^ 3), (''T'', 1000 ^ 4)]"

definition parse_storage :: "string \<Rightarrow> int" where
  "parse_storage value =
     (case find (\<lambda>(u, _). ends_with u value) STORAGE_UNITS of
        Some (u, k) \<Rightarrow> (case py_float (take (length value - length u) value) of None \<Rightarrow> 0 | Some x \<Rightarrow> trunc (rnd (x * k)))
      | None \<Rightarrow> (case py_float value of None \<Rightarrow> 0 | Some x \<Rightarrow> trunc x))"

text \<open>\<open>parse_k8s_capacity\<close> does not catch the error of \<open>float\<close>.\<close>

definition parse_k8s_capacity :: "string \<Rightarrow> exc + int" where
  "parse_k8s_capacity cap =
     (case find (\<lambda>(u, _). ends_with u cap)
         [(''Ki'', 1024), (''Mi'', 1024 ^ 2), (''Gi'', 1024 ^ 3), (''Ti'', 1024 ^ 4), (''Pi'', 1024 ^ 5)] of
        Some (u, k) \<Rightarrow> (case py_float (take (length cap - length u) cap) of None \<Rightarrow> Inl ValueError | Some x \<Rightarrow> Inr (trunc (rnd (x * k))))
      | None \<Rightarrow> (case py_int cap of None \<Rightarrow> Inr 0 | Some n \<Rightarrow> Inr n))"

subsection \<open>Rounding is exact on whole numbers and close elsewhere\<close>

lemma bit_length_bounds: "0 < n \<Longrightarrow> 2 ^ (bit_length n - 1) \<le> n \<and> n < 2 ^ bit_length n"
proof (induction n rule: bit_length.induct)
  case (1 n)
  show ?case
  proof (cases "n = 1")
    case True
    then show ?thesis by (simp add: bit_length.simps)
  next
    case False
    then have "0 < n div 2" using 1 by simp
    then have ih: "2 ^ (bit_length (n div 2) - 1) \<le> n div 2" "n div 2 < 2 ^ bit_length (n div 2)" using 1 by auto
    have b: "bit_length n = Suc (bit_length (n div 2))" using 1(2) by (simp add: bit_length.simps)
    have p: "0 < bit_length (n div 2)" using \<open>0 < n div 2\<close> by (subst bit_length.simps) simp
    have "2 ^ bit_length (n div 2) = 2 * (2::nat) ^ (bit_length (n div 2) - 1)" using p by (cases "bit_length (n div 2)") auto
    then have "2 ^ bit_length (n div 2) \<le> n" using ih(1) by linarith
    moreover have "n < 2 * 2 ^ bit_length (n div 2)" using ih(2) by linarith
    ultimately show ?thesis by (simp add: b)
  qed
qed

lemma log2_floor_bounds:
  assumes "0 < x"
  shows "2 powi log2_floor x \<le> x" "x < 2 powi (log2_floor x + 1)"
proof -
  obtain n d where nd: "quotient_of x = (n, d)" by (cases "quotient_of x")
  have x: "x = of_int n / of_int d" "0 < d" using quotient_of_div [OF nd] quotient_of_denom_pos [OF nd] by auto
  have n: "0 < n" using assms x by (simp add: zero_less_divide_iff)
  let ?a = "bit_length (nat n)" and ?b = "bit_length (nat d)"
  have pos: "0 < ?a" "0 < ?b" using n x(2) by (subst bit_length.simps, simp)+
  have bn: "2 ^ (?a - 1) \<le> (of_int n :: rat)" "(of_int n :: rat) < 2 ^ ?a"
    using bit_length_bounds [of "nat n"] n by (metis of_int_less_iff of_int_of_nat_eq of_nat_le_iff of_nat_less_iff of_nat_numeral of_nat_power int_nat_eq less_le zero_less_nat_eq)+
  have bd: "2 ^ (?b - 1) \<le> (of_int d :: rat)" "(of_int d :: rat) < 2 ^ ?b"
    using bit_length_bounds [of "nat d"] x(2) by (metis of_int_less_iff of_int_of_nat_eq of_nat_le_iff of_nat_less_iff of_nat_numeral of_nat_power int_nat_eq less_le zero_less_nat_eq)+
  let ?k = "int ?a - int ?b"
  have dif: "(2::rat) powi (int i - int j) = 2 ^ i / 2 ^ j" for i j by (subst power_int_diff) simp_all
  have "?k + 1 = int ?a - int (?b - 1)" "?k - 1 = int (?a - 1) - int ?b" using pos by simp_all
  then have pw: "(2::rat) powi (?k + 1) = 2 ^ ?a / 2 ^ (?b - 1)" "(2::rat) powi (?k - 1) = 2 ^ (?a - 1) / 2 ^ ?b"
    using dif [of ?a "?b - 1"] dif [of "?a - 1" ?b] by metis+
  have hi: "x < 2 powi (?k + 1)" unfolding pw x(1) using bn bd n by (intro frac_less) auto
  have lo: "2 powi (?k - 1) \<le> x" unfolding pw x(1) using bn bd n x(2) by (intro frac_le) auto
  show "2 powi log2_floor x \<le> x" "x < 2 powi (log2_floor x + 1)"
    using hi lo by (auto simp: log2_floor_def nd Let_def)
qed

lemma half_even_near: "\<bar>of_int (half_even x) - x\<bar> \<le> 1 / 2"
proof -
  have "of_int \<lfloor>x\<rfloor> \<le> x" "x < of_int \<lfloor>x\<rfloor> + 1" by linarith+
  then show ?thesis by (auto simp: half_even_def Let_def)
qed

lemma half_even_of_int [simp]: "half_even (of_int k) = k"
  by (simp add: half_even_def)

lemma rnd_near: "\<bar>rnd x - x\<bar> \<le> \<bar>x\<bar> / 2 ^ 53"
proof (cases "x = 0")
  case False
  let ?e = "log2_floor \<bar>x\<bar> - 52" and ?p = "(2::rat) powi (log2_floor \<bar>x\<bar> - 52)"
  have p: "0 < ?p" by simp
  have "rnd x - x = (of_int (half_even (x / ?p)) - x / ?p) * ?p" using False by (simp add: rnd_def Let_def left_diff_distrib)
  then have "\<bar>rnd x - x\<bar> \<le> 1 / 2 * ?p" using half_even_near [of "x / ?p"] p by (simp add: abs_mult mult_right_mono)
  moreover have "?p * 2 ^ 52 \<le> \<bar>x\<bar>"
  proof -
    have "?p * 2 ^ 52 = 2 powi (?e + int 52)" by (subst power_int_add) simp_all
    then show ?thesis using log2_floor_bounds(1) [of "\<bar>x\<bar>"] False by simp
  qed
  ultimately show ?thesis by simp
qed (simp add: rnd_def)

lemma rnd_int:
  assumes "\<bar>k\<bar> < 2 ^ 53"
  shows "rnd (of_int k) = of_int k"
proof (cases "k = 0")
  case False
  let ?x = "\<bar>of_int k\<bar> :: rat" and ?e = "log2_floor \<bar>of_int k\<bar> - 52"
  have "2 powi log2_floor ?x \<le> ?x" using log2_floor_bounds(1) [of ?x] False by simp
  also have "?x < 2 powi 53" using assms by (simp add: of_int_abs [symmetric] del: of_int_abs)
  finally have "log2_floor ?x < 53" by (metis linorder_not_less power_int_increasing one_le_numeral)
  then have e: "?e \<le> 0" by simp
  then have "(2::rat) powi ?e = 1 / 2 ^ nat (- ?e)" by (simp add: power_int_def field_simps)
  then have m: "of_int k / (2::rat) powi ?e = of_int (k * 2 ^ nat (- ?e))" by simp
  have "rnd (of_int k) = of_int (half_even (of_int k / (2::rat) powi ?e)) * 2 powi ?e"
    using False unfolding rnd_def Let_def by simp
  also have "\<dots> = of_int k / (2::rat) powi ?e * 2 powi ?e" unfolding m half_even_of_int ..
  finally show ?thesis by simp
qed (simp add: rnd_def)

lemma rnd_add_int: "\<bar>a + b\<bar> < 2 ^ 53 \<Longrightarrow> rnd (of_int a + of_int b) = of_int (a + b)"
  using rnd_int [of "a + b"] by simp

lemma rnd_diff_int: "\<bar>a - b\<bar> < 2 ^ 53 \<Longrightarrow> rnd (of_int a - of_int b) = of_int (a - b)"
  using rnd_int [of "a - b"] by simp

text \<open>\<open>1e-9\<close>.\<close>

definition EPS :: rat where
  "EPS = rnd (1 / 10 ^ 9)"

lemma EPS_small: "0 \<le> EPS" "EPS < 1 / 8"
proof -
  have near: "\<bar>rnd c - c\<bar> \<le> c" if "0 \<le> c" for c :: rat
  proof -
    have "\<bar>c\<bar> / 2 ^ 53 \<le> c" using that by (simp add: field_simps)
    then show ?thesis using rnd_near [of c] by linarith
  qed
  have "\<bar>EPS - 1 / 10 ^ 9\<bar> \<le> 1 / 10 ^ 9" unfolding EPS_def by (rule near) simp
  then show "0 \<le> EPS" "EPS < 1 / 8" unfolding abs_le_iff by (simp_all add: field_simps)
qed

text \<open>On whole numbers the tolerance does not let more through.\<close>

lemma within_tolerance:
  assumes "of_int a \<le> rnd (of_int b + EPS)" "\<bar>b\<bar> \<le> 2 ^ 51"
  shows "a \<le> b"
proof -
  have "\<bar>of_int b + EPS\<bar> \<le> 2 ^ 51 + 1 / 8"
  proof -
    have "\<bar>of_int b :: rat\<bar> \<le> 2 ^ 51" using assms(2) by (simp only: of_int_abs [symmetric] of_int_le_numeral_power_cancel_iff)
    then show ?thesis using EPS_small by linarith
  qed
  then have "\<bar>of_int b + EPS\<bar> / 2 ^ 53 \<le> (2 ^ 51 + 1 / 8) / 2 ^ 53" by (simp add: divide_right_mono)
  then have "rnd (of_int b + EPS) - (of_int b + EPS) \<le> (2 ^ 51 + 1 / 8) / 2 ^ 53"
    using rnd_near [of "of_int b + EPS"] by linarith
  then have "rnd (of_int b + EPS) < of_int b + 1" using EPS_small by simp
  then have "(of_int a :: rat) < of_int (b + 1)" using assms(1) by simp
  then show ?thesis by (simp del: of_int_add)
qed

lemma half_even_ge: "of_int k \<le> x \<Longrightarrow> k \<le> half_even x"
proof -
  assume "of_int k \<le> x"
  then have "k \<le> \<lfloor>x\<rfloor>" by (simp add: le_floor_iff)
  then show ?thesis by (simp add: half_even_def Let_def)
qed

text \<open>The tolerance lets no whole number be refused for rounding.\<close>

lemma rnd_above:
  assumes "0 \<le> b" "b < 2 ^ 52"
  shows "of_int b \<le> rnd (of_int b + EPS)"
proof (cases "of_int b + EPS = 0")
  case False
  let ?x = "of_int b + EPS" and ?e = "log2_floor \<bar>of_int b + EPS\<bar> - 52"
  have x: "0 < ?x" using False assms(1) EPS_small(1) by (simp add: less_le)
  have "2 powi log2_floor ?x \<le> ?x" by (rule log2_floor_bounds(1) [OF x])
  also have "?x < 2 powi 53"
  proof -
    have "(of_int b :: rat) < 2 ^ 52" using assms(2) by (simp only: of_int_less_numeral_power_cancel_iff)
    then show ?thesis using EPS_small(2) by simp
  qed
  finally have "log2_floor ?x < 53" by (metis linorder_not_less power_int_increasing one_le_numeral)
  then have "?e \<le> 0" using x by simp
  then have p: "(2::rat) powi ?e = 1 / 2 ^ nat (- ?e)" by (simp add: power_int_def field_simps)
  have "of_int (b * 2 ^ nat (- ?e)) \<le> ?x / 2 powi ?e" unfolding p using EPS_small(1) by (simp add: distrib_right)
  then have "b * 2 ^ nat (- ?e) \<le> half_even (?x / 2 powi ?e)" by (rule half_even_ge)
  then have "of_int (b * 2 ^ nat (- ?e)) * (2::rat) powi ?e \<le> of_int (half_even (?x / 2 powi ?e)) * 2 powi ?e"
    by (intro mult_right_mono) (simp_all only: of_int_le_iff zero_le_power_int zero_le_numeral)
  moreover have "of_int (b * 2 ^ nat (- ?e)) * (2::rat) powi ?e = of_int b" by (simp add: p)
  moreover have "rnd ?x = of_int (half_even (?x / 2 powi ?e)) * 2 powi ?e" using False unfolding rnd_def Let_def by (rule if_not_P)
  ultimately show ?thesis by (simp only:)
qed (use EPS_small(1) in \<open>simp add: rnd_def\<close>)

lemma within_tolerance_iff:
  assumes "0 \<le> a" "\<bar>b\<bar> \<le> 2 ^ 51"
  shows "of_int a \<le> rnd (of_int b + EPS) \<longleftrightarrow> a \<le> b"
proof
  assume "a \<le> b"
  then have "(of_int a :: rat) \<le> of_int b" "0 \<le> b" "b < 2 ^ 52" using assms by simp_all
  then show "of_int a \<le> rnd (of_int b + EPS)" using rnd_above order_trans by blast
qed (use within_tolerance assms(2) in blast)

subsection \<open>Whole numbers\<close>

lemma py_float_nat:
  assumes "n < 2 ^ 53"
  shows "py_float (nat_str n) = Some (of_nat n)"
proof -
  have dig: "c \<in> set (nat_str n) \<Longrightarrow> is_digit c" for c by (rule nat_str_set)
  obtain c b where cb: "nat_str n = c # b" by (cases "nat_str n") auto
  have "c \<noteq> CHR ''-''" "c \<noteq> CHR ''+''" using dig [of c] cb by (auto simp: is_digit_def)
  then have s: "signed unsigned_float uminus (nat_str n) = unsigned_float (nat_str n)" by (simp add: signed_def cb)
  have "to_lower c = c" if "is_digit c" for c using that by (simp add: to_lower_def is_digit_def is_upper_def)
  then have low: "lower (nat_str n) = nat_str n" using dig by (simp add: lower_def map_idI)
  have free: "CHR ''e'' \<notin> set (nat_str n)" "CHR ''.'' \<notin> set (nat_str n)" "CHR ''_'' \<notin> set (nat_str n)"
    using dig [of "CHR ''e''"] dig [of "CHR ''.''"] dig [of "CHR ''_''"] by (auto simp: is_digit_def)
  have "int_of_body (nat_str n) = Some n" using free(3) by (simp add: int_of_body_def split_on_free)
  then have "unsigned_float (nat_str n) = Some (of_nat n)"
    using free(1,2) by (simp add: unsigned_float_def low split_on_free mantissa_def)
  moreover have "rnd (of_nat n) = of_nat n" using rnd_int [of "int n"] assms by simp
  ultimately show ?thesis by (simp add: py_float_def s)
qed

lemma parse_quantity_nat:
  assumes "n < 2 ^ 53"
  shows "parse_quantity (Some (nat_str n)) = Some (of_nat n)"
proof -
  have no: "\<not> ends_with s (nat_str n)" if "\<exists>c \<in> set s. \<not> is_digit c" for s
  proof
    assume "ends_with s (nat_str n)"
    then obtain r where "nat_str n = r @ s" by (auto simp: ends_with_iff)
    then have "set s \<subseteq> set (nat_str n)" by simp
    then show False using that nat_str_set by blast
  qed
  have "find (\<lambda>(s, _). ends_with s (nat_str n)) QUANTITY_SUFFIXES = None"
  proof -
    have "\<forall>p \<in> set QUANTITY_SUFFIXES. \<exists>c \<in> set (fst p). \<not> is_digit c" by (simp add: QUANTITY_SUFFIXES_def is_digit_def)
    then have "\<forall>p \<in> set QUANTITY_SUFFIXES. \<not> ends_with (fst p) (nat_str n)" using no by blast
    then show ?thesis by (auto simp: find_None_iff)
  qed
  then show ?thesis using py_float_nat [OF assms] by (simp add: parse_quantity_def)
qed

text \<open>Suffixes of Kubernetes that are not in the table.\<close>

lemma parse_quantity_unknown: "parse_quantity (Some ''1Pi'') = None" "parse_quantity (Some ''4k'') = None"
  by (simp_all add: parse_quantity_def QUANTITY_SUFFIXES_def strip_def lstrip_def rstrip_def is_space_def ends_with_def starts_with_def
      py_float_def signed_def unsigned_float_def lower_def to_lower_def is_upper_def mantissa_def int_of_body_def isdigit_def is_digit_def)

end
