(* ===== verification/FolderQuota.thy ===== *)
theory FolderQuota
  imports Quantity Rbac
begin

section \<open>Folder quotas (\<open>api/v1/folders.py\<close>)\<close>

text \<open>
  The quota of a folder is a ceiling over what its environments and sub-folders are given. The theory
  models what counts as allocated, the search for the ceiling that binds, the checks of a request, the
  write of a ResourceQuota, the reallocation between siblings with its roll-back, and the endpoints on
  environments. Sums are sums of floats in the order of the code. Recursion deeper than \<open>depth\<close> raises
  Python's \<open>RecursionError\<close>, a \<open>RuntimeError\<close>. The copy of the older access entries into a new environment
  is an argument.
\<close>

subsection \<open>Fields and objects\<close>

datatype quota_field = Cpu | Memory | Storage

definition FIELDS :: "quota_field list" where
  "FIELDS = [Cpu, Memory, Storage]"

fun request_key :: "quota_field \<Rightarrow> string" where
  "request_key Cpu = ''requests.cpu''"
| "request_key Memory = ''requests.memory''"
| "request_key Storage = ''requests.storage''"

text \<open>The three texts of a quota, by field.\<close>

type_synonym asked = "quota_field \<Rightarrow> string option"
type_synonym totals = "quota_field \<Rightarrow> rat"

fun field_of :: "folder_quota \<Rightarrow> asked" where
  "field_of q Cpu = q_cpu q"
| "field_of q Memory = q_memory q"
| "field_of q Storage = q_storage q"

definition quota_of :: "folder_quota option \<Rightarrow> asked" where
  "quota_of q f = (case q of None \<Rightarrow> None | Some x \<Rightarrow> field_of x f)"

definition asked_quota :: "asked \<Rightarrow> folder_quota option" where
  "asked_quota a =
     (let q = \<lparr>q_cpu = a Cpu, q_memory = a Memory, q_storage = a Storage\<rparr>
      in if list_all (\<lambda>f. a f = None) FIELDS then None else Some q)"

record resource_quota =
  rq_name :: string
  rq_hard :: "string dict"
  rq_used :: "string dict"

record 'w quota_api =
  qa_folders :: "'w folders_api"
  qa_list_ns :: "string \<Rightarrow> ('w, string list) io"
  qa_list :: "string \<Rightarrow> ('w, resource_quota list) io"
  qa_delete :: "string \<Rightarrow> string \<Rightarrow> ('w, unit) io"
  qa_replace :: "string \<Rightarrow> resource_quota \<Rightarrow> ('w, unit) io"
  qa_create :: "string \<Rightarrow> resource_quota \<Rightarrow> ('w, unit) io"
  qa_create_ns :: "string \<Rightarrow> string dict \<Rightarrow> ('w, unit) io"
  qa_limit_range :: "string \<Rightarrow> ('w, unit) io"
  qa_read_ns :: "string \<Rightarrow> ('w, namespace) io"
  qa_delete_ns :: "string \<Rightarrow> ('w, unit) io"
  qa_rbac :: "'w rbac_api"
  qa_propagate :: "folder_meta dict \<Rightarrow> string \<Rightarrow> string \<Rightarrow> ('w, unit) io"

subsection \<open>What is allocated\<close>

text \<open>\<open>value = parse_quantity(...); if value: totals[field] += value\<close>.\<close>

definition add_value :: "asked \<Rightarrow> totals \<Rightarrow> quota_field \<Rightarrow> totals" where
  "add_value a t f =
     (case parse_quantity (a f) of
        None \<Rightarrow> t
      | Some v \<Rightarrow> if v = 0 then t else t(f := rnd (t f + v)))"

definition hard_of :: "resource_quota \<Rightarrow> asked" where
  "hard_of q f = dict_get (rq_hard q) (request_key f)"

definition add_hard :: "totals \<Rightarrow> resource_quota \<Rightarrow> totals" where
  "add_hard t q = foldl (add_value (hard_of q)) t FIELDS"

fun sum_quotas :: "'w quota_api \<Rightarrow> totals \<Rightarrow> string list \<Rightarrow> ('w, totals) io" where
  "sum_quotas api t [] = ret t"
| "sum_quotas api t (ns # nss) =
     bind_io (catch_io (bind_io (qa_list api ns) (\<lambda>qs. ret (foldl add_hard t qs))) (\<lambda>e. if is_api e then ret t else raise e))
       (\<lambda>t'. sum_quotas api t' nss)"

definition own_env_quota :: "'w quota_api \<Rightarrow> string \<Rightarrow> ('w, totals) io" where
  "own_env_quota api folder_name =
     bind_io (catch_io (qa_list_ns api folder_name) (\<lambda>_. ret [])) (sum_quotas api (\<lambda>_. 0))"

definition direct_children :: "folder_meta dict \<Rightarrow> string \<Rightarrow> string list" where
  "direct_children folders folder_name = map fst (filter (\<lambda>(n, m). parent_id m = Some folder_name) folders)"

definition declared :: "folder_meta dict \<Rightarrow> string \<Rightarrow> quota_field \<Rightarrow> rat option" where
  "declared folders name f = (case dict_get folders name of None \<Rightarrow> None | Some m \<Rightarrow> parse_quantity (quota_of (quota m) f))"

fun allocated_env_quota :: "'w quota_api \<Rightarrow> folder_meta dict \<Rightarrow> nat \<Rightarrow> string \<Rightarrow> ('w, totals) io"
  and add_children :: "'w quota_api \<Rightarrow> folder_meta dict \<Rightarrow> nat \<Rightarrow> string list \<Rightarrow> totals \<Rightarrow> ('w, totals) io" where
  "allocated_env_quota api folders 0 folder_name = raise RuntimeError"
| "allocated_env_quota api folders (Suc depth) folder_name =
     bind_io (own_env_quota api folder_name) (add_children api folders depth (direct_children folders folder_name))"
| "add_children api folders depth [] t = ret t"
| "add_children api folders depth (c # cs) t =
     bind_io (if list_ex (\<lambda>f. declared folders c f = None) FIELDS then allocated_env_quota api folders depth c else ret (\<lambda>_. 0)) (\<lambda>nested.
       add_children api folders depth cs
         (\<lambda>f. rnd (t f + (case declared folders c f of Some v \<Rightarrow> v | None \<Rightarrow> nested f))))"

text \<open>The first folder at or above the given one that caps the field; the walk up is the one of the access checks.\<close>

definition ceiling_holder :: "folder_meta dict \<Rightarrow> string \<Rightarrow> quota_field \<Rightarrow> (string \<times> rat) option" where
  "ceiling_holder folders name f =
     (if name = [] then None
      else case find (\<lambda>n. declared folders n f \<noteq> None) (folder_chain folders [name] [name] name) of
             None \<Rightarrow> None
           | Some n \<Rightarrow> Some (n, the (declared folders n f)))"

subsection \<open>Checks\<close>

text \<open>The allocations of the holders, each read once.\<close>

fun load_allocations ::
  "'w quota_api \<Rightarrow> folder_meta dict \<Rightarrow> nat \<Rightarrow> totals dict \<Rightarrow> string list \<Rightarrow> ('w, totals dict) io" where
  "load_allocations api folders depth acc [] = ret acc"
| "load_allocations api folders depth acc (h # hs) =
     (if dict_get acc h \<noteq> None then load_allocations api folders depth acc hs
      else bind_io (allocated_env_quota api folders depth h) (\<lambda>t. load_allocations api folders depth (dict_set acc h t) hs))"

definition excluded_quota :: "'w quota_api \<Rightarrow> string option \<Rightarrow> ('w, totals) io" where
  "excluded_quota api ns =
     (if truthy ns
      then catch_io (bind_io (qa_list api (the ns)) (\<lambda>qs. ret (foldl add_hard (\<lambda>_. 0) qs))) (\<lambda>e. if is_api e then ret (\<lambda>_. 0) else raise e)
      else ret (\<lambda>_. 0))"

text \<open>One field of the check: asking for no more than is held is never refused.\<close>

definition field_fits :: "rat \<Rightarrow> rat \<Rightarrow> rat \<Rightarrow> rat \<Rightarrow> bool" where
  "field_fits want limit allocation excluded \<longleftrightarrow>
     want \<le> rnd (excluded + EPS) \<or> want \<le> rnd (rnd (limit - rnd (allocation - excluded)) + EPS)"

definition assert_within_folder_quota ::
  "'w quota_api \<Rightarrow> folder_meta dict \<Rightarrow> nat \<Rightarrow> string \<Rightarrow> asked \<Rightarrow> string option \<Rightarrow> ('w, unit) io" where
  "assert_within_folder_quota api folders depth folder_name q exclude =
     (let requested = (\<lambda>f. parse_quantity (q f));
          holders = (\<lambda>f. if requested f = None then None else ceiling_holder folders folder_name f);
          held = filter (\<lambda>f. holders f \<noteq> None) FIELDS
      in if held = [] then ret ()
         else bind_io (load_allocations api folders depth [] (map (\<lambda>f. fst (the (holders f))) held)) (\<lambda>allocations.
              bind_io (excluded_quota api exclude) (\<lambda>excluded.
              if list_all (\<lambda>f. field_fits (the (requested f)) (snd (the (holders f)))
                     (the (dict_get allocations (fst (the (holders f)))) f) (excluded f)) held
              then ret () else raise (HTTPException 409))))"

text \<open>The check of a sub-folder. The loop assigns the folder that caps a field to \<open>parent\<close>, from where the
  next field starts.\<close>

fun child_fields ::
  "'w quota_api \<Rightarrow> folder_meta dict \<Rightarrow> nat \<Rightarrow> asked \<Rightarrow> asked \<Rightarrow> string \<Rightarrow> totals dict \<Rightarrow> quota_field list \<Rightarrow> ('w, unit) io" where
  "child_fields api folders depth q current parent acc [] = ret ()"
| "child_fields api folders depth q current parent acc (f # fs) =
     (case parse_quantity (q f) of
        None \<Rightarrow> child_fields api folders depth q current parent acc fs
      | Some want \<Rightarrow>
          (case ceiling_holder folders parent f of
             None \<Rightarrow> child_fields api folders depth q current parent acc fs
           | Some (holder, limit) \<Rightarrow>
               bind_io (load_allocations api folders depth acc [holder]) (\<lambda>acc'.
                 let a = the (dict_get acc' holder) f;
                     a' = (case parse_quantity (current f) of Some v \<Rightarrow> if v = 0 then a else rnd (a - v) | None \<Rightarrow> a)
                 in if want > rnd (rnd (limit - a') + EPS) then raise (HTTPException 409)
                    else child_fields api folders depth q current holder acc' fs)))"

definition assert_child_folder_within_parent ::
  "'w quota_api \<Rightarrow> folder_meta dict \<Rightarrow> nat \<Rightarrow> string \<Rightarrow> folder_quota option \<Rightarrow> ('w, unit) io" where
  "assert_child_folder_within_parent api folders depth child_name q =
     (case dict_get folders child_name of
        None \<Rightarrow> ret ()
      | Some meta \<Rightarrow>
          if \<not> truthy (parent_id meta) \<or> dict_get folders (the (parent_id meta)) = None \<or> q = None then ret ()
          else child_fields api folders depth (quota_of q) (quota_of (quota meta)) (the (parent_id meta)) [] FIELDS)"

text \<open>\<open>status.used\<close>, the largest value of each field.\<close>

definition max_used :: "string dict \<Rightarrow> totals \<Rightarrow> quota_field \<Rightarrow> totals" where
  "max_used d t f =
     (case parse_quantity (dict_get d (request_key f)) of
        None \<Rightarrow> t
      | Some v \<Rightarrow> if v = 0 then t else t(f := max (t f) v))"

definition env_quota_used :: "'w quota_api \<Rightarrow> string \<Rightarrow> ('w, totals) io" where
  "env_quota_used api ns =
     catch_io (bind_io (qa_list api ns) (\<lambda>qs. ret (foldl (\<lambda>t q. foldl (max_used (rq_used q)) t FIELDS) (\<lambda>_. 0) qs)))
       (\<lambda>e. if is_api e then ret (\<lambda>_. 0) else raise e)"

record QuotaReallocation =
  ra_source :: string
  ra_folder :: bool
  ra_asked :: asked

definition assert_not_below_use ::
  "'w quota_api \<Rightarrow> folder_meta dict \<Rightarrow> nat \<Rightarrow> string \<Rightarrow> QuotaReallocation \<Rightarrow> ('w, unit) io" where
  "assert_not_below_use api folders depth folder_name item =
     bind_io (if ra_folder item then allocated_env_quota api folders depth (ra_source item)
              else env_quota_used api (ns_name_of folder_name (ra_source item))) (\<lambda>floor.
       if list_ex (\<lambda>f. case parse_quantity (ra_asked item f) of None \<Rightarrow> False | Some want \<Rightarrow> rnd (want + EPS) < floor f) FIELDS
       then raise (HTTPException 409) else ret ())"

subsection \<open>Writing a quota\<close>

definition read_fields :: "string dict \<Rightarrow> asked \<Rightarrow> asked" where
  "read_fields d a = (\<lambda>f. if truthy (dict_get d (request_key f)) then dict_get d (request_key f) else a f)"

definition read_env_quota :: "'w quota_api \<Rightarrow> string \<Rightarrow> ('w, asked) io" where
  "read_env_quota api ns =
     catch_io (bind_io (qa_list api ns) (\<lambda>qs. ret (foldl (\<lambda>a q. read_fields (rq_hard q) a) (\<lambda>_. None) qs)))
       (\<lambda>e. if is_api e then ret (\<lambda>_. None) else raise e)"

definition quota_hard :: "asked \<Rightarrow> string dict" where
  "quota_hard a =
     (if truthy (a Cpu) then [(''requests.cpu'', the (a Cpu)), (''limits.cpu'', the (a Cpu))] else [])
     @ (if truthy (a Memory) then [(''requests.memory'', the (a Memory)), (''limits.memory'', the (a Memory))] else [])
     @ (if truthy (a Storage) then [(''requests.storage'', the (a Storage))] else [])"

definition write_env_quota :: "'w quota_api \<Rightarrow> string \<Rightarrow> asked \<Rightarrow> ('w, unit) io" where
  "write_env_quota api ns a =
     (let name = ns @ ''-quota''; hard = quota_hard a; body = \<lparr>rq_name = name, rq_hard = hard, rq_used = []\<rparr>
      in if hard = [] then catch_io (qa_delete api ns name) (\<lambda>e. if e = ApiException 404 then ret () else raise e)
         else catch_io (qa_replace api ns body) (\<lambda>e. if e = ApiException 404 then qa_create api ns body else raise e))"

subsection \<open>Reallocation\<close>

text \<open>\<open>{**current, **{k: v for k, v in asked.items() if v is not None}}\<close>.\<close>

definition merged :: "asked \<Rightarrow> asked \<Rightarrow> asked" where
  "merged current a = (\<lambda>f. case a f of None \<Rightarrow> current f | Some v \<Rightarrow> Some v)"

text \<open>The texts that are not empty, as the quota of a folder.\<close>

definition kept_quota :: "asked \<Rightarrow> folder_quota option" where
  "kept_quota a = asked_quota (\<lambda>f. if truthy (a f) then a f else None)"

definition with_quota :: "folder_meta dict \<Rightarrow> string \<Rightarrow> folder_meta \<Rightarrow> folder_quota option \<Rightarrow> folder_meta dict" where
  "with_quota folders name meta q = dict_set folders name (meta\<lparr>quota := q\<rparr>)"

text \<open>The loop returns the folders as it has changed them and what was there before.\<close>

fun apply_reallocations ::
  "'w quota_api \<Rightarrow> folder_meta dict \<Rightarrow> nat \<Rightarrow> string \<Rightarrow> QuotaReallocation list
   \<Rightarrow> ('w, folder_meta dict \<times> (QuotaReallocation \<times> asked) list) io" where
  "apply_reallocations api folders depth folder_name [] = ret (folders, [])"
| "apply_reallocations api folders depth folder_name (item # items) =
     bind_io (assert_not_below_use api folders depth folder_name item) (\<lambda>_.
     if ra_folder item
     then (case dict_get folders (ra_source item) of
             None \<Rightarrow> raise (HTTPException 404)
           | Some meta \<Rightarrow>
               let current = quota_of (quota meta); q = kept_quota (merged current (ra_asked item))
               in bind_io (save_folder_meta (qa_folders api) (ra_source item) (meta\<lparr>quota := q\<rparr>)) (\<lambda>_.
                  bind_io (apply_reallocations api (with_quota folders (ra_source item) meta q) depth folder_name items)
                    (\<lambda>(fs, undo). ret (fs, (item, current) # undo))))
     else bind_io (read_env_quota api (ns_name_of folder_name (ra_source item))) (\<lambda>current.
          bind_io (write_env_quota api (ns_name_of folder_name (ra_source item)) (merged current (ra_asked item))) (\<lambda>_.
          bind_io (apply_reallocations api folders depth folder_name items) (\<lambda>(fs, undo). ret (fs, (item, current) # undo)))))"

definition undo_one :: "'w quota_api \<Rightarrow> folder_meta dict \<Rightarrow> string \<Rightarrow> QuotaReallocation \<times> asked \<Rightarrow> ('w, unit) io" where
  "undo_one api folders folder_name = (\<lambda>(item, previous).
     catch_io
       (if ra_folder item
        then (case dict_get folders (ra_source item) of
                None \<Rightarrow> ret ()
              | Some meta \<Rightarrow> save_folder_meta (qa_folders api) (ra_source item) (meta\<lparr>quota := asked_quota previous\<rparr>))
        else write_env_quota api (ns_name_of folder_name (ra_source item)) previous)
       (\<lambda>_. ret ()))"

definition undo_reallocations ::
  "'w quota_api \<Rightarrow> folder_meta dict \<Rightarrow> string \<Rightarrow> (QuotaReallocation \<times> asked) list \<Rightarrow> ('w, unit) io" where
  "undo_reallocations api folders folder_name undo = for_each (rev undo) (undo_one api folders folder_name)"

definition or_zero :: "rat option \<Rightarrow> rat" where
  "or_zero x = (case x of None \<Rightarrow> 0 | Some v \<Rightarrow> v)"

text \<open>The allocation after the planned shrinks: \<open>before\<close> is what the sources hold.\<close>

definition plan_frees :: "totals \<Rightarrow> QuotaReallocation list \<Rightarrow> asked dict \<Rightarrow> totals" where
  "plan_frees allocated items before =
     foldl (\<lambda>t item f.
         let was = or_zero (parse_quantity (case dict_get before (ra_source item) of None \<Rightarrow> None | Some a \<Rightarrow> a f));
             now = or_zero (parse_quantity (ra_asked item f))
         in rnd (t f + rnd (now - was))) allocated items"

subsection \<open>Environments\<close>

definition ENV_ENABLED_LABEL :: string where
  "ENV_ENABLED_LABEL = ''kubevirt-ui.io/enabled''"

definition ENV_MANAGED_LABEL :: string where
  "ENV_MANAGED_LABEL = ''kubevirt-ui.io/managed''"

text \<open>The namespace of a new environment. A ResourceQuota that cannot be created is only logged.\<close>

definition create_environment_ns ::
  "'w quota_api \<Rightarrow> folder_meta dict \<Rightarrow> nat \<Rightarrow> string \<Rightarrow> string \<Rightarrow> asked \<Rightarrow> ('w, unit) io" where
  "create_environment_ns api folders depth folder_name environment q =
     (let ns = ns_name_of folder_name environment
      in bind_io (assert_within_folder_quota api folders depth folder_name q None) (\<lambda>_.
         bind_io (catch_io
             (qa_create_ns api ns
               [(ENV_ENABLED_LABEL, ''true''), (ENV_MANAGED_LABEL, ''true''),
                (ENV_FOLDER_LABEL, folder_name), (ENV_ENVIRONMENT_LABEL, environment)])
             (\<lambda>e. case e of ApiException s \<Rightarrow> raise (HTTPException s) | _ \<Rightarrow> raise e)) (\<lambda>_.
         bind_io (if list_ex (\<lambda>f. truthy (q f)) FIELDS
                  then bind_io (on_api (qa_create api ns \<lparr>rq_name = ns @ ''-quota'', rq_hard = quota_hard q, rq_used = []\<rparr>))
                         (\<lambda>_. on_api (qa_limit_range api ns))
                  else ret ()) (\<lambda>_.
         bind_io (qa_propagate api folders folder_name ns) (\<lambda>_.
           reconcile_env_rbac (qa_rbac api) (qa_read_ns api) folder_name environment
             (or_else_value (dict_get folders folder_name) empty_folder_meta))))))"

record AddFolderEnvironmentRequest =
  er_environment :: string
  er_quota :: asked
  er_reallocate :: "QuotaReallocation list"

fun quotas_before ::
  "'w quota_api \<Rightarrow> folder_meta dict \<Rightarrow> string \<Rightarrow> asked dict \<Rightarrow> QuotaReallocation list \<Rightarrow> ('w, asked dict) io" where
  "quotas_before api folders name acc [] = ret acc"
| "quotas_before api folders name acc (item # items) =
     bind_io (if ra_folder item
              then ret (quota_of (Option.bind (dict_get folders (ra_source item)) quota))
              else read_env_quota api (ns_name_of name (ra_source item)))
       (\<lambda>a. quotas_before api folders name (dict_set acc (ra_source item) a) items)"

definition plan_fits :: "folder_meta \<Rightarrow> totals \<Rightarrow> asked \<Rightarrow> bool" where
  "plan_fits meta planned q \<longleftrightarrow>
     list_all (\<lambda>f. case (parse_quantity (q f), parse_quantity (quota_of (quota meta) f)) of
         (Some want, Some limit) \<Rightarrow> want \<le> rnd (rnd (limit - planned f) + EPS)
       | _ \<Rightarrow> True) FIELDS"

definition check_plan :: "'w quota_api \<Rightarrow> folder_meta dict \<Rightarrow> nat \<Rightarrow> string \<Rightarrow> folder_meta \<Rightarrow> AddFolderEnvironmentRequest \<Rightarrow> ('w, unit) io" where
  "check_plan api folders depth name meta env =
     bind_io (quotas_before api folders name [] (er_reallocate env)) (\<lambda>before.
       if er_reallocate env = [] then ret ()
       else bind_io (allocated_env_quota api folders depth name) (\<lambda>allocated.
         if plan_fits meta (plan_frees allocated (er_reallocate env) before) (er_quota env)
         then ret () else raise (HTTPException 409)))"

definition add_environment :: "'w quota_api \<Rightarrow> nat \<Rightarrow> string \<Rightarrow> AddFolderEnvironmentRequest \<Rightarrow> ('w, unit) io" where
  "add_environment api depth name env =
     bind_io (ensure_folders_configmap (qa_folders api)) (\<lambda>data.
       let folders = parse_all_folders data
       in case dict_get folders name of
            None \<Rightarrow> raise (HTTPException 404)
          | Some meta \<Rightarrow>
              bind_io (check_plan api folders depth name meta env) (\<lambda>_.
              bind_io (apply_reallocations api folders depth name (er_reallocate env)) (\<lambda>(folders', undo).
                catch_io (create_environment_ns api folders' depth name (er_environment env) (er_quota env))
                  (\<lambda>e. bind_io (undo_reallocations api folders' name undo) (\<lambda>_. raise e)))))"

definition get_folder_quota_headroom ::
  "'w quota_api \<Rightarrow> nat \<Rightarrow> string \<Rightarrow> ('w, asked \<times> totals \<times> (quota_field \<Rightarrow> rat option)) io" where
  "get_folder_quota_headroom api depth name =
     bind_io (ensure_folders_configmap (qa_folders api)) (\<lambda>data.
       let folders = parse_all_folders data
       in case dict_get folders name of
            None \<Rightarrow> raise (HTTPException 404)
          | Some meta \<Rightarrow>
              bind_io (allocated_env_quota api folders depth name) (\<lambda>allocated.
                ret (quota_of (quota meta), allocated, \<lambda>f.
                  map_option (\<lambda>limit. max 0 (rnd (limit - allocated f))) (parse_quantity (quota_of (quota meta) f)))))"

definition set_environment_quota :: "'w quota_api \<Rightarrow> nat \<Rightarrow> string \<Rightarrow> string \<Rightarrow> asked \<Rightarrow> ('w, unit) io" where
  "set_environment_quota api depth name environment q =
     bind_io (ensure_folders_configmap (qa_folders api)) (\<lambda>data.
       let folders = parse_all_folders data; ns = ns_name_of name environment
       in if dict_get folders name = None then raise (HTTPException 404)
          else bind_io (catch_io (qa_read_ns api ns) (\<lambda>e. if e = ApiException 404 then raise (HTTPException 404) else raise e)) (\<lambda>_.
               bind_io (assert_within_folder_quota api folders depth name q (Some ns)) (\<lambda>_.
               bind_io (assert_not_below_use api folders depth name \<lparr>ra_source = environment, ra_folder = False, ra_asked = q\<rparr>)
                 (\<lambda>_. write_env_quota api ns q))))"

definition remove_environment :: "'w quota_api \<Rightarrow> string \<Rightarrow> string \<Rightarrow> ('w, unit) io" where
  "remove_environment api name environment =
     bind_io (ensure_folders_configmap (qa_folders api)) (\<lambda>data.
       if dict_get (parse_all_folders data) name = None then raise (HTTPException 404)
       else catch_io
         (bind_io (qa_read_ns api (ns_name_of name environment)) (\<lambda>ns.
            let labels = or_nil (ns_labels ns)
            in if dict_get labels ENV_MANAGED_LABEL \<noteq> Some ''true'' \<or> dict_get labels ENV_FOLDER_LABEL \<noteq> Some name
               then raise (HTTPException 403)
               else qa_delete_ns api (ns_name_of name environment)))
         (\<lambda>e. case e of ApiException s \<Rightarrow> raise (HTTPException s) | _ \<Rightarrow> raise e))"

subsection \<open>Folders with a quota\<close>

definition at_most :: "exc + ('a::linorder) \<Rightarrow> exc + 'a \<Rightarrow> exc + unit" where
  "at_most child parent =
     (case child of Inl e \<Rightarrow> Inl e
      | Inr c \<Rightarrow> (case parent of Inl e \<Rightarrow> Inl e | Inr p \<Rightarrow> if c > p then Inl (HTTPException 400) else Inr ()))"

definition validate_child_quota :: "folder_quota \<Rightarrow> folder_quota \<Rightarrow> exc + unit" where
  "validate_child_quota child parent =
     (let both = (\<lambda>f check. if truthy (field_of parent f) \<and> truthy (field_of child f)
                            then check (the (field_of child f)) (the (field_of parent f)) else Inr ())
      in case both Cpu (\<lambda>c p. at_most (parse_cpu c) (parse_cpu p)) of
           Inl e \<Rightarrow> Inl e
         | Inr _ \<Rightarrow>
             (case both Memory (\<lambda>c p. at_most (Inr (parse_storage c)) (Inr (parse_storage p))) of
                Inl e \<Rightarrow> Inl e
              | Inr _ \<Rightarrow> both Storage (\<lambda>c p. at_most (Inr (parse_storage c)) (Inr (parse_storage p)))))"

record FolderCreateRequest =
  fc_name :: string
  fc_display_name :: string
  fc_description :: string
  fc_parent_id :: "string option"
  fc_environments :: "string list"
  fc_environment_quotas :: "folder_quota dict"
  fc_quota :: "folder_quota option"

definition assert_initial_envs_fit :: "FolderCreateRequest \<Rightarrow> exc + unit" where
  "assert_initial_envs_fit folder =
     (case fc_quota folder of
        None \<Rightarrow> Inr ()
      | Some cap \<Rightarrow>
          if fc_environment_quotas folder = [] then Inr ()
          else (let totals = foldl (\<lambda>t (_, q). foldl (add_value (field_of q)) t FIELDS) (\<lambda>_. 0) (fc_environment_quotas folder)
                in if list_ex (\<lambda>f. case parse_quantity (field_of cap f) of
                       None \<Rightarrow> False | Some limit \<Rightarrow> totals f > rnd (limit + EPS)) FIELDS
                   then Inl (HTTPException 409) else Inr ()))"

text \<open>\<open>FolderQuota(...).model_dump(exclude_none=True)\<close> of a request with no field is the empty dict.\<close>

definition dumped :: "folder_quota option \<Rightarrow> folder_quota option" where
  "dumped q = asked_quota (quota_of q)"

definition create_folder :: "'w quota_api \<Rightarrow> nat \<Rightarrow> string \<Rightarrow> string \<Rightarrow> FolderCreateRequest \<Rightarrow> ('w, unit) io" where
  "create_folder api depth email now folder =
     bind_io (ensure_folders_configmap (qa_folders api)) (\<lambda>data.
       let folders = parse_all_folders data;
           under = empty_folder_meta\<lparr>parent_id := fc_parent_id folder\<rparr>;
           meta = under\<lparr>display_name := Some (fc_display_name folder), description := Some (fc_description folder),
             created_by := Some email, created_at := Some now, quota := dumped (fc_quota folder)\<rparr>;
           parent = (if truthy (fc_parent_id folder) then dict_get folders (the (fc_parent_id folder)) else None)
       in if dict_get folders (fc_name folder) \<noteq> None then raise (HTTPException 409)
          else if truthy (fc_parent_id folder) \<and> parent = None then raise (HTTPException 404)
          else
            bind_io (case (fc_quota folder, Option.bind parent quota) of
                       (Some q, Some pq) \<Rightarrow>
                         bind_io (Pair (validate_child_quota q pq)) (\<lambda>_.
                           assert_child_folder_within_parent api (dict_set folders (fc_name folder) under) depth
                             (fc_name folder) (dumped (Some q)))
                     | _ \<Rightarrow> ret ()) (\<lambda>_.
            bind_io (Pair (assert_initial_envs_fit folder)) (\<lambda>_.
            bind_io (save_folder_meta (qa_folders api) (fc_name folder) meta) (\<lambda>_.
            bind_io (ensure_folders_configmap (qa_folders api)) (\<lambda>data'.
              for_each (fc_environments folder) (\<lambda>env.
                create_environment_ns api (parse_all_folders data') depth (fc_name folder) env
                  (quota_of (dict_get (fc_environment_quotas folder) env))))))))"

record FolderUpdateRequest =
  fu_display_name :: "string option"
  fu_description :: "string option"
  fu_quota :: "folder_quota option"

definition given :: "'a option \<Rightarrow> 'a option \<Rightarrow> 'a option" where
  "given new old = (case new of None \<Rightarrow> old | Some _ \<Rightarrow> new)"

text \<open>The answer, which only reads, is not modelled.\<close>

definition update_folder :: "'w quota_api \<Rightarrow> nat \<Rightarrow> string \<Rightarrow> FolderUpdateRequest \<Rightarrow> ('w, unit) io" where
  "update_folder api depth name update =
     bind_io (ensure_folders_configmap (qa_folders api)) (\<lambda>data.
       let folders = parse_all_folders data
       in case dict_get folders name of
            None \<Rightarrow> raise (HTTPException 404)
          | Some old \<Rightarrow>
              (let meta = old\<lparr>display_name := given (fu_display_name update) (display_name old),
                              description := given (fu_description update) (description old)\<rparr>
               in case fu_quota update of
                    None \<Rightarrow> save_folder_meta (qa_folders api) name meta
                  | Some q \<Rightarrow>
                      bind_io (case Option.bind (if truthy (parent_id meta) then dict_get folders (the (parent_id meta)) else None) quota of
                                 None \<Rightarrow> ret () | Some pq \<Rightarrow> Pair (validate_child_quota q pq)) (\<lambda>_.
                      bind_io (assert_child_folder_within_parent api folders depth name (dumped (Some q))) (\<lambda>_.
                        save_folder_meta (qa_folders api) name (meta\<lparr>quota := dumped (Some q)\<rparr>)))))"

subsection \<open>Room for a disk\<close>

definition storage_left :: "resource_quota \<Rightarrow> rat option" where
  "storage_left q =
     map_option (\<lambda>hard. max 0 (rnd (hard - or_zero (parse_quantity (dict_get (rq_used q) ''requests.storage'')))))
       (parse_quantity (dict_get (rq_hard q) ''requests.storage''))"

definition assert_storage_headroom :: "'w quota_api \<Rightarrow> string \<Rightarrow> string \<Rightarrow> ('w, unit) io" where
  "assert_storage_headroom api namespace asked =
     (case parse_quantity (Some asked) of
        None \<Rightarrow> ret ()
      | Some wanted \<Rightarrow>
          bind_io (catch_io (qa_list api namespace) (\<lambda>e. if is_api e then ret [] else raise e)) (\<lambda>quotas.
            if list_ex (\<lambda>q. case storage_left q of None \<Rightarrow> False | Some free \<Rightarrow> wanted > rnd (free + EPS)) quotas
            then raise (HTTPException 409) else ret ()))"

end
