(* ===== verification/FolderQuotaCorrect.thy ===== *)
theory FolderQuotaCorrect
  imports FolderQuota
begin

section \<open>Folder quotas: the ceilings hold\<close>

text \<open>
  What the checks of \<open>FolderQuota\<close> guarantee. The allocation of a folder is specified in whole numbers
  (\<open>alloc\<close>), the floats of the code are shown to carry it exactly, the walk up the tree is shown to find
  the one ceiling a change reaches, and setting the quota of an environment is shown to accept exactly what
  fits and to keep every ceiling. The last part shows where other paths let a ceiling be overrun.
\<close>

subsection \<open>Whole numbers\<close>

definition units :: "string option \<Rightarrow> nat" where
  "units x = nat \<lfloor>or_zero (parse_quantity x)\<rfloor>"

text \<open>No quantity, or a whole number of cores or bytes.\<close>

definition whole :: "string option \<Rightarrow> bool" where
  "whole x \<longleftrightarrow> parse_quantity x = (if truthy x then Some (of_nat (units x)) else None)"

lemma units_falsy [simp]: "\<not> truthy x \<Longrightarrow> units x = 0"
  by (cases x) (auto simp: units_def or_zero_def parse_quantity_def strip_def lstrip_def rstrip_def)

lemma whole_parse: "whole x \<Longrightarrow> parse_quantity x = Some v \<Longrightarrow> v = of_nat (units x)"
  by (auto simp: whole_def split: if_splits)

lemma whole_zero: "whole x \<Longrightarrow> parse_quantity x = None \<Longrightarrow> units x = 0"
  by (auto simp: whole_def split: if_splits)

definition ns_units :: "resource_quota list \<Rightarrow> quota_field \<Rightarrow> nat" where
  "ns_units qs f = (\<Sum>q\<leftarrow>qs. units (hard_of q f))"

lemma rnd_nat: "n < 2 ^ 53 \<Longrightarrow> rnd (of_nat n) = of_nat n"
  using rnd_int [of "int n"] by simp

lemma rnd_add_nat: "a + b < 2 ^ 53 \<Longrightarrow> rnd (of_nat a + of_nat b) = of_nat (a + b)"
  using rnd_nat [of "a + b"] by simp

lemma all_fields: "(\<forall>f \<in> set FIELDS. P f) \<longleftrightarrow> (\<forall>f. P f)"
proof
  assume *: "\<forall>f \<in> set FIELDS. P f"
  show "\<forall>f. P f"
  proof
    fix f show "P f" using * by (cases f) (simp_all add: FIELDS_def)
  qed
qed simp

lemma field_in: "f \<in> set FIELDS"
  by (cases f) (simp_all add: FIELDS_def)

lemma add_value_whole:
  assumes "whole (a f)" "n f + units (a f) < 2 ^ 53"
  shows "add_value a (\<lambda>g. of_nat (n g)) f = (\<lambda>g. of_nat ((n(f := n f + units (a f))) g))"
proof (cases "parse_quantity (a f)")
  case None
  then show ?thesis using whole_zero [OF assms(1) None] by (simp add: add_value_def fun_eq_iff)
next
  case (Some v)
  have v: "v = of_nat (units (a f))" by (rule whole_parse [OF assms(1) Some])
  show ?thesis using rnd_add_nat [OF assms(2)] by (auto simp: add_value_def Some v fun_eq_iff)
qed

lemma add_values_whole:
  assumes "\<And>f. whole (a f)" "\<And>f. n f + units (a f) < 2 ^ 53"
  shows "foldl (add_value a) (\<lambda>g. of_nat (n g)) FIELDS = (\<lambda>g. of_nat (n g + units (a g)))"
proof -
  have "foldl (add_value a) (\<lambda>g. of_nat (n g)) FIELDS = (\<lambda>g. of_nat ((n(Cpu := n Cpu + units (a Cpu),
      Memory := n Memory + units (a Memory), Storage := n Storage + units (a Storage))) g))"
    unfolding FIELDS_def foldl_Cons foldl_Nil
    using add_value_whole [of a Cpu n] add_value_whole [of a Memory "n(Cpu := n Cpu + units (a Cpu))"]
      add_value_whole [of a Storage "n(Cpu := n Cpu + units (a Cpu), Memory := n Memory + units (a Memory))"] assms
    by simp
  also have "\<dots> = (\<lambda>g. of_nat (n g + units (a g)))"
  proof
    fix g show "of_nat ((n(Cpu := n Cpu + units (a Cpu), Memory := n Memory + units (a Memory),
      Storage := n Storage + units (a Storage))) g) = of_nat (n g + units (a g))" by (cases g) simp_all
  qed
  finally show ?thesis .
qed

lemma add_hards_whole:
  assumes "\<And>q f. q \<in> set qs \<Longrightarrow> whole (hard_of q f)" "\<And>f. n f + ns_units qs f < 2 ^ 53"
  shows "foldl add_hard (\<lambda>g. of_nat (n g)) qs = (\<lambda>g. of_nat (n g + ns_units qs g))"
  using assms
proof (induction qs arbitrary: n)
  case (Cons q qs)
  have b: "n f + units (hard_of q f) + ns_units qs f < 2 ^ 53" for f using Cons.prems(2) [of f] by (simp add: ns_units_def)
  then have c: "n f + units (hard_of q f) < 2 ^ 53" for f using add_lessD1 by blast
  have "add_hard (\<lambda>g. of_nat (n g)) q = (\<lambda>g. of_nat (n g + units (hard_of q g)))"
    unfolding add_hard_def by (rule add_values_whole) (use Cons.prems(1) c in auto)
  then show ?case
    using Cons.IH [of "\<lambda>g. n g + units (hard_of q g)"] Cons.prems(1) b by (simp add: ns_units_def add.assoc)
qed (simp add: ns_units_def)

subsection \<open>A server nobody else writes to\<close>

text \<open>The documented behaviour of the calls on ResourceQuotas, while only the modelled request writes.
  \<open>quotas\<close> and \<open>envs\<close> are the objects of a namespace and the namespaces of a folder.\<close>

definition quota_server ::
  "('w \<Rightarrow> string \<Rightarrow> resource_quota list) \<Rightarrow> ('w \<Rightarrow> string \<Rightarrow> string list) \<Rightarrow> 'w quota_api \<Rightarrow> bool" where
  "quota_server quotas envs api \<longleftrightarrow>
     (\<forall>f w. qa_list_ns api f w = (Inr (envs w f), w))
   \<and> (\<forall>ns w. qa_list api ns w = (Inr (quotas w ns), w))
   \<and> (\<forall>ns w. snd (qa_read_ns api ns w) = w)
   \<and> (\<forall>ns n w. if n \<in> rq_name ` set (quotas w ns)
        then \<exists>w'. qa_delete api ns n w = (Inr (), w') \<and> envs w' = envs w
               \<and> quotas w' = (quotas w)(ns := filter (\<lambda>q. rq_name q \<noteq> n) (quotas w ns))
        else qa_delete api ns n w = (Inl (ApiException 404), w))
   \<and> (\<forall>ns b w. if rq_name b \<in> rq_name ` set (quotas w ns)
        then \<exists>w'. qa_replace api ns b w = (Inr (), w') \<and> envs w' = envs w
               \<and> quotas w' = (quotas w)(ns := map (\<lambda>q. if rq_name q = rq_name b then q\<lparr>rq_hard := rq_hard b\<rparr> else q) (quotas w ns))
        else qa_replace api ns b w = (Inl (ApiException 404), w)
           \<and> (\<exists>w'. qa_create api ns b w = (Inr (), w') \<and> envs w' = envs w \<and> quotas w' = (quotas w)(ns := quotas w ns @ [b])))"

lemma quota_serverD:
  assumes "quota_server quotas envs api"
  shows "qa_list_ns api f w = (Inr (envs w f), w)" "qa_list api ns w = (Inr (quotas w ns), w)"
    "snd (qa_read_ns api ns w) = w"
  using assms by (simp_all add: quota_server_def)

definition own :: "(string \<Rightarrow> resource_quota list) \<Rightarrow> (string \<Rightarrow> string list) \<Rightarrow> string \<Rightarrow> quota_field \<Rightarrow> nat" where
  "own quotas envs n f = (\<Sum>ns\<leftarrow>envs n. ns_units (quotas ns) f)"

text \<open>What a folder's ceiling covers, as a specification in whole numbers.\<close>

fun alloc :: "folder_meta dict \<Rightarrow> (string \<Rightarrow> quota_field \<Rightarrow> nat) \<Rightarrow> nat \<Rightarrow> string \<Rightarrow> quota_field \<Rightarrow> nat" where
  "alloc folders spent 0 n f = 0"
| "alloc folders spent (Suc d) n f =
     spent n f + (\<Sum>c\<leftarrow>direct_children folders n. case declared folders c f of Some v \<Rightarrow> nat \<lfloor>v\<rfloor> | None \<Rightarrow> alloc folders spent d c f)"

text \<open>The recursion ends within the limit.\<close>

fun deep :: "folder_meta dict \<Rightarrow> nat \<Rightarrow> string \<Rightarrow> bool" where
  "deep folders 0 n = False"
| "deep folders (Suc d) n = list_all (\<lambda>c. list_all (\<lambda>f. declared folders c f \<noteq> None) FIELDS \<or> deep folders d c) (direct_children folders n)"

definition whole_folders :: "folder_meta dict \<Rightarrow> bool" where
  "whole_folders folders \<longleftrightarrow> (\<forall>n m f. dict_get folders n = Some m \<longrightarrow> whole (quota_of (quota m) f))"

lemma declared_whole: "whole_folders folders \<Longrightarrow> declared folders n f = Some v \<Longrightarrow> v = of_nat (nat \<lfloor>v\<rfloor>)"
  using whole_parse by (fastforce simp: declared_def whole_folders_def split: option.splits)

lemma sum_quotas_server:
  assumes "quota_server quotas envs api" "\<And>ns q f. q \<in> set (quotas w ns) \<Longrightarrow> whole (hard_of q f)"
    and "\<And>f. n f + (\<Sum>ns\<leftarrow>nss. ns_units (quotas w ns) f) < 2 ^ 53"
  shows "sum_quotas api (\<lambda>g. of_nat (n g)) nss w = (Inr (\<lambda>g. of_nat (n g + (\<Sum>ns\<leftarrow>nss. ns_units (quotas w ns) g))), w)"
  using assms(3)
proof (induction nss arbitrary: n)
  case (Cons ns nss)
  have b: "n f + ns_units (quotas w ns) f + (\<Sum>ns\<leftarrow>nss. ns_units (quotas w ns) f) < 2 ^ 53" for f
    using Cons.prems [of f] by simp
  then have c: "n f + ns_units (quotas w ns) f < 2 ^ 53" for f using add_lessD1 by blast
  have "foldl add_hard (\<lambda>g. of_nat (n g)) (quotas w ns) = (\<lambda>g. of_nat (n g + ns_units (quotas w ns) g))"
    by (rule add_hards_whole) (use assms(2) c in auto)
  then have "sum_quotas api (\<lambda>g. of_nat (n g)) (ns # nss) w
      = sum_quotas api (\<lambda>g. of_nat (n g + ns_units (quotas w ns) g)) nss w"
    by (simp add: bind_io_def catch_io_def quota_serverD(2) [OF assms(1)])
  then show ?case using Cons.IH [of "\<lambda>g. n g + ns_units (quotas w ns) g"] b by (simp add: add.assoc)
qed simp

lemma own_env_quota_server:
  assumes "quota_server quotas envs api" "\<And>ns q f. q \<in> set (quotas w ns) \<Longrightarrow> whole (hard_of q f)"
    and "\<And>f. own (quotas w) (envs w) n f < 2 ^ 53"
  shows "own_env_quota api n w = (Inr (\<lambda>g. of_nat (own (quotas w) (envs w) n g)), w)"
  using sum_quotas_server [where n = "\<lambda>_. 0" and nss = "envs w n" and w = w, OF assms(1,2)] assms(3)
  by (simp add: own_env_quota_def own_def bind_io_def catch_io_def quota_serverD(1) [OF assms(1)])

lemma alloc_mono: "alloc folders spent d n f \<le> alloc folders spent (Suc d) n f"
proof (induction d arbitrary: n)
  case (Suc d)
  have "(case declared folders c f of None \<Rightarrow> alloc folders spent d c f | Some v \<Rightarrow> nat \<lfloor>v\<rfloor>)
      \<le> (case declared folders c f of None \<Rightarrow> alloc folders spent (Suc d) c f | Some v \<Rightarrow> nat \<lfloor>v\<rfloor>)" for c
    using Suc.IH [of c] by (cases "declared folders c f") simp_all
  then show ?case
    by (simp only: alloc.simps(2) [of folders spent d n f] alloc.simps(2) [of folders spent "Suc d" n f]) (intro add_mono sum_list_mono; simp)
qed simp

text \<open>One child's share.\<close>

definition share :: "folder_meta dict \<Rightarrow> (string \<Rightarrow> quota_field \<Rightarrow> nat) \<Rightarrow> nat \<Rightarrow> quota_field \<Rightarrow> string \<Rightarrow> nat" where
  "share folders spent d f c = (case declared folders c f of Some v \<Rightarrow> nat \<lfloor>v\<rfloor> | None \<Rightarrow> alloc folders spent d c f)"

lemma alloc_Suc: "alloc folders spent (Suc d) n f = spent n f + (\<Sum>c\<leftarrow>direct_children folders n. share folders spent d f c)"
  by (simp add: share_def)

lemma add_children_server:
  assumes "whole_folders folders"
    and "\<And>c. c \<in> set cs \<Longrightarrow> list_all (\<lambda>f. declared folders c f \<noteq> None) FIELDS \<or>
           allocated_env_quota api folders d c w = (Inr (\<lambda>f. of_nat (alloc folders spent d c f)), w)"
    and "\<And>f. n f + (\<Sum>c\<leftarrow>cs. share folders spent d f c) < 2 ^ 53"
  shows "add_children api folders d cs (\<lambda>f. of_nat (n f)) w
           = (Inr (\<lambda>f. of_nat (n f + (\<Sum>c\<leftarrow>cs. share folders spent d f c))), w)"
  using assms(2,3)
proof (induction cs arbitrary: n)
  case (Cons c cs)
  let ?sh = "\<lambda>f. share folders spent d f c"
  have b: "n f + ?sh f + (\<Sum>c\<leftarrow>cs. share folders spent d f c) < 2 ^ 53" for f using Cons.prems(2) [of f] by simp
  then have r: "rnd (of_nat (n f) + of_nat (?sh f)) = of_nat (n f + ?sh f)" for f using rnd_add_nat add_lessD1 by blast
  obtain nested where nested: "(if list_ex (\<lambda>f. declared folders c f = None) FIELDS then allocated_env_quota api folders d c else ret (\<lambda>_. 0)) w
      = (Inr nested, w)" and val: "(case declared folders c f of Some v \<Rightarrow> v | None \<Rightarrow> nested f) = of_nat (?sh f)" for f
  proof (cases "list_ex (\<lambda>f. declared folders c f = None) FIELDS")
    case True
    then have "\<not> list_all (\<lambda>f. declared folders c f \<noteq> None) FIELDS" by (auto simp: list_all_iff list_ex_iff)
    then have a: "allocated_env_quota api folders d c w = (Inr (\<lambda>f. of_nat (alloc folders spent d c f)), w)"
      using Cons.prems(1) [of c] by simp
    show ?thesis
      by (rule that [of "\<lambda>f. of_nat (alloc folders spent d c f)"])
        (use True a declared_whole [OF assms(1)] in \<open>auto simp: share_def split: option.splits\<close>)
  next
    case False
    have some: "\<exists>v. declared folders c f = Some v" for f using False field_in [of f] by (auto simp: list_ex_iff)
    show ?thesis
    proof (rule that [of "\<lambda>_. 0"])
      show "(case declared folders c f of Some v \<Rightarrow> v | None \<Rightarrow> 0) = of_nat (?sh f)" for f
        using some [of f] declared_whole [OF assms(1)] by (auto simp: share_def)
    qed (use False in simp)
  qed
  have "add_children api folders d (c # cs) (\<lambda>f. of_nat (n f)) w = add_children api folders d cs (\<lambda>f. of_nat (n f + ?sh f)) w"
    unfolding add_children.simps(2) bind_io_ok [of "if list_ex (\<lambda>f. declared folders c f = None) FIELDS then allocated_env_quota api folders d c else ret (\<lambda>_. 0)", OF nested] val r ..
  then show ?case using Cons.IH [of "\<lambda>f. n f + ?sh f"] Cons.prems(1) b by (simp add: add.assoc)
qed simp

lemma allocated_server:
  assumes "quota_server quotas envs api" "\<And>ns q f. q \<in> set (quotas w ns) \<Longrightarrow> whole (hard_of q f)" "whole_folders folders"
    and "\<And>n f. alloc folders (own (quotas w) (envs w)) d n f < 2 ^ 53" "deep folders d n"
  shows "allocated_env_quota api folders d n w = (Inr (\<lambda>f. of_nat (alloc folders (own (quotas w) (envs w)) d n f)), w)"
  using assms(4,5)
proof (induction d arbitrary: n)
  case (Suc d)
  let ?own = "own (quotas w) (envs w)"
  have le: "alloc folders ?own d m f < 2 ^ 53" for m f using alloc_mono Suc.prems(1) le_less_trans by blast
  have s: "?own n f + (\<Sum>c\<leftarrow>direct_children folders n. share folders ?own d f c) < 2 ^ 53" for f
    using Suc.prems(1) [of n f] by (simp only: alloc_Suc)
  have own: "own_env_quota api n w = (Inr (\<lambda>g. of_nat (?own n g)), w)"
    by (rule own_env_quota_server [OF assms(1,2)]) (use s add_lessD1 in blast)+
  have "add_children api folders d (direct_children folders n) (\<lambda>f. of_nat (?own n f)) w
      = (Inr (\<lambda>f. of_nat (?own n f + (\<Sum>c\<leftarrow>direct_children folders n. share folders ?own d f c))), w)"
    using Suc.prems(2) Suc.IH le s by (intro add_children_server [OF assms(3)]) (auto simp: list_all_iff)
  then show ?case unfolding allocated_env_quota.simps(2) bind_io_ok [of "own_env_quota api n", OF own] alloc_Suc .
qed simp

subsection \<open>Which allocations a change reaches\<close>

inductive reaches :: "folder_meta dict \<Rightarrow> quota_field \<Rightarrow> string \<Rightarrow> string \<Rightarrow> bool" for folders f name where
  here: "reaches folders f name name"
| up: "reaches folders f name c \<Longrightarrow> declared folders c f = None \<Longrightarrow> parent_of folders c = Some n \<Longrightarrow> reaches folders f name n"

lemma reaches_rel: "reaches folders f name n \<Longrightarrow> (name, n) \<in> (parent_rel folders)\<^sup>*"
  by (induction rule: reaches.induct) (auto simp: parent_rel_def intro: rtrancl_into_rtrancl)

lemma parent_single: "single_valued (parent_rel folders)"
  by (simp add: single_valued_def parent_rel_def)

lemma one_way_up:
  assumes "acyclic (parent_rel folders)" "(a, c) \<in> (parent_rel folders)\<^sup>*" "(a, e) \<in> (parent_rel folders)\<^sup>*"
    and "(c, n) \<in> parent_rel folders" "(e, n) \<in> parent_rel folders"
  shows "c = e"
proof -
  have "x = y" if "(x, y) \<in> (parent_rel folders)\<^sup>*" "(x, n) \<in> parent_rel folders" "(y, n) \<in> parent_rel folders" for x y
    using that(1)
  proof (cases rule: converse_rtranclE)
    case (step z)
    then have "z = n" using that(2) by (simp add: parent_rel_def)
    then have "(n, n) \<in> (parent_rel folders)\<^sup>+" using step(2) that(3) by auto
    then show ?thesis using assms(1) by (auto simp: acyclic_def)
  qed simp
  then show ?thesis using single_valued_confluent [OF parent_single assms(2,3)] assms(4,5) by metis
qed

lemma sum_one:
  fixes g h :: "'a \<Rightarrow> nat"
  assumes "distinct xs" "c \<in> set xs" "g c + a = h c + b" "\<And>x. x \<in> set xs \<Longrightarrow> x \<noteq> c \<Longrightarrow> g x = h x"
  shows "(\<Sum>x\<leftarrow>xs. g x) + a = (\<Sum>x\<leftarrow>xs. h x) + b"
  using assms
proof (induction xs)
  case (Cons x xs)
  show ?case
  proof (cases "x = c")
    case True
    then have "(\<Sum>x\<leftarrow>xs. g x) = (\<Sum>x\<leftarrow>xs. h x)" using Cons.prems by (intro arg_cong [of _ _ sum_list] map_cong) auto
    then show ?thesis using True Cons.prems(3) by simp
  qed (use Cons in auto)
qed simp

lemma children_iff: "tree_ok folders \<Longrightarrow> c \<in> set (direct_children folders n) \<longleftrightarrow> parent_of folders c = Some n"
  using children_of_set [of folders n] by (auto simp: direct_children_def children_of_def tree_ok_def parent_rel_def)

lemma children_distinct: "tree_ok folders \<Longrightarrow> distinct (direct_children folders n)"
  by (auto simp: direct_children_def tree_ok_def distinct_map elim: inj_on_subset)

lemma alloc_change:
  assumes t: "tree_ok folders" and out: "\<And>n. n \<noteq> name \<Longrightarrow> spent' n f = spent n f"
    and name: "spent' name f + a = spent name f + b" and "deep folders d n"
  shows "if reaches folders f name n then alloc folders spent' d n f + a = alloc folders spent d n f + b
         else alloc folders spent' d n f = alloc folders spent d n f"
  using assms(4)
proof (induction d arbitrary: n)
  case (Suc d)
  let ?cs = "direct_children folders n"
  let ?g = "share folders spent' d f" and ?h = "share folders spent d f"
  have ac: "acyclic (parent_rel folders)" using t by (simp add: tree_ok_def)
  have child: "parent_of folders c = Some n" if "c \<in> set ?cs" for c using that children_iff [OF t] by blast
  have same: "?g c = ?h c" if "c \<in> set ?cs" "\<not> (declared folders c f = None \<and> reaches folders f name c)" for c
  proof (cases "declared folders c f")
    case None
    then have "deep folders d c" using Suc.prems that(1) field_in [of f] by (force simp: list_all_iff)
    then show ?thesis using Suc.IH [of c] that(2) None by (simp add: share_def)
  qed (simp add: share_def)
  show ?case
  proof (cases "reaches folders f name n")
    case False
    then have "?g c = ?h c" if "c \<in> set ?cs" for c using that same child up by blast
    then have "map ?g ?cs = map ?h ?cs" by simp
    moreover have "n \<noteq> name" using False here by blast
    ultimately show ?thesis using False out [of n] by (simp only: alloc_Suc if_False) simp
  next
    case True
    show ?thesis
    proof (cases "n = name")
      case at: True
      have "\<not> reaches folders f name c" if "c \<in> set ?cs" for c
      proof
        assume "reaches folders f name c"
        then have "(name, c) \<in> (parent_rel folders)\<^sup>*" by (rule reaches_rel)
        moreover have "(c, name) \<in> parent_rel folders" using child [OF that] at by (simp add: parent_rel_def)
        ultimately show False using ac by (auto simp: acyclic_def dest: rtrancl_into_trancl1)
      qed
      then have "map ?g ?cs = map ?h ?cs" using same by simp
      then show ?thesis using True name at by (simp only: alloc_Suc if_True)
    next
      case False
      then obtain c where c: "reaches folders f name c" "declared folders c f = None" "parent_of folders c = Some n"
        using True by (auto elim: reaches.cases)
      then have in_c: "c \<in> set ?cs" using children_iff [OF t] by blast
      then have "deep folders d c" using Suc.prems c(2) field_in [of f] by (force simp: list_all_iff)
      then have gc: "?g c + a = ?h c + b" using Suc.IH [of c] c by (simp add: share_def)
      have "?g x = ?h x" if "x \<in> set ?cs" "x \<noteq> c" for x
      proof (rule same [OF that(1)])
        show "\<not> (declared folders x f = None \<and> reaches folders f name x)"
          using one_way_up [OF ac reaches_rel reaches_rel] c(1,3) child [OF that(1)] that(2) by (auto simp: parent_rel_def)
      qed
      then have "(\<Sum>x\<leftarrow>?cs. ?g x) + a = (\<Sum>x\<leftarrow>?cs. ?h x) + b" using sum_one [of ?cs c ?g a ?h b] children_distinct [OF t] in_c gc by blast
      then show ?thesis using True out [OF False] by (simp only: alloc_Suc if_True)
    qed
  qed
qed simp

lemma find_after: "find P xs = None \<Longrightarrow> find P (xs @ ys) = find P ys"
  by (induction xs) (auto split: if_splits)

lemma folder_chain_prefix: "\<exists>r. folder_chain folders chain visited current = chain @ r"
proof (induction folders chain visited current rule: folder_chain.induct)
  case (1 folders chain visited current)
  then show ?case by (subst folder_chain.simps) (auto simp: Let_def)
qed

lemma reaches_declared: "reaches folders f p n \<Longrightarrow> declared folders p f \<noteq> None \<Longrightarrow> n = p"
  by (induction rule: reaches.induct) auto

lemma reaches_up:
  assumes "reaches folders f a n" "n \<noteq> a" "parent_of folders a = Some p"
  shows "reaches folders f p n"
  using assms
proof (induction rule: reaches.induct)
  case (up c n)
  show ?case
  proof (cases "c = a")
    case True
    then show ?thesis using up here by auto
  qed (use up reaches.up in blast)
qed simp

lemma reaches_parent:
  assumes "reaches folders f a n" "n \<noteq> a"
  obtains p where "parent_of folders a = Some p" "reaches folders f p n"
proof -
  have "\<exists>p. parent_of folders a = Some p" using assms by (induction rule: reaches.induct) auto
  then show ?thesis using that reaches_up [OF assms] by blast
qed

lemma chain_finds:
  assumes ac: "acyclic (parent_rel folders)" and root: "dict_get folders [] = None"
    and n: "declared folders n f = Some v"
  shows "find (\<lambda>m. declared folders m f \<noteq> None) chain = None \<Longrightarrow> reaches folders f current n \<Longrightarrow> current \<in> set chain
    \<Longrightarrow> (\<forall>x \<in> set visited. (x, current) \<in> (parent_rel folders)\<^sup>*)
    \<Longrightarrow> find (\<lambda>m. declared folders m f \<noteq> None) (folder_chain folders chain visited current) = Some n"
  using assms
proof (induction folders chain visited current rule: folder_chain.induct)
  case (1 folders chain visited current)
  let ?P = "\<lambda>m. declared folders m f \<noteq> None"
  have "n \<noteq> current" using 1 by (auto simp: find_None_iff)
  then obtain p where p: "parent_of folders current = Some p" "reaches folders f p n"
    using reaches_parent [OF "1.prems"(2)] by blast
  have rel: "(current, p) \<in> parent_rel folders" using p(1) by (simp add: parent_rel_def)
  have pt: "p \<noteq> []"
  proof
    assume "p = []"
    moreover have "n \<noteq> []" using "1.prems"(6,7) by (auto simp: declared_def)
    ultimately show False using p(2) reaches_parent [of folders f "[]" n] "1.prems"(6) by (auto simp: parent_of_def)
  qed
  have new: "p \<notin> set visited"
  proof
    assume "p \<in> set visited"
    then have "(p, p) \<in> (parent_rel folders)\<^sup>+" using "1.prems"(4) rel by (blast intro: rtrancl_into_trancl1)
    then show False using "1.prems"(5) by (auto simp: acyclic_def)
  qed
  have step: "folder_chain folders chain visited current = folder_chain folders (chain @ [p]) (p # visited) p"
    by (subst folder_chain.simps) (use p(1) pt new in \<open>simp add: Let_def\<close>)
  show ?case
  proof (cases "?P p")
    case True
    then have "n = p" using reaches_declared p(2) by blast
    then show ?thesis using True find_after [OF "1.prems"(1)] folder_chain_prefix [of folders "chain @ [p]" "p # visited" p]
      by (auto simp: step)
  next
    case False
    have "find ?P (chain @ [p]) = None" using False "1.prems"(1) by (auto simp: find_None_iff)
    moreover have "\<forall>x \<in> set (p # visited). (x, p) \<in> (parent_rel folders)\<^sup>*"
      using "1.prems"(4) rel by (auto intro: rtrancl_into_rtrancl)
    ultimately show ?thesis
      unfolding step using "1.IH" [OF refl] p pt new "1.prems"(5-7) by simp
  qed
qed

lemma ceiling_holder_reaches:
  assumes "tree_ok folders" "dict_get folders [] = None" "name \<noteq> []" "reaches folders f name n" "declared folders n f = Some v"
  shows "ceiling_holder folders name f = Some (n, v)"
proof -
  let ?P = "\<lambda>m. declared folders m f \<noteq> None"
  have "find ?P (folder_chain folders [name] [name] name) = Some n"
  proof (cases "?P name")
    case True
    then have "n = name" using reaches_declared assms(4) by blast
    then show ?thesis using True folder_chain_prefix [of folders "[name]" "[name]" name] by auto
  next
    case False
    show ?thesis by (rule chain_finds) (use False assms in \<open>auto simp: tree_ok_def\<close>)
  qed
  then show ?thesis using assms(3,5) by (simp add: ceiling_holder_def)
qed

subsection \<open>Requests on a server nobody else writes to\<close>

definition used_of :: "resource_quota \<Rightarrow> asked" where
  "used_of q f = dict_get (rq_used q) (request_key f)"

text \<open>Whole quantities, sums that a float holds, a tree within the recursion limit.\<close>

definition exact_state :: "folder_meta dict \<Rightarrow> (string \<Rightarrow> resource_quota list) \<Rightarrow> (string \<Rightarrow> string list) \<Rightarrow> nat \<Rightarrow> bool" where
  "exact_state folders quotas envs depth \<longleftrightarrow>
     tree_ok folders \<and> dict_get folders [] = None \<and> whole_folders folders
   \<and> (\<forall>ns. \<forall>q \<in> set (quotas ns). \<forall>f. whole (hard_of q f) \<and> whole (used_of q f))
   \<and> (\<forall>n f v. declared folders n f = Some v \<longrightarrow> v \<le> 2 ^ 50)
   \<and> (\<forall>n f. alloc folders (own quotas envs) depth n f \<le> 2 ^ 50) \<and> (\<forall>n. deep folders depth n)"

definition ceilings_hold :: "folder_meta dict \<Rightarrow> (string \<Rightarrow> resource_quota list) \<Rightarrow> (string \<Rightarrow> string list) \<Rightarrow> nat \<Rightarrow> bool" where
  "ceilings_hold folders quotas envs depth \<longleftrightarrow>
     (\<forall>n f v. declared folders n f = Some v \<longrightarrow> of_nat (alloc folders (own quotas envs) depth n f) \<le> v)"

lemma load_allocations_server:
  assumes "quota_server quotas envs api" "exact_state folders (quotas w) (envs w) depth"
    and "\<And>h t. dict_get acc h = Some t \<Longrightarrow> t = (\<lambda>f. of_nat (alloc folders (own (quotas w) (envs w)) depth h f))"
  shows "\<exists>acc'. load_allocations api folders depth acc hs w = (Inr acc', w)
           \<and> (\<forall>h. h \<in> set hs \<or> dict_get acc h \<noteq> None \<longrightarrow>
                dict_get acc' h = Some (\<lambda>f. of_nat (alloc folders (own (quotas w) (envs w)) depth h f)))"
  using assms(3)
proof (induction hs arbitrary: acc)
  case (Cons h hs)
  let ?A = "\<lambda>h f. of_nat (alloc folders (own (quotas w) (envs w)) depth h f) :: rat"
  show ?case
  proof (cases "dict_get acc h")
    case None
    have "alloc folders (own (quotas w) (envs w)) depth n f < 2 ^ 53" for n f
    proof (rule le_less_trans)
      show "alloc folders (own (quotas w) (envs w)) depth n f \<le> 2 ^ 50" using assms(2) by (simp add: exact_state_def)
    qed simp
    then have a: "allocated_env_quota api folders depth h w = (Inr (?A h), w)"
      using assms(2) by (intro allocated_server [OF assms(1)]) (auto simp: exact_state_def)
    have "t = ?A k" if "dict_get (dict_set acc h (?A h)) k = Some t" for k t
      using that Cons.prems [of k t] by (simp add: update_conv' split: if_splits)
    from Cons.IH [OF this] obtain acc' where acc': "load_allocations api folders depth (dict_set acc h (?A h)) hs w = (Inr acc', w)"
      "\<forall>k. k \<in> set hs \<or> dict_get (dict_set acc h (?A h)) k \<noteq> None \<longrightarrow> dict_get acc' k = Some (?A k)" by blast
    have "load_allocations api folders depth acc (h # hs) w = (Inr acc', w)"
      using None acc'(1) by (simp add: bind_io_ok [of "allocated_env_quota api folders depth h", OF a])
    then show ?thesis using acc'(2) by (intro exI [of _ acc']) (auto simp: update_conv')
  next
    case (Some t)
    obtain acc' where acc': "load_allocations api folders depth acc hs w = (Inr acc', w)"
      "\<forall>k. k \<in> set hs \<or> dict_get acc k \<noteq> None \<longrightarrow> dict_get acc' k = Some (?A k)" using Cons.IH [OF Cons.prems] by blast
    then show ?thesis using Some by auto
  qed
qed (use assms(3) in \<open>auto\<close>)

lemma excluded_server:
  assumes "quota_server quotas envs api" "\<And>q f. q \<in> set (quotas w ns) \<Longrightarrow> whole (hard_of q f)" "\<And>f. ns_units (quotas w ns) f < 2 ^ 53" "ns \<noteq> []"
  shows "excluded_quota api (Some ns) w = (Inr (\<lambda>f. of_nat (ns_units (quotas w ns) f)), w)"
  using add_hards_whole [of "quotas w ns" "\<lambda>_. 0"] assms(2-4)
  by (simp add: excluded_quota_def bind_io_def catch_io_def quota_serverD(2) [OF assms(1)])

lemma field_fits_whole:
  assumes "A \<le> 2 ^ 50" "e \<le> 2 ^ 50" "limit \<le> 2 ^ 50"
  shows "field_fits (of_nat want) (of_nat limit) (of_nat A) (of_nat e) \<longleftrightarrow> want \<le> e \<or> want + A \<le> limit + e"
proof -
  have d: "rnd (of_nat A - of_nat e) = of_int (int A - int e)" using rnd_diff_int [of "int A" "int e"] assms by simp
  have l: "rnd (of_nat limit - of_int (int A - int e)) = of_int (int limit - (int A - int e))"
    using rnd_diff_int [of "int limit" "int A - int e"] assms by simp
  have e: "(of_nat want :: rat) \<le> rnd (of_nat e + EPS) \<longleftrightarrow> want \<le> e"
    using within_tolerance_iff [of "int want" "int e"] assms(2) by simp
  have "(of_nat want :: rat) \<le> rnd (of_int (int limit - (int A - int e)) + EPS) \<longleftrightarrow> int want \<le> int limit - (int A - int e)"
    using within_tolerance_iff [of "int want" "int limit - (int A - int e)"] assms by simp
  then show ?thesis unfolding field_fits_def d l e by auto
qed

text \<open>The check is exact: it accepts if and only if the request fits under the ceiling that binds, or asks for
  no more than is held.\<close>

definition room_for :: "folder_meta dict \<Rightarrow> (string \<Rightarrow> quota_field \<Rightarrow> nat) \<Rightarrow> nat \<Rightarrow> string \<Rightarrow> asked \<Rightarrow> (quota_field \<Rightarrow> nat) \<Rightarrow> bool" where
  "room_for folders spent depth name q held \<longleftrightarrow>
     (\<forall>f h v. truthy (q f) \<longrightarrow> ceiling_holder folders name f = Some (h, v) \<longrightarrow>
        units (q f) \<le> held f \<or> of_nat (units (q f) + alloc folders spent depth h f) \<le> v + of_nat (held f))"

lemma nil_or_all: "xs = [] \<or> list_all P xs \<longleftrightarrow> (\<forall>x \<in> set xs. P x)"
  by (auto simp: list_all_iff)

lemma or_if: "(if a then x else if b then x else y) = (if a \<or> b then x else y)"
  by simp

lemma held_all:
  assumes "\<And>f. f \<in> H \<longleftrightarrow> T f \<and> C f \<noteq> None" "\<And>f h v. T f \<Longrightarrow> C f = Some (h, v) \<Longrightarrow> F f \<longleftrightarrow> R f h v"
  shows "(\<forall>f \<in> H. F f) \<longleftrightarrow> (\<forall>f h v. T f \<longrightarrow> C f = Some (h, v) \<longrightarrow> R f h v)"
  using assms by fastforce

lemma ceiling_declared: "ceiling_holder folders name f = Some (h, v) \<Longrightarrow> declared folders h f = Some v"
  by (auto simp: ceiling_holder_def find_Some_iff split: if_splits option.splits)

lemma assert_within_server:
  assumes srv: "quota_server quotas envs api" and ex: "exact_state folders (quotas w) (envs w) depth"
    and held: "excluded_quota api exclude w = (Inr (\<lambda>f. of_nat (held f)), w)" "\<And>f. held f \<le> 2 ^ 50" and q: "\<And>f. whole (q f)"
  shows "assert_within_folder_quota api folders depth name q exclude w =
    (if room_for folders (own (quotas w) (envs w)) depth name q held then Inr () else Inl (HTTPException 409), w)"
proof -
  let ?A = "\<lambda>h f. alloc folders (own (quotas w) (envs w)) depth h f"
  let ?holders = "\<lambda>f. if parse_quantity (q f) = None then None else ceiling_holder folders name f"
  let ?held = "filter (\<lambda>f. ?holders f \<noteq> None) FIELDS"
  let ?hs = "map (\<lambda>f. fst (the (?holders f))) ?held"
  obtain acc where acc: "load_allocations api folders depth [] ?hs w = (Inr acc, w)"
    "\<And>h. h \<in> set ?hs \<Longrightarrow> dict_get acc h = Some (\<lambda>f. of_nat (?A h f))"
    using load_allocations_server [OF srv ex, of "[]" ?hs] by auto
  let ?fits = "\<lambda>f. field_fits (the (parse_quantity (q f))) (snd (the (?holders f)))
                     (the (dict_get acc (fst (the (?holders f)))) f) (of_nat (held f))"
  have run: "assert_within_folder_quota api folders depth name q exclude w
      = (if ?held = [] then (Inr (), w) else if list_all ?fits ?held then (Inr (), w) else (Inl (HTTPException 409), w))"
    unfolding assert_within_folder_quota_def Let_def
    by (simp only: if_distribR bind_io_ok [of "load_allocations api folders depth [] ?hs", OF acc(1)]
        bind_io_ok [of "excluded_quota api exclude", OF held(1)] ret_app raise_app)
  have pq: "parse_quantity (q f) = (if truthy (q f) then Some (of_nat (units (q f))) else None)" for f using q [of f] by (simp add: whole_def)
  then have in_held: "f \<in> set ?held \<longleftrightarrow> truthy (q f) \<and> ceiling_holder folders name f \<noteq> None" for f using field_in [of f] by auto
  have fits: "?fits f \<longleftrightarrow> units (q f) \<le> held f \<or> of_nat (units (q f) + ?A h f) \<le> v + of_nat (held f)"
    if f: "truthy (q f)" "ceiling_holder folders name f = Some (h, v)" for f h v
  proof -
    have "h \<in> set ?hs" using f pq [of f] field_in [of f] by force
    then have "?fits f \<longleftrightarrow> field_fits (of_nat (units (q f))) v (of_nat (?A h f)) (of_nat (held f))" by (simp add: acc(2) f pq)
    moreover have v: "v = of_nat (nat \<lfloor>v\<rfloor>)" "v \<le> 2 ^ 50" "?A h f \<le> 2 ^ 50"
      using ex ceiling_declared [OF f(2)] declared_whole by (auto simp: exact_state_def)
    moreover have "nat \<lfloor>v\<rfloor> \<le> 2 ^ 50" using v(2) by (simp add: floor_le_iff nat_le_iff)
    ultimately show ?thesis
      using field_fits_whole [of "?A h f" "held f" "nat \<lfloor>v\<rfloor>" "units (q f)"] held(2) [of f] by (metis of_nat_add of_nat_le_iff)
  qed
  have "?held = [] \<or> list_all ?fits ?held \<longleftrightarrow> (\<forall>f \<in> set ?held. ?fits f)" by (rule nil_or_all)
  also have "\<dots> \<longleftrightarrow> room_for folders (own (quotas w) (envs w)) depth name q held"
    unfolding room_for_def by (rule held_all [OF in_held fits])
  finally have eq: "?held = [] \<or> list_all ?fits ?held \<longleftrightarrow> room_for folders (own (quotas w) (envs w)) depth name q held" .
  show ?thesis unfolding run or_if eq
    by (cases "room_for folders (own (quotas w) (envs w)) depth name q held") (simp_all only: if_True if_False)
qed

lemma quota_hard_get: "dict_get (quota_hard q) (request_key f) = (if truthy (q f) then q f else None)"
  by (cases f; cases "q Cpu"; cases "q Memory"; cases "q Storage") (simp_all add: quota_hard_def)

lemma quota_hard_empty: "quota_hard q = [] \<Longrightarrow> \<not> truthy (q f)"
  by (cases f) (auto simp: quota_hard_def split: if_splits)

lemma units_hard: "hard_of \<lparr>rq_name = n, rq_hard = quota_hard q, rq_used = u\<rparr> f = (if truthy (q f) then q f else None)"
  by (simp add: hard_of_def quota_hard_get)

text \<open>The environment has at most the one ResourceQuota the application writes.\<close>

definition own_quota_only :: "string \<Rightarrow> resource_quota list \<Rightarrow> bool" where
  "own_quota_only ns qs \<longleftrightarrow> qs = [] \<or> (\<exists>h u. qs = [\<lparr>rq_name = ns @ ''-quota'', rq_hard = h, rq_used = u\<rparr>])"

lemma write_env_quota_server:
  assumes srv: "quota_server quotas envs api" and only: "own_quota_only ns (quotas w ns)"
  shows "\<exists>w'. write_env_quota api ns q w = (Inr (), w') \<and> envs w' = envs w \<and> (\<forall>m. m \<noteq> ns \<longrightarrow> quotas w' m = quotas w m)
    \<and> (\<forall>f. ns_units (quotas w' ns) f = units (q f))"
proof (cases "quota_hard q = []")
  case True
  then have z: "units (q f) = 0" for f using quota_hard_empty by simp
  have del: "if n \<in> rq_name ` set (quotas w ns)
        then \<exists>w'. qa_delete api ns n w = (Inr (), w') \<and> envs w' = envs w
               \<and> quotas w' = (quotas w)(ns := filter (\<lambda>q. rq_name q \<noteq> n) (quotas w ns))
        else qa_delete api ns n w = (Inl (ApiException 404), w)" for n
    using srv by (simp add: quota_server_def)
  show ?thesis using del [of "ns @ ''-quota''"] only True
    by (auto simp: write_env_quota_def own_quota_only_def z ns_units_def catch_io_def Let_def split: if_splits)
next
  case False
  let ?b = "\<lparr>rq_name = ns @ ''-quota'', rq_hard = quota_hard q, rq_used = []\<rparr>"
  have rep: "if rq_name ?b \<in> rq_name ` set (quotas w ns)
        then \<exists>w'. qa_replace api ns ?b w = (Inr (), w') \<and> envs w' = envs w
               \<and> quotas w' = (quotas w)(ns := map (\<lambda>q. if rq_name q = rq_name ?b then q\<lparr>rq_hard := rq_hard ?b\<rparr> else q) (quotas w ns))
        else qa_replace api ns ?b w = (Inl (ApiException 404), w)
           \<and> (\<exists>w'. qa_create api ns ?b w = (Inr (), w') \<and> envs w' = envs w \<and> quotas w' = (quotas w)(ns := quotas w ns @ [?b]))"
    using srv unfolding quota_server_def by blast
  have u: "units (if truthy (q f) then q f else None) = units (q f)" for f by simp
  show ?thesis using rep only False
    by (auto simp: write_env_quota_def own_quota_only_def ns_units_def catch_io_def units_hard u Let_def)
qed

lemma own_change:
  assumes "distinct (envs name)" "ns \<in> set (envs name)" "\<And>n. n \<noteq> name \<Longrightarrow> ns \<notin> set (envs n)"
    and "\<And>m. m \<noteq> ns \<Longrightarrow> quotas' m = quotas m"
  shows "own quotas' envs name f + ns_units (quotas ns) f = own quotas envs name f + ns_units (quotas' ns) f"
    and "n \<noteq> name \<Longrightarrow> own quotas' envs n f = own quotas envs n f"
proof -
  show "own quotas' envs name f + ns_units (quotas ns) f = own quotas envs name f + ns_units (quotas' ns) f"
    unfolding own_def by (rule sum_one [OF assms(1,2)]) (use assms(4) in auto)
  show "own quotas' envs n f = own quotas envs n f" if "n \<noteq> name"
  proof -
    have "map (\<lambda>ns. ns_units (quotas' ns) f) (envs n) = map (\<lambda>ns. ns_units (quotas ns) f) (envs n)"
    proof (rule map_cong [OF refl])
      fix m assume "m \<in> set (envs n)"
      then have "m \<noteq> ns" using assms(3) [OF that] by blast
      then show "ns_units (quotas' m) f = ns_units (quotas m) f" using assms(4) by simp
    qed
    then show ?thesis by (simp only: own_def)
  qed
qed

lemma ns_units_le_alloc:
  assumes "ns \<in> set (envs name)" "deep folders depth name"
  shows "ns_units (quotas ns) f \<le> alloc folders (own quotas envs) depth name f"
proof -
  have "ns_units (quotas ns) f \<le> own quotas envs name f"
    using assms(1) by (auto simp: own_def intro: member_le_sum_list)
  also have "\<dots> \<le> alloc folders (own quotas envs) depth name f" using assms(2) by (cases depth) simp_all
  finally show ?thesis .
qed

text \<open>A request that fits leaves every ceiling respected: only the nearest folder that caps a field sees the change.\<close>

lemma ceilings_kept:
  assumes ex: "exact_state folders quotas envs depth" and inv: "ceilings_hold folders quotas envs depth" and "name \<noteq> []"
    and place: "distinct (envs name)" "ns \<in> set (envs name)" "\<And>n. n \<noteq> name \<Longrightarrow> ns \<notin> set (envs n)"
    and new: "\<And>m. m \<noteq> ns \<Longrightarrow> quotas' m = quotas m" "\<And>f. ns_units (quotas' ns) f = units (q f)"
    and fits: "room_for folders (own quotas envs) depth name q (ns_units (quotas ns))"
  shows "ceilings_hold folders quotas' envs depth"
  unfolding ceilings_hold_def
proof (intro allI impI)
  fix n f v assume n: "declared folders n f = Some v"
  let ?a = "alloc folders (own quotas envs) depth n f" and ?a' = "alloc folders (own quotas' envs) depth n f"
  let ?e = "ns_units (quotas ns) f"
  have t: "tree_ok folders" "dict_get folders [] = None" "deep folders depth n" using ex by (simp_all add: exact_state_def)
  have old: "of_nat ?a \<le> v" using inv n by (simp add: ceilings_hold_def)
  have ch: "if reaches folders f name n then ?a' + ?e = ?a + units (q f) else ?a' = ?a"
  proof (rule alloc_change [OF t(1) _ _ t(3)])
    show "own quotas' envs m f = own quotas envs m f" if "m \<noteq> name" for m
      by (rule own_change(2) [of envs name ns quotas' quotas]) (use place new(1) that in auto)
    show "own quotas' envs name f + ?e = own quotas envs name f + units (q f)"
      unfolding new(2) [symmetric] by (rule own_change(1) [of envs name ns quotas' quotas]) (use place new(1) in auto)
  qed
  show "of_nat ?a' \<le> v"
  proof (cases "reaches folders f name n \<and> \<not> units (q f) \<le> ?e")
    case True
    then have "truthy (q f)" using units_falsy [of "q f"] by fastforce
    then have "of_nat (units (q f) + ?a) \<le> v + of_nat ?e"
      using fits ceiling_holder_reaches [OF t(1,2) assms(3) _ n] True unfolding room_for_def by blast
    moreover have "of_nat (?a' + ?e) = (of_nat (units (q f) + ?a) :: rat)" using ch True by (simp only: if_True add.commute)
    ultimately show ?thesis by simp
  next
    case False
    then have "?a' \<le> ?a" using ch by (auto split: if_splits)
    then show ?thesis using old by (meson of_nat_mono order_trans)
  qed
qed

definition used_units :: "resource_quota list \<Rightarrow> quota_field \<Rightarrow> nat" where
  "used_units qs f = fold (\<lambda>q. max (units (used_of q f))) qs 0"

lemma max_used_whole:
  assumes "whole (used_of q f)"
  shows "max_used (rq_used q) (\<lambda>g. of_nat (n g)) f = (\<lambda>g. of_nat ((n(f := max (n f) (units (used_of q f)))) g))"
proof (cases "parse_quantity (used_of q f)")
  case None
  then show ?thesis using whole_zero [OF assms None] by (simp add: max_used_def used_of_def fun_eq_iff)
next
  case (Some v)
  have v: "v = of_nat (units (used_of q f))" by (rule whole_parse [OF assms Some])
  show ?thesis using Some by (auto simp: max_used_def used_of_def v fun_eq_iff max_def)
qed

lemma max_useds_whole:
  assumes "\<And>f. whole (used_of q f)"
  shows "foldl (max_used (rq_used q)) (\<lambda>g. of_nat (n g)) FIELDS = (\<lambda>g. of_nat (max (n g) (units (used_of q g))))"
proof
  fix g show "foldl (max_used (rq_used q)) (\<lambda>g. of_nat (n g)) FIELDS g = of_nat (max (n g) (units (used_of q g)))"
    unfolding FIELDS_def foldl_Cons foldl_Nil max_used_whole [OF assms] by (cases g) simp_all
qed

lemma env_quota_used_server:
  assumes "quota_server quotas envs api" "\<And>q f. q \<in> set (quotas w ns) \<Longrightarrow> whole (used_of q f)"
  shows "env_quota_used api ns w = (Inr (\<lambda>f. of_nat (used_units (quotas w ns) f)), w)"
proof -
  have "foldl (\<lambda>t q. foldl (max_used (rq_used q)) t FIELDS) (\<lambda>g. of_nat (n g)) qs = (\<lambda>g. of_nat (fold (\<lambda>q. max (units (used_of q g))) qs (n g)))"
    if "\<And>q f. q \<in> set qs \<Longrightarrow> whole (used_of q f)" for n qs
    using that
  proof (induction qs arbitrary: n)
    case (Cons q qs)
    then show ?case using Cons.IH [of "\<lambda>g. max (n g) (units (used_of q g))"] max_useds_whole [of q n] by (simp add: max.commute)
  qed simp
  from this [of "quotas w ns" "\<lambda>_. 0"] show ?thesis
    using assms(2) by (simp add: env_quota_used_def bind_io_def catch_io_def quota_serverD(2) [OF assms(1)] used_units_def)
qed

lemma not_below_use_server:
  assumes srv: "quota_server quotas envs api" and env: "\<not> ra_folder item"
    and used: "\<And>q f. q \<in> set (quotas w (ns_name_of name (ra_source item))) \<Longrightarrow> whole (used_of q f)"
    and q: "\<And>f. whole (ra_asked item f) \<and> units (ra_asked item f) \<le> 2 ^ 50"
  shows "assert_not_below_use api folders depth name item w =
    (if \<forall>f. truthy (ra_asked item f) \<longrightarrow> used_units (quotas w (ns_name_of name (ra_source item))) f \<le> units (ra_asked item f)
     then Inr () else Inl (HTTPException 409), w)"
proof -
  let ?u = "used_units (quotas w (ns_name_of name (ra_source item)))"
  have run: "env_quota_used api (ns_name_of name (ra_source item)) w = (Inr (\<lambda>f. of_nat (?u f)), w)"
    by (rule env_quota_used_server [OF srv used])
  have "(case parse_quantity (ra_asked item f) of None \<Rightarrow> False | Some want \<Rightarrow> rnd (want + EPS) < of_nat (?u f))
      \<longleftrightarrow> truthy (ra_asked item f) \<and> \<not> ?u f \<le> units (ra_asked item f)" for f
  proof -
    have "parse_quantity (ra_asked item f) = (if truthy (ra_asked item f) then Some (of_nat (units (ra_asked item f))) else None)"
      using q [of f] unfolding whole_def by blast
    then show ?thesis using within_tolerance_iff [of "int (?u f)" "int (units (ra_asked item f))"] q [of f] by (auto simp: not_le)
  qed
  then show ?thesis unfolding assert_not_below_use_def
    by (simp add: bind_io_ok [of "env_quota_used api (ns_name_of name (ra_source item))", OF run] env list_ex_iff field_in)
qed

text \<open>C35. Setting the quota of an environment. On a server nobody else writes to, with whole quantities up to 2 ^ 50
  (a pebibyte) and a tree within the recursion limit, a request is accepted if and only if the folder is known, the
  namespace can be read, every field fits under the nearest folder that caps it or asks for no more than is held, and
  no field goes below what is used. An accepted request writes exactly the quota that was asked for, on that
  environment alone, and every folder of the tree that caps a field still covers what its environments and
  sub-folders are given. A refused one changes nothing.\<close>

theorem set_environment_quota_correct:
  assumes "quota_server quotas envs api" "folder_server st (qa_folders api)"
    and "exact_state (parse_all_folders (st w)) (quotas w) (envs w) depth"
    and "ceilings_hold (parse_all_folders (st w)) (quotas w) (envs w) depth"
    and "distinct (envs w name)" "ns = ns_name_of name environment" "ns \<in> set (envs w name)"
    and "\<forall>n. n \<noteq> name \<longrightarrow> ns \<notin> set (envs w n)" "own_quota_only ns (quotas w ns)"
    and "\<forall>f. whole (q f) \<and> units (q f) \<le> 2 ^ 50"
    and "set_environment_quota api depth name environment q w = (r, w')"
  shows "(r = Inr () \<longleftrightarrow> dict_get (parse_all_folders (st w)) name \<noteq> None \<and> \<not> isl (fst (qa_read_ns api ns w))
      \<and> room_for (parse_all_folders (st w)) (own (quotas w) (envs w)) depth name q (ns_units (quotas w ns))
      \<and> (\<forall>f. truthy (q f) \<longrightarrow> used_units (quotas w ns) f \<le> units (q f)))
    \<and> (r = Inr () \<longrightarrow> envs w' = envs w \<and> (\<forall>m. m \<noteq> ns \<longrightarrow> quotas w' m = quotas w m)
      \<and> (\<forall>f. ns_units (quotas w' ns) f = units (q f)) \<and> ceilings_hold (parse_all_folders (st w)) (quotas w') (envs w') depth)
    \<and> (r \<noteq> Inr () \<longrightarrow> w' = w)"
proof -
  let ?fs = "parse_all_folders (st w)" and ?item = "\<lparr>ra_source = environment, ra_folder = False, ra_asked = q\<rparr>"
  have ns: "ns \<noteq> []" using assms(6) by (simp add: ns_name_of_def)
  have deep: "deep ?fs depth name" and le: "alloc ?fs (own (quotas w) (envs w)) depth name f \<le> 2 ^ 50" for f
    using assms(3) by (simp_all add: exact_state_def)
  have e: "ns_units (quotas w ns) f \<le> 2 ^ 50" for f
    using ns_units_le_alloc [of ns "envs w" name ?fs depth "quotas w" f] assms(7) deep le [of f] by (meson order_trans)
  have e53: "ns_units (quotas w ns) f < 2 ^ 53" for f using e [of f] by (rule le_less_trans) simp
  have exc: "excluded_quota api (Some ns) w = (Inr (\<lambda>f. of_nat (ns_units (quotas w ns) f)), w)"
    by (rule excluded_server [OF assms(1) _ e53 ns]) (use assms(3) in \<open>auto simp: exact_state_def\<close>)
  let ?room = "room_for ?fs (own (quotas w) (envs w)) depth name q (ns_units (quotas w ns))"
  have r1: "assert_within_folder_quota api ?fs depth name q (Some ns) w = (if ?room then Inr () else Inl (HTTPException 409), w)"
    by (rule assert_within_server [OF assms(1,3) exc e]) (use assms(10) in blast)
  let ?free = "\<forall>f. truthy (q f) \<longrightarrow> used_units (quotas w ns) f \<le> units (q f)"
  have r2: "assert_not_below_use api ?fs depth name ?item w = (if ?free then Inr () else Inl (HTTPException 409), w)"
    using not_below_use_server [OF assms(1), of ?item w name ?fs depth] assms(3,6,10) by (auto simp: exact_state_def)
  obtain r0 where r0: "qa_read_ns api ns w = (r0, w)" using quota_serverD(3) [OF assms(1), of ns w] by (metis prod.collapse)
  obtain w1 where w1: "write_env_quota api ns q w = (Inr (), w1)" "envs w1 = envs w" "\<And>m. m \<noteq> ns \<Longrightarrow> quotas w1 m = quotas w m"
    "\<And>f. ns_units (quotas w1 ns) f = units (q f)" using write_env_quota_server [OF assms(1,9), of q] by blast
  let ?ok = "dict_get ?fs name \<noteq> None \<and> \<not> isl r0 \<and> ?room \<and> ?free"
  have run: "if ?ok then r = Inr () \<and> w' = w1 else r \<noteq> Inr () \<and> w' = w"
    using assms(11) unfolding set_environment_quota_def assms(6) [symmetric]
    by (auto simp: bind_io_def catch_io_def ensure_server [OF assms(2)] Let_def r0 r1 r2 w1(1) assms(6) [symmetric] split: sum.splits if_splits)
  moreover have "ceilings_hold ?fs (quotas w1) (envs w) depth" if ?ok
  proof (rule ceilings_kept [OF assms(3,4) _ assms(5,7) _ w1(3,4)])
    show "name \<noteq> []" using that assms(3) by (auto simp: exact_state_def)
    show ?room using that by blast
  qed (use assms(8) in auto)
  ultimately show ?thesis using w1 r0 by (cases ?ok) simp_all
qed

subsection \<open>A server in memory\<close>

type_synonym quota_world = "folder_meta json dict \<times> (string \<Rightarrow> resource_quota list)"

definition on_fst :: "('a, 'r) io \<Rightarrow> ('a \<times> 'b, 'r) io" where
  "on_fst m = (\<lambda>(a, b). case m a of (r, a') \<Rightarrow> (r, (a', b)))"

definition lifted_folders :: "quota_world folders_api" where
  "lifted_folders = \<lparr>fa_read = on_fst (fa_read mem_folders), fa_read_system_ns = ret (), fa_create = on_fst (fa_create mem_folders),
     fa_patch = (\<lambda>k d. on_fst (fa_patch mem_folders k d)), fa_replace = (\<lambda>v d. on_fst (fa_replace mem_folders v d)),
     fa_list_ns = (\<lambda>f. ret []), fa_delete_ns = (\<lambda>n. ret ())\<rparr>"

definition mem_quota :: "(string \<Rightarrow> string list) \<Rightarrow> quota_world quota_api" where
  "mem_quota envs = \<lparr>qa_folders = lifted_folders, qa_list_ns = (\<lambda>f. ret (envs f)), qa_list = (\<lambda>ns w. (Inr (snd w ns), w)),
     qa_delete = (\<lambda>ns n w. if n \<in> rq_name ` set (snd w ns)
       then (Inr (), fst w, (snd w)(ns := filter (\<lambda>q. rq_name q \<noteq> n) (snd w ns))) else (Inl (ApiException 404), w)),
     qa_replace = (\<lambda>ns b w. if rq_name b \<in> rq_name ` set (snd w ns)
       then (Inr (), fst w, (snd w)(ns := map (\<lambda>q. if rq_name q = rq_name b then q\<lparr>rq_hard := rq_hard b\<rparr> else q) (snd w ns)))
       else (Inl (ApiException 404), w)),
     qa_create = (\<lambda>ns b w. (Inr (), fst w, (snd w)(ns := snd w ns @ [b]))), qa_create_ns = (\<lambda>ns labels. ret ()),
     qa_limit_range = (\<lambda>ns. ret ()), qa_read_ns = (\<lambda>ns. ret \<lparr>ns_name = ns, ns_labels = None\<rparr>), qa_delete_ns = (\<lambda>ns. ret ()),
     qa_rbac = \<lparr>rbac_create = (\<lambda>b. ret ()), rbac_read = (\<lambda>ns n. raise (ApiException 404)), rbac_replace = (\<lambda>b. ret ()), rbac_delete = (\<lambda>ns n. ret ())\<rparr>,
     qa_propagate = (\<lambda>folders f ns. ret ())\<rparr>"

lemma lifted_folders_server: "folder_server fst lifted_folders"
  by (auto simp: folder_server_def lifted_folders_def mem_folders_def on_fst_def)

lemma mem_quota_server: "quota_server snd (\<lambda>_. envs) (mem_quota envs)"
  by (auto simp: quota_server_def mem_quota_def)

definition cpu_quota :: "string \<Rightarrow> folder_quota" where
  "cpu_quota c = \<lparr>q_cpu = Some c, q_memory = None, q_storage = None\<rparr>"

definition cpu_only :: "string \<Rightarrow> asked" where
  "cpu_only c = (\<lambda>_. None)(Cpu := Some c)"

definition cpu_object :: "string \<Rightarrow> string \<Rightarrow> resource_quota" where
  "cpu_object ns c = \<lparr>rq_name = ns @ ''-quota'', rq_hard = quota_hard (cpu_only c), rq_used = []\<rparr>"

definition lab_folders :: "folder_meta json dict" where
  "lab_folders = [(''lab'', Doc (empty_folder_meta\<lparr>quota := Some (cpu_quota ''9'')\<rparr>)), (''kid'', Doc (empty_folder_meta\<lparr>parent_id := Some ''lab''\<rparr>))]"

definition lab_envs :: "string \<Rightarrow> string list" where
  "lab_envs f = (if f = ''lab'' then [''lab-prod''] else if f = ''kid'' then [''kid-dev''] else [])"

definition lab_world :: quota_world where
  "lab_world = (lab_folders, (\<lambda>_. [])(''lab-prod'' := [cpu_object ''lab-prod'' ''3''], ''kid-dev'' := [cpu_object ''kid-dev'' ''2'']))"

lemma digit_quantities [simp]:
  "parse_quantity (Some ''9'') = Some 9" "parse_quantity (Some ''3'') = Some 3" "parse_quantity (Some ''2'') = Some 2"
  "parse_quantity (Some ''6'') = Some 6" "parse_quantity (Some ''7'') = Some 7"
proof -
  have "nat_str 9 = ''9''" "nat_str 3 = ''3''" "nat_str 2 = ''2''" "nat_str 6 = ''6''" "nat_str 7 = ''7''" by code_simp+
  then show "parse_quantity (Some ''9'') = Some 9" "parse_quantity (Some ''3'') = Some 3" "parse_quantity (Some ''2'') = Some 2"
    "parse_quantity (Some ''6'') = Some 6" "parse_quantity (Some ''7'') = Some 7"
    using parse_quantity_nat [of 9] parse_quantity_nat [of 3] parse_quantity_nat [of 2] parse_quantity_nat [of 6] parse_quantity_nat [of 7]
    by simp_all
qed

lemma digit_units [simp]: "units (Some ''9'') = 9" "units (Some ''3'') = 3" "units (Some ''2'') = 2" "units (Some ''6'') = 6" "units (Some ''7'') = 7"
  by (simp_all add: units_def or_zero_def)

lemma whole_simps [simp]: "whole None" "whole (Some ''9'')" "whole (Some ''3'')" "whole (Some ''2'')" "whole (Some ''6'')" "whole (Some ''7'')"
  by (simp_all add: whole_def parse_quantity_def [of None])

abbreviation labs :: "folder_meta dict" where
  "labs \<equiv> parse_all_folders lab_folders"

lemma lab_get: "dict_get labs n = (if n = ''lab'' then Some (empty_folder_meta\<lparr>quota := Some (cpu_quota ''9'')\<rparr>)
    else if n = ''kid'' then Some (empty_folder_meta\<lparr>parent_id := Some ''lab''\<rparr>) else None)"
  by (auto simp: parse_all_folders_def lab_folders_def parse_folder_def)

lemma lab_declared: "declared labs n f = (if n = ''lab'' \<and> f = Cpu then Some 9 else None)"
  by (cases f) (auto simp: declared_def lab_get quota_of_def cpu_quota_def empty_folder_meta_def parse_quantity_def [of None])

lemma lab_children: "direct_children labs n = (if n = ''lab'' then [''kid''] else [])"
  by (auto simp: direct_children_def parse_all_folders_def lab_folders_def parse_folder_def empty_folder_meta_def)

lemma lab_parent: "parent_of labs n = (if n = ''kid'' then Some ''lab'' else None)"
  by (auto simp: parent_of_def lab_get empty_folder_meta_def)

lemma cpu_only_Cpu: "cpu_only c Cpu = Some c"
  by (simp add: cpu_only_def)

lemma cpu_object_hard: "hard_of (cpu_object ns c) f = (if f = Cpu \<and> c \<noteq> [] then Some c else None)"
  by (auto simp: cpu_object_def units_hard cpu_only_def)

lemma cpu_object_used: "used_of (cpu_object ns c) f = None"
  by (simp add: used_of_def cpu_object_def)

lemma lab_own: "own (snd lab_world) lab_envs n f = (if f = Cpu \<and> n = ''lab'' then 3 else if f = Cpu \<and> n = ''kid'' then 2 else 0)"
  by (auto simp: own_def lab_envs_def lab_world_def ns_units_def cpu_object_hard)

lemma lab_alloc_spent: "alloc labs spent 4 n f = (if n = ''lab'' then spent ''lab'' f + spent ''kid'' f else spent n f)"
  by (auto simp: eval_nat_numeral lab_children lab_declared)

lemma lab_alloc: "alloc labs (own (snd lab_world) lab_envs) 4 n f = (if f = Cpu \<and> n = ''lab'' then 5 else if f = Cpu \<and> n = ''kid'' then 2 else 0)"
  by (simp add: lab_alloc_spent lab_own)

lemma lab_tree: "tree_ok labs"
proof -
  have "parent_rel labs = {(''kid'', ''lab'')}" by (auto simp: parent_rel_def lab_parent split: if_splits)
  then have "acyclic (parent_rel labs)" by (simp add: acyclic_insert) (simp add: acyclic_def)
  moreover have "keys_distinct labs" by (simp add: parse_all_folders_def lab_folders_def)
  ultimately show ?thesis by (auto simp: tree_ok_def lab_parent lab_get split: if_splits)
qed

lemma lab_exact_any:
  assumes "\<And>ns q f. q \<in> set (quotas ns) \<Longrightarrow> whole (hard_of q f) \<and> whole (used_of q f)"
    and "\<And>n f. own quotas envs n f + own quotas envs ''kid'' f \<le> 2 ^ 50"
  shows "exact_state labs quotas envs 4"
proof -
  have "whole (field_of (cpu_quota ''9'') f)" for f by (cases f) (simp_all add: cpu_quota_def)
  then have "whole_folders labs" by (auto simp: whole_folders_def lab_get quota_of_def empty_folder_meta_def split: if_splits)
  moreover have "deep labs 4 n" for n by (simp add: eval_nat_numeral lab_children)
  moreover have "own quotas envs n f \<le> 2 ^ 50" for n f using add_leD1 [OF assms(2) [of n f]] by simp
  ultimately show ?thesis
    using lab_tree assms(1) assms(2) by (auto simp: exact_state_def lab_get lab_declared lab_alloc_spent)
qed

lemma lab_exact: "exact_state labs (snd lab_world) lab_envs 4"
proof (rule lab_exact_any)
  show "whole (hard_of q f) \<and> whole (used_of q f)" if "q \<in> set (snd lab_world ns)" for ns q f
    using that by (auto simp: lab_world_def cpu_object_hard cpu_object_used split: if_splits)
qed (simp add: lab_own)

lemma lab_ceilings: "ceilings_hold labs (snd lab_world) lab_envs 4"
  by (auto simp: ceilings_hold_def lab_declared lab_alloc)

lemma lab_holder: "ceiling_holder labs ''kid'' f = (if f = Cpu then Some (''lab'', 9) else None)"
  by (auto simp: ceiling_holder_def folder_chain.simps lab_parent lab_declared)

theorem set_environment_quota_correct_witness:
  "let ns = ''kid-dev''; run = set_environment_quota (mem_quota lab_envs) 4 ''kid'' ''dev'' (cpu_only ''6'') lab_world
   in fst run = Inr () \<and> ns_units (snd (snd run) ns) Cpu = 6 \<and> ceilings_hold labs (snd (snd run)) lab_envs 4
    \<and> fst (set_environment_quota (mem_quota lab_envs) 4 ''kid'' ''dev'' (cpu_only ''7'') lab_world) \<noteq> Inr ()"
proof -
  have hyp: "''kid-dev'' = ns_name_of ''kid'' ''dev''" "distinct (lab_envs ''kid'')" "''kid-dev'' \<in> set (lab_envs ''kid'')"
    "\<forall>n. n \<noteq> ''kid'' \<longrightarrow> ''kid-dev'' \<notin> set (lab_envs n)" "own_quota_only ''kid-dev'' (snd lab_world ''kid-dev'')"
    by (auto simp: ns_name_of_def lab_envs_def own_quota_only_def lab_world_def cpu_object_def)
  have fs: "parse_all_folders (fst lab_world) = labs" by (simp add: lab_world_def)
  have srv: "folder_server fst (qa_folders (mem_quota lab_envs))" using lifted_folders_server by (simp add: mem_quota_def)
  have held: "ns_units (snd lab_world ''kid-dev'') Cpu = 2" "used_units (snd lab_world ''kid-dev'') f = 0" for f
    by (simp_all add: lab_world_def ns_units_def used_units_def cpu_object_hard cpu_object_used)
  have read: "\<not> isl (fst (qa_read_ns (mem_quota lab_envs) ''kid-dev'' lab_world))" by (simp add: mem_quota_def)
  have room: "room_for labs (own (snd lab_world) lab_envs) 4 ''kid'' (cpu_only c) (ns_units (snd lab_world ''kid-dev'')) \<longleftrightarrow>
      c = [] \<or> units (Some c) \<le> 2 \<or> of_nat (units (Some c) + 5) \<le> (11 :: rat)" for c
    by (auto simp: room_for_def lab_holder cpu_only_def lab_alloc held split: if_splits)
  have q: "\<forall>f. whole (cpu_only ''6'' f) \<and> units (cpu_only ''6'' f) \<le> 2 ^ 50" "\<forall>f. whole (cpu_only ''7'' f) \<and> units (cpu_only ''7'' f) \<le> 2 ^ 50"
    by (auto simp: cpu_only_def)
  note main = set_environment_quota_correct [where quotas = snd and envs = "\<lambda>_. lab_envs" and st = fst and w = lab_world and depth = 4,
      OF mem_quota_server srv, unfolded fs, OF lab_exact lab_ceilings hyp(2,1,3,4,5)]
  show ?thesis
    using main [OF q(1) surjective_pairing] main [OF q(2) surjective_pairing] by (simp add: Let_def read room held lab_get cpu_only_Cpu)
qed

subsection \<open>Where the ceilings do not hold\<close>

lemma rnd_numeral [simp]: "(numeral k :: int) < 2 ^ 53 \<Longrightarrow> rnd (numeral k) = numeral k"
  using rnd_int [of "numeral k"] by simp

lemma rnd_0_1 [simp]: "rnd 0 = 0" "rnd 1 = 1"
  using rnd_int [of 0] rnd_int [of 1] by simp_all

lemma tolerance_numeral [simp]:
  "(numeral b :: int) \<le> 2 ^ 51 \<Longrightarrow> numeral a \<le> rnd (numeral b + EPS) \<longleftrightarrow> (numeral a :: int) \<le> numeral b"
  "(numeral b :: int) \<le> 2 ^ 51 \<Longrightarrow> 0 \<le> rnd (numeral b + EPS)"
  "(numeral b :: int) \<le> 2 ^ 51 \<Longrightarrow> rnd (numeral b + EPS) < numeral a \<longleftrightarrow> (numeral b :: int) < numeral a"
  "(numeral b :: int) \<le> 2 ^ 51 \<Longrightarrow> \<not> rnd (numeral b + EPS) < 0"
  "rnd (1 + EPS) < numeral a \<longleftrightarrow> (1 :: int) < numeral a"
  using within_tolerance_iff [of "numeral a" "numeral b"] within_tolerance_iff [of 0 "numeral b"] within_tolerance_iff [of "numeral a" 1]
  by (simp_all add: not_le [symmetric])

text \<open>A quantity that is not understood passes every check and is written as it is.\<close>

lemma unknown_suffix_passes:
  "assert_within_folder_quota api folders depth name ((\<lambda>_. None)(Memory := Some ''1Pi'')) exclude = ret ()"
  "quota_hard ((\<lambda>_. None)(Memory := Some ''1Pi'')) = [(''requests.memory'', ''1Pi''), (''limits.memory'', ''1Pi'')]"
  by (auto simp: assert_within_folder_quota_def quota_hard_def FIELDS_def parse_quantity_unknown parse_quantity_def [of None] Let_def)

text \<open>The headroom of \<open>kid\<close> names no limit for the processor, and an environment of 7 is refused there.\<close>

lemma headroom_misses_ancestor:
  "\<exists>q a. fst (get_folder_quota_headroom (mem_quota lab_envs) 4 ''kid'' lab_world) = Inr (q, a, \<lambda>_. None)"
  "assert_within_folder_quota (mem_quota lab_envs) labs 4 ''kid'' (cpu_only ''7'') None lab_world = (Inl (HTTPException 409), lab_world)"
proof -
  have "alloc labs (own (snd lab_world) lab_envs) 4 n f < 2 ^ 53" for n f by (simp add: lab_alloc)
  then have a: "allocated_env_quota (mem_quota lab_envs) labs 4 ''kid'' lab_world
      = (Inr (\<lambda>f. of_nat (alloc labs (own (snd lab_world) lab_envs) 4 ''kid'' f)), lab_world)"
    using allocated_server [OF mem_quota_server, of lab_world labs lab_envs 4 "''kid''"] lab_exact by (auto simp: exact_state_def)
  have none: "parse_quantity (quota_of None f) = None" for f by (simp add: quota_of_def parse_quantity_def)
  have "ensure_folders_configmap (qa_folders (mem_quota lab_envs)) lab_world = (Inr lab_folders, lab_world)"
    using ensure_server [OF lifted_folders_server, of lab_world] by (simp add: mem_quota_def lab_world_def)
  then show "\<exists>q a. fst (get_folder_quota_headroom (mem_quota lab_envs) 4 ''kid'' lab_world) = Inr (q, a, \<lambda>_. None)"
    by (simp add: get_folder_quota_headroom_def bind_io_def Let_def lab_get a empty_folder_meta_def none)
  have e: "excluded_quota (mem_quota lab_envs) None lab_world = (Inr (\<lambda>f. of_nat 0), lab_world)" by (simp add: excluded_quota_def)
  have "\<not> room_for labs (own (snd lab_world) lab_envs) 4 ''kid'' (cpu_only ''7'') (\<lambda>_. 0)"
    by (auto simp: room_for_def lab_holder lab_alloc cpu_only_Cpu intro!: exI [of _ Cpu])
  then show "assert_within_folder_quota (mem_quota lab_envs) labs 4 ''kid'' (cpu_only ''7'') None lab_world = (Inl (HTTPException 409), lab_world)"
    using assert_within_server [OF mem_quota_server lab_exact e, of "cpu_only ''7''" "''kid''"] by (simp add: cpu_only_def)
qed

text \<open>The direct parent is silent, so nothing is checked: \<open>lab\<close> has promised 14 of its 9.\<close>

definition new_under_kid :: FolderCreateRequest where
  "new_under_kid = \<lparr>fc_name = ''new'', fc_display_name = ''new'', fc_description = [], fc_parent_id = Some ''kid'', fc_environments = [],
     fc_environment_quotas = [], fc_quota = Some (cpu_quota ''9'')\<rparr>"

lemma silent_parent_skips_check:
  "\<exists>data. create_folder (mem_quota lab_envs) 4 ''a@b'' ''now'' new_under_kid lab_world = (Inr (), data, snd lab_world)
     \<and> declared (parse_all_folders data) ''lab'' Cpu = Some 9
     \<and> alloc (parse_all_folders data) (own (snd lab_world) lab_envs) 4 ''lab'' Cpu = 14"
proof -
  let ?meta = "empty_folder_meta\<lparr>parent_id := Some ''kid'', display_name := Some ''new'', description := Some [],
             created_by := Some ''a@b'', created_at := Some ''now'', quota := Some (cpu_quota ''9'')\<rparr>"
  let ?data = "dict_set lab_folders ''new'' (Doc ?meta)"
  have run: "create_folder (mem_quota lab_envs) 4 ''a@b'' ''now'' new_under_kid lab_world = (Inr (), ?data, snd lab_world)"
    by (simp add: create_folder_def new_under_kid_def mem_quota_def lifted_folders_def mem_folders_def on_fst_def lab_world_def bind_io_def
        ensure_folders_configmap_def Let_def lab_get assert_initial_envs_fit_def save_folder_meta_def dumped_def asked_quota_def quota_of_def
        FIELDS_def cpu_quota_def empty_folder_meta_def)
  have data: "parse_all_folders ?data = labs @ [(''new'', ?meta)]"
    by (simp add: parse_all_folders_def lab_folders_def parse_folder_def)
  have dec: "declared (labs @ [(''new'', ?meta)]) n Cpu = (if n = ''lab'' \<or> n = ''new'' then Some 9 else None)" for n
    by (auto simp: declared_def parse_all_folders_def lab_folders_def parse_folder_def quota_of_def cpu_quota_def empty_folder_meta_def parse_quantity_def [of None])
  have ch: "direct_children (labs @ [(''new'', ?meta)]) n = (if n = ''lab'' then [''kid''] else if n = ''kid'' then [''new''] else [])" for n
    by (auto simp: direct_children_def parse_all_folders_def lab_folders_def parse_folder_def empty_folder_meta_def)
  show ?thesis using run by (intro exI [of _ ?data]) (simp add: data dec ch lab_own eval_nat_numeral)
qed

text \<open>The loop over the fields goes on from the folder that capped the last one. A request for 2 of memory is
  refused, for \<open>mid\<close> has 1 left, and the same request with a processor quota is accepted.\<close>

definition q3 :: "string option \<Rightarrow> string option \<Rightarrow> folder_quota" where
  "q3 c m = \<lparr>q_cpu = c, q_memory = m, q_storage = None\<rparr>"

definition top_folders :: "folder_meta dict" where
  "top_folders = [(''top'', empty_folder_meta\<lparr>quota := Some (q3 (Some ''9'') (Some ''9''))\<rparr>),
     (''mid'', empty_folder_meta\<lparr>parent_id := Some ''top'', quota := Some (q3 None (Some ''3''))\<rparr>),
     (''sib'', empty_folder_meta\<lparr>parent_id := Some ''mid'', quota := Some (q3 None (Some ''2''))\<rparr>),
     (''kid'', empty_folder_meta\<lparr>parent_id := Some ''mid''\<rparr>)]"

lemma top_get: "dict_get top_folders n =
   (if n = ''top'' then Some (empty_folder_meta\<lparr>quota := Some (q3 (Some ''9'') (Some ''9''))\<rparr>)
    else if n = ''mid'' then Some (empty_folder_meta\<lparr>parent_id := Some ''top'', quota := Some (q3 None (Some ''3''))\<rparr>)
    else if n = ''sib'' then Some (empty_folder_meta\<lparr>parent_id := Some ''mid'', quota := Some (q3 None (Some ''2''))\<rparr>)
    else if n = ''kid'' then Some (empty_folder_meta\<lparr>parent_id := Some ''mid''\<rparr>) else None)"
  by (simp add: top_folders_def)

lemma parse_quantity_None [simp]: "parse_quantity None = None"
  by (simp add: parse_quantity_def)

lemma top_declared: "declared top_folders n f =
   (case f of Cpu \<Rightarrow> if n = ''top'' then Some 9 else None
    | Memory \<Rightarrow> if n = ''top'' then Some 9 else if n = ''mid'' then Some 3 else if n = ''sib'' then Some 2 else None
    | Storage \<Rightarrow> None)"
  by (cases f) (simp_all add: declared_def top_get quota_of_def q3_def empty_folder_meta_def)

lemma top_parent: "parent_of top_folders n = (if n = ''mid'' then Some ''top'' else if n = ''sib'' \<or> n = ''kid'' then Some ''mid'' else None)"
  by (simp add: parent_of_def top_get empty_folder_meta_def)

lemma top_children: "direct_children top_folders n = (if n = ''top'' then [''mid''] else if n = ''mid'' then [''sib'', ''kid''] else [])"
  by (auto simp: direct_children_def top_folders_def empty_folder_meta_def)

abbreviation no_envs :: "quota_world quota_api" where
  "no_envs \<equiv> mem_quota (\<lambda>_. [])"

lemma no_own: "own_env_quota no_envs n w = (Inr (\<lambda>_. 0), w)"
  by (simp add: own_env_quota_def mem_quota_def bind_io_def catch_io_def)

lemma top_alloc:
  "allocated_env_quota no_envs top_folders 4 ''mid'' w = (Inr ((\<lambda>_. 0)(Memory := 2)), w)"
  "allocated_env_quota no_envs top_folders 4 ''top'' w = (Inr ((\<lambda>_. 0)(Memory := 3)), w)"
proof -
  note run = allocated_env_quota.simps(2) [of no_envs top_folders _ n for n] bind_io_ok [of "own_env_quota no_envs n" for n, OF no_own] top_children
  have leaf: "allocated_env_quota no_envs top_folders (Suc d) n w = (Inr (\<lambda>_. 0), w)" if "n \<noteq> ''top''" "n \<noteq> ''mid''" for d n
    using that by (simp add: run)
  have mid: "allocated_env_quota no_envs top_folders (Suc (Suc d)) ''mid'' w = (Inr ((\<lambda>_. 0)(Memory := 2)), w)" for d
  proof -
    have "allocated_env_quota no_envs top_folders (Suc (Suc d)) ''mid'' w = add_children no_envs top_folders (Suc d) [''sib'', ''kid''] (\<lambda>_. 0) w"
      by (simp add: run del: add_children.simps)
    also have "\<dots> = (Inr ((\<lambda>_. 0)(Memory := 2)), w)"
      by (auto simp: bind_io_def leaf FIELDS_def top_declared fun_eq_iff simp del: allocated_env_quota.simps split: quota_field.splits)
    finally show ?thesis .
  qed
  have four: "(4 :: nat) = Suc (Suc 2)" "(4 :: nat) = Suc 3" by simp_all
  show "allocated_env_quota no_envs top_folders 4 ''mid'' w = (Inr ((\<lambda>_. 0)(Memory := 2)), w)" unfolding four(1) by (rule mid)
  have "allocated_env_quota no_envs top_folders (Suc 3) ''top'' w = add_children no_envs top_folders 3 [''mid''] (\<lambda>_. 0) w"
    by (subst allocated_env_quota.simps(2)) (simp add: run(2,3) del: add_children.simps)
  also have "\<dots> = (Inr ((\<lambda>_. 0)(Memory := 3)), w)"
    using mid [of 1] by (auto simp: eval_nat_numeral bind_io_def FIELDS_def top_declared fun_eq_iff simp del: allocated_env_quota.simps split: quota_field.splits)
  finally show "allocated_env_quota no_envs top_folders 4 ''top'' w = (Inr ((\<lambda>_. 0)(Memory := 3)), w)" unfolding four(2) .
qed

lemma child_check_skips_parent:
  "assert_child_folder_within_parent no_envs top_folders 4 ''kid'' (Some (q3 None (Some ''2''))) w = (Inl (HTTPException 409), w)"
  "assert_child_folder_within_parent no_envs top_folders 4 ''kid'' (Some (q3 (Some ''2'') (Some ''2''))) w = (Inr (), w)"
  by (simp_all add: assert_child_folder_within_parent_def top_get empty_folder_meta_def FIELDS_def quota_of_def q3_def ceiling_holder_def
     folder_chain.simps top_parent top_declared bind_io_def top_alloc Let_def)

lemma lab_ensure: "fst w = lab_folders \<Longrightarrow> ensure_folders_configmap (qa_folders (mem_quota envs)) w = (Inr lab_folders, w)"
  using ensure_server [OF lifted_folders_server, of w] by (simp add: mem_quota_def)

lemma mem_read_ns: "qa_read_ns (mem_quota envs) ns = ret \<lparr>ns_name = ns, ns_labels = None\<rparr>"
  by (simp add: mem_quota_def)

lemma whole_cpu_only: "whole (Some c) \<Longrightarrow> whole (cpu_only c f)"
  by (simp add: cpu_only_def)

text \<open>A second ResourceQuota of the namespace counts as the room of the one that is replaced: \<open>lab\<close> has given 15 of its 9.\<close>

definition extra_world :: quota_world where
  "extra_world = (lab_folders, (\<lambda>_. [])(''lab-prod'' := [cpu_object ''lab-prod'' ''2'', (cpu_object ''x'' ''6'')\<lparr>rq_name := ''extra''\<rparr>]))"

lemma extra_quota_overruns:
  "\<exists>w'. set_environment_quota (mem_quota lab_envs) 4 ''lab'' ''prod'' (cpu_only ''9'') extra_world = (Inr (), w')
     \<and> alloc labs (own (snd w') lab_envs) 4 ''lab'' Cpu = 15"
proof -
  have hard: "hard_of ((cpu_object n c)\<lparr>rq_name := m\<rparr>) = hard_of (cpu_object n c)" "used_of ((cpu_object n c)\<lparr>rq_name := m\<rparr>) f = None" for n c m f
    by (simp_all add: hard_of_def used_of_def cpu_object_def fun_eq_iff)
  have qs: "snd extra_world ''lab-prod'' = [cpu_object ''lab-prod'' ''2'', (cpu_object ''x'' ''6'')\<lparr>rq_name := ''extra''\<rparr>]"
    by (simp add: extra_world_def)
  have u: "ns_units (snd extra_world ''lab-prod'') f = (if f = Cpu then 8 else 0)" "used_units (snd extra_world ''lab-prod'') f = 0" for f
    by (simp_all add: qs ns_units_def used_units_def hard cpu_object_hard cpu_object_used)
  have own: "own (snd extra_world) lab_envs n f = (if n = ''lab'' \<and> f = Cpu then 8 else 0)" for n f
    using u(1) [of f] by (auto simp: own_def lab_envs_def ns_units_def extra_world_def)
  have ex: "exact_state labs (snd extra_world) lab_envs 4"
  proof (rule lab_exact_any)
    show "whole (hard_of q f) \<and> whole (used_of q f)" if "q \<in> set (snd extra_world ns)" for ns q f
      using that by (auto simp: extra_world_def hard cpu_object_hard cpu_object_used split: if_splits)
  qed (simp add: own)
  have e: "excluded_quota (mem_quota lab_envs) (Some ''lab-prod'') extra_world = (Inr (\<lambda>f. of_nat (ns_units (snd extra_world ''lab-prod'') f)), extra_world)"
    by (rule excluded_server [OF mem_quota_server]) (use ex u in \<open>auto simp: exact_state_def\<close>)
  have "room_for labs (own (snd extra_world) lab_envs) 4 ''lab'' (cpu_only ''9'') (ns_units (snd extra_world ''lab-prod''))"
    by (auto simp: room_for_def ceiling_holder_def folder_chain.simps lab_parent lab_declared lab_alloc_spent own u cpu_only_Cpu split: if_splits)
  then have r1: "assert_within_folder_quota (mem_quota lab_envs) labs 4 ''lab'' (cpu_only ''9'') (Some ''lab-prod'') extra_world = (Inr (), extra_world)"
    by (subst assert_within_server [OF mem_quota_server ex e]) (simp_all add: u(1) whole_cpu_only)
  let ?item = "\<lparr>ra_source = ''prod'', ra_folder = False, ra_asked = cpu_only ''9''\<rparr>"
  have ns: "ns_name_of ''lab'' ''prod'' = ''lab-prod''" by (simp add: ns_name_of_def)
  have r2: "assert_not_below_use (mem_quota lab_envs) labs 4 ''lab'' ?item extra_world = (Inr (), extra_world)"
    using not_below_use_server [OF mem_quota_server, of ?item extra_world "''lab''" lab_envs labs 4] ex u(2)
    by (auto simp: ns exact_state_def cpu_only_def)
  let ?w = "(lab_folders, (snd extra_world)(''lab-prod'' := [cpu_object ''lab-prod'' ''9'', (cpu_object ''x'' ''6'')\<lparr>rq_name := ''extra''\<rparr>]))"
  have fst: "fst extra_world = lab_folders" by (simp add: extra_world_def)
  have w: "write_env_quota (mem_quota lab_envs) ''lab-prod'' (cpu_only ''9'') extra_world = (Inr (), ?w)"
    by (simp add: write_env_quota_def quota_hard_def cpu_only_def Let_def mem_quota_def catch_io_def extra_world_def cpu_object_def)
  have "set_environment_quota (mem_quota lab_envs) 4 ''lab'' ''prod'' (cpu_only ''9'') extra_world = (Inr (), ?w)"
    unfolding set_environment_quota_def ns Let_def
    by (simp add: bind_io_def lab_ensure fst lab_get catch_io_def r1 r2 w mem_read_ns)
  moreover have "own (snd ?w) lab_envs ''lab'' Cpu = 15" "own (snd ?w) lab_envs ''kid'' Cpu = 0"
    by (simp_all add: own_def lab_envs_def ns_units_def hard cpu_object_hard extra_world_def)
  ultimately show ?thesis by (intro exI [of _ ?w]) (simp add: lab_alloc_spent)
qed

text \<open>The endpoint does not look at the labels of the namespace: the environment \<open>c\<close> of \<open>a-b\<close> is set through \<open>a\<close>.\<close>

definition dash_folders :: "folder_meta json dict" where
  "dash_folders = [(''a'', Doc empty_folder_meta), (''a-b'', Doc (empty_folder_meta\<lparr>quota := Some (cpu_quota ''2'')\<rparr>))]"

definition dash_envs :: "string \<Rightarrow> string list" where
  "dash_envs n = (if n = ''a-b'' then [''a-b-c''] else [])"

definition dash_server :: "quota_world quota_api" where
  "dash_server = (mem_quota dash_envs)\<lparr>qa_read_ns := (\<lambda>ns. ret \<lparr>ns_name = ns, ns_labels = Some [(ENV_FOLDER_LABEL, ''a-b''), (ENV_ENVIRONMENT_LABEL, ''c'')]\<rparr>)\<rparr>"

lemma sets_quota_of_other_folder:
  "ns_name_of ''a'' ''b-c'' = ns_name_of ''a-b'' ''c''"
  "fst (set_environment_quota dash_server 4 ''a'' ''b-c'' (cpu_only ''9'') (dash_folders, \<lambda>_. [])) = Inr ()"
  "snd (snd (set_environment_quota dash_server 4 ''a'' ''b-c'' (cpu_only ''9'') (dash_folders, \<lambda>_. []))) ''a-b-c'' = [cpu_object ''a-b-c'' ''9'']"
  "declared (parse_all_folders dash_folders) ''a-b'' Cpu = Some 2"
proof -
  have fs: "dict_get (parse_all_folders dash_folders) n = (if n = ''a'' then Some empty_folder_meta
      else if n = ''a-b'' then Some (empty_folder_meta\<lparr>quota := Some (cpu_quota ''2'')\<rparr>) else None)" for n
    by (auto simp: parse_all_folders_def dash_folders_def parse_folder_def)
  have none: "ceiling_holder (parse_all_folders dash_folders) ''a'' f = None" for f
    by (cases f) (simp_all add: ceiling_holder_def folder_chain.simps parent_of_def declared_def fs quota_of_def empty_folder_meta_def)
  have r: "set_environment_quota dash_server 4 ''a'' ''b-c'' (cpu_only ''9'') (dash_folders, \<lambda>_. [])
      = (Inr (), dash_folders, (\<lambda>_. [])(''a-b-c'' := [cpu_object ''a-b-c'' ''9'']))"
    by (simp add: set_environment_quota_def bind_io_def catch_io_def ensure_folders_configmap_def dash_server_def mem_quota_def lifted_folders_def
        mem_folders_def on_fst_def Let_def fs assert_within_folder_quota_def none assert_not_below_use_def env_quota_used_def ns_name_of_def FIELDS_def
        cpu_only_def write_env_quota_def quota_hard_def cpu_object_def)
  show "ns_name_of ''a'' ''b-c'' = ns_name_of ''a-b'' ''c''" by (simp add: ns_name_of_def)
  show "fst (set_environment_quota dash_server 4 ''a'' ''b-c'' (cpu_only ''9'') (dash_folders, \<lambda>_. [])) = Inr ()"
    "snd (snd (set_environment_quota dash_server 4 ''a'' ''b-c'' (cpu_only ''9'') (dash_folders, \<lambda>_. []))) ''a-b-c'' = [cpu_object ''a-b-c'' ''9'']"
    by (simp_all add: r)
  show "declared (parse_all_folders dash_folders) ''a-b'' Cpu = Some 2" by (simp add: declared_def fs quota_of_def cpu_quota_def)
qed

text \<open>The sibling is cut before the second item is refused, and stays so.\<close>

definition half_request :: AddFolderEnvironmentRequest where
  "half_request = \<lparr>er_environment = ''new'', er_quota = (\<lambda>_. None),
     er_reallocate = [\<lparr>ra_source = ''prod'', ra_folder = False, ra_asked = cpu_only ''2''\<rparr>, \<lparr>ra_source = ''gone'', ra_folder = True, ra_asked = (\<lambda>_. None)\<rparr>]\<rparr>"

lemma refused_plan_keeps_cut:
  "\<exists>w'. add_environment (mem_quota lab_envs) 4 ''lab'' half_request lab_world = (Inl (HTTPException 404), w')
     \<and> ns_units (snd lab_world ''lab-prod'') Cpu = 3 \<and> ns_units (snd w' ''lab-prod'') Cpu = 2"
proof -
  let ?api = "mem_quota lab_envs"
  let ?w = "(lab_folders, (snd lab_world)(''lab-prod'' := [cpu_object ''lab-prod'' ''2'']))"
  have ns: "ns_name_of ''lab'' ''prod'' = ''lab-prod''" by (simp add: ns_name_of_def)
  have fst: "fst lab_world = lab_folders" by (simp add: lab_world_def)
  have qs: "snd lab_world ''lab-prod'' = [cpu_object ''lab-prod'' ''3'']" by (simp add: lab_world_def)
  have list: "qa_list ?api ns' w = (Inr (snd w ns'), w)" for ns' w by (simp add: mem_quota_def)
  have exact: "exact_state labs (snd w) lab_envs 4" if "w = lab_world \<or> w = ?w" for w
    using that
  proof
    assume "w = ?w"
    then show ?thesis
      by (intro lab_exact_any) (auto simp: lab_world_def cpu_object_hard cpu_object_used own_def lab_envs_def ns_units_def split: if_splits)
  qed (simp add: lab_exact)
  have alloc: "\<exists>t. allocated_env_quota ?api labs 4 n w = (Inr t, w) \<and> (n = ''gone'' \<longrightarrow> t = (\<lambda>_. 0))" if "w = lab_world \<or> w = ?w" for n w
  proof -
    have "alloc labs (own (snd w) lab_envs) 4 n f < 2 ^ 53" for n f
      using exact [OF that] by (auto simp: exact_state_def intro: le_less_trans [of _ "2 ^ 50"])
    then have "allocated_env_quota ?api labs 4 n w = (Inr (\<lambda>f. of_nat (alloc labs (own (snd w) lab_envs) 4 n f)), w)"
      using exact [OF that] by (intro allocated_server [OF mem_quota_server]) (auto simp: exact_state_def)
    then show ?thesis by (simp add: lab_alloc_spent own_def lab_envs_def)
  qed
  have rf: "read_fields (rq_hard q) a = (\<lambda>f. if truthy (hard_of q f) then hard_of q f else a f)" for q a unfolding read_fields_def hard_of_def ..
  have read: "read_env_quota ?api ''lab-prod'' lab_world = (Inr (cpu_only ''3''), lab_world)"
    by (auto simp: read_env_quota_def bind_io_def catch_io_def list qs rf cpu_object_hard cpu_only_def)
  obtain t where t: "allocated_env_quota ?api labs 4 ''lab'' lab_world = (Inr t, lab_world)" using alloc [of lab_world "''lab''"] by auto
  have plan: "check_plan ?api labs 4 ''lab'' m half_request lab_world = (Inr (), lab_world)" for m
    by (simp add: check_plan_def half_request_def bind_io_def ns read t plan_fits_def list_all_iff)
  have use1: "assert_not_below_use ?api labs 4 ''lab'' \<lparr>ra_source = ''prod'', ra_folder = False, ra_asked = cpu_only ''2''\<rparr> lab_world = (Inr (), lab_world)"
    using not_below_use_server [OF mem_quota_server, of "\<lparr>ra_source = ''prod'', ra_folder = False, ra_asked = cpu_only ''2''\<rparr>" lab_world "''lab''" lab_envs labs 4]
    by (simp add: ns qs used_units_def cpu_object_used cpu_only_def)
  have use2: "assert_not_below_use ?api labs 4 ''lab'' \<lparr>ra_source = ''gone'', ra_folder = True, ra_asked = (\<lambda>_. None)\<rparr> ?w = (Inr (), ?w)"
    using alloc [of ?w "''gone''"] by (auto simp: assert_not_below_use_def bind_io_def list_ex_iff)
  have merge: "merged (cpu_only ''3'') (cpu_only ''2'') = cpu_only ''2''" by (simp add: merged_def cpu_only_def fun_eq_iff)
  have written: "write_env_quota ?api ''lab-prod'' (cpu_only ''2'') lab_world = (Inr (), ?w)"
    by (simp add: write_env_quota_def quota_hard_def cpu_only_def Let_def mem_quota_def catch_io_def lab_world_def cpu_object_def)
  have applied: "apply_reallocations ?api labs 4 ''lab'' (er_reallocate half_request) lab_world = (Inl (HTTPException 404), ?w)"
    by (simp add: half_request_def bind_io_def use1 ns read merge written use2 lab_get)
  have "add_environment ?api 4 ''lab'' half_request lab_world = (Inl (HTTPException 404), ?w)"
    unfolding add_environment_def Let_def
    by (simp add: bind_io_def lab_ensure fst lab_get plan applied)
  then show ?thesis by (intro exI [of _ ?w]) (simp add: qs ns_units_def cpu_object_hard)
qed

end
