(* ===== verification/Egress.thy ===== *)
theory Egress
  imports PeeringPair CpVip
begin

section \<open>Egress gateways (\<open>api/v1/egress_gateway.py\<close>)\<close>

text \<open>
  A gateway is a VPC of its own (\<open>egw-<name>\<close>) with a VpcEgressGateway in it; tenant VPCs are attached to it
  by a peering over addresses of its transit network, which a ConfigMap hands out. The theory models that
  table, the addresses a gateway is pinned to, the suggestion of ranges, the creation and deletion of a
  gateway, attaching and detaching a VPC, and the repairs made when a gateway is read. The clock of the wait
  for a deletion is an argument; a run that does not return is \<^const>\<open>None\<close>. The pods of a gateway, the
  causes shown for one that is not ready and the answers built from what was read are not modelled.
\<close>

subsection \<open>Objects and calls\<close>

record egress_route =
  rt_cidr :: "string option"
  rt_nextHopIP :: "string option"
  rt_policy :: "string option"
  rt_other :: "string dict"

record veg_policy =
  vp_snat :: "bool option"
  vp_ipBlocks :: "string list option"
  vp_subnets :: "string list option"

record veg_spec =
  vg_vpc :: string
  vg_replicas :: "nat option"
  vg_internalSubnet :: string
  vg_externalSubnet :: string
  vg_policies :: "veg_policy list option"
  vg_bfd :: bool
  vg_internalIPs :: "string list option"
  vg_externalIPs :: "string list option"
  vg_bgpConf :: "string option"
  vg_nodeSelector :: "string dict"

record veg =
  vg_name :: string
  vg_spec :: veg_spec
  vs_internalIPs :: "string list option"
  vs_externalIPs :: "string list option"

record gateway_vpc =
  gv_name :: string
  gv_labels :: "string dict"
  gv_annotations :: "string dict"
  gv_bfdPort :: "string option"

record egress_subnet =
  es_name :: string
  es_labels :: "string dict"
  es_cidrBlock :: string
  es_gateway :: string
  es_vpc :: "string option"
  es_provider :: "string option"
  es_excludeIps :: "string list"
  es_using :: string

record AttachedVpcInfo =
  av_vpc_name :: string
  av_subnet_name :: string
  av_cidr :: string
  av_transit_ip :: string
  av_peering_name :: string

record 'w egress_api =
  ea_cm :: "string \<Rightarrow> 'w cm_api"
  ea_delete_cm :: "string \<Rightarrow> ('w, unit) io"
  ea_gateway_vpc :: "string \<Rightarrow> ('w, gateway_vpc) io"
  ea_list_gateways :: "('w, gateway_vpc list) io"
  ea_create_vpc :: "gateway_vpc \<Rightarrow> ('w, unit) io"
  ea_delete_vpc :: "string \<Rightarrow> ('w, unit) io"
  ea_veg :: "string \<Rightarrow> ('w, veg) io"
  ea_list_vegs :: "('w, veg list) io"
  ea_create_veg :: "veg \<Rightarrow> ('w, unit) io"
  ea_patch_pins :: "string \<Rightarrow> string list option \<Rightarrow> string list option \<Rightarrow> ('w, unit) io"
  ea_patch_policies :: "string \<Rightarrow> veg_policy list \<Rightarrow> ('w, unit) io"
  ea_delete_veg :: "string \<Rightarrow> ('w, unit) io"
  ea_routes :: "string \<Rightarrow> ('w, egress_route list option) io"
  ea_patch_routes :: "string \<Rightarrow> egress_route list \<Rightarrow> ('w, unit) io"
  ea_peerings :: "'w vpc_api"
  ea_subnet :: "string \<Rightarrow> ('w, egress_subnet) io"
  ea_list_subnets :: "('w, subnet_spec cr list) io"
  ea_labelled_subnets :: "string \<Rightarrow> ('w, string list) io"
  ea_create_subnet :: "egress_subnet \<Rightarrow> ('w, unit) io"
  ea_delete_subnet :: "string \<Rightarrow> ('w, unit) io"
  ea_patch_exclude :: "string \<Rightarrow> string list \<Rightarrow> ('w, unit) io"
  ea_create_nad :: "string \<Rightarrow> string \<Rightarrow> string \<Rightarrow> ('w, unit) io"
  ea_acls :: "string \<Rightarrow> ('w, acl list option) io"
  ea_patch_acls :: "string \<Rightarrow> acl list \<Rightarrow> ('w, unit) io"
  ea_b3 :: "'w b3_api"

definition EGRESS_MANAGED_LABEL :: string where
  "EGRESS_MANAGED_LABEL = ''kubevirt-ui.io/managed''"

definition GATEWAY_LABEL :: string where
  "GATEWAY_LABEL = ''kubevirt-ui.io/egress-gateway''"

definition TRANSIT_ANNOTATION :: string where
  "TRANSIT_ANNOTATION = ''kubevirt-ui.io/transit-cidr''"

definition GW_CIDR_ANNOTATION :: string where
  "GW_CIDR_ANNOTATION = ''kubevirt-ui.io/gw-vpc-cidr''"

definition gw_vpc_of :: "string \<Rightarrow> string" where
  "gw_vpc_of gateway_name = ''egw-'' @ gateway_name"

text \<open>\<open>except ApiException as e: if e.status == 404: ...\<close>.\<close>

definition on_404 :: "('w, 'a) io \<Rightarrow> ('w, 'a) io \<Rightarrow> ('w, 'a) io" where
  "on_404 m h = catch_io m (\<lambda>e. if e = ApiException 404 then h else raise e)"

definition or_none_404 :: "('w, 'a) io \<Rightarrow> ('w, 'a option) io" where
  "or_none_404 m = on_404 (bind_io m (\<lambda>x. ret (Some x))) (ret None)"

definition io_of :: "exc + 'a \<Rightarrow> ('w, 'a) io" where
  "io_of r = (\<lambda>w. (r, w))"

subsection \<open>The table of transit addresses\<close>

definition transit_cm_name :: "string \<Rightarrow> string" where
  "transit_cm_name gateway_name = ''egress-transit-'' @ gateway_name"

definition get_transit_allocator :: "'w egress_api \<Rightarrow> string \<Rightarrow> ('w, string dict \<times> string) io" where
  "get_transit_allocator api gateway_name =
     on_404 (bind_io (read_config_map (ea_cm api gateway_name)) (\<lambda>cm. ret (or_nil (cm_data cm), or_nil (cm_rv cm))))
       (ret ([], []))"

definition transit_body :: "string \<Rightarrow> string dict \<Rightarrow> string \<Rightarrow> config_map" where
  "transit_body gateway_name data rv =
     \<lparr>cm_name = transit_cm_name gateway_name,
      cm_labels = [(EGRESS_MANAGED_LABEL, ''true''), (GATEWAY_LABEL, gateway_name)],
      cm_rv = (if rv = [] then None else Some rv), cm_data = Some data\<rparr>"

definition save_transit_allocator :: "'w egress_api \<Rightarrow> string \<Rightarrow> string dict \<Rightarrow> string \<Rightarrow> ('w, unit) io" where
  "save_transit_allocator api gateway_name data rv =
     (if rv = [] then bind_io (create_config_map (ea_cm api gateway_name) (transit_body gateway_name data rv)) (\<lambda>_. ret ())
      else replace_config_map (ea_cm api gateway_name) (transit_body gateway_name data rv))"

definition transit_capacity :: "string \<Rightarrow> int" where
  "transit_capacity transit_cidr =
     (case parse_net4 transit_cidr of None \<Rightarrow> 0 | Some n \<Rightarrow> max 0 (int (block_size n) - 2 - 1))"

definition allocate_transit_ip :: "string \<Rightarrow> string list \<Rightarrow> exc + string" where
  "allocate_transit_ip transit_cidr used_ips =
     (case parse_net4 transit_cidr of
        None \<Rightarrow> Inl ValueError
      | Some n \<Rightarrow>
          (case find (\<lambda>h. ipv4_str h \<notin> set used_ips \<and> h \<noteq> net_addr n + 1) (usable_hosts n) of
             Some h \<Rightarrow> Inr (ipv4_str h)
           | None \<Rightarrow> Inl (HTTPException 409)))"

text \<open>\<open>network_address + 1\<close> of the last address of IPv4 raises \<open>AddressValueError\<close>, a \<open>ValueError\<close>.\<close>

definition gateway_transit_ip :: "string \<Rightarrow> exc + string" where
  "gateway_transit_ip transit_cidr =
     (case parse_net4 transit_cidr of
        None \<Rightarrow> Inl ValueError
      | Some n \<Rightarrow> if net_addr n + 1 < 2 ^ 32 then Inr (ipv4_str (net_addr n + 1)) else Inl ValueError)"

subsection \<open>Ranges and pinned addresses\<close>

definition get_gateway_config :: "'w egress_api \<Rightarrow> string \<Rightarrow> ('w, gateway_vpc option) io" where
  "get_gateway_config api gateway_name = or_none_404 (ea_gateway_vpc api (gw_vpc_of gateway_name))"

definition get_vpc_egress_gateway :: "'w egress_api \<Rightarrow> string \<Rightarrow> ('w, veg option) io" where
  "get_vpc_egress_gateway api gateway_name = or_none_404 (ea_veg api gateway_name)"

definition cidrs_overlap :: "string \<Rightarrow> string \<Rightarrow> exc + bool" where
  "cidrs_overlap cidr1 cidr2 =
     (case (ip_network cidr1, ip_network cidr2) of
        (Some a, Some b) \<Rightarrow> Inr (net_ver a = net_ver b \<and> overlaps a b)
      | _ \<Rightarrow> Inl ValueError)"

definition refuse_overlap :: "string \<Rightarrow> string \<Rightarrow> ('w, unit) io" where
  "refuse_overlap a b = bind_io (io_of (cidrs_overlap a b)) (\<lambda>both. if both then raise (HTTPException 422) else ret ())"

definition validate_cidr_no_overlap :: "'w egress_api \<Rightarrow> string \<Rightarrow> string \<Rightarrow> ('w, unit) io" where
  "validate_cidr_no_overlap api gw_vpc_cidr transit_cidr =
     bind_io (refuse_overlap gw_vpc_cidr transit_cidr) (\<lambda>_.
     bind_io (api_default (ea_list_subnets api) []) (\<lambda>items.
       for_each items (\<lambda>item.
         let existing = or_nil (cidrBlock (cr_spec item))
         in if existing = [] then ret ()
            else bind_io (refuse_overlap gw_vpc_cidr existing) (\<lambda>_. refuse_overlap transit_cidr existing))))"

text \<open>\<open>range(first, last + 1)\<close> as texts; a span of more than 4097 addresses is left out.\<close>

definition span_addresses :: "string \<Rightarrow> string \<Rightarrow> string list" where
  "span_addresses start end =
     (case (parse_ipv4 (strip start), parse_ipv4 (strip end)) of
        (Some a, Some b) \<Rightarrow> if int b - int a > 4096 then [] else map ipv4_str [a ..< b + 1]
      | _ \<Rightarrow> [])"

definition expand_excluded :: "string list \<Rightarrow> string list" where
  "expand_excluded entries =
     concat (map (\<lambda>raw. let entry = strip raw in
       case split_once ''..'' entry of
         Some (start, end) \<Rightarrow> span_addresses start end
       | None \<Rightarrow> if entry = [] then [] else [entry]) entries)"

definition spec_pins :: "veg_spec \<Rightarrow> string list" where
  "spec_pins s = map before_slash (or_nil (vg_internalIPs s) @ or_nil (vg_externalIPs s))"

definition addresses_pinned_elsewhere :: "'w egress_api \<Rightarrow> ('w, string list) io" where
  "addresses_pinned_elsewhere api =
     api_default (bind_io (ea_list_vegs api) (\<lambda>items. ret (concat (map (\<lambda>i. spec_pins (vg_spec i)) items)))) []"

definition expand_status_ranges :: "string \<Rightarrow> string list" where
  "expand_status_ranges entry =
     concat (map (\<lambda>raw. let span = strip raw in
       if span = [] then []
       else case split_once ''-'' span of
              None \<Rightarrow> span_addresses span span
            | Some (start, end) \<Rightarrow> span_addresses start (if strip end = [] then start else end))
       (split_on (CHR '','') entry))"

text \<open>The loop stops when it has \<open>count\<close> addresses; it tests after an address was added.\<close>

definition first_n :: "nat \<Rightarrow> 'a list \<Rightarrow> 'a list" where
  "first_n wanted xs = (if wanted = 0 then xs else take wanted xs)"

definition subnet_blocked :: "egress_subnet \<Rightarrow> string list" where
  "subnet_blocked s = expand_excluded (es_excludeIps s) @ (if es_gateway s = [] then [] else [es_gateway s]) @ expand_status_ranges (es_using s)"

definition free_in :: "egress_subnet \<Rightarrow> nat \<Rightarrow> string list \<Rightarrow> exc + string list" where
  "free_in s wanted taken =
     (if es_cidrBlock s = [] then Inr []
      else case parse_net4 (es_cidrBlock s) of
             None \<Rightarrow> Inl ValueError
           | Some n \<Rightarrow> Inr (first_n wanted (filter (\<lambda>ip. ip \<notin> set (taken @ subnet_blocked s)) (map ipv4_str (usable_hosts n)))))"

definition free_addresses :: "'w egress_api \<Rightarrow> string \<Rightarrow> nat \<Rightarrow> string list \<Rightarrow> ('w, string list) io" where
  "free_addresses api subnet_name wanted taken =
     bind_io (api_default (bind_io (ea_subnet api subnet_name) (\<lambda>s. ret (Some s))) None) (\<lambda>found.
       case found of None \<Rightarrow> ret [] | Some s \<Rightarrow> io_of (free_in s wanted taken))"

definition allocate_gateway_ips ::
  "'w egress_api \<Rightarrow> string \<Rightarrow> string \<Rightarrow> nat \<Rightarrow> ('w, string list \<times> string list) io" where
  "allocate_gateway_ips api int_subnet ext_name replicas =
     bind_io (addresses_pinned_elsewhere api) (\<lambda>taken.
     bind_io (free_addresses api int_subnet replicas taken) (\<lambda>internal.
     bind_io (free_addresses api ext_name replicas (taken @ internal)) (\<lambda>external. ret (internal, external))))"

definition DEFAULT_GATEWAY_CIDR_POOL :: string where
  "DEFAULT_GATEWAY_CIDR_POOL = ''10.199.128.0/17''"

definition gateway_cidr_pool :: "env_vars \<Rightarrow> string" where
  "gateway_cidr_pool env = (if truthy (env ''EGRESS_GW_CIDR_POOL'') then the (env ''EGRESS_GW_CIDR_POOL'') else DEFAULT_GATEWAY_CIDR_POOL)"

definition DEFAULT_GATEWAY_SUBNET_PREFIX :: nat where
  "DEFAULT_GATEWAY_SUBNET_PREFIX = 24"

definition gateway_subnet_prefix :: "env_vars \<Rightarrow> nat" where
  "gateway_subnet_prefix env =
     (if \<not> truthy (env ''EGRESS_GW_SUBNET_PREFIX'') then DEFAULT_GATEWAY_SUBNET_PREFIX
      else case py_int (the (env ''EGRESS_GW_SUBNET_PREFIX'')) of
             None \<Rightarrow> DEFAULT_GATEWAY_SUBNET_PREFIX
           | Some p \<Rightarrow> if 8 \<le> p \<and> p \<le> 30 then nat p else DEFAULT_GATEWAY_SUBNET_PREFIX)"

text \<open>The two ranges, or two empty texts.\<close>

definition suggest_from :: "env_vars \<Rightarrow> string \<Rightarrow> (string \<times> string) list \<Rightarrow> exc + (string \<times> string)" where
  "suggest_from env pool existing =
     (case ip_network pool of
        None \<Rightarrow> Inl ValueError
      | Some n \<Rightarrow>
          (case subnets n (max (gateway_subnet_prefix env) (net_len n)) of
             None \<Rightarrow> Inl ValueError
           | Some cands \<Rightarrow>
               (case filter (\<lambda>c. find_cidr_conflicts c existing = []) (map net_str cands) of
                  a # b # _ \<Rightarrow> Inr (a, b)
                | _ \<Rightarrow> Inr ([], []))))"

definition suggest_gateway_cidrs :: "env_vars \<Rightarrow> 'w egress_api \<Rightarrow> string option \<Rightarrow> ('w, string \<times> string) io" where
  "suggest_gateway_cidrs env api pool =
     (let p = (if truthy pool then the pool else gateway_cidr_pool env)
      in if ip_network p = None then raise ValueError
         else bind_io (list_subnet_cidrs (ea_list_subnets api)) (\<lambda>existing. io_of (suggest_from env p existing)))"

definition require_external_subnet :: "'w egress_api \<Rightarrow> ('w, unit) io" where
  "require_external_subnet api =
     catch_io (bind_io (ea_subnet api ''external'') (\<lambda>_. ret ()))
       (\<lambda>e. if e = ApiException 404 then raise (HTTPException 422) else if is_api e then ret () else raise e)"

subsection \<open>Routes and policies\<close>

definition static_to :: "string \<Rightarrow> string \<Rightarrow> egress_route" where
  "static_to cidr hop = \<lparr>rt_cidr = Some cidr, rt_nextHopIP = Some hop, rt_policy = Some ''policyDst'', rt_other = []\<rparr>"

definition add_static_route :: "'w egress_api \<Rightarrow> string \<Rightarrow> string \<Rightarrow> string \<Rightarrow> ('w, unit) io" where
  "add_static_route api vpc_name cidr next_hop_ip =
     bind_io (on_404 (ea_routes api vpc_name) (raise (HTTPException 404))) (\<lambda>found.
       let routes = or_nil found; kept = filter (\<lambda>r. rt_cidr r \<noteq> Some cidr) routes
       in if length kept + 1 = length routes \<and> static_to cidr next_hop_ip \<in> set routes then ret ()
          else ea_patch_routes api vpc_name (kept @ [static_to cidr next_hop_ip]))"

definition remove_static_route :: "'w egress_api \<Rightarrow> string \<Rightarrow> string \<Rightarrow> string option \<Rightarrow> ('w, unit) io" where
  "remove_static_route api vpc_name cidr next_hop =
     bind_io (or_none_404 (ea_routes api vpc_name)) (\<lambda>found.
       case found of
         None \<Rightarrow> ret ()
       | Some rs \<Rightarrow>
           let routes = or_nil rs;
               new_routes = filter (\<lambda>r. rt_cidr r \<noteq> Some cidr \<or> next_hop \<noteq> None \<and> rt_nextHopIP r \<noteq> next_hop) routes
           in if length new_routes \<noteq> length routes then ea_patch_routes api vpc_name new_routes else ret ())"

definition add_block :: "string \<Rightarrow> veg_policy list \<Rightarrow> veg_policy list" where
  "add_block cidr policies =
     (if list_ex (\<lambda>p. cidr \<in> set (or_nil (vp_ipBlocks p))) policies then policies
      else policies @ [\<lparr>vp_snat = Some (case policies of [] \<Rightarrow> True | p # _ \<Rightarrow> vp_snat p \<noteq> Some False),
                        vp_ipBlocks = Some [cidr], vp_subnets = None\<rparr>])"

definition drop_block :: "string \<Rightarrow> veg_policy list \<Rightarrow> veg_policy list" where
  "drop_block cidr policies =
     filter (\<lambda>p. vp_ipBlocks p \<noteq> Some [])
       (map (\<lambda>p. if cidr \<in> set (or_nil (vp_ipBlocks p))
                 then p\<lparr>vp_ipBlocks := Some (filter (\<lambda>c. c \<noteq> cidr) (or_nil (vp_ipBlocks p)))\<rparr> else p) policies)"

definition http_error :: "exc \<Rightarrow> exc" where
  "http_error e = (case e of ApiException st \<Rightarrow> k8s_error_to_http st | _ \<Rightarrow> e)"

definition update_veg_policies :: "'w egress_api \<Rightarrow> string \<Rightarrow> string option \<Rightarrow> string option \<Rightarrow> ('w, unit) io" where
  "update_veg_policies api gateway_name add_cidr remove_cidr =
     bind_io (get_vpc_egress_gateway api gateway_name) (\<lambda>found.
       case found of
         None \<Rightarrow> ret ()
       | Some v \<Rightarrow>
           let ps = or_nil (vg_policies (vg_spec v));
               ps1 = (if truthy add_cidr then add_block (the add_cidr) ps else ps);
               ps2 = (if truthy remove_cidr then drop_block (the remove_cidr) ps1 else ps1)
           in catch_io (ea_patch_policies api gateway_name ps2) (\<lambda>e. raise (http_error e)))"

definition allow_between :: "string \<Rightarrow> string \<Rightarrow> acl" where
  "allow_between src dst =
     \<lparr>acl_action = Some ''allow-related'', acl_direction = Some ''from-lport'', acl_priority = Some 2800,
      acl_match = Some (''ip4.src == '' @ src @ '' && ip4.dst == '' @ dst)\<rparr>"

definition add_allow :: "string \<Rightarrow> acl list \<Rightarrow> string \<Rightarrow> acl list" where
  "add_allow src as cidr =
     (if list_ex (\<lambda>a. acl_match a = acl_match (allow_between src cidr)) as then as else as @ [allow_between src cidr])"

definition add_acl_allow_cidrs :: "'w egress_api \<Rightarrow> string \<Rightarrow> string \<Rightarrow> string list \<Rightarrow> ('w, unit) io" where
  "add_acl_allow_cidrs api subnet_name src_cidr allow_cidrs =
     bind_io (or_none_404 (ea_acls api subnet_name)) (\<lambda>found.
       case found of
         None \<Rightarrow> ret ()
       | Some as \<Rightarrow> ea_patch_acls api subnet_name (foldl (add_allow src_cidr) (or_nil as) allow_cidrs))"

text \<open>\<open>spec.internalIPs or status.internalIPs or []\<close>.\<close>

definition internal_ips :: "veg option \<Rightarrow> string list" where
  "internal_ips v =
     (case v of
        None \<Rightarrow> []
      | Some g \<Rightarrow> if or_nil (vg_internalIPs (vg_spec g)) \<noteq> [] then or_nil (vg_internalIPs (vg_spec g)) else or_nil (vs_internalIPs g))"

definition ensure_gateway_default_route :: "'w egress_api \<Rightarrow> string \<Rightarrow> string \<Rightarrow> ('w, unit) io" where
  "ensure_gateway_default_route api gateway_name gw_vpc_name =
     bind_io (get_vpc_egress_gateway api gateway_name) (\<lambda>v.
       case internal_ips v of
         [] \<Rightarrow> ret ()
       | ip # _ \<Rightarrow> add_static_route api gw_vpc_name ''0.0.0.0/0'' (before_slash ip))"

subsection \<open>Repairs on read\<close>

definition pin_of :: "nat \<Rightarrow> string list option \<Rightarrow> string list option \<Rightarrow> string list option" where
  "pin_of replicas pinned current =
     (if or_nil pinned \<noteq> [] then None
      else let ips = map before_slash (or_nil current)
           in if ips \<noteq> [] \<and> length ips \<ge> replicas then Some ips else None)"

definition adopt_gateway_pins :: "'w egress_api \<Rightarrow> string \<Rightarrow> veg option \<Rightarrow> ('w, bool) io" where
  "adopt_gateway_pins api gateway_name v =
     (case v of
        None \<Rightarrow> ret False
      | Some g \<Rightarrow>
          let r = (case vg_replicas (vg_spec g) of None \<Rightarrow> 1 | Some k \<Rightarrow> if k = 0 then 1 else k);
              i = pin_of r (vg_internalIPs (vg_spec g)) (vs_internalIPs g);
              e = pin_of r (vg_externalIPs (vg_spec g)) (vs_externalIPs g)
          in if i = None \<and> e = None then ret False
             else api_default (bind_io (ea_patch_pins api gateway_name i e) (\<lambda>_. ret True)) False)"

definition realign_gateway_default_route :: "'w egress_api \<Rightarrow> string \<Rightarrow> veg option \<Rightarrow> ('w, bool) io" where
  "realign_gateway_default_route api gateway_name v =
     (let live = map before_slash (internal_ips v)
      in if live = [] then ret False
         else bind_io (or_none_404 (ea_routes api (gw_vpc_of gateway_name))) (\<lambda>found.
           case found of
             None \<Rightarrow> ret False
           | Some rs \<Rightarrow>
               if list_ex (\<lambda>r. rt_cidr r = Some ''0.0.0.0/0'' \<and> (rt_nextHopIP r = None \<or> the (rt_nextHopIP r) \<notin> set live)) (or_nil rs)
               then bind_io (add_static_route api (gw_vpc_of gateway_name) ''0.0.0.0/0'' (hd live)) (\<lambda>_. ret True)
               else ret False))"

definition attached_entry :: "string \<Rightarrow> string \<times> string \<Rightarrow> AttachedVpcInfo" where
  "attached_entry gateway_name = (\<lambda>(key, val).
     let vpc_name = drop 4 key; parts = split_on (CHR '','') val;
         part = (\<lambda>i. if i < length parts then parts ! i else [])
     in \<lparr>av_vpc_name = vpc_name, av_subnet_name = part 1, av_cidr = part 2, av_transit_ip = part 0,
         av_peering_name = gateway_name @ ''-to-'' @ vpc_name\<rparr>)"

definition list_attached_vpcs :: "'w egress_api \<Rightarrow> string \<Rightarrow> ('w, AttachedVpcInfo list) io" where
  "list_attached_vpcs api gateway_name =
     bind_io (get_transit_allocator api gateway_name) (\<lambda>(data, _).
       ret (map (attached_entry gateway_name) (filter (\<lambda>(k, _). starts_with ''vpc.'' k) data)))"

definition declares_peering :: "string \<Rightarrow> vpc_spec cr option \<Rightarrow> bool" where
  "declares_peering gw_vpc_name item =
     (case item of None \<Rightarrow> False | Some v \<Rightarrow> list_ex (\<lambda>p. remoteVpc p = Some gw_vpc_name) (or_nil (vpcPeerings (cr_spec v))))"

text \<open>One attached VPC: \<^const>\<open>None\<close> when nothing was missing, else whether the repair is confirmed.\<close>

definition heal_one :: "'w egress_api \<Rightarrow> string \<Rightarrow> string \<Rightarrow> AttachedVpcInfo \<Rightarrow> ('w, bool option) io" where
  "heal_one api gw_vpc_name transit_cidr vpc =
     bind_io (get_vpc (ea_peerings api) (av_vpc_name vpc)) (\<lambda>item.
       if item = None \<or> declares_peering gw_vpc_name item then ret None
       else if av_transit_ip vpc = [] \<or> transit_cidr = [] then ret (Some False)
       else bind_io (io_of (transit_prefix_len transit_cidr)) (\<lambda>prefix.
            bind_io (api_default (bind_io (ensure_vpc_peering (ea_peerings api) (av_vpc_name vpc) gw_vpc_name
                (av_transit_ip vpc @ ''/'' @ nat_str prefix)) (\<lambda>_. ret True)) False) (\<lambda>written.
              if \<not> written then ret (Some False)
              else bind_io (get_vpc (ea_peerings api) (av_vpc_name vpc)) (\<lambda>after.
                ret (Some (declares_peering gw_vpc_name after))))))"

text \<open>The VPCs whose side was rewritten, and those whose side could not be.\<close>

fun verify_and_heal_peerings ::
  "'w egress_api \<Rightarrow> string \<Rightarrow> string \<Rightarrow> AttachedVpcInfo list \<Rightarrow> ('w, string list \<times> string list) io" where
  "verify_and_heal_peerings api gw_vpc_name transit_cidr [] = ret ([], [])"
| "verify_and_heal_peerings api gw_vpc_name transit_cidr (vpc # vpcs) =
     bind_io (heal_one api gw_vpc_name transit_cidr vpc) (\<lambda>r.
     bind_io (verify_and_heal_peerings api gw_vpc_name transit_cidr vpcs) (\<lambda>(repaired, failed).
       ret (if r = Some True then av_vpc_name vpc # repaired else repaired, if r = Some False then av_vpc_name vpc # failed else failed)))"

text \<open>What reading a gateway does before it answers.\<close>

definition repair_gateway :: "'w egress_api \<Rightarrow> string \<Rightarrow> gateway_vpc \<Rightarrow> ('w, string list \<times> string list) io" where
  "repair_gateway api name vpc =
     bind_io (get_vpc_egress_gateway api name) (\<lambda>v.
     bind_io (adopt_gateway_pins api name v) (\<lambda>adopted.
     bind_io (if adopted then get_vpc_egress_gateway api name else ret v) (\<lambda>v'.
     bind_io (realign_gateway_default_route api name v') (\<lambda>_.
     bind_io (list_attached_vpcs api name) (\<lambda>attached.
       verify_and_heal_peerings api (gv_name vpc) (or_nil (dict_get (gv_annotations vpc) TRANSIT_ANNOTATION)) attached)))))"

definition get_egress_gateway :: "'w egress_api \<Rightarrow> string \<Rightarrow> ('w, string list \<times> string list) io" where
  "get_egress_gateway api name =
     bind_io (get_gateway_config api name) (\<lambda>vpc.
       case vpc of None \<Rightarrow> raise (HTTPException 404) | Some v \<Rightarrow> repair_gateway api name v)"

subsection \<open>Attaching a VPC\<close>

definition gateway_label :: "gateway_vpc \<Rightarrow> string" where
  "gateway_label g = or_nil (dict_get (gv_labels g) GATEWAY_LABEL)"

fun holder_among :: "'w egress_api \<Rightarrow> string \<Rightarrow> gateway_vpc list \<Rightarrow> ('w, string option) io" where
  "holder_among api vpc_name [] = ret None"
| "holder_among api vpc_name (g # gs) =
     (if gateway_label g = [] then holder_among api vpc_name gs
      else bind_io (get_transit_allocator api (gateway_label g)) (\<lambda>(data, _).
        if dict_get data (''vpc.'' @ vpc_name) \<noteq> None then ret (Some (gateway_label g)) else holder_among api vpc_name gs))"

definition find_gateway_for_vpc :: "'w egress_api \<Rightarrow> string \<Rightarrow> ('w, string option) io" where
  "find_gateway_for_vpc api vpc_name = bind_io (api_default (ea_list_gateways api) []) (holder_among api vpc_name)"

definition find_default_gateway :: "'w egress_api \<Rightarrow> ('w, string option) io" where
  "find_default_gateway api =
     bind_io (api_default (ea_list_gateways api) []) (\<lambda>items.
       case items of
         [] \<Rightarrow> ret None
       | g # _ \<Rightarrow>
           ret (Some (gateway_label
             (case find (\<lambda>i. dict_get (gv_labels i) ''kubevirt-ui.io/egress-default'' = Some ''true'') items of
                None \<Rightarrow> g | Some i \<Rightarrow> i))))"

definition reject_routed_vpc :: "env_vars \<Rightarrow> 'w egress_api \<Rightarrow> string \<Rightarrow> ('w, unit) io" where
  "reject_routed_vpc env api tenant_vpc_name =
     (if \<not> b3_enabled env then ret ()
      else bind_io (external_subnet_cidr env (ea_b3 api)) (\<lambda>cidr.
        if cidr = [] then ret ()
        else bind_io (vpcs_routed_via (list_vpcs (ea_b3 api)) cidr) (\<lambda>names.
          if tenant_vpc_name \<in> set names then raise (HTTPException 422) else ret ())))"

definition reject_self_attach :: "string \<Rightarrow> string \<Rightarrow> ('w, unit) io" where
  "reject_self_attach gateway_name tenant_vpc_name =
     (if tenant_vpc_name = gw_vpc_of gateway_name then raise (HTTPException 422) else ret ())"

definition alloc_key :: "string \<Rightarrow> string" where
  "alloc_key tenant_vpc_name = ''vpc.'' @ tenant_vpc_name"

definition slot_ip :: "string \<Rightarrow> string" where
  "slot_ip val = hd (split_on (CHR '','') val)"

definition used_transit_ips :: "string dict \<Rightarrow> string list" where
  "used_transit_ips data =
     map (\<lambda>(_, v). slot_ip v) (filter (\<lambda>(k, _). starts_with ''vpc.'' k) data) @ [or_nil (dict_get data ''_gateway_ip'')]"

text \<open>The address, subnet and range of the VPC, from its entry or new.\<close>

definition slot_for :: "string \<Rightarrow> string dict \<Rightarrow> string \<Rightarrow> string \<Rightarrow> string \<Rightarrow> exc + (bool \<times> string \<times> string \<times> string)" where
  "slot_for transit_cidr data tenant_vpc_name subnet cidr =
     (case filter (\<lambda>f. f \<noteq> []) (split_on (CHR '','') (or_nil (dict_get data (alloc_key tenant_vpc_name)))) of
        [] \<Rightarrow> map_sum id (\<lambda>ip. (True, ip, subnet, cidr)) (allocate_transit_ip transit_cidr (used_transit_ips data))
      | [ip] \<Rightarrow> Inr (False, ip, subnet, cidr)
      | [ip, sn] \<Rightarrow> Inr (False, ip, sn, cidr)
      | ip # sn # c # _ \<Rightarrow> Inr (False, ip, sn, c))"

definition wire_vpc ::
  "'w egress_api \<Rightarrow> string \<Rightarrow> gateway_vpc \<Rightarrow> string \<Rightarrow> string \<Rightarrow> string \<Rightarrow> string \<Rightarrow> string \<Rightarrow> ('w, unit) io" where
  "wire_vpc api gateway_name vpc transit_cidr tenant_vpc_name ip subnet cidr =
     bind_io (io_of (gateway_transit_ip transit_cidr)) (\<lambda>gw_ip.
     bind_io (io_of (transit_prefix_len transit_cidr)) (\<lambda>prefix.
     bind_io (ensure_vpc_peering (ea_peerings api) (gv_name vpc) tenant_vpc_name (gw_ip @ ''/'' @ nat_str prefix)) (\<lambda>_.
     bind_io (ensure_vpc_peering (ea_peerings api) tenant_vpc_name (gv_name vpc) (ip @ ''/'' @ nat_str prefix)) (\<lambda>_.
     bind_io (add_static_route api tenant_vpc_name ''0.0.0.0/0'' gw_ip) (\<lambda>_.
     bind_io (add_static_route api (gv_name vpc) cidr ip) (\<lambda>_.
     bind_io (update_veg_policies api gateway_name (Some cidr) None) (\<lambda>_.
     bind_io (ensure_gateway_default_route api gateway_name (gv_name vpc)) (\<lambda>_.
       add_acl_allow_cidrs api subnet cidr
         [transit_cidr, or_nil (dict_get (gv_annotations vpc) GW_CIDR_ANNOTATION)]))))))))"

definition attach_to :: "'w egress_api \<Rightarrow> string \<Rightarrow> gateway_vpc \<Rightarrow> string \<Rightarrow> string \<Rightarrow> string \<Rightarrow> ('w, AttachedVpcInfo) io" where
  "attach_to api gateway_name vpc tenant_vpc_name subnet cidr =
     (let transit_cidr = or_nil (dict_get (gv_annotations vpc) TRANSIT_ANNOTATION)
      in if transit_cidr = [] then raise (HTTPException 500)
         else bind_io (get_transit_allocator api gateway_name) (\<lambda>(data, rv).
              bind_io (io_of (slot_for transit_cidr data tenant_vpc_name subnet cidr)) (\<lambda>(fresh, ip, sn, c).
              bind_io (wire_vpc api gateway_name vpc transit_cidr tenant_vpc_name ip sn c) (\<lambda>_.
              bind_io (if fresh
                       then save_transit_allocator api gateway_name
                              (dict_set data (alloc_key tenant_vpc_name) (ip @ '','' @ sn @ '','' @ c)) rv
                       else ret ()) (\<lambda>_.
                ret \<lparr>av_vpc_name = tenant_vpc_name, av_subnet_name = sn, av_cidr = c, av_transit_ip = ip,
                     av_peering_name = gateway_name @ ''-to-'' @ tenant_vpc_name\<rparr>)))))"

definition attach_tenant_to_gateway ::
  "env_vars \<Rightarrow> 'w egress_api \<Rightarrow> string option \<Rightarrow> string \<Rightarrow> string \<Rightarrow> string \<Rightarrow> ('w, AttachedVpcInfo option) io" where
  "attach_tenant_to_gateway env api gateway tenant_vpc_name subnet cidr =
     bind_io (if truthy gateway then ret gateway else find_default_gateway api) (\<lambda>g.
       if \<not> truthy g then ret None
       else bind_io (reject_self_attach (the g) tenant_vpc_name) (\<lambda>_.
            bind_io (reject_routed_vpc env api tenant_vpc_name) (\<lambda>_.
            bind_io (get_gateway_config api (the g)) (\<lambda>vpc.
              case vpc of
                None \<Rightarrow> raise (HTTPException 404)
              | Some v \<Rightarrow> bind_io (attach_to api (the g) v tenant_vpc_name subnet cidr) (\<lambda>info. ret (Some info))))))"

text \<open>The range of an entry: its third field.\<close>

definition slot_cidr :: "string \<Rightarrow> string" where
  "slot_cidr val = (let parts = split_on (CHR '','') val in if length parts > 2 then parts ! 2 else [])"

definition detach_tenant_from_gateway :: "'w egress_api \<Rightarrow> string \<Rightarrow> string \<Rightarrow> ('w, unit) io" where
  "detach_tenant_from_gateway api gateway_name tenant_vpc_name =
     bind_io (get_gateway_config api gateway_name) (\<lambda>found.
       case found of
         None \<Rightarrow> raise (HTTPException 404)
       | Some vpc \<Rightarrow>
           let transit_cidr = or_nil (dict_get (gv_annotations vpc) TRANSIT_ANNOTATION)
           in bind_io (if transit_cidr = [] then ret [] else io_of (gateway_transit_ip transit_cidr)) (\<lambda>gw_ip.
              bind_io (get_transit_allocator api gateway_name) (\<lambda>(data, rv).
                let cidr = slot_cidr (or_nil (dict_get data (alloc_key tenant_vpc_name)))
                in bind_io (remove_vpc_peering (ea_peerings api) (gv_name vpc) tenant_vpc_name) (\<lambda>_.
                   bind_io (remove_vpc_peering (ea_peerings api) tenant_vpc_name (gv_name vpc)) (\<lambda>_.
                   bind_io (if cidr = [] then ret () else remove_static_route api (gv_name vpc) cidr None) (\<lambda>_.
                   bind_io (if gw_ip = [] then ret () else remove_static_route api tenant_vpc_name ''0.0.0.0/0'' (Some gw_ip)) (\<lambda>_.
                   bind_io (if cidr = [] then ret () else update_veg_policies api gateway_name None (Some cidr)) (\<lambda>_.
                     if dict_get data (alloc_key tenant_vpc_name) = None then ret ()
                     else save_transit_allocator api gateway_name (dict_del data (alloc_key tenant_vpc_name)) rv))))))))"

subsection \<open>Deleting a gateway\<close>

text \<open>A run that may not return.\<close>

type_synonym ('w, 'a) run = "'w \<Rightarrow> ((exc + 'a) \<times> 'w) option"

definition may :: "('w, 'a) io \<Rightarrow> ('w, 'a) run" where
  "may m = (\<lambda>w. Some (m w))"

definition bind_run :: "('w, 'a) run \<Rightarrow> ('a \<Rightarrow> ('w, 'b) run) \<Rightarrow> ('w, 'b) run" where
  "bind_run m f = (\<lambda>w. case m w of None \<Rightarrow> None | Some (Inl e, w1) \<Rightarrow> Some (Inl e, w1) | Some (Inr x, w1) \<Rightarrow> f x w1)"

definition catch_run :: "('w, 'a) io \<Rightarrow> (exc \<Rightarrow> ('w, 'a) run) \<Rightarrow> ('w, 'a) run" where
  "catch_run m h = (\<lambda>w. case m w of (Inl e, w1) \<Rightarrow> h e w1 | (Inr x, w1) \<Rightarrow> Some (Inr x, w1))"

definition swallow :: "('w, unit) io \<Rightarrow> ('w, unit) io" where
  "swallow m = catch_io m (\<lambda>e. if is_api e then ret () else raise e)"

definition on_409 :: "('w, unit) io \<Rightarrow> ('w, unit) io" where
  "on_409 m = catch_io m (\<lambda>e. if e = ApiException 409 then ret () else raise e)"

definition GATEWAY_DRAIN_TIMEOUT :: int where
  "GATEWAY_DRAIN_TIMEOUT = 45"

definition still_there :: "'w egress_api \<Rightarrow> string \<Rightarrow> ('w, string list) io" where
  "still_there api gateway_name =
     bind_io (catch_io (bind_io (ea_veg api gateway_name) (\<lambda>_. ret [''vpc-egress-gateway/'' @ gateway_name]))
        (\<lambda>e. if e = ApiException 404 then ret [] else if is_api e then ret [''vpc-egress-gateway/'' @ gateway_name] else raise e)) (\<lambda>left.
     bind_io (api_default (ea_labelled_subnets api gateway_name) []) (\<lambda>names.
       ret (left @ map (\<lambda>n. ''subnet/'' @ n) names)))"

partial_function (option) await_loop ::
  "('w, 'a list) io \<Rightarrow> ('w, int) io \<Rightarrow> int \<Rightarrow> 'w \<Rightarrow> ((exc + 'a list) \<times> 'w) option" where
  "await_loop still now deadline w =
     (case still w of
        (Inl e, w1) \<Rightarrow> Some (Inl e, w1)
      | (Inr left, w1) \<Rightarrow>
          if left = [] then Some (Inr [], w1)
          else (case now w1 of
                  (Inl e, w2) \<Rightarrow> Some (Inl e, w2)
                | (Inr t, w2) \<Rightarrow> if t \<ge> deadline then Some (Inr left, w2) else await_loop still now deadline w2))"

definition await_gateway_gone :: "'w egress_api \<Rightarrow> ('w, int) io \<Rightarrow> string \<Rightarrow> ('w, string list) run" where
  "await_gateway_gone api now gateway_name =
     bind_run (may now) (\<lambda>t. await_loop (still_there api gateway_name) now (t + GATEWAY_DRAIN_TIMEOUT))"

definition cleanup_gateway_vpc :: "'w egress_api \<Rightarrow> string \<Rightarrow> ('w, unit) io" where
  "cleanup_gateway_vpc api gw_vpc_name = swallow (ea_delete_vpc api gw_vpc_name)"

text \<open>The route of a tenant is looked for under the tenant's own transit address.\<close>

definition unpeer_tenant :: "'w egress_api \<Rightarrow> string \<Rightarrow> string \<times> string \<Rightarrow> ('w, unit) io" where
  "unpeer_tenant api gw_vpc_name = (\<lambda>(key, val).
     if \<not> starts_with ''vpc.'' key then ret ()
     else swallow (bind_io (remove_vpc_peering (ea_peerings api) (drop 4 key) gw_vpc_name) (\<lambda>_.
            remove_static_route api (drop 4 key) ''0.0.0.0/0'' (if slot_ip val = [] then None else Some (slot_ip val)))))"

definition cleanup_gateway_resources :: "'w egress_api \<Rightarrow> ('w, int) io \<Rightarrow> string \<Rightarrow> ('w, string list) run" where
  "cleanup_gateway_resources api now gateway_name =
     bind_run (may (swallow (ea_delete_veg api gateway_name))) (\<lambda>_.
     bind_run (may (get_transit_allocator api gateway_name)) (\<lambda>(data, _).
     bind_run (may (for_each data (unpeer_tenant api (gw_vpc_of gateway_name)))) (\<lambda>_.
     bind_run (may (swallow (bind_io (ea_labelled_subnets api gateway_name) (\<lambda>names.
                 for_each names (\<lambda>n. swallow (ea_delete_subnet api n)))))) (\<lambda>_.
     bind_run (await_gateway_gone api now gateway_name) (\<lambda>left.
       if left \<noteq> [] then may (ret left)
       else bind_run (may (cleanup_gateway_vpc api (gw_vpc_of gateway_name))) (\<lambda>_. may (ret [])))))))"

definition delete_egress_gateway :: "'w egress_api \<Rightarrow> ('w, int) io \<Rightarrow> string \<Rightarrow> ('w, unit) run" where
  "delete_egress_gateway api now name =
     bind_run (may (get_gateway_config api name)) (\<lambda>vpc.
       if vpc = None then may (raise (HTTPException 404))
       else bind_run (may (list_attached_vpcs api name)) (\<lambda>attached.
            if attached \<noteq> [] then may (raise (HTTPException 409))
            else bind_run (cleanup_gateway_resources api now name) (\<lambda>stranded.
                 if stranded \<noteq> [] then may (raise (HTTPException 409))
                 else may (swallow (ea_delete_cm api name)))))"

subsection \<open>Creating a gateway\<close>

record EgressGatewayCreateRequest =
  gc_name :: string
  gc_gw_vpc_cidr :: string
  gc_transit_cidr :: string
  gc_macvlan_subnet :: "string option"
  gc_external_interface :: "string option"
  gc_external_cidr :: "string option"
  gc_external_gateway :: "string option"
  gc_replicas :: nat
  gc_bfd_enabled :: bool
  gc_bgp_conf :: "string option"
  gc_snat :: bool
  gc_external_ips :: "string list"
  gc_node_selector :: "string dict"
  gc_exclude_ips :: "string list"

text \<open>The validators of the request.\<close>

definition exclude_entry_ok :: "string \<Rightarrow> bool" where
  "exclude_entry_ok entry =
     (case split_once ''..'' entry of
        Some (a, b) \<Rightarrow> (case (ip_address a, ip_address b) of (Some (_, x), Some (_, y)) \<Rightarrow> x \<le> y | _ \<Rightarrow> False)
      | None \<Rightarrow> ip_address entry \<noteq> None)"

definition create_request_ok :: "EgressGatewayCreateRequest \<Rightarrow> bool" where
  "create_request_ok d \<longleftrightarrow>
     ip_network (gc_gw_vpc_cidr d) \<noteq> None \<and> ip_network (gc_transit_cidr d) \<noteq> None
   \<and> (case gc_external_cidr d of None \<Rightarrow> True | Some c \<Rightarrow> ip_network c \<noteq> None)
   \<and> list_all exclude_entry_ok (gc_exclude_ips d) \<and> 1 \<le> gc_replicas d \<and> gc_replicas d \<le> 10"

definition create_external :: "EgressGatewayCreateRequest \<Rightarrow> bool" where
  "create_external d \<longleftrightarrow> truthy (gc_external_interface d) \<and> truthy (gc_external_cidr d) \<and> truthy (gc_external_gateway d)"

definition check_external_choice :: "'w egress_api \<Rightarrow> EgressGatewayCreateRequest \<Rightarrow> ('w, unit) io" where
  "check_external_choice api d =
     (let given = truthy (gc_macvlan_subnet d)
      in if \<not> given \<and> \<not> create_external d then raise (HTTPException 422)
         else if given \<and> create_external d then raise (HTTPException 422)
         else if \<not> given then ret ()
         else if CHR ''/'' \<in> set (the (gc_macvlan_subnet d)) then raise (HTTPException 422)
         else catch_io (bind_io (ea_subnet api (the (gc_macvlan_subnet d))) (\<lambda>_. ret ()))
                (\<lambda>e. if e = ApiException 404 then raise (HTTPException 404) else raise (http_error e)))"

definition external_name :: "EgressGatewayCreateRequest \<Rightarrow> string" where
  "external_name d = (if truthy (gc_macvlan_subnet d) then the (gc_macvlan_subnet d) else ''egw-'' @ gc_name d @ ''-external'')"

definition gw_labels :: "EgressGatewayCreateRequest \<Rightarrow> string dict" where
  "gw_labels d = [(EGRESS_MANAGED_LABEL, ''true''), (GATEWAY_LABEL, gc_name d)]"

definition gw_annotations :: "EgressGatewayCreateRequest \<Rightarrow> string dict" where
  "gw_annotations d =
     [(GW_CIDR_ANNOTATION, gc_gw_vpc_cidr d), (TRANSIT_ANNOTATION, gc_transit_cidr d),
      (''kubevirt-ui.io/macvlan-subnet'', external_name d)]
     @ (if gc_exclude_ips d = [] then [] else [(''kubevirt-ui.io/exclude-ips'', join '','' (gc_exclude_ips d))])
     @ (if create_external d
        then [(''kubevirt-ui.io/external-interface'', the (gc_external_interface d)),
              (''kubevirt-ui.io/external-cidr'', the (gc_external_cidr d)),
              (''kubevirt-ui.io/external-gateway'', the (gc_external_gateway d))] else [])"

text \<open>\<open>transit_network.network_address + 254\<close>.\<close>

definition bfd_ip :: "string \<Rightarrow> exc + string" where
  "bfd_ip transit_cidr =
     (case parse_net4 transit_cidr of
        None \<Rightarrow> Inl ValueError
      | Some n \<Rightarrow> if net_addr n + 254 < 2 ^ 32 then Inr (ipv4_str (net_addr n + 254)) else Inl ValueError)"

definition gw_subnet :: "EgressGatewayCreateRequest \<Rightarrow> string \<Rightarrow> egress_subnet" where
  "gw_subnet d gateway =
     \<lparr>es_name = ''egw-'' @ gc_name d @ ''-subnet'', es_labels = gw_labels d, es_cidrBlock = gc_gw_vpc_cidr d, es_gateway = gateway,
      es_vpc = Some (gw_vpc_of (gc_name d)), es_provider = None, es_excludeIps = [], es_using = []\<rparr>"

definition ext_subnet :: "EgressGatewayCreateRequest \<Rightarrow> egress_subnet" where
  "ext_subnet d =
     \<lparr>es_name = external_name d, es_labels = gw_labels d, es_cidrBlock = or_nil (gc_external_cidr d),
      es_gateway = or_nil (gc_external_gateway d), es_vpc = None, es_provider = Some (''egw-'' @ gc_name d @ ''-macvlan.kube-system''),
      es_excludeIps = gc_exclude_ips d, es_using = []\<rparr>"

definition new_veg :: "EgressGatewayCreateRequest \<Rightarrow> string list \<Rightarrow> string list \<Rightarrow> veg" where
  "new_veg d internal external =
     \<lparr>vg_name = gc_name d,
      vg_spec = \<lparr>vg_vpc = gw_vpc_of (gc_name d), vg_replicas = Some (gc_replicas d),
        vg_internalSubnet = ''egw-'' @ gc_name d @ ''-subnet'', vg_externalSubnet = external_name d,
        vg_policies = Some [\<lparr>vp_snat = Some (gc_snat d), vp_ipBlocks = None, vp_subnets = Some [''egw-'' @ gc_name d @ ''-subnet'']\<rparr>],
        vg_bfd = gc_bfd_enabled d,
        vg_internalIPs = (if internal = [] then None else Some internal),
        vg_externalIPs = (if gc_external_ips d \<noteq> [] then Some (gc_external_ips d) else if external = [] then None else Some external),
        vg_bgpConf = (if truthy (gc_bgp_conf d) then gc_bgp_conf d else None), vg_nodeSelector = gc_node_selector d\<rparr>,
      vs_internalIPs = None, vs_externalIPs = None\<rparr>"

text \<open>A refused write is followed by the removal of everything, then reported.\<close>

definition or_cleanup :: "'w egress_api \<Rightarrow> ('w, int) io \<Rightarrow> string \<Rightarrow> ('w, unit) io \<Rightarrow> ('w, unit) run" where
  "or_cleanup api now name m =
     catch_run m (\<lambda>e. if is_api e then bind_run (cleanup_gateway_resources api now name) (\<lambda>_. may (raise (http_error e)))
                      else may (raise e))"

definition create_egress_gateway :: "'w egress_api \<Rightarrow> ('w, int) io \<Rightarrow> EgressGatewayCreateRequest \<Rightarrow> ('w, unit) run" where
  "create_egress_gateway api now d =
     bind_run (may (check_external_choice api d)) (\<lambda>_.
     bind_run (may (require_external_subnet api)) (\<lambda>_.
     bind_run (may (validate_cidr_no_overlap api (gc_gw_vpc_cidr d) (gc_transit_cidr d))) (\<lambda>_.
     bind_run (may (io_of (gateway_transit_ip (gc_gw_vpc_cidr d)))) (\<lambda>gw_gateway.
     bind_run (may (io_of (gateway_transit_ip (gc_transit_cidr d)))) (\<lambda>transit_gateway.
     bind_run (may (if gc_bfd_enabled d then bind_io (io_of (bfd_ip (gc_transit_cidr d))) (\<lambda>ip. ret (Some ip)) else ret None)) (\<lambda>bfd.
     bind_run (may (catch_io (ea_create_vpc api \<lparr>gv_name = gw_vpc_of (gc_name d), gv_labels = gw_labels d,
                                gv_annotations = gw_annotations d, gv_bfdPort = bfd\<rparr>) (\<lambda>e. raise (http_error e)))) (\<lambda>_.
     bind_run (may (catch_io (ea_create_subnet api (gw_subnet d gw_gateway))
                      (\<lambda>e. if is_api e then bind_io (cleanup_gateway_vpc api (gw_vpc_of (gc_name d))) (\<lambda>_. raise (http_error e))
                           else raise e))) (\<lambda>_.
     bind_run (if create_external d
               then bind_run (or_cleanup api now (gc_name d)
                      (on_409 (ea_create_nad api (''egw-'' @ gc_name d @ ''-macvlan'') (the (gc_external_interface d))
                         (''egw-'' @ gc_name d @ ''-macvlan.kube-system''))))
                      (\<lambda>_. or_cleanup api now (gc_name d) (ea_create_subnet api (ext_subnet d)))
               else may (ret ())) (\<lambda>_.
     bind_run (may (allocate_gateway_ips api (''egw-'' @ gc_name d @ ''-subnet'') (external_name d) (gc_replicas d))) (\<lambda>(internal, external).
     bind_run (or_cleanup api now (gc_name d) (ea_create_veg api (new_veg d internal external))) (\<lambda>_.
     bind_run (may (if gc_exclude_ips d \<noteq> [] \<and> \<not> create_external d
                    then swallow (ea_patch_exclude api (external_name d) (gc_exclude_ips d)) else ret ())) (\<lambda>_.
       may (save_transit_allocator api (gc_name d) [(''_gateway_ip'', transit_gateway)] [])))))))))))))"

end
