(* ===== verification/EgressCorrect.thy ===== *)
theory EgressCorrect
  imports Egress
begin

section \<open>Egress gateways: what the model guarantees\<close>

text \<open>
  The transit address a hub hands out, on every branch; the table of a hub, where no attach books one address
  twice whatever the other writers of the cluster do in between; and what an attach, a detach and the removal of a
  gateway leave behind.
\<close>

subsection \<open>Addresses of the transit network\<close>

lemma usable_hosts_bound: "wf_net n \<Longrightarrow> net_ver n = V4 \<Longrightarrow> h \<in> set (usable_hosts n) \<Longrightarrow> h \<in> addrs n"
  unfolding usable_hosts_def
  by (auto simp: hosts_def addrs_def broadcast_def block_size_def wf_net_def Suc_diff_le split: if_splits)

lemma usable_hosts_small: "net_len n \<le> 30 \<Longrightarrow> net_ver n = V4 \<Longrightarrow> usable_hosts n = [net_addr n + 1 ..< broadcast n]"
  by (simp add: usable_hosts_def hosts_def)

lemma usable_hosts_sorted: "sorted (usable_hosts n)"
  by (simp add: usable_hosts_def hosts_def sorted_upt del: upt_Suc)

text \<open>C37. The address a hub hands to a VPC is the lowest host address of its transit network that nobody holds, the
  address of the hub itself apart. The hub is full exactly when every one is held; on a network of length 30 or
  less that takes as many holders as the capacity shown.\<close>

theorem allocate_transit_ip_exact:
  assumes "parse_net4 transit_cidr = Some n"
  shows "case allocate_transit_ip transit_cidr used of
      Inr ip \<Rightarrow> \<exists>h \<in> set (usable_hosts n). ip = ipv4_str h \<and> h \<in> addrs n \<and> h \<noteq> net_addr n + 1 \<and> ip \<notin> set used
        \<and> (\<forall>k \<in> set (usable_hosts n). k < h \<longrightarrow> k = net_addr n + 1 \<or> ipv4_str k \<in> set used)
    | Inl e \<Rightarrow> e = HTTPException 409 \<and> (\<forall>k \<in> set (usable_hosts n). k = net_addr n + 1 \<or> ipv4_str k \<in> set used)
        \<and> (net_len n \<le> 30 \<longrightarrow> transit_capacity transit_cidr \<le> int (card (set used - {ipv4_str (net_addr n + 1)})))"
proof -
  have n: "wf_net n" "net_ver n = V4" using parse_net4_wf [OF assms] by simp_all
  let ?P = "\<lambda>h. ipv4_str h \<notin> set used \<and> h \<noteq> net_addr n + 1"
  show ?thesis
  proof (cases "find ?P (usable_hosts n)")
    case (Some h)
    then obtain i where i: "i < length (usable_hosts n)" "h = usable_hosts n ! i" "?P h" "\<And>j. j < i \<Longrightarrow> \<not> ?P (usable_hosts n ! j)"
      by (auto simp: find_Some_iff)
    have "\<not> ?P k" if k: "k \<in> set (usable_hosts n)" "k < h" for k
    proof -
      obtain j where j: "j < length (usable_hosts n)" "k = usable_hosts n ! j" using k(1) unfolding in_set_conv_nth by blast
      have "j < i"
      proof (rule ccontr)
        assume "\<not> j < i"
        then have "usable_hosts n ! i \<le> usable_hosts n ! j" using usable_hosts_sorted j(1) by (simp add: sorted_nth_mono)
        then show False using k(2) i(2) j(2) by simp
      qed
      then show ?thesis using i(4) j(2) by blast
    qed
    moreover have "h \<in> set (usable_hosts n)" using i(1,2) by simp
    moreover have "allocate_transit_ip transit_cidr used = Inr (ipv4_str h)"
      unfolding allocate_transit_ip_def assms option.case Some ..
    ultimately show ?thesis using i(3) usable_hosts_bound [OF n] by auto
  next
    case None
    then have all: "k = net_addr n + 1 \<or> ipv4_str k \<in> set used" if "k \<in> set (usable_hosts n)" for k
      using that by (auto simp: find_None_iff)
    have "transit_capacity transit_cidr \<le> int (card (set used - {ipv4_str (net_addr n + 1)}))" if "net_len n \<le> 30"
    proof -
      have hs: "set (usable_hosts n) = {net_addr n + 1 ..< broadcast n}" using usable_hosts_small [OF that n(2)] by simp
      have low: "k < 2 ^ 32" if "k \<in> set (usable_hosts n)" for k
        using usable_hosts_bound [OF n that] wf_addrs_bound [OF n(1)] n(2) by auto
      have inj: "inj_on ipv4_str (set (usable_hosts n))" by (rule inj_onI) (use low ipv4_str_inj in blast)
      have "ipv4_str ` {net_addr n + 2 ..< broadcast n} \<subseteq> set used - {ipv4_str (net_addr n + 1)}"
      proof
        fix x assume "x \<in> ipv4_str ` {net_addr n + 2 ..< broadcast n}"
        then obtain k where k: "x = ipv4_str k" "net_addr n + 2 \<le> k" "k < broadcast n" by auto
        then have "k \<in> set (usable_hosts n)" "net_addr n + 1 \<in> set (usable_hosts n)" by (simp_all add: hs)
        then have "ipv4_str k \<noteq> ipv4_str (net_addr n + 1)" using inj_onD [OF inj] k(2) by fastforce
        then show "x \<in> set used - {ipv4_str (net_addr n + 1)}" using all [of k] k \<open>k \<in> set (usable_hosts n)\<close> by auto
      qed
      then have "card (ipv4_str ` {net_addr n + 2 ..< broadcast n}) \<le> card (set used - {ipv4_str (net_addr n + 1)})" by (intro card_mono) auto
      moreover have "card (ipv4_str ` {net_addr n + 2 ..< broadcast n}) = broadcast n - (net_addr n + 2)"
        using inj_on_subset [OF inj, of "{net_addr n + 2 ..< broadcast n}"] by (subst card_image) (auto simp: hs)
      ultimately show ?thesis using assms by (simp add: transit_capacity_def broadcast_def)
    qed
    moreover have "allocate_transit_ip transit_cidr used = Inl (HTTPException 409)"
      unfolding allocate_transit_ip_def assms option.case None ..
    ultimately show ?thesis using all by auto
  qed
qed

subsection \<open>Runs while others write\<close>

lemma moves_io_of [moving]: "reflp rely \<Longrightarrow> moves rely (io_of r)"
  by (simp add: moves_def reflp_def io_of_def)

lemma moves_cas:
  assumes "reflp rely" "transp rely" "moves rely get" "\<And>b. moves rely (patch b)"
  shows "moves rely (cas_attempts get patch m n)"
proof -
  have "cas_attempts get patch m n w = (r, w') \<Longrightarrow> rely w w'" for w r w'
  proof (induction n arbitrary: w)
    case 0
    then show ?case using assms(1) by (simp add: reflp_def)
  next
    case (Suc n)
    obtain g w1 where g: "get w = (g, w1)" by (cases "get w")
    have w1: "rely w w1" using assms(3) g by (simp add: moves_def)
    show ?case
    proof (cases g)
      case (Inl e)
      then show ?thesis using Suc.prems g w1 by (auto split: if_splits)
    next
      case item: (Inr item)
      show ?thesis
      proof (cases "\<exists>p. m (cr_spec item) = Inr (Some p)")
        case True
        then obtain p where p: "m (cr_spec item) = Inr (Some p)" by blast
        obtain pr w2 where pr: "patch \<lparr>pb_rv = cr_rv item, pb_spec = p\<rparr> w1 = (pr, w2)" by (cases "patch \<lparr>pb_rv = cr_rv item, pb_spec = p\<rparr> w1")
        have "rely w1 w2" using assms(4) pr by (simp add: moves_def)
        then have w2: "rely w w2" using w1 assms(2) by (blast dest: transpD)
        show ?thesis using Suc.prems g item p pr w2 Suc.IH [of w2] assms(2) by (auto split: sum.splits if_splits dest: transpD)
      next
        case False
        then show ?thesis using Suc.prems g item w1 by (auto split: sum.splits option.splits)
      qed
    qed
  qed
  then show ?thesis by (simp add: moves_def)
qed

lemma moves_get_vpc [moving]:
  "moves rely (get_cluster_custom_object api (vpc_coords name)) \<Longrightarrow> moves rely (get_vpc api name)"
  by (auto simp: moves_def get_vpc_def split: prod.splits sum.splits if_splits)

lemma moves_ensure_peering [moving]:
  assumes "reflp rely" "transp rely" "\<And>c. moves rely (get_cluster_custom_object api c)" "\<And>c b. moves rely (patch_cluster_custom_object api c b)"
  shows "moves rely (ensure_vpc_peering api name remote ip)"
  unfolding ensure_vpc_peering_def patch_vpc_conv by (intro moving moves_cas assms)

lemma moves_on_404 [moving]: "transp rely \<Longrightarrow> reflp rely \<Longrightarrow> moves rely m \<Longrightarrow> moves rely h \<Longrightarrow> moves rely (on_404 m h)"
  unfolding on_404_def by (intro moving)

lemma moves_or_none [moving]: "transp rely \<Longrightarrow> reflp rely \<Longrightarrow> moves rely m \<Longrightarrow> moves rely (or_none_404 m)"
  unfolding or_none_404_def by (intro moving)

lemma moves_api_default [moving]: "transp rely \<Longrightarrow> reflp rely \<Longrightarrow> moves rely m \<Longrightarrow> moves rely (api_default m d)"
  unfolding api_default_def by (intro moving)

text \<open>The table of one gateway with compare-and-set writes; the other calls of an attach do not write it.\<close>

definition hub_world ::
  "('w \<Rightarrow> 'w \<Rightarrow> bool) \<Rightarrow> ('w \<Rightarrow> (string dict \<times> string) option) \<Rightarrow> 'w egress_api \<Rightarrow> string \<Rightarrow> bool" where
  "hub_world rely cur api g \<longleftrightarrow>
     cm_store rely cur (read_config_map (ea_cm api g)) (create_config_map (ea_cm api g)) (replace_config_map (ea_cm api g))
   \<and> (\<forall>n. moves rely (ea_gateway_vpc api n)) \<and> moves rely (ea_list_gateways api) \<and> (\<forall>n. moves rely (ea_veg api n))
   \<and> (\<forall>n ps. moves rely (ea_patch_policies api n ps)) \<and> (\<forall>n. moves rely (ea_routes api n))
   \<and> (\<forall>n rs. moves rely (ea_patch_routes api n rs)) \<and> (\<forall>n. moves rely (ea_acls api n)) \<and> (\<forall>n as. moves rely (ea_patch_acls api n as))
   \<and> (\<forall>c. moves rely (get_cluster_custom_object (ea_peerings api) c))
   \<and> (\<forall>c b. moves rely (patch_cluster_custom_object (ea_peerings api) c b))
   \<and> moves rely (list_subnets (ea_b3 api)) \<and> moves rely (list_vpcs (ea_b3 api))"

lemma hub_worldD:
  assumes "hub_world rely cur api g"
  shows "reflp rely" "transp rely"
    "cm_store rely cur (read_config_map (ea_cm api g)) (create_config_map (ea_cm api g)) (replace_config_map (ea_cm api g))"
    "moves rely (ea_gateway_vpc api n)" "moves rely (ea_list_gateways api)" "moves rely (ea_veg api n)" "moves rely (ea_patch_policies api n ps)"
    "moves rely (ea_routes api n)" "moves rely (ea_patch_routes api n rs)" "moves rely (ea_acls api n)" "moves rely (ea_patch_acls api n as)"
    "moves rely (get_cluster_custom_object (ea_peerings api) c)" "moves rely (patch_cluster_custom_object (ea_peerings api) c b)"
    "moves rely (list_subnets (ea_b3 api))" "moves rely (list_vpcs (ea_b3 api))"
  using assms by (simp_all add: hub_world_def cm_store_def)

lemma wire_moves:
  assumes "hub_world rely cur api g"
  shows "moves rely (wire_vpc api gw vpc tc t ip sn c)"
  unfolding wire_vpc_def add_static_route_def update_veg_policies_def get_vpc_egress_gateway_def ensure_gateway_default_route_def
    add_acl_allow_cidrs_def Let_def
  by (intro moving hub_worldD [OF assms])

lemma reject_moves:
  assumes "hub_world rely cur api g"
  shows "moves rely (reject_self_attach a b)" "moves rely (reject_routed_vpc env api t)" "moves rely (get_gateway_config api gw)"
    "moves rely (find_default_gateway api)"
  unfolding reject_self_attach_def reject_routed_vpc_def get_gateway_config_def external_subnet_cidr_def vpcs_routed_via_def find_default_gateway_def
  by (intro moving hub_worldD [OF assms])+

subsection \<open>No transit address is booked twice\<close>

definition transit_table_ok :: "string dict \<Rightarrow> bool" where
  "transit_table_ok data \<longleftrightarrow>
     (\<forall>k v. starts_with ''vpc.'' k \<longrightarrow> dict_get data k = Some v \<longrightarrow> Some (slot_ip v) \<noteq> dict_get data ''_gateway_ip'')
   \<and> (\<forall>k v k' v'. starts_with ''vpc.'' k \<longrightarrow> starts_with ''vpc.'' k' \<longrightarrow> k \<noteq> k' \<longrightarrow>
        dict_get data k = Some v \<longrightarrow> dict_get data k' = Some v' \<longrightarrow> slot_ip v \<noteq> slot_ip v')"

lemma used_slot: "starts_with ''vpc.'' k \<Longrightarrow> dict_get data k = Some v \<Longrightarrow> slot_ip v \<in> set (used_transit_ips data)"
  by (force simp: used_transit_ips_def dest: map_of_SomeD)

lemma used_gateway: "dict_get data ''_gateway_ip'' = Some g \<Longrightarrow> g \<in> set (used_transit_ips data)"
  by (simp add: used_transit_ips_def)

lemma slot_ip_text: "CHR '','' \<notin> set ip \<Longrightarrow> slot_ip (ip @ '','' @ rest) = ip"
  by (simp add: slot_ip_def split_on_append split_on_free)

lemma ipv4_no_comma: "CHR '','' \<notin> set (ipv4_str a)"
  using ipv4_str_chars [of "CHR '',''" a] by (auto simp: is_digit_def)

lemma transit_table_set:
  assumes "transit_table_ok data" "ip \<notin> set (used_transit_ips data)" "CHR '','' \<notin> set ip"
  shows "transit_table_ok (dict_set data (alloc_key t) (ip @ '','' @ rest))"
proof -
  let ?k = "alloc_key t"
  have key: "starts_with ''vpc.'' ?k" "?k \<noteq> ''_gateway_ip''" by (simp_all add: alloc_key_def starts_with_def)
  have get: "dict_get (dict_set data ?k v) k = (if k = ?k then Some v else dict_get data k)" for k v by (simp add: update_conv')
  show ?thesis
    unfolding transit_table_ok_def get slot_ip_text [OF assms(3)]
    using assms(1,2) used_slot used_gateway key slot_ip_text [OF assms(3)] unfolding transit_table_ok_def by (auto split: if_splits)
qed

lemma slot_for_fresh:
  assumes "slot_for tc data t sn c = Inr (fresh, ip, sn', c')"
  shows "fresh \<Longrightarrow> ip \<notin> set (used_transit_ips data) \<and> CHR '','' \<notin> set ip"
    and "\<not> fresh \<Longrightarrow> dict_get data (alloc_key t) \<noteq> None \<and> ip \<in> set (split_on (CHR '','') (or_nil (dict_get data (alloc_key t))))"
proof -
  define fs where "fs = filter (\<lambda>f. f \<noteq> []) (split_on (CHR '','') (or_nil (dict_get data (alloc_key t))))"
  have slot: "(case fs of [] \<Rightarrow> map_sum id (\<lambda>ip. (True, ip, sn, c)) (allocate_transit_ip tc (used_transit_ips data))
      | [ip] \<Rightarrow> Inr (False, ip, sn, c) | [ip, s] \<Rightarrow> Inr (False, ip, s, c) | ip # s # r # _ \<Rightarrow> Inr (False, ip, s, r)) = Inr (fresh, ip, sn', c')"
    using assms unfolding slot_for_def fs_def .
  have new: "fresh \<Longrightarrow> allocate_transit_ip tc (used_transit_ips data) = Inr ip"
    and old: "\<not> fresh \<Longrightarrow> \<exists>r. fs = ip # r"
    using slot by (cases "allocate_transit_ip tc (used_transit_ips data)"; auto split: list.splits)+
  show "ip \<notin> set (used_transit_ips data) \<and> CHR '','' \<notin> set ip" if fresh
    using new [OF that] ipv4_no_comma by (auto simp: allocate_transit_ip_def find_Some_iff split: option.splits)
  show "dict_get data (alloc_key t) \<noteq> None \<and> ip \<in> set (split_on (CHR '','') (or_nil (dict_get data (alloc_key t))))" if "\<not> fresh"
  proof -
    have "ip \<in> set fs" using old [OF that] by auto
    then show ?thesis by (cases "dict_get data (alloc_key t)") (auto simp: fs_def)
  qed
qed

text \<open>What a read of the table saw.\<close>

lemma get_allocator_server:
  assumes "hub_world rely cur api g" "get_transit_allocator api g w = (r, w')"
  shows "rely w w'"
    and "r = Inr (data, rv) \<Longrightarrow> rv = [] \<and> data = [] \<and> cur w' = None \<or> rv \<noteq> [] \<and> cur w' = Some (data, rv)"
proof -
  note st = cm_storeD [OF hub_worldD(3) [OF assms(1)]]
  have "moves rely (read_config_map (ea_cm api g))" using st(4) by (auto simp: moves_def)
  then have "moves rely (get_transit_allocator api g)"
    unfolding get_transit_allocator_def by (intro moving hub_worldD [OF assms(1)])
  then show "rely w w'" using assms(2) by (simp add: moves_def)
  show "rv = [] \<and> data = [] \<and> cur w' = None \<or> rv \<noteq> [] \<and> cur w' = Some (data, rv)" if "r = Inr (data, rv)"
  proof (cases "read_config_map (ea_cm api g) w")
    case (Pair x u)
    show ?thesis
    proof (cases x)
      case (Inl e)
      then show ?thesis using assms(2) that Pair st(6) [of w u]
        by (auto simp: get_transit_allocator_def on_404_def catch_io_def bind_io_def split: if_splits)
    next
      case (Inr cm)
      then show ?thesis using assms(2) that Pair st(5) [of w cm u]
        by (auto simp: get_transit_allocator_def on_404_def catch_io_def bind_io_def)
    qed
  qed
qed

lemma save_allocator_server:
  assumes "hub_world rely cur api g" "save_transit_allocator api g data' rv w = (r, w')"
    and "rv = [] \<and> data = [] \<and> cur u = None \<or> rv \<noteq> [] \<and> cur u = Some (data, rv)" "rely u w"
  shows "r = Inr () \<Longrightarrow> \<exists>v. cur w' = Some (data', v)" "r = Inl (ApiException st) \<Longrightarrow> rely w w'"
  using assms(2,3) cm_storeD(7-10) [OF hub_worldD(3) [OF assms(1)]]
  by (fastforce simp: save_transit_allocator_def transit_body_def bind_io_def split: if_splits prod.splits sum.splits)+

abbreviation tables_ok :: "('w \<Rightarrow> (string dict \<times> string) option) \<Rightarrow> 'w \<Rightarrow> bool" where
  "tables_ok cur w \<equiv> \<forall>d v. cur w = Some (d, v) \<longrightarrow> transit_table_ok d"

definition booked :: "('w \<Rightarrow> (string dict \<times> string) option) \<Rightarrow> string \<Rightarrow> string \<Rightarrow> 'w \<Rightarrow> bool" where
  "booked cur t ip w \<longleftrightarrow> (\<exists>d v e. cur w = Some (d, v) \<and> dict_get d (alloc_key t) = Some e \<and> ip \<in> set (split_on (CHR '','') e))"

lemma book_slot:
  assumes hub: "hub_world rely cur api g" and stab: "stable rely (tables_ok cur)" and ok: "tables_ok cur w" and tok: "transit_table_ok data"
    and seen: "rv = [] \<and> data = [] \<and> cur u = None \<or> rv \<noteq> [] \<and> cur u = Some (data, rv)" "rely u w"
    and ip: "ip \<notin> set (used_transit_ips data)" "CHR '','' \<notin> set ip"
    and run: "save_transit_allocator api g (dict_set data (alloc_key t) (ip @ '','' @ rest)) rv w = (z, w')"
    and res: "z = Inr () \<or> z = Inl (ApiException st)"
  shows "tables_ok cur w' \<and> (z = Inr () \<longrightarrow> booked cur t ip w')"
proof (cases "z = Inr ()")
  case True
  let ?d = "dict_set data (alloc_key t) (ip @ '','' @ rest)"
  obtain v where v: "cur w' = Some (?d, v)" using save_allocator_server(1) [OF hub run seen True] by blast
  have "transit_table_ok ?d" by (rule transit_table_set [OF tok ip])
  moreover have "dict_get ?d (alloc_key t) = Some (ip @ '','' @ rest)" by (simp add: update_conv')
  moreover have "ip \<in> set (split_on (CHR '','') (ip @ '','' @ rest))" using ip(2) by (simp add: split_on_append split_on_free)
  ultimately show ?thesis using v unfolding booked_def by auto
next
  case False
  then have "rely w w'" using save_allocator_server(2) [OF hub run seen] res by blast
  then show ?thesis using stableD [OF stab _ ok] False by blast
qed

lemma attach_to_server:
  assumes hub: "hub_world rely cur api g" and stab: "stable rely (tables_ok cur)" and ok: "tables_ok cur w"
    and run: "attach_to api g vpc t sn c w = (r, w')" and res: "(\<exists>x. r = Inr x) \<or> (\<exists>st. r = Inl (ApiException st))"
  shows "tables_ok cur w'" "r = Inr info \<Longrightarrow> booked cur t (av_transit_ip info) w' \<or> (\<exists>u. rely w u \<and> booked cur t (av_transit_ip info) u)"
proof -
  let ?tc = "or_nil (dict_get (gv_annotations vpc) TRANSIT_ANNOTATION)"
  have tc: "?tc \<noteq> []" using run res by (auto simp: attach_to_def)
  obtain x w1 where rd: "get_transit_allocator api g w = (x, w1)" by (cases "get_transit_allocator api g w")
  have r1: "rely w w1" by (rule get_allocator_server(1) [OF hub rd])
  have ok1: "tables_ok cur w1" by (rule stableD [OF stab r1 ok])
  note trans = transpD [OF hub_worldD(2) [OF hub]]
  have "tables_ok cur w' \<and> (r = Inr info \<longrightarrow> booked cur t (av_transit_ip info) w' \<or> (\<exists>u. rely w u \<and> booked cur t (av_transit_ip info) u))"
  proof (cases x)
    case (Inl e)
    then have "w' = w1" "\<forall>i. r \<noteq> Inr i" using run tc rd by (auto simp: attach_to_def Let_def bind_io_def)
    then show ?thesis using ok1 by simp
  next
    case (Inr dr)
    obtain data rv where x: "x = Inr (data, rv)" using Inr by (cases dr) auto
    have seen: "rv = [] \<and> data = [] \<and> cur w1 = None \<or> rv \<noteq> [] \<and> cur w1 = Some (data, rv)"
      using get_allocator_server(2) [OF hub rd x] .
    have tok: "transit_table_ok data" using seen ok1 by (auto simp: transit_table_ok_def)
    show ?thesis
    proof (cases "slot_for ?tc data t sn c")
      case (Inl e)
      then have "w' = w1" "\<forall>i. r \<noteq> Inr i" using run tc rd x by (auto simp: attach_to_def Let_def bind_io_def io_of_def)
      then show ?thesis using ok1 by simp
    next
      case (Inr sl)
      obtain fresh ip sn' c' where sl: "slot_for ?tc data t sn c = Inr (fresh, ip, sn', c')" using Inr by (cases sl) auto
      note slot = slot_for_fresh [OF sl]
      obtain y w2 where wi: "wire_vpc api g vpc ?tc t ip sn' c' w1 = (y, w2)" by (cases "wire_vpc api g vpc ?tc t ip sn' c' w1")
      have r2: "rely w1 w2" using wire_moves [OF hub] wi unfolding moves_def by blast
      have ok2: "tables_ok cur w2" by (rule stableD [OF stab r2 ok1])
      show ?thesis
      proof (cases "(\<exists>e. y = Inl e) \<or> \<not> fresh")
        case True
        then have "w' = w2" "\<And>i. r = Inr i \<Longrightarrow> av_transit_ip i = ip \<and> \<not> fresh"
          using run tc rd x sl wi by (auto simp: attach_to_def Let_def bind_io_def io_of_def split: sum.splits)
        moreover have "booked cur t ip w1" if "\<not> fresh" using slot(2) [OF that] seen by (auto simp: booked_def)
        ultimately show ?thesis using ok2 r1 by auto
      next
        case False
        have f: fresh "y = Inr ()" using False by (auto) (cases y; simp)
        obtain z w3 where sv: "save_transit_allocator api g (dict_set data (alloc_key t) (ip @ '','' @ sn' @ '','' @ c')) rv w2 = (z, w3)"
          by (cases "save_transit_allocator api g (dict_set data (alloc_key t) (ip @ '','' @ sn' @ '','' @ c')) rv w2")
        have "w3 = w'" and z: "z = Inr () \<and> (\<forall>i. r = Inr i \<longrightarrow> av_transit_ip i = ip) \<or> (\<exists>st. z = Inl (ApiException st)) \<and> (\<forall>i. r \<noteq> Inr i)"
          using run res tc rd x sl wi f sv by (auto simp: attach_to_def Let_def bind_io_def io_of_def split: sum.splits)
        then obtain st where "z = Inr () \<or> z = Inl (ApiException st)" by blast
        from book_slot [OF hub stab ok2 tok seen r2 _ _ sv this] show ?thesis using slot(1) [OF f(1)] z \<open>w3 = w'\<close> by auto
      qed
    qed
  qed
  then show "tables_ok cur w'" "r = Inr info \<Longrightarrow> booked cur t (av_transit_ip info) w' \<or> (\<exists>u. rely w u \<and> booked cur t (av_transit_ip info) u)"
    by blast+
qed

lemma bind_io_case: "m w = (x, w1) \<Longrightarrow> bind_io m f w = (case x of Inl e \<Rightarrow> (Inl e, w1) | Inr y \<Rightarrow> f y w1)"
  by (simp add: bind_io_def)

text \<open>C36. Two VPCs of a hub never get the same transit address. While other writers keep it so, an attach that
  returns, or that the server refuses at any call, leaves a table in which no two VPCs share an address and none has
  the address of the hub; and an attach that succeeds returns an address that is booked for the VPC.\<close>

theorem attach_keeps_slots:
  assumes "hub_world rely cur api g" "stable rely (tables_ok cur)" "tables_ok cur w" "g \<noteq> []"
    and "attach_tenant_to_gateway env api (Some g) t sn c w = (r, w')" "(\<exists>x. r = Inr x) \<or> (\<exists>st. r = Inl (ApiException st))"
  shows "tables_ok cur w' \<and> (\<forall>x. r = Inr x \<longrightarrow>
    (\<exists>info. x = Some info \<and> (booked cur t (av_transit_ip info) w' \<or> (\<exists>u. rely w u \<and> booked cur t (av_transit_ip info) u))))"
proof -
  let ?m = "bind_io (reject_self_attach g t) (\<lambda>_. bind_io (reject_routed_vpc env api t) (\<lambda>_. get_gateway_config api g))"
  have mv: "moves rely ?m" by (intro moving reject_moves [OF assms(1)] hub_worldD [OF assms(1)])
  have split: "attach_tenant_to_gateway env api (Some g) t sn c w
      = bind_io ?m (\<lambda>vpc. case vpc of None \<Rightarrow> raise (HTTPException 404) | Some v \<Rightarrow> bind_io (attach_to api g v t sn c) (\<lambda>info. ret (Some info))) w"
    using assms(4) by (auto simp: attach_tenant_to_gateway_def bind_io_def split: prod.splits sum.splits option.splits)
  obtain x w1 where m: "?m w = (x, w1)" by (cases "?m w")
  note run = assms(5) [unfolded split bind_io_case [where m = ?m, OF m]]
  have r1: "rely w w1" using mv m unfolding moves_def by blast
  have ok1: "tables_ok cur w1" by (rule stableD [OF assms(2) r1 assms(3)])
  note trans = transpD [OF hub_worldD(2) [OF assms(1)]]
  show ?thesis
  proof (cases "\<exists>v. x = Inr (Some v)")
    case False
    then have "w' = w1" "\<forall>i. r \<noteq> Inr i"
      using run by (auto simp: raise_def split: sum.splits option.splits)
    then show ?thesis using ok1 by simp
  next
    case True
    then obtain v where x: "x = Inr (Some v)" by blast
    obtain y w2 where at: "attach_to api g v t sn c w1 = (y, w2)" by (cases "attach_to api g v t sn c w1")
    have out: "w' = w2" "r = (case y of Inl e \<Rightarrow> Inl e | Inr i \<Rightarrow> Inr (Some i))"
      using run at by (auto simp: x bind_io_def split: sum.splits)
    then have "(\<exists>x. y = Inr x) \<or> (\<exists>st. y = Inl (ApiException st))" using assms(6) by (cases y) auto
    note done1 = attach_to_server [OF assms(1,2) ok1 at this]
    have "booked cur t (av_transit_ip i) w' \<or> (\<exists>u. rely w u \<and> booked cur t (av_transit_ip i) u)" if "y = Inr i" for i
      using done1(2) [OF that] trans [OF r1] out(1) by blast
    then show ?thesis using done1(1) out by (cases y) auto
  qed
qed

subsection \<open>A hub in memory\<close>

record hub_mem =
  hm_table :: "(string dict \<times> nat) option"
  hm_routes :: "string \<Rightarrow> egress_route list"
  hm_peers :: "string \<Rightarrow> vpc_peering list"

definition on_table :: "((string dict \<times> nat) option, 'r) io \<Rightarrow> (hub_mem, 'r) io" where
  "on_table m = (\<lambda>w. case m (hm_table w) of (r, t) \<Rightarrow> (r, w\<lparr>hm_table := t\<rparr>))"

definition hub_cur :: "hub_mem \<Rightarrow> (string dict \<times> string) option" where
  "hub_cur w = mem_cur (hm_table w)"

definition same_table :: "hub_mem \<Rightarrow> hub_mem \<Rightarrow> bool" where
  "same_table w w' \<longleftrightarrow> hm_table w' = hm_table w"

definition no_call :: "('w, 'a) io" where
  "no_call = raise (ApiException 404)"

definition mem_peerings :: "hub_mem vpc_api" where
  "mem_peerings =
     \<lparr>get_cluster_custom_object = (\<lambda>c w. (Inr \<lparr>cr_name = co_name c, cr_labels = [], cr_rv = ''1'',
        cr_spec = \<lparr>vpcPeerings = Some (hm_peers w (co_name c)), extraExternalSubnets = None, policyRoutes = None, staticRoutes = None,
          enableExternal = None, vpc_namespaces = None\<rparr>\<rparr>, w)),
      get_namespaced_custom_object = (\<lambda>_ _. no_call),
      patch_cluster_custom_object = (\<lambda>c b w. (Inr (), w\<lparr>hm_peers := (hm_peers w)(co_name c := or_nil (vp_vpcPeerings (pb_spec b)))\<rparr>)),
      patch_namespaced_custom_object = (\<lambda>_ _ _. no_call)\<rparr>"

definition mem_hub :: "gateway_vpc \<Rightarrow> hub_mem egress_api" where
  "mem_hub vpc =
     \<lparr>ea_cm = (\<lambda>g. \<lparr>read_config_map = on_table (mem_read g), create_config_map = (\<lambda>b. on_table (mem_create b)),
        replace_config_map = (\<lambda>b. on_table (mem_replace b))\<rparr>),
      ea_delete_cm = (\<lambda>_. no_call), ea_gateway_vpc = (\<lambda>_. ret vpc), ea_list_gateways = ret [vpc], ea_create_vpc = (\<lambda>_. no_call),
      ea_delete_vpc = (\<lambda>_. no_call), ea_veg = (\<lambda>_. no_call), ea_list_vegs = no_call, ea_create_veg = (\<lambda>_. no_call),
      ea_patch_pins = (\<lambda>_ _ _. no_call), ea_patch_policies = (\<lambda>_ _. no_call), ea_delete_veg = (\<lambda>_. no_call),
      ea_routes = (\<lambda>n w. (Inr (Some (hm_routes w n)), w)),
      ea_patch_routes = (\<lambda>n rs w. (Inr (), w\<lparr>hm_routes := (hm_routes w)(n := rs)\<rparr>)), ea_peerings = mem_peerings,
      ea_subnet = (\<lambda>_. no_call), ea_list_subnets = ret [], ea_labelled_subnets = (\<lambda>_. ret []), ea_create_subnet = (\<lambda>_. no_call),
      ea_delete_subnet = (\<lambda>_. no_call), ea_patch_exclude = (\<lambda>_ _. no_call), ea_create_nad = (\<lambda>_ _ _. no_call),
      ea_acls = (\<lambda>_. no_call), ea_patch_acls = (\<lambda>_ _. no_call),
      ea_b3 = \<lparr>list_ovn_eips = no_call, list_subnets = no_call, list_vpcs = no_call, list_nodes = no_call, read_node = (\<lambda>_. no_call),
        get_node_state = (\<lambda>_. no_call), get_frr = (\<lambda>_ _. no_call), create_frr = (\<lambda>_. no_call), patch_frr = (\<lambda>_ _ _. no_call)\<rparr>\<rparr>"

lemma mem_hub_world: "hub_world same_table hub_cur (mem_hub vpc) g"
proof -
  have "cm_store same_table hub_cur (read_config_map (ea_cm (mem_hub vpc) g)) (create_config_map (ea_cm (mem_hub vpc) g))
      (replace_config_map (ea_cm (mem_hub vpc) g))"
    unfolding cm_store_def
    by (auto simp: mem_hub_def on_table_def same_table_def hub_cur_def reflp_def transp_def mem_cur_def mem_read_def mem_create_def
        mem_replace_def split: option.splits if_splits)
  then show ?thesis
    by (auto simp: hub_world_def mem_hub_def moves_def same_table_def mem_peerings_def no_call_def)
qed

definition demo_gateway :: gateway_vpc where
  "demo_gateway = \<lparr>gv_name = ''egw-hub'', gv_labels = [(GATEWAY_LABEL, ''hub'')],
     gv_annotations = [(TRANSIT_ANNOTATION, ''10.255.0.0/29'')], gv_bfdPort = None\<rparr>"

definition demo_hub :: hub_mem where
  "demo_hub = \<lparr>hm_table = Some ([(''_gateway_ip'', ''10.255.0.1''), (''vpc.a'', ''10.255.0.2,a-net,10.1.0.0/24'')], 1),
     hm_routes = (\<lambda>_. [static_to ''0.0.0.0/0'' ''10.9.9.9'']), hm_peers = (\<lambda>_. [])\<rparr>"

lemma demo_transit: "parse_net4 ''10.255.0.0/29'' = Some \<lparr>net_ver = V4, net_addr = 184483840, net_len = 29\<rparr>"
  by (simp add: net_eval)

lemma demo_ips: "ipv4_str 184483841 = ''10.255.0.1''" "ipv4_str 184483842 = ''10.255.0.2''" "ipv4_str 184483843 = ''10.255.0.3''"
  "ipv4_str 184483844 = ''10.255.0.4''" "ipv4_str 184483845 = ''10.255.0.5''" "ipv4_str 184483846 = ''10.255.0.6''" "nat_str 29 = ''29''"
  by (simp_all add: ipv4_str_def str_simps)

lemma demo_hosts: "usable_hosts \<lparr>net_ver = V4, net_addr = 184483840, net_len = 29\<rparr> =
    [184483841, 184483842, 184483843, 184483844, 184483845, 184483846]"
  by (simp add: usable_hosts_def hosts_def broadcast_def block_size_def upt_rec)

lemma demo_slot: "slot_for ''10.255.0.0/29'' (fst (the (hm_table demo_hub))) ''b'' ''b-net'' ''10.2.0.0/24''
    = Inr (True, ''10.255.0.3'', ''b-net'', ''10.2.0.0/24'')"
  by (simp add: slot_for_def demo_hub_def alloc_key_def used_transit_ips_def starts_with_def slot_ip_def str_simps
      allocate_transit_ip_def demo_transit demo_hosts demo_ips)

lemma mem_reads:
  "get_gateway_config (mem_hub v) g w = (Inr (Some v), w)"
  "get_vpc_egress_gateway (mem_hub v) g w = (Inr None, w)"
  "hm_table w = Some (data, k) \<Longrightarrow> get_transit_allocator (mem_hub v) g w = (Inr (data, nat_str k), w)"
  by (simp_all add: get_gateway_config_def get_vpc_egress_gateway_def or_none_404_def on_404_def mem_hub_def catch_io_def bind_io_def
      ret_def raise_def no_call_def get_transit_allocator_def on_table_def mem_read_def)

lemma mem_route: "\<exists>w'. add_static_route (mem_hub v) n cidr hop w = (Inr (), w') \<and> hm_table w' = hm_table w"
  by (simp add: add_static_route_def on_404_def catch_io_def bind_io_def mem_hub_def Let_def ret_def)

lemma mem_peering: "\<exists>w'. ensure_vpc_peering (ea_peerings (mem_hub v)) n remote ip w = (Inr b, w') \<and> hm_table w' = hm_table w"
  if "b = True"
  using that by (auto simp: ensure_vpc_peering_def patch_vpc_conv DEFAULT_RETRIES_def numeral_eq_Suc mem_hub_def mem_peerings_def bind_io_def
      get_vpc_def ret_def split: option.splits)

lemma demo_gateway_ip: "gateway_transit_ip ''10.255.0.0/29'' = Inr ''10.255.0.1''" "transit_prefix_len ''10.255.0.0/29'' = Inr 29"
  by (simp_all add: gateway_transit_ip_def transit_prefix_len_def demo_transit demo_ips)

lemma demo_annotation: "or_nil (dict_get (gv_annotations demo_gateway) TRANSIT_ANNOTATION) = ''10.255.0.0/29''"
  by (simp add: demo_gateway_def)

lemma demo_wire: "\<exists>w'. wire_vpc (mem_hub demo_gateway) ''hub'' demo_gateway ''10.255.0.0/29'' t ip sn c w = (Inr (), w') \<and> hm_table w' = hm_table w"
proof -
  let ?a = "mem_hub demo_gateway"
  obtain w1 where 1: "ensure_vpc_peering (ea_peerings ?a) (gv_name demo_gateway) t ''10.255.0.1/29'' w = (Inr True, w1)" "hm_table w1 = hm_table w"
    using mem_peering by blast
  obtain w2 where 2: "ensure_vpc_peering (ea_peerings ?a) t (gv_name demo_gateway) (ip @ ''/29'') w1 = (Inr True, w2)" "hm_table w2 = hm_table w1"
    using mem_peering by blast
  obtain w3 where 3: "add_static_route ?a t ''0.0.0.0/0'' ''10.255.0.1'' w2 = (Inr (), w3)" "hm_table w3 = hm_table w2" using mem_route by blast
  obtain w4 where 4: "add_static_route ?a (gv_name demo_gateway) c ip w3 = (Inr (), w4)" "hm_table w4 = hm_table w3" using mem_route by blast
  have acl: "add_acl_allow_cidrs ?a sn c xs w4 = (Inr (), w4)" for xs
    by (simp add: add_acl_allow_cidrs_def or_none_404_def on_404_def catch_io_def bind_io_def mem_hub_def no_call_def raise_def ret_def)
  show ?thesis
    using 1 2 3 4 acl mem_reads(2)
    by (simp add: wire_vpc_def demo_gateway_ip demo_ips io_of_def bind_io_def update_veg_policies_def ensure_gateway_default_route_def
        internal_ips_def ret_def)
qed

lemma bind_io_io_of: "bind_io (io_of r) f w = (case r of Inl e \<Rightarrow> (Inl e, w) | Inr y \<Rightarrow> f y w)"
  by (simp add: bind_io_def io_of_def)

lemma demo_attach:
  "\<exists>info w'. attach_tenant_to_gateway (\<lambda>_. None) (mem_hub demo_gateway) (Some ''hub'') ''b'' ''b-net'' ''10.2.0.0/24'' demo_hub
      = (Inr (Some info), w') \<and> av_transit_ip info = ''10.255.0.3''"
proof -
  obtain w1 where w1: "wire_vpc (mem_hub demo_gateway) ''hub'' demo_gateway ''10.255.0.0/29'' ''b'' ''10.255.0.3'' ''b-net'' ''10.2.0.0/24'' demo_hub
      = (Inr (), w1)" "hm_table w1 = hm_table demo_hub" using demo_wire by blast
  let ?d = "dict_set (fst (the (hm_table demo_hub))) (alloc_key ''b'') (''10.255.0.3'' @ '','' @ ''b-net'' @ '','' @ ''10.2.0.0/24'')"
  have "\<exists>w2. save_transit_allocator (mem_hub demo_gateway) ''hub'' ?d (nat_str 1) w1 = (Inr (), w2)"
    using w1(2) by (simp add: save_transit_allocator_def transit_body_def mem_hub_def on_table_def mem_replace_def demo_hub_def nat_str.simps)
  then obtain w2 where sv: "save_transit_allocator (mem_hub demo_gateway) ''hub'' ?d (nat_str 1) w1 = (Inr (), w2)" by blast
  have rd: "get_transit_allocator (mem_hub demo_gateway) ''hub'' demo_hub = (Inr (fst (the (hm_table demo_hub)), nat_str 1), demo_hub)"
    by (rule mem_reads(3)) (simp add: demo_hub_def)
  let ?rd = "get_transit_allocator (mem_hub demo_gateway) ''hub''"
  let ?wi = "wire_vpc (mem_hub demo_gateway) ''hub'' demo_gateway ''10.255.0.0/29'' ''b'' ''10.255.0.3'' ''b-net'' ''10.2.0.0/24''"
  let ?sv = "save_transit_allocator (mem_hub demo_gateway) ''hub'' ?d (nat_str 1)"
  have "\<exists>info w'. attach_to (mem_hub demo_gateway) ''hub'' demo_gateway ''b'' ''b-net'' ''10.2.0.0/24'' demo_hub = (Inr info, w')
      \<and> av_transit_ip info = ''10.255.0.3''"
    unfolding attach_to_def demo_annotation Let_def
    by (simp only: bind_io_case [of ?rd, OF rd] bind_io_case [of ?wi, OF w1(1)] bind_io_case [of ?sv, OF sv] bind_io_io_of demo_slot sum.case prod.case if_True if_False
        ret_def list.distinct simp_thms not_Cons_self2) simp
  then show ?thesis
    using mem_reads(1) by (auto simp: attach_tenant_to_gateway_def reject_self_attach_def reject_routed_vpc_def b3_enabled_def border_peer_def
        vpc_gateway_def some_or_none_def getenv_def bind_io_def ret_def gw_vpc_of_def)
qed

lemma attach_keeps_slots_witness:
  "\<exists>info w'. attach_tenant_to_gateway (\<lambda>_. None) (mem_hub demo_gateway) (Some ''hub'') ''b'' ''b-net'' ''10.2.0.0/24'' demo_hub
        = (Inr (Some info), w')
     \<and> av_transit_ip info = ''10.255.0.3'' \<and> tables_ok hub_cur w'
     \<and> (booked hub_cur ''b'' ''10.255.0.3'' w' \<or> (\<exists>u. same_table demo_hub u \<and> booked hub_cur ''b'' ''10.255.0.3'' u))"
proof -
  obtain info w' where run: "attach_tenant_to_gateway (\<lambda>_. None) (mem_hub demo_gateway) (Some ''hub'') ''b'' ''b-net'' ''10.2.0.0/24'' demo_hub
      = (Inr (Some info), w')" "av_transit_ip info = ''10.255.0.3''" using demo_attach by blast
  have st: "stable same_table (tables_ok hub_cur)" by (simp add: stable_def same_table_def hub_cur_def)
  have ok: "tables_ok hub_cur demo_hub"
    by (auto simp: hub_cur_def mem_cur_def demo_hub_def transit_table_ok_def slot_ip_def starts_with_def str_simps split: if_splits)
  show ?thesis
    using attach_keeps_slots [OF mem_hub_world st ok _ run(1)] run by auto
qed

lemma allocate_transit_ip_exact_witness:
  "\<exists>ip. allocate_transit_ip ''10.255.0.0/29'' [''10.255.0.1'', ''10.255.0.2''] = Inr ip \<and> ip = ''10.255.0.3''
     \<and> ip \<notin> set [''10.255.0.1'', ''10.255.0.2'']"
proof -
  have run: "allocate_transit_ip ''10.255.0.0/29'' [''10.255.0.1'', ''10.255.0.2''] = Inr ''10.255.0.3''"
    by (simp add: allocate_transit_ip_def demo_transit demo_hosts demo_ips)
  show ?thesis
    using allocate_transit_ip_exact [OF demo_transit, of "[''10.255.0.1'', ''10.255.0.2'']"] unfolding run sum.case by blast
qed

lemma find_append: "find P (xs @ ys) = (case find P xs of None \<Rightarrow> find P ys | Some x \<Rightarrow> Some x)"
  by (induction xs) simp_all

lemma co_name_vpc: "co_name (vpc_coords n) = n"
  by (simp add: vpc_coords_def)

subsection \<open>What is left behind\<close>

text \<open>Attaching replaces the default route a VPC had; detaching takes the new one away and leaves it with none.\<close>

lemma detach_leaves_no_default:
  assumes "hm_routes w t = [static_to ''0.0.0.0/0'' own]" "own \<noteq> gw"
  shows "\<exists>w'. bind_io (add_static_route (mem_hub v) t ''0.0.0.0/0'' gw)
      (\<lambda>_. remove_static_route (mem_hub v) t ''0.0.0.0/0'' (Some gw)) w = (Inr (), w') \<and> hm_routes w' t = []"
  using assms by (simp add: add_static_route_def remove_static_route_def on_404_def or_none_404_def catch_io_def bind_io_def ret_def
      mem_hub_def static_to_def Let_def)

text \<open>The removal of a gateway looks for the default route of a tenant under the tenant's own transit address,
  where no attach puts it: the route through the gateway stays.\<close>

lemma cleanup_keeps_dead_route:
  assumes "hm_routes w t = [static_to ''0.0.0.0/0'' gw]" "slot_ip val \<noteq> gw" "slot_ip val \<noteq> []"
  shows "\<exists>w'. unpeer_tenant (mem_hub v) hub (''vpc.'' @ t, val) w = (Inr (), w') \<and> hm_routes w' t = [static_to ''0.0.0.0/0'' gw]"
proof -
  have "\<exists>w1. remove_vpc_peering (ea_peerings (mem_hub v)) t hub w = (Inr (), w1) \<and> hm_routes w1 = hm_routes w"
    by (cases "remove_peering_mutate hub \<lparr>vpcPeerings = Some (hm_peers w t), extraExternalSubnets = None, policyRoutes = None,
          staticRoutes = None, enableExternal = None, vpc_namespaces = None\<rparr>")
      (simp_all add: remove_vpc_peering_def bind_io_def ret_def patch_vpc_conv DEFAULT_RETRIES_def numeral_eq_Suc mem_hub_def mem_peerings_def
        co_name_vpc)
  then obtain w1 where w1: "remove_vpc_peering (ea_peerings (mem_hub v)) t hub w = (Inr (), w1)" "hm_routes w1 = hm_routes w" by blast
  have "remove_static_route (mem_hub v) t ''0.0.0.0/0'' (Some (slot_ip val)) w1 = (Inr (), w1)"
    using assms w1(2) by (simp add: remove_static_route_def on_404_def or_none_404_def catch_io_def bind_io_def ret_def
      mem_hub_def static_to_def Let_def)
  then show ?thesis
    using assms w1 by (simp add: unpeer_tenant_def starts_with_def swallow_def catch_io_def bind_io_def)
qed

text \<open>An attach whose entry is refused has already peered and routed the VPC with that address.\<close>

lemma beaten_attach_stays_wired:
  assumes "gv_annotations vpc = [(TRANSIT_ANNOTATION, tc)]" "tc \<noteq> []" "get_transit_allocator api g w = (Inr (data, rv), w1)"
    and "slot_for tc data t sn c = Inr (True, ip, sn', c')" "wire_vpc api g vpc tc t ip sn' c' w1 = (Inr (), w2)"
    and "save_transit_allocator api g (dict_set data (alloc_key t) (ip @ '','' @ sn' @ '','' @ c')) rv w2 = (Inl (ApiException 409), w3)"
  shows "attach_to api g vpc t sn c w = (Inl (ApiException 409), w3)"
proof -
  have "or_nil (dict_get (gv_annotations vpc) TRANSIT_ANNOTATION) = tc" using assms(1) by simp
  then show ?thesis using assms(2-6) by (simp add: attach_to_def bind_io_def io_of_def)
qed

text \<open>The address of the gateway's BFD port is not one of the transit network when that is longer than 24.\<close>

lemma bfd_outside_transit:
  assumes "parse_net4 tc = Some n" "24 < net_len n" "bfd_ip tc = Inr ip"
  shows "\<exists>a. ip = ipv4_str a \<and> a \<notin> addrs n"
proof -
  have n: "wf_net n" "net_ver n = V4" using parse_net4_wf [OF assms(1)] by simp_all
  have "(2::nat) ^ (32 - net_len n) \<le> 2 ^ 7" using assms(2) by (intro power_increasing) auto
  then have "net_addr n + 254 \<notin> addrs n" using n by (simp add: addrs_def block_size_def)
  then show ?thesis using assms by (auto simp: bfd_ip_def split: if_splits)
qed

text \<open>On a network of length 24 it is the last host address, which an attach may hand out.\<close>

lemma bfd_address_handed_out:
  assumes "parse_net4 tc = Some n" "net_len n = 24" "set used = ipv4_str ` {net_addr n + 1 ..< net_addr n + 254}"
  shows "allocate_transit_ip tc used = bfd_ip tc"
proof -
  have n: "wf_net n" "net_ver n = V4" using parse_net4_wf [OF assms(1)] by simp_all
  have hs: "usable_hosts n = [net_addr n + 1 ..< net_addr n + 255]"
    using usable_hosts_small [of n] assms(2) n(2) by (simp add: broadcast_def block_size_def add.commute)
  have low: "k < 2 ^ 32" if "k \<in> set (usable_hosts n)" for k
    using usable_hosts_bound [OF n that] wf_addrs_bound [OF n(1)] n(2) by auto
  have top: "net_addr n + 254 < 2 ^ 32" using low [of "net_addr n + 254"] unfolding hs by simp
  have "[net_addr n + 1 ..< Suc (net_addr n + 254)] = [net_addr n + 1 ..< net_addr n + 254] @ [net_addr n + 254]"
    by (rule upt_Suc_append) simp
  moreover have "Suc (net_addr n + 254) = net_addr n + 255" by simp
  ultimately have split: "[net_addr n + 1 ..< net_addr n + 255] = [net_addr n + 1 ..< net_addr n + 254] @ [net_addr n + 254]" by metis
  have "ipv4_str (net_addr n + 254) \<notin> set used"
  proof
    assume "ipv4_str (net_addr n + 254) \<in> set used"
    then obtain k where "ipv4_str (net_addr n + 254) = ipv4_str k" "k < net_addr n + 254" using assms(3) by auto
    then show False using ipv4_str_inj [of "net_addr n + 254" k] top by simp
  qed
  moreover have "find (\<lambda>h. ipv4_str h \<notin> set used \<and> h \<noteq> net_addr n + 1) [net_addr n + 1 ..< net_addr n + 254] = None"
    unfolding find_None_iff assms(3) by simp
  ultimately have "find (\<lambda>h. ipv4_str h \<notin> set used \<and> h \<noteq> net_addr n + 1) (usable_hosts n) = Some (net_addr n + 254)"
    unfolding hs split find_append by (simp del: upt_Suc)
  then show ?thesis using top unfolding allocate_transit_ip_def bfd_ip_def assms(1) option.case by simp
qed

subsection \<open>Suggested ranges\<close>

lemma subnets_apart:
  assumes "subnets n p = Some ms"
  shows "distinct ms" "a \<in> set ms \<Longrightarrow> b \<in> set ms \<Longrightarrow> a \<noteq> b \<Longrightarrow> addrs a \<inter> addrs b = {}"
proof -
  let ?s = "2 ^ (width (net_ver n) - p)"
  let ?f = "\<lambda>i. \<lparr>net_ver = net_ver n, net_addr = net_addr n + i * ?s, net_len = p\<rparr>"
  have cases: "ms = [n] \<or> ms = map ?f [0 ..< 2 ^ (p - net_len n)]" using assms by (auto simp: subnets_def split: if_splits)
  have far: "addrs (?f i) \<inter> addrs (?f j) = {}" if "i < j" for i j :: nat
  proof -
    have "(i + 1) * ?s \<le> j * ?s" using that by (intro mult_le_mono1) simp
    then have "i * ?s + ?s \<le> j * ?s" by simp
    then show ?thesis by (auto simp: addrs_def block_size_def)
  qed
  show "distinct ms" using cases by (auto simp: distinct_map inj_on_def)
  show "addrs a \<inter> addrs b = {}" if mem: "a \<in> set ms" "b \<in> set ms" and ne: "a \<noteq> b"
    using cases
  proof
    assume "ms = [n]" then show ?thesis using mem ne by simp
  next
    assume "ms = map ?f [0 ..< 2 ^ (p - net_len n)]"
    then obtain i j where ij: "a = ?f i" "b = ?f j" using mem by auto
    then consider "i < j" | "j < i" using ne by (cases i j rule: linorder_cases) auto
    then show ?thesis using far [of i j] far [of j i] ij by cases auto
  qed
qed

lemma conflict_self_only:
  assumes "subnets n p = Some ms" "wf_net n" "net_ver n = V4" "x \<in> set ms" "a \<in> set ms"
  shows "find_cidr_conflicts (net_str x) ((nm, net_str a) # existing) = [] \<longleftrightarrow> x \<noteq> a \<and> find_cidr_conflicts (net_str x) existing = []"
proof -
  have wf: "wf_net y \<and> net_ver y = V4" if "y \<in> set ms" for y using subnets_wf [OF assms(2,1) that] assms(3) by simp
  have rt: "ip_network (net_str y) = Some y" if "y \<in> set ms" for y using ip_network_net_str wf [OF that] by blast
  have "addrs x \<noteq> {}" using block_size_pos [of x] by (auto simp: addrs_def)
  then have "addrs x \<inter> addrs a = {} \<longleftrightarrow> x \<noteq> a" using subnets_apart(2) [OF assms(1,4,5)] by auto
  then show ?thesis
    using wf [OF assms(4)] wf [OF assms(5)] rt [OF assms(4)] rt [OF assms(5)]
    by (simp add: find_cidr_conflicts_Nil [OF rt [OF assms(4)]])
qed

text \<open>Once a gateway is made with the suggested pair, only its first range is a subnet: the next suggestion offers
  the transit range of that gateway as the range of another.\<close>

lemma suggestion_repeats_transit:
  assumes "ip_network pool = Some n" "net_ver n = V4" "suggest_from env pool existing = Inr (a, b)" "b \<noteq> []"
  shows "\<exists>c. suggest_from env pool ((nm, a) # existing) \<in> {Inr (b, c), Inr ([], [])}"
proof -
  obtain ms where ms: "subnets n (max (gateway_subnet_prefix env) (net_len n)) = Some ms"
    using assms(1,3) by (auto simp: suggest_from_def split: option.splits)
  let ?P = "\<lambda>es c. find_cidr_conflicts c es = []"
  obtain r where r: "filter (?P existing) (map net_str ms) = a # b # r"
    using assms(1,3,4) ms by (auto simp: suggest_from_def split: list.splits)
  have wf: "wf_net n" using assms(1) by (rule ip_network_wf)
  have rt: "ip_network (net_str y) = Some y" if "y \<in> set ms" for y
    using ip_network_net_str subnets_wf [OF wf ms that] assms(2) by simp
  have "inj_on net_str (set ms)" by (rule inj_onI) (metis rt option.inject)
  then have dist: "distinct (map net_str ms)" using subnets_apart(1) [OF ms] by (simp add: distinct_map)
  have "a \<in> set (map net_str ms)" using arg_cong [OF r, of set] by auto
  then obtain x where x: "x \<in> set ms" "a = net_str x" by auto
  have "?P ((nm, a) # existing) c \<longleftrightarrow> c \<noteq> a \<and> ?P existing c" if c: "c \<in> set (map net_str ms)" for c
  proof -
    obtain y where y: "y \<in> set ms" "c = net_str y" using c by auto
    then have "y = x \<longleftrightarrow> c = a" using rt [OF y(1)] rt [OF x(1)] x(2) by (metis option.inject)
    then show ?thesis using conflict_self_only [OF ms wf assms(2) y(1) x(1), of nm existing] unfolding x(2) y(2) by blast
  qed
  then have "filter (?P ((nm, a) # existing)) (map net_str ms) = filter (\<lambda>c. c \<noteq> a) (filter (?P existing) (map net_str ms))"
    unfolding filter_filter by (intro filter_cong) auto
  moreover have "distinct (a # b # r)" using distinct_filter [OF dist, of "?P existing"] unfolding r .
  ultimately have "filter (?P ((nm, a) # existing)) (map net_str ms) = b # r"
    unfolding r by (auto simp: filter_id_conv)
  then show ?thesis using assms(1) ms by (cases r) (simp_all add: suggest_from_def)
qed

end
