(* ===== verification/TenantScale.thy ===== *)
theory TenantScale
  imports FolderQuotaCorrect TenantCommon Operator Naming
begin

section \<open>The size of a tenant (\<open>api/v1/tenants_crud.py\<close>, \<open>api/v1/tenants_capi.py\<close>)\<close>

text \<open>
  A tenant is charged to its folder through a ResourceQuota on its own namespace, sized from the shape of its
  workers and of its control plane. The theory models that size, the writes of the quota and the resize of the
  workers, with the ceiling of the folders as checked in \<open>FolderQuota\<close>. The answer of a resize, which reads the
  tenant again, is not modelled; the random part of the name of a template is an argument.
\<close>

subsection \<open>Memory of a worker pod\<close>

definition FIXED_OVERHEAD :: int where
  "FIXED_OVERHEAD = (25 + 100 + 20 + 35 + 30 + 8 + 32) * 2 ^ 20"

definition PER_VCPU_OVERHEAD :: int where
  "PER_VCPU_OVERHEAD = 8 * 2 ^ 20"

definition PAGETABLE_DIVISOR :: int where
  "PAGETABLE_DIVISOR = 512"

definition launcher_overhead :: "int \<Rightarrow> nat \<Rightarrow> int" where
  "launcher_overhead memory vcpu = FIXED_OVERHEAD + memory div PAGETABLE_DIVISOR + PER_VCPU_OVERHEAD * int vcpu"

text \<open>\<open>int(raw * 1.25)\<close>, in floats.\<close>

definition vmi_memory_overhead :: "int \<Rightarrow> nat \<Rightarrow> int" where
  "vmi_memory_overhead memory vcpu = trunc (rnd (rnd (of_int (launcher_overhead memory vcpu)) * (5 / 4)))"

subsection \<open>Sizes of root disks\<close>

definition size_bytes :: "string \<Rightarrow> int option" where
  "size_bytes q =
     (let t = strip q
      in case find (\<lambda>(u, _). ends_with u t) STORAGE_UNITS of
           Some (u, k) \<Rightarrow> map_option (\<lambda>x. trunc (rnd (x * k))) (py_float (take (length t - length u) t))
         | None \<Rightarrow> py_int t)"

definition larger_size :: "string \<Rightarrow> string \<Rightarrow> string" where
  "larger_size a b =
     (case (size_bytes a, size_bytes b) of
        (Some av, Some bv) \<Rightarrow> if av \<ge> bv then a else b
      | _ \<Rightarrow> b)"

definition DEFAULT_TALOS_GOLDEN_SIZE :: string where
  "DEFAULT_TALOS_GOLDEN_SIZE = ''20Gi''"

subsection \<open>\<open>f\"{x:g}\"\<close>\<close>

definition strip_zeros :: "string \<Rightarrow> string" where
  "strip_zeros s = rev (dropWhile (\<lambda>c. c = CHR ''0'') (rev s))"

definition padded :: "nat \<Rightarrow> string \<Rightarrow> string" where
  "padded n s = replicate (n - length s) (CHR ''0'') @ s"

definition dotted :: "nat \<Rightarrow> string \<Rightarrow> string" where
  "dotted n ds = nat_str n @ (if strip_zeros ds = [] then [] else CHR ''.'' # strip_zeros ds)"

text \<open>Six significant digits of a number that is one at least.\<close>

definition fmt_g :: "rat \<Rightarrow> string" where
  "fmt_g x =
     (let e0 = length (nat_str (nat \<lfloor>x\<rfloor>)) - 1;
          m0 = nat (half_even (x * 10 ^ 5 / 10 ^ e0));
          (m, e) = (if m0 = 10 ^ 6 then (10 ^ 5, e0 + 1) else (m0, e0))
      in if e < 6 then dotted (m div 10 ^ (5 - e)) (padded (5 - e) (nat_str (m mod 10 ^ (5 - e))))
         else dotted (m div 10 ^ 5) (padded 5 (nat_str (m mod 10 ^ 5))) @ ''e+'' @ padded 2 (nat_str e))"

subsection \<open>What a tenant asks of its folder\<close>

record worker_shape =
  worker_count :: nat
  worker_vcpu :: nat
  worker_memory :: string
  worker_disk :: string
  control_plane_replicas :: nat
  worker_os :: string

definition CP_CPU :: rat where
  "CP_CPU = 1 / 2"

definition CP_MEMORY :: int where
  "CP_MEMORY = 1024 ^ 3"

definition surge_of :: "worker_shape \<Rightarrow> nat" where
  "surge_of s = worker_count s + 1"

definition quota_cpu :: "worker_shape \<Rightarrow> rat" where
  "quota_cpu s =
     rnd (rnd (of_nat (surge_of s * worker_vcpu s)) + rnd (of_nat (control_plane_replicas s) * CP_CPU))"

definition memory_bytes :: "string \<Rightarrow> int" where
  "memory_bytes m = trunc (or_zero (parse_quantity (Some m)))"

definition pod_memory :: "worker_shape \<Rightarrow> int" where
  "pod_memory s = memory_bytes (worker_memory s) + vmi_memory_overhead (memory_bytes (worker_memory s)) (worker_vcpu s)"

definition quota_memory :: "worker_shape \<Rightarrow> int" where
  "quota_memory s = int (surge_of s) * pod_memory s + int (control_plane_replicas s) * CP_MEMORY"

definition worker_root_size :: "worker_shape \<Rightarrow> string" where
  "worker_root_size s = larger_size (worker_disk s) DEFAULT_TALOS_GOLDEN_SIZE"

definition quota_storage :: "worker_shape \<Rightarrow> int" where
  "quota_storage s =
     (if worker_os s = ''talos''
      then trunc (rnd (rnd (of_nat (surge_of s)) * or_zero (parse_quantity (Some (worker_root_size s))))) else 0)"

fun tenant_quota :: "worker_shape \<Rightarrow> asked" where
  "tenant_quota s Cpu = Some (fmt_g (quota_cpu s))"
| "tenant_quota s Memory = Some (int_str (quota_memory s))"
| "tenant_quota s Storage = Some (int_str (quota_storage s))"

subsection \<open>Objects and calls\<close>

record worker_volume =
  wv_name :: "string option"
  wv_dataVolume :: bool
  wv_emptyDisk :: "string option"

record machine_template =
  mt_name :: string
  mt_cores :: "nat option"
  mt_guest :: "string option"
  mt_volumes :: "worker_volume list"
  mt_rest :: "string dict"

record machine_deployment =
  md_kind :: "string option"
  md_template :: string

record described_workers =
  dw_count :: "nat option"
  dw_vcpu :: "nat option"
  dw_memory :: "string option"
  dw_rest :: "string dict"

record 'w scale_api =
  sc_quota :: "'w quota_api"
  sc_folders :: "'w folders_read"
  sc_limit_range :: "string \<Rightarrow> ('w, unit) io"
  sc_md :: "string \<Rightarrow> string \<Rightarrow> ('w, machine_deployment) io"
  sc_template :: "string \<Rightarrow> string \<Rightarrow> ('w, machine_template) io"
  sc_create_template :: "string \<Rightarrow> machine_template \<Rightarrow> ('w, unit) io"
  sc_patch_md :: "string \<Rightarrow> string \<Rightarrow> nat \<Rightarrow> string option \<Rightarrow> ('w, unit) io"
  sc_cp_replicas :: "string \<Rightarrow> string \<Rightarrow> ('w, nat option) io"
  sc_described :: "string \<Rightarrow> ('w, described_workers \<times> string option) io"
  sc_patch_workers :: "string \<Rightarrow> described_workers \<Rightarrow> string option \<Rightarrow> ('w, unit) io"

record TenantScaleRequest =
  ts_worker_count :: nat
  ts_worker_vcpu :: "nat option"
  ts_worker_memory :: "string option"

definition scale_request_ok :: "TenantScaleRequest \<Rightarrow> bool" where
  "scale_request_ok s \<longleftrightarrow>
     1 \<le> ts_worker_count s \<and> ts_worker_count s \<le> 20 \<and> (case ts_worker_vcpu s of None \<Rightarrow> True | Some v \<Rightarrow> 1 \<le> v \<and> v \<le> 32)"

subsection \<open>The quota of the namespace\<close>

definition tenant_quota_body :: "string \<Rightarrow> asked \<Rightarrow> resource_quota" where
  "tenant_quota_body ns q =
     \<lparr>rq_name = ns @ ''-quota'',
      rq_hard = [(''requests.cpu'', or_nil (q Cpu)), (''requests.memory'', or_nil (q Memory)), (''requests.storage'', or_nil (q Storage))],
      rq_used = []\<rparr>"

definition ensure_tenant_limit_range :: "'w scale_api \<Rightarrow> string \<Rightarrow> ('w, unit) io" where
  "ensure_tenant_limit_range api ns =
     catch_io (sc_limit_range api ns) (\<lambda>e. if e = ApiException 409 then ret () else raise e)"

definition write_tenant_quota :: "'w scale_api \<Rightarrow> string \<Rightarrow> asked \<Rightarrow> ('w, unit) io" where
  "write_tenant_quota api ns q =
     bind_io (ensure_tenant_limit_range api ns) (\<lambda>_.
       catch_io (qa_create (sc_quota api) ns (tenant_quota_body ns q))
         (\<lambda>e. if e = ApiException 409 then qa_replace (sc_quota api) ns (tenant_quota_body ns q) else raise e))"

text \<open>A dimension that is to shrink keeps the figure of the object.\<close>

definition wider :: "asked \<Rightarrow> resource_quota \<Rightarrow> asked \<Rightarrow> asked" where
  "wider planned rq hard =
     (\<lambda>f. case (parse_quantity (hard_of rq f), parse_quantity (planned f)) of
            (Some now, Some want) \<Rightarrow> if now > want then hard_of rq f else hard f
          | _ \<Rightarrow> hard f)"

definition widen_tenant_quota :: "'w scale_api \<Rightarrow> string \<Rightarrow> asked \<Rightarrow> ('w, unit) io" where
  "widen_tenant_quota api ns planned =
     bind_io (catch_io (qa_list (sc_quota api) ns) (\<lambda>e. if is_api e then ret [] else raise e)) (\<lambda>existing.
       write_tenant_quota api ns
         (foldl (\<lambda>hard rq. wider planned rq hard) planned (filter (\<lambda>rq. rq_name rq = ns @ ''-quota'') existing)))"

subsection \<open>Planning a resize\<close>

text \<open>Reading the template, then the volumes named \<open>root\<close> and \<open>data\<close>; any exception leaves the defaults.\<close>

definition default_shape :: worker_shape where
  "default_shape = \<lparr>worker_count = 0, worker_vcpu = 2, worker_memory = ''2Gi'', worker_disk = ''20Gi'',
     control_plane_replicas = 1, worker_os = ''cloud-init''\<rparr>"

definition shape_of :: "machine_template \<Rightarrow> worker_shape" where
  "shape_of t =
     (let root = find (\<lambda>v. wv_name v = Some ''root'') (mt_volumes t);
          data = find (\<lambda>v. wv_name v = Some ''data'') (mt_volumes t);
          capacity = (case data of None \<Rightarrow> None | Some v \<Rightarrow> wv_emptyDisk v)
      in default_shape\<lparr>worker_vcpu := (case mt_cores t of Some v \<Rightarrow> if v = 0 then 2 else v | None \<Rightarrow> 2),
           worker_memory := (if truthy (mt_guest t) then the (mt_guest t) else ''2Gi''),
           worker_os := (if (case root of None \<Rightarrow> False | Some v \<Rightarrow> wv_dataVolume v) then ''talos'' else ''cloud-init''),
           worker_disk := (if truthy capacity then the capacity else ''20Gi'')\<rparr>)"

definition current_worker_shape :: "'w scale_api \<Rightarrow> string \<Rightarrow> string \<Rightarrow> string \<Rightarrow> ('w, worker_shape) io" where
  "current_worker_shape api name ns pool =
     bind_io (catch_io (bind_io (sc_md api ns pool) (\<lambda>md. bind_io (sc_template api ns (md_template md)) (\<lambda>t. ret (shape_of t))))
        (\<lambda>_. ret default_shape)) (\<lambda>shape.
     bind_io (catch_io (sc_cp_replicas api ns name) (\<lambda>_. ret None)) (\<lambda>cp.
       ret (case cp of None \<Rightarrow> shape | Some k \<Rightarrow> shape\<lparr>control_plane_replicas := (if k = 0 then 1 else k)\<rparr>)))"

definition scaled :: "worker_shape \<Rightarrow> TenantScaleRequest \<Rightarrow> worker_shape" where
  "scaled shape s =
     shape\<lparr>worker_count := ts_worker_count s,
       worker_vcpu := (case ts_worker_vcpu s of Some v \<Rightarrow> if v = 0 then worker_vcpu shape else v | None \<Rightarrow> worker_vcpu shape),
       worker_memory := (if truthy (ts_worker_memory s) then the (ts_worker_memory s) else worker_memory shape)\<rparr>"

definition folder_of_tenant :: "'w scale_api \<Rightarrow> string \<Rightarrow> ('w, string) io" where
  "folder_of_tenant api ns =
     catch_io (bind_io (qa_read_ns (sc_quota api) ns) (\<lambda>n. ret (or_nil (dict_get (or_nil (ns_labels n)) ENV_FOLDER_LABEL))))
       (\<lambda>_. ret [])"

definition plan_tenant_quota :: "'w scale_api \<Rightarrow> nat \<Rightarrow> string \<Rightarrow> string \<Rightarrow> TenantScaleRequest \<Rightarrow> ('w, asked) io" where
  "plan_tenant_quota api depth name ns s =
     bind_io (current_worker_shape api name ns (name @ ''-workers'')) (\<lambda>shape.
       let quota = tenant_quota (scaled shape s)
       in bind_io (folder_of_tenant api ns) (\<lambda>folder.
          bind_io (if folder = [] then ret ()
                   else bind_io (ensure_folders_configmap (qa_folders (sc_quota api))) (\<lambda>data.
                          assert_within_folder_quota (sc_quota api) (parse_all_folders data) depth folder quota (Some ns))) (\<lambda>_.
            ret quota)))"

subsection \<open>The resize\<close>

definition rotate_worker_template ::
  "'w scale_api \<Rightarrow> string \<Rightarrow> string \<Rightarrow> string \<Rightarrow> nat option \<Rightarrow> string option \<Rightarrow> ('w, string option) io" where
  "rotate_worker_template api suffix ns pool vcpu memory =
     bind_io (sc_md api ns pool) (\<lambda>md.
       if md_kind md \<noteq> Some ''KubevirtMachineTemplate'' then ret None
       else bind_io (sc_template api ns (md_template md)) (\<lambda>t.
         if (vcpu = None \<or> vcpu = mt_cores t) \<and> (memory = None \<or> memory = mt_guest t) then ret None
         else let new_name = pool @ ''-'' @ suffix
              in bind_io (sc_create_template api ns
                   (t\<lparr>mt_name := new_name, mt_cores := (if vcpu = None then mt_cores t else vcpu),
                      mt_guest := (if memory = None then mt_guest t else memory)\<rparr>)) (\<lambda>_. ret (Some new_name))))"

definition described_tenant :: "env_vars \<Rightarrow> 'w scale_api \<Rightarrow> string \<Rightarrow> ('w, (described_workers \<times> string option) option) io" where
  "described_tenant env api name =
     (if \<not> tenant_addons_path_enabled env then ret None
      else catch_io (bind_io (sc_described api name) (\<lambda>d. ret (Some d))) (\<lambda>e. if e = ApiException 404 then ret None else raise e))"

definition resized :: "described_workers \<Rightarrow> TenantScaleRequest \<Rightarrow> described_workers" where
  "resized d s =
     d\<lparr>dw_count := Some (ts_worker_count s),
       dw_vcpu := (case ts_worker_vcpu s of Some v \<Rightarrow> if v = 0 then dw_vcpu d else Some v | None \<Rightarrow> dw_vcpu d),
       dw_memory := (if truthy (ts_worker_memory s) then ts_worker_memory s else dw_memory d)\<rparr>"

definition write_described_workers :: "'w scale_api \<Rightarrow> string \<Rightarrow> described_workers \<Rightarrow> string option \<Rightarrow> ('w, unit) io" where
  "write_described_workers api name workers rv =
     catch_io (sc_patch_workers api name workers (if truthy rv then rv else None))
       (\<lambda>e. raise (if e = ApiException 409 then HTTPException 409 else e))"

definition resize_machines :: "'w scale_api \<Rightarrow> string \<Rightarrow> string \<Rightarrow> string \<Rightarrow> TenantScaleRequest \<Rightarrow> ('w, unit) io" where
  "resize_machines api suffix ns pool s =
     catch_io (bind_io (rotate_worker_template api suffix ns pool (ts_worker_vcpu s) (ts_worker_memory s)) (\<lambda>t.
                 sc_patch_md api ns pool (ts_worker_count s) (if truthy t then t else None)))
       (\<lambda>e. raise (case e of ApiException st \<Rightarrow> if st = 404 then HTTPException 404 else k8s_error_to_http st | _ \<Rightarrow> e))"

definition apply_resize ::
  "env_vars \<Rightarrow> 'w scale_api \<Rightarrow> string \<Rightarrow> string \<Rightarrow> string \<Rightarrow> TenantScaleRequest \<Rightarrow> asked \<Rightarrow> (described_workers \<times> string option) option \<Rightarrow> ('w, unit) io" where
  "apply_resize env api suffix name ns s planned described =
     bind_io (widen_tenant_quota api ns planned) (\<lambda>_.
     bind_io (case described of
                Some (d, rv) \<Rightarrow> write_described_workers api name (resized d s) rv
              | None \<Rightarrow> resize_machines api suffix ns (name @ ''-workers'') s) (\<lambda>_.
       write_tenant_quota api ns planned))"

definition scale_tenant ::
  "env_vars \<Rightarrow> auth_cfg \<Rightarrow> 'w scale_api \<Rightarrow> nat \<Rightarrow> string \<Rightarrow> user \<Rightarrow> string \<Rightarrow> TenantScaleRequest \<Rightarrow> ('w, unit) io" where
  "scale_tenant env cfg api depth suffix u name s =
     bind_io (require_tenant_access cfg (sc_folders api) (qa_read_ns (sc_quota api)) u name ''member'') (\<lambda>_.
     bind_io (plan_tenant_quota api depth name (tenant_ns name) s) (\<lambda>planned.
     bind_io (described_tenant env api name) (\<lambda>described.
       apply_resize env api suffix name (tenant_ns name) s planned described)))"

end
