(* ===== verification/TenantScaleCorrect.thy ===== *)
theory TenantScaleCorrect
  imports TenantScale
begin

section \<open>The size of a tenant: what the model guarantees\<close>

text \<open>
  A resize of a tenant, on every way it can end: the ceilings of the folders stay respected, and the machines are
  changed only while the quota covers the old and the new size. The room for the first replacement of a worker, by
  KubeVirt's formula; and where the quota is lowered too early, planned from defaults, or not checked at all.
\<close>

subsection \<open>The server\<close>



lemma keeps_if [frame]: "keeps obs a \<Longrightarrow> keeps obs b \<Longrightarrow> keeps obs (if c then a else b)"
  by simp

lemma keeps_option [frame]: "keeps obs a \<Longrightarrow> (\<And>x. keeps obs (f x)) \<Longrightarrow> keeps obs (case y of None \<Rightarrow> a | Some x \<Rightarrow> f x)"
  by (cases y) simp_all


lemma keeps_load_folders [frame]: "keeps id m \<Longrightarrow> keeps id (load_folders m)"
  unfolding keeps_def load_folders_def by (auto split: prod.splits sum.splits)




subsection \<open>Writing the quota\<close>






subsection \<open>A resize keeps every ceiling, and makes room first\<close>












subsection \<open>Room for a replacement\<close>





text \<open>What the launcher of a worker asks for, by the formula of KubeVirt, without the margin.\<close>

definition pod_demand :: "worker_shape \<Rightarrow> int" where
  "pod_demand s = memory_bytes (worker_memory s) + launcher_overhead (memory_bytes (worker_memory s)) (worker_vcpu s)"





subsection \<open>Quantities of the examples\<close>

lemma gi_quantities:
  "parse_quantity (Some ''2Gi'') = Some 2147483648" "parse_quantity (Some ''4Gi'') = Some 4294967296" "parse_quantity (Some ''8Gi'') = Some 8589934592"
  by (simp_all add: parse_quantity_def QUANTITY_SUFFIXES_def strip_def lstrip_def rstrip_def is_space_def ends_with_def starts_with_def
      py_float_def signed_def unsigned_float_def lower_def to_lower_def is_upper_def mantissa_def int_of_body_def isdigit_def is_digit_def
      digits_val_def digit_val_def)

lemma gi_bytes: "memory_bytes ''2Gi'' = 2147483648" "memory_bytes ''4Gi'' = 4294967296" "memory_bytes ''8Gi'' = 8589934592"
  by (simp_all add: memory_bytes_def gi_quantities or_zero_def trunc_def)

abbreviation pool_of :: "nat \<Rightarrow> string \<Rightarrow> worker_shape" where
  "pool_of c m \<equiv> default_shape\<lparr>worker_count := c, worker_memory := m, control_plane_replicas := 2\<rparr>"

lemma overhead_numbers:
  "launcher_overhead 2147483648 2 = 283115520" "launcher_overhead 4294967296 2 = 287309824" "launcher_overhead 8589934592 2 = 295698432"
  by (simp_all add: launcher_overhead_def FIXED_OVERHEAD_def PER_VCPU_OVERHEAD_def PAGETABLE_DIVISOR_def)


subsection \<open>What a resize does not do\<close>

text \<open>The quota is lowered right after the machines are asked for, while the old ones are there: two workers of 8Gi
  that are to become two of 4Gi leave no room for the first new one.\<close>

lemma shrink_leaves_no_room:
  "quota_memory (pool_of 2 ''4Gi'') < int 2 * pod_demand (pool_of 2 ''8Gi'') + pod_demand (pool_of 2 ''4Gi'') + 2 * CP_MEMORY"
  by (simp add: quota_memory_def pod_demand_def pod_memory_def default_shape_def gi_bytes overhead_numbers vmi_memory_overhead_def trunc_def
      surge_of_def)

text \<open>A template that cannot be read is taken for a small one: the quota is planned for workers of two processors and 2Gi,
  whatever their size.\<close>

lemma unread_template_plans_small:
  assumes "sc_md api ns pool w = (Inl e, w)" "sc_cp_replicas api ns name w = (Inr (Some k), w)" "k \<noteq> 0"
  shows "current_worker_shape api name ns pool w = (Inr (default_shape\<lparr>control_plane_replicas := k\<rparr>), w)"
  using assms by (simp add: current_worker_shape_def bind_io_def catch_io_def)

text \<open>A namespace that cannot be read has no folder, and no ceiling is looked at.\<close>

lemma unread_namespace_skips_ceiling:
  assumes "qa_read_ns (sc_quota api) ns w1 = (Inl e, w2)" "current_worker_shape api name ns (name @ ''-workers'') w = (Inr shape, w1)"
  shows "plan_tenant_quota api depth name ns s w = (Inr (tenant_quota (scaled shape s)), w2)"
  using assms by (simp add: plan_tenant_quota_def folder_of_tenant_def bind_io_def catch_io_def Let_def)

text \<open>A description that somebody else changed is refused with the wider quota already written.\<close>

lemma refused_resize_keeps_wider_quota:
  assumes "widen_tenant_quota api ns planned w = (Inr (), w1)"
    and "sc_patch_workers api name (resized d s) (if truthy rv then rv else None) w1 = (Inl (ApiException 409), w1)"
  shows "apply_resize env api suffix name ns s planned (Some (d, rv)) w = (Inl (HTTPException 409), w1)"
  using assms by (simp add: apply_resize_def write_described_workers_def bind_io_def catch_io_def)

subsection \<open>A tenant in memory\<close>





















end
