(* ===== verification/VpcDelete.thy ===== *)
theory VpcDelete
  imports Egress
begin

section \<open>Deleting a VPC (\<open>api/v1/vpcs.py\<close>, \<open>api/v1/ovn_gateway.py\<close>)\<close>

text \<open>
  A VPC is deleted after its subnets and NAT objects are gone, because kube-ovn finalizes these against the router
  of the VPC. The theory models the whole handler: who owns the deletion, the removal of the NAT objects, of the
  name service, of the peerings and of the subnets, and the wait. A run that does not return is \<^const>\<open>None\<close>.
\<close>

subsection \<open>Calls\<close>

record external_config =
  xc_extra :: "string list option"
  xc_routes :: "egress_route list option"

record 'w vpc_delete_api =
  vd_pair :: "'w pair_api"
  vd_network :: "string \<Rightarrow> ('w, string option) io"
  vd_delete_network :: "string \<Rightarrow> ('w, unit) io"
  vd_tracking :: "string \<Rightarrow> ('w, config_map) io"
  vd_delete_tracking :: "string \<Rightarrow> ('w, unit) io"
  vd_nat :: "string \<Rightarrow> string \<Rightarrow> ('w, string list) io"
  vd_get :: "string \<Rightarrow> string \<Rightarrow> ('w, unit) io"
  vd_delete :: "string \<Rightarrow> string \<Rightarrow> ('w, unit) io"
  vd_delete_policy :: "string \<Rightarrow> ('w, unit) io"
  vd_external :: "string \<Rightarrow> ('w, external_config) io"
  vd_patch_external :: "string \<Rightarrow> string list option \<Rightarrow> egress_route list option \<Rightarrow> bool \<Rightarrow> ('w, unit) io"

subsection \<open>The NAT gateway of a VPC\<close>

definition gw_tracking_name :: "string \<Rightarrow> string" where
  "gw_tracking_name vpc_name = ''ovn-gw-'' @ vpc_name"

definition get_gateway_tracking :: "'w vpc_delete_api \<Rightarrow> string \<Rightarrow> ('w, string dict) io" where
  "get_gateway_tracking api vpc_name =
     on_404 (bind_io (vd_tracking api (gw_tracking_name vpc_name)) (\<lambda>cm. ret (or_nil (cm_data cm)))) (ret [])"

definition list_crd_by_label :: "'w vpc_delete_api \<Rightarrow> string \<Rightarrow> string \<Rightarrow> ('w, string list) io" where
  "list_crd_by_label api plural vpc_name = on_404 (vd_nat api plural vpc_name) (ret [])"

text \<open>Every refusal is only logged.\<close>

definition delete_crd :: "'w vpc_delete_api \<Rightarrow> string \<Rightarrow> string \<Rightarrow> ('w, unit) io" where
  "delete_crd api plural name = swallow (vd_delete api plural name)"

definition remove_vpc_external_config :: "'w vpc_delete_api \<Rightarrow> string \<Rightarrow> string \<Rightarrow> ('w, unit) io" where
  "remove_vpc_external_config api vpc_name infra =
     bind_io (or_none_404 (vd_external api vpc_name)) (\<lambda>found.
       case found of
         None \<Rightarrow> ret ()
       | Some c \<Rightarrow>
           let extra = or_nil (xc_extra c);
               new_extra = (if infra \<in> set extra then Some (filter (\<lambda>s. s \<noteq> infra) extra) else None);
               routes = or_nil (xc_routes c);
               new_routes = filter (\<lambda>r. rt_cidr r \<noteq> Some ''0.0.0.0/0'') routes
           in vd_patch_external api vpc_name new_extra (if length new_routes \<noteq> length routes then Some new_routes else None)
                (or_nil new_extra = []))"

definition cleanup_ovn_gateway :: "'w vpc_delete_api \<Rightarrow> string \<Rightarrow> ('w, unit) io" where
  "cleanup_ovn_gateway api vpc_name =
     bind_io (for_each [''ovn-dnat-rules'', ''ovn-fips'', ''ovn-snat-rules'', ''ovn-eips''] (\<lambda>plural.
       bind_io (list_crd_by_label api plural vpc_name) (\<lambda>names. for_each names (delete_crd api plural)))) (\<lambda>_.
     bind_io (get_gateway_tracking api vpc_name) (\<lambda>data.
     bind_io (if or_nil (dict_get data ''external_subnet'') = [] then ret ()
              else remove_vpc_external_config api vpc_name (or_nil (dict_get data ''external_subnet''))) (\<lambda>_.
       swallow (vd_delete_tracking api (gw_tracking_name vpc_name)))))"

text \<open>The names found before the removal, per kind; a kind that cannot be listed is left out.\<close>

fun nat_names :: "'w vpc_delete_api \<Rightarrow> string \<Rightarrow> string list \<Rightarrow> ('w, (string \<times> string list) list) io" where
  "nat_names api name [] = ret []"
| "nat_names api name (plural # ps) =
     bind_io (api_default (vd_nat api plural name) []) (\<lambda>names.
     bind_io (nat_names api name ps) (\<lambda>rest. ret (if names = [] then rest else (plural, names) # rest)))"

definition release_nat :: "'w vpc_delete_api \<Rightarrow> string \<Rightarrow> ('w, (string \<times> string list) list) io" where
  "release_nat api name =
     bind_io (get_gateway_tracking api name) (\<lambda>tracking.
       if tracking = [] then ret []
       else bind_io (nat_names api name [''ovn-snat-rules'', ''ovn-fips'', ''ovn-dnat-rules'', ''ovn-eips'']) (\<lambda>nats.
            bind_io (catch_io (cleanup_ovn_gateway api name) (\<lambda>_. ret ())) (\<lambda>_. ret nats)))"

subsection \<open>Waiting\<close>

fun still_present :: "'w vpc_delete_api \<Rightarrow> string \<Rightarrow> string list \<Rightarrow> ('w, string list) io" where
  "still_present api plural [] = ret []"
| "still_present api plural (n # ns) =
     bind_io (catch_io (bind_io (vd_get api plural n) (\<lambda>_. ret True))
        (\<lambda>e. if is_api e then ret (e \<noteq> ApiException 404) else raise e)) (\<lambda>here.
     bind_io (still_present api plural ns) (\<lambda>rest. ret (if here then n # rest else rest)))"

text \<open>The entries of \<open>left\<close> that are not empty.\<close>

fun all_present :: "'w vpc_delete_api \<Rightarrow> (string \<times> string list) list \<Rightarrow> ('w, (string \<times> string list) list) io" where
  "all_present api [] = ret []"
| "all_present api ((plural, names) # ds) =
     bind_io (still_present api plural names) (\<lambda>left.
     bind_io (all_present api ds) (\<lambda>rest. ret (if left = [] then rest else (plural, left) # rest)))"

definition DELETE_DRAIN_TIMEOUT :: int where
  "DELETE_DRAIN_TIMEOUT = 45"

definition await_dependents_gone ::
  "'w vpc_delete_api \<Rightarrow> ('w, int) io \<Rightarrow> (string \<times> string list) list \<Rightarrow> ('w, (string \<times> string list) list) run" where
  "await_dependents_gone api now dependents =
     bind_run (may now) (\<lambda>t. await_loop (all_present api dependents) now (t + DELETE_DRAIN_TIMEOUT))"

definition managed_network_cascades :: "'w vpc_delete_api \<Rightarrow> string \<Rightarrow> ('w, bool option) io" where
  "managed_network_cascades api name =
     bind_io (or_none_404 (vd_network api name)) (\<lambda>found.
       ret (map_option (\<lambda>policy. policy = Some ''Delete'') found))"

fun await_managed_network_gone :: "'w vpc_delete_api \<Rightarrow> string \<Rightarrow> nat \<Rightarrow> ('w, bool) io" where
  "await_managed_network_gone api name 0 = ret False"
| "await_managed_network_gone api name (Suc n) =
     bind_io (or_none_404 (vd_network api name)) (\<lambda>found.
       if found = None then ret True else await_managed_network_gone api name n)"

subsection \<open>The handler\<close>

definition kyverno_policy_name :: "string \<Rightarrow> string" where
  "kyverno_policy_name vpc_name = ''kubevirt-ui-vpc-dns-'' @ vpc_name"

definition delete_vpc_dns_policy :: "'w vpc_delete_api \<Rightarrow> string \<Rightarrow> ('w, unit) io" where
  "delete_vpc_dns_policy api vpc_name =
     (if vpc_name = SYSTEM_VPC_NAME then ret () else swallow (vd_delete_policy api (kyverno_policy_name vpc_name)))"

definition delete_router :: "env_vars \<Rightarrow> string \<Rightarrow> 'w vpc_delete_api \<Rightarrow> string \<Rightarrow> ('w, unit) io" where
  "delete_router env pool api name =
     bind_io (catch_io (vd_delete api ''vpcs'' name) (\<lambda>e. raise (if e = ApiException 404 then HTTPException 404 else http_error e))) (\<lambda>_.
       isolation_best_effort env pool (vd_pair api))"

text \<open>The subnets, the wait, the router.\<close>

definition drain_and_delete ::
  "env_vars \<Rightarrow> string \<Rightarrow> 'w vpc_delete_api \<Rightarrow> ('w, int) io \<Rightarrow> string \<Rightarrow> (string \<times> string list) list \<Rightarrow> ('w, nat) run" where
  "drain_and_delete env pool api now name nats =
     bind_run (may (bind_io (get_vpc_subnets (pa_subnets (vd_pair api)) name) (\<lambda>(sns, _). ret (map fst sns)))) (\<lambda>names.
     bind_run (may (for_each names (delete_crd api ''subnets''))) (\<lambda>_.
     bind_run (await_dependents_gone api now ((''subnets'', names) # nats)) (\<lambda>stranded.
       if stranded \<noteq> [] then may (raise (HTTPException 409))
       else may (bind_io (delete_router env pool api name) (\<lambda>_. ret (length names))))))"

definition tear_down_vpc :: "env_vars \<Rightarrow> string \<Rightarrow> 'w vpc_delete_api \<Rightarrow> ('w, int) io \<Rightarrow> string \<Rightarrow> ('w, (nat \<times> nat) option) run" where
  "tear_down_vpc env pool api now name =
     bind_run (may (release_nat api name)) (\<lambda>nats.
     bind_run (may (swallow (vd_delete api ''vpc-dnses'' (name @ ''-dns'')))) (\<lambda>_.
     bind_run (may (delete_vpc_dns_policy api name)) (\<lambda>_.
     bind_run (may (release_peerings (vd_pair api) name)) (\<lambda>released.
     bind_run (drain_and_delete env pool api now name nats) (\<lambda>subnets.
       may (ret (Some (subnets, released))))))))"

text \<open>\<^const>\<open>None\<close> when the operator takes the network down, else the subnets and peerings that were removed.\<close>

definition delete_vpc :: "env_vars \<Rightarrow> string \<Rightarrow> 'w vpc_delete_api \<Rightarrow> ('w, int) io \<Rightarrow> string \<Rightarrow> ('w, (nat \<times> nat) option) run" where
  "delete_vpc env pool api now name =
     bind_run (may (managed_network_cascades api name)) (\<lambda>cascades.
       if cascades = None then tear_down_vpc env pool api now name
       else bind_run (may (vd_delete_network api name)) (\<lambda>_.
            if cascades = Some True then may (ret None)
            else bind_run (may (await_managed_network_gone api name 30)) (\<lambda>_. tear_down_vpc env pool api now name)))"

end
