(* ===== verification/VpcDeleteCorrect.thy ===== *)
theory VpcDeleteCorrect
  imports VpcDelete EgressCorrect
begin

section \<open>Deleting a VPC: what the model guarantees\<close>


subsection \<open>The wait\<close>






subsection \<open>The router goes last\<close>






















subsection \<open>An in-memory server\<close>

text \<open>Objects are marked by a deletion and disappear when time passes.\<close>

record teardown_mem =
  td_clock :: int
  td_objects :: "(string \<times> string \<times> bool) list"
  td_tracked :: bool

definition td_present :: "teardown_mem \<Rightarrow> string \<Rightarrow> string set" where
  "td_present w p = (fst \<circ> snd) ` set (filter (\<lambda>x. fst x = p) (td_objects w))"






definition td_rely :: "teardown_mem \<Rightarrow> teardown_mem \<Rightarrow> bool" where
  "td_rely w w' \<longleftrightarrow> td_clock w \<le> td_clock w' \<and> (\<forall>p. td_present w' p \<subseteq> td_present w p)"



lemma td_rely_orders [simp]: "reflp td_rely" "transp td_rely"
  by (auto simp: reflp_def transp_def td_rely_def)





subsection \<open>When the router goes too early\<close>

text \<open>A listing of the subnets that fails is read as a VPC without subnets: they are neither deleted nor awaited.\<close>

lemma unlisted_subnets_not_awaited:
  assumes "pa_subnets (vd_pair api) w = (Inl (ApiException c), w1)" "now w1 = (Inr t, w2)"
  shows "drain_and_delete env pool api now name [] w = Some (bind_io (delete_router env pool api name) (\<lambda>_. ret 0) w2)"
  using assms await_loop.simps [of "all_present api [(''subnets'', [])]" now "t + DELETE_DRAIN_TIMEOUT" w2]
  by (simp add: drain_and_delete_def await_dependents_gone_def get_vpc_subnets_def api_default_def bind_io_def catch_io_def
      bind_run_def may_def ret_def Let_def)

text \<open>The first request deletes the tracking ConfigMap whether or not the NAT objects are gone; the retry it asks for does
  not look for them any more.\<close>

lemma retry_forgets_nat:
  "vd_tracking api (gw_tracking_name name) w = (Inl (ApiException 404), w') \<Longrightarrow> release_nat api name w = (Inr [], w')"
  by (simp add: release_nat_def get_gateway_tracking_def on_404_def bind_io_def catch_io_def ret_def)

text \<open>The external attachment is switched off when the tracked subnet is not among the ones of the VPC, whatever others
  it has.\<close>

lemma unlisted_infra_disables_external:
  assumes "vd_external api v w = (Inr c, w')" "infra \<notin> set (or_nil (xc_extra c))"
  shows "\<exists>routes. remove_vpc_external_config api v infra w = vd_patch_external api v None routes True w'"
  using assms by (auto simp: remove_vpc_external_config_def or_none_404_def on_404_def bind_io_def catch_io_def ret_def Let_def)

end
