(* ===== verification/Spec2Isabelle.thy ===== *)
theory Spec2Isabelle
  imports Peering Allocators Naming CpVip Rbac WatchCache Transit Reconciler TenantCommon PeeringPair
    TalosCatalog TenantVpc SecurityGroups FolderQuotaCorrect EgressCorrect TenantScaleCorrect VpcDeleteCorrect
begin

text \<open>
  \<^bold>\<open>A verification library for the kubevirt-ui backend.\<close>

  The program is a FastAPI backend (\<open>src/backend/app\<close>) that manages virtual machines, VPC networks and
  tenant Kubernetes clusters through the Kubernetes API. It keeps no database: every piece of state is a
  Kubernetes object (a ConfigMap, a kube-ovn \<open>Vpc\<close> or \<open>Subnet\<close>, a RoleBinding, a HelmRelease, ...)
  that other writers change at the same time. What makes it correct is therefore how it picks names,
  addresses and ports, how it writes objects that are shared, who may do what, and how its background
  loops converge. These are the parts modelled here.

  \<^bold>\<open>Effects.\<close> A handler is a function \<open>('w, 'a) io\<close> from the world to a result (an exception or a
  value) and a new world (theory \<open>Kube\<close>). The API server is not part of the program: its calls are
  arguments, grouped in records, and the changes of other writers happen inside them. What a theorem
  relies on is a named predicate over the calls: \<open>cas_object\<close> and \<open>cm_store\<close> (a write with a stale
  resourceVersion is refused), \<open>helm_store\<close>, \<open>snat_store\<close>, \<open>listing\<close>, and so on; every
  property with such a hypothesis has a witness on an in-memory store. A raise is a value \<^term>\<open>Inl e\<close>;
  of an exception the model keeps its kind and HTTP status.

  \<^bold>\<open>Theories and sources.\<close>
  \<^item> \<open>Prelude\<close>: Python's \<open>str\<close>, \<open>int\<close> and \<open>dict\<close>, the environment, shared lemmas.
  \<^item> \<open>Ipaddress\<close>: the parts of Python's \<open>ipaddress\<close> the address plan uses (parsing, printing,
    membership, overlap, subnets, supernets), each related to the set of addresses of a network.
  \<^item> \<open>Kube\<close>: calls, exceptions, frames, and the typed objects.
  \<^item> \<open>Cas\<close> (\<open>core/cas.py\<close>): the compare-and-set loop. A reported write was computed from what it
    replaced; the loop leaves the object alone unless it reports a write.
  \<^item> \<open>Peering\<close> (\<open>core/vpc_peering.py\<close>): one side of a peering is declared or dropped, other entries
    stay; the race of a VPC created between two reads.
  \<^item> \<open>Allocators\<close> (\<open>core/allocators.py\<close>): VPC ranges and peering links are inside their pools, disjoint
    from what is in use and never handed out twice under any interleaving; refusals are exact. The locale
    \<open>conflict_retry\<close> carries the retry loop of both allocators.
  \<^item> \<open>Regex\<close>, \<open>Naming\<close> (\<open>core/naming.py\<close>, \<open>core/errors.py\<close>): slugs are DNS labels, names come
    back, the validators accept exactly the languages of their expressions.
  \<^item> \<open>CpPorts\<close> (\<open>api/v1/tenants_cp_ports.py\<close>): the port table has no port twice, issued ports are stable.
  \<^item> \<open>CpVip\<close> (\<open>api/v1/tenants_cp_vip.py\<close>, \<open>api/v1/tenants_ntp.py\<close>): the pool check is exact, the two
    Services of a tenant can share one address, waiting for it ends.
  \<^item> \<open>Access\<close> (\<open>core/groups.py\<close>, \<open>core/auth.py\<close>, \<open>core/vpc_access.py\<close>, \<open>config.py\<close>): roles are
    ordered (locales \<open>role_ladder\<close> and \<open>nested_roles\<close>), authentication fails closed, visibility of
    VPCs is exact.
  \<^item> \<open>FolderTree\<close>, \<open>Rbac\<close> (\<open>api/v1/folders.py\<close>): moves and deletes keep the tree, two racing moves
    make a cycle on which walks never return; RoleBindings converge to the access block and admit the
    users the gates admit.
  \<^item> \<open>WatchCache\<close> (\<open>core/watch_cache.py\<close>, \<open>core/vm_cache.py\<close>): a step relation of server log and cache;
    the cache is the server state at the version it has reached.
  \<^item> \<open>Announce\<close> (\<open>core/b3_announce.py\<close>): exactly the right prefixes are announced, the text does not
    depend on list order, the pass settles, the accepted peer range is the smallest one.
  \<^item> \<open>TransitRanges\<close>, \<open>Transit\<close> (\<open>core/tenant_transit.py\<close>): the deny rule covers exactly the
    allocatable addresses, the rules on the transit subnet admit just the holders of addresses, the
    contest for a source address ends with one winner.
  \<^item> \<open>TenantCommon\<close> (\<open>api/v1/tenants_common.py\<close>): the discovered cluster configuration and its cache, the
    address plan check (exact), access to one tenant, the namespace of a tenant. It composes \<open>Access\<close>.
  \<^item> \<open>Isolation\<close> (\<open>api/v1/subnet_acls.py\<close>, the isolation pass of \<open>api/v1/vpcs.py\<close>): the rules a pass
    writes drop the traffic between tenants, and a second pass writes the same rules; edits of a rule list
    touch one rule. What OVN does with a rule list is a definition over a parameter that reads match expressions.
  \<^item> \<open>PeeringPair\<close> (the peerings of \<open>api/v1/vpcs.py\<close>): both sides of a pair are written or none, and
    where the roll-back and the removal leave something behind. It composes \<open>Isolation\<close>, \<open>Operator\<close>
    and \<open>Allocators\<close>.
  \<^item> \<open>TalosCatalog\<close> (\<open>core/talos_catalog.py\<close> and its readers in \<open>api/v1/tenants_crud.py\<close> and
    \<open>api/v1/tenants_talos.py\<close>): the versions offered are the versions accepted; one image per version.
  \<^item> \<open>TenantVpc\<close> (\<open>api/v1/tenants_vpc.py\<close>, \<open>api/v1/tenants_capi.py\<close>): JSON patches of the namespaces of a
    VPC, of which a detach touches its own entries only; the wiring composes \<open>Transit\<close>.
  \<^item> \<open>SecurityGroups\<close> (\<open>api/v1/security_groups.py\<close>, \<open>models/vpc.py\<close>): rules come back as written; the groups
    of a machine.
  \<^item> \<open>Quantity\<close>, \<open>FolderQuota\<close>, \<open>FolderQuotaCorrect\<close> (\<open>api/v1/folders.py\<close>, \<open>core/storage_headroom.py\<close>):
    quantities as floats with their rounding, the quota endpoints, and that the quota of an environment is
    accepted exactly when the ceilings of the tree stay respected; where other paths overrun a ceiling.
  \<^item> \<open>TenantScale\<close>, \<open>TenantScaleCorrect\<close> (\<open>api/v1/tenants_crud.py\<close>, \<open>api/v1/tenants_capi.py\<close>): the quota a tenant is
    charged with and the resize of its workers: every ceiling stays respected however it ends, room is made before the
    machines are asked for, and where that room does not last. It composes \<open>FolderQuota\<close> and \<open>TenantCommon\<close>.
  \<^item> \<open>Egress\<close>, \<open>EgressCorrect\<close> (\<open>api/v1/egress_gateway.py\<close>, \<open>models/egress_gateway.py\<close>): gateways shared by VPCs.
    No transit address is booked twice whatever other writers do, a hub is full exactly when every address is
    held; what a refused attach, a detach and a removal leave behind. It composes \<open>Peering\<close>, \<open>Announce\<close> and \<open>Allocators\<close>.
  \<^item> \<open>VpcDelete\<close>, \<open>VpcDeleteCorrect\<close> (\<open>api/v1/vpcs.py\<close>, \<open>api/v1/ovn_gateway.py\<close>): the deletion of a VPC returns and
    takes the router last, and the two cases where it does not. It composes \<open>PeeringPair\<close>, \<open>Isolation\<close> and \<open>Egress\<close>.
  \<^item> \<open>Operator\<close> (\<open>core/operator.py\<close>): ownership switches and the disks of a managed machine.
  \<^item> \<open>Reconciler\<close> (\<open>core/tenant_reconciler.py\<close>): one pass installs every required addon of every ready
    tenant whatever else fails; the delays stay bounded. It composes \<open>Announce\<close> and \<open>Operator\<close>.

  \<^bold>\<open>Loops.\<close> A bounded retry loop recurses on its number of attempts, which is the source's. A loop over
  a list is structural. A loop that may not end is a \<^theory_text>\<open>partial_function\<close> into \<open>option\<close> whose value
  \<^const>\<open>None\<close> stands for a run that does not return: the walks over the folder tree, the waits for an
  address and for the end of a gateway. No definition takes fuel; the recursion over sub-folders takes Python's recursion limit and raises at it.

  \<^bold>\<open>Abstractions.\<close> Characters are 8 bits wide; names, labels and addresses of the Kubernetes API are
  ASCII. Log lines, sleeping and the text of messages are not modelled. The content of a JSON or YAML
  document is its value, or its parser is an argument. Clocks, \<open>uuid4\<close> and the environment are arguments;
  times are whole numbers. A field that is absent, null or empty where the code does not tell these apart
  is \<^const>\<open>None\<close>. Calls into parts of the backend that are not modelled yet (the Talos repairs the
  reconciler makes) are arguments.

  \<^bold>\<open>Not modelled.\<close> The React front end, the Go operator, charts, and the routers that mostly translate
  between requests and manifests: virtual machines, disks, images, templates, schedules, backups, BGP,
  cluster and metrics views, the pods and conditions shown of an egress gateway, the tenant create path (\<open>tenants_crud.py\<close>,
  \<open>tenants_capi.py\<close>, \<open>tenants_talos.py\<close>, \<open>tenants_storage.py\<close>), and the clients for Harbor and
  LLDAP. Next in the plan: the create path of \<open>vpcs.py\<close>, schedules and the deletion of a tenant.
\<close>

end
